(* ===== verification/Prelude.thy ===== *)
theory Prelude
  imports "HOL-Library.Word" "HOL-Library.Char_ord" "HOL-Library.List_Lexorder" "HOL-Library.Product_Lexorder"
begin

text \<open>
  What every component of the finbot model shares: Go's errors as values, keyed tables as
  association lists (the SQLite tables of \<open>store/\<close> and \<open>auth/\<close>), the loop that stops at the
  first error, and the decimal text of integers.
\<close>

named_theorems table_simps \<open>how the table operations act on lookups\<close>

subsection \<open>Integers and errors\<close>

text \<open>Go's \<open>int64\<close>; \<open>sint\<close> reads it.\<close>

type_synonym int64 = "64 word"

lemma sint_word_of_int_eq: "- (2 ^ 63) \<le> s \<Longrightarrow> s < 2 ^ 63 \<Longrightarrow> sint (word_of_int s :: int64) = s"
  by (simp add: signed_take_bit_int_eq_self sint_sbintrunc')

lemma sint_of_nat_small: "n < 2 ^ 63 \<Longrightarrow> sint (of_nat n :: int64) = int n"
  using sint_word_of_int_eq [of "int n"] by simp

text \<open>
  The error values the program compares with \<open>errors.Is\<close> or \<open>errors.As\<close>: its own sentinels and
  the ones of the libraries it calls (\<open>Lib\<close> and \<open>Fosite\<close>).
\<close>

datatype sentinel =
    ErrBudgetExhausted | ErrRateLimited | LibErrRateLimited
  | FositeErrNotFound | FositeErrInvalidatedAuthorizeCode | FositeErrInactiveToken
  | FositeErrSerializationFailure | FositeErrJTIKnown
  | ErrRevoked | ErrTooManyClients | ErrEmailUnverified | ErrNotAllowlisted
  | ErrSkipped | ErrClient | ErrServerClosed

text \<open>
  A Go error: its text, the sentinels \<open>errors.Is\<close> finds in its chain, and the \<open>RetryAfter\<close> of a
  YNAB API error in the chain (nanoseconds; \<open>None\<close> when there is none).
\<close>

datatype error = Error (err_msg: string) (err_is: "sentinel list") (err_retry: "int option")

type_synonym 'a result = "error + 'a"

definition newError :: "string \<Rightarrow> error" where
  "newError m = Error m [] None"

definition sentinelError :: "string \<Rightarrow> sentinel \<Rightarrow> error" where
  "sentinelError m s = Error m [s] None"

text \<open>\<open>fmt.Errorf("p: %w", e)\<close>.\<close>

definition wrapError :: "string \<Rightarrow> error \<Rightarrow> error" where
  "wrapError p e = Error (p @ '': '' @ err_msg e) (err_is e) (err_retry e)"

definition errors_Is :: "error \<Rightarrow> sentinel \<Rightarrow> bool" where
  "errors_Is e s = (s \<in> set (err_is e))"

lemma errors_Is_simps [simp]:
  "errors_Is (wrapError p e) s = errors_Is e s"
  "\<not> errors_Is (newError m) s"
  "errors_Is (sentinelError m s') s = (s = s')"
  by (auto simp: errors_Is_def wrapError_def newError_def sentinelError_def)

subsection \<open>Loops that return at the first error\<close>

text \<open>\<open>for i, x := range xs { if err := f(i, x); err != nil { return err } }\<close> over a state.\<close>

fun each :: "(nat \<Rightarrow> 'a \<Rightarrow> 's \<Rightarrow> 's result) \<Rightarrow> nat \<Rightarrow> 'a list \<Rightarrow> 's \<Rightarrow> 's result" where
  "each f i [] s = Inr s"
| "each f i (x # xs) s = (case f i x s of Inl e \<Rightarrow> Inl e | Inr s' \<Rightarrow> each f (Suc i) xs s')"

lemma each_invariant:
  assumes "each f i xs s = Inr s'" and "P s"
    and "\<And>i x s s'. x \<in> set xs \<Longrightarrow> f i x s = Inr s' \<Longrightarrow> P s \<Longrightarrow> P s'"
  shows "P s'"
  using assms
proof (induction xs arbitrary: i s)
  case Nil
  then show ?case by simp
next
  case (Cons x xs)
  then obtain s1 where "f i x s = Inr s1" and r: "each f (Suc i) xs s1 = Inr s'"
    by (auto split: sum.splits)
  with Cons.prems(2,3) have "P s1" by (meson list.set_intros(1))
  with Cons.IH [OF r] Cons.prems(3) show ?case by (meson list.set_intros(2))
qed

text \<open>A body that only fails or applies \<open>g\<close> makes the loop a fold.\<close>

lemma each_is_fold:
  assumes "each f i xs s = Inr s'" and "\<And>i x s s'. f i x s = Inr s' \<Longrightarrow> s' = g x s"
  shows "s' = fold g xs s"
  using assms
  by (induction xs arbitrary: i s) (auto split: sum.splits)

lemma each_total: "(\<And>i x s. f i x s = Inr (g x s)) \<Longrightarrow> each f i xs s = Inr (fold g xs s)"
  by (induction xs arbitrary: i s) simp_all

text \<open>\<open>for rows.Next() { x, err := f(row); ...; out = append(out, x) }\<close>.\<close>

fun collect :: "('a \<Rightarrow> 'b result) \<Rightarrow> 'a list \<Rightarrow> 'b list result" where
  "collect f [] = Inr []"
| "collect f (x # xs) =
     (case f x of Inl e \<Rightarrow> Inl e
      | Inr y \<Rightarrow> (case collect f xs of Inl e \<Rightarrow> Inl e | Inr ys \<Rightarrow> Inr (y # ys)))"

lemma collect_Inr_iff: "collect f xs = Inr ys \<longleftrightarrow> list_all2 (\<lambda>x y. f x = Inr y) xs ys"
proof
  show "collect f xs = Inr ys \<Longrightarrow> list_all2 (\<lambda>x y. f x = Inr y) xs ys"
    by (induction xs arbitrary: ys) (auto split: sum.splits)
  show "list_all2 (\<lambda>x y. f x = Inr y) xs ys \<Longrightarrow> collect f xs = Inr ys"
    by (induction rule: list_all2_induct) simp_all
qed

lemma collect_map: "(\<And>x. x \<in> set xs \<Longrightarrow> f x = Inr (g x)) \<Longrightarrow> collect f xs = Inr (map g xs)"
  by (induction xs) simp_all

subsection \<open>Tables keyed by their primary key\<close>

text \<open>
  A SQLite table is an association list from its primary key to the row, in rowid order: an
  insert appends, \<open>INSERT ... ON CONFLICT DO UPDATE\<close> rewrites the row in place.
\<close>

type_synonym ('k, 'v) tbl = "('k \<times> 'v) list"

fun tbl_get :: "('k, 'v) tbl \<Rightarrow> 'k \<Rightarrow> 'v option" where
  "tbl_get [] k = None"
| "tbl_get ((k', v) # t) k = (if k' = k then Some v else tbl_get t k)"

text \<open>\<open>new\<close> is the row inserted; \<open>upd old\<close> is the row after \<open>DO UPDATE SET\<close>.\<close>

fun tbl_upsert :: "'k \<Rightarrow> 'v \<Rightarrow> ('v \<Rightarrow> 'v) \<Rightarrow> ('k, 'v) tbl \<Rightarrow> ('k, 'v) tbl" where
  "tbl_upsert k new upd [] = [(k, new)]"
| "tbl_upsert k new upd ((k', v) # t) =
     (if k' = k then (k, upd v) # t else (k', v) # tbl_upsert k new upd t)"

text \<open>\<open>UPDATE ... SET ... WHERE p\<close>, and \<open>DELETE ... WHERE p\<close>.\<close>

definition tbl_update :: "('k \<Rightarrow> 'v \<Rightarrow> bool) \<Rightarrow> ('v \<Rightarrow> 'v) \<Rightarrow> ('k, 'v) tbl \<Rightarrow> ('k, 'v) tbl" where
  "tbl_update p f = map (\<lambda>(k, v). (k, if p k v then f v else v))"

definition tbl_delete :: "('k \<Rightarrow> 'v \<Rightarrow> bool) \<Rightarrow> ('k, 'v) tbl \<Rightarrow> ('k, 'v) tbl" where
  "tbl_delete p = filter (\<lambda>(k, v). \<not> p k v)"

text \<open>The number of rows a \<open>WHERE p\<close> statement touches (\<open>RowsAffected\<close>).\<close>

definition tbl_count :: "('k \<Rightarrow> 'v \<Rightarrow> bool) \<Rightarrow> ('k, 'v) tbl \<Rightarrow> nat" where
  "tbl_count p t = length (filter (\<lambda>(k, v). p k v) t)"

definition tbl_keys :: "('k, 'v) tbl \<Rightarrow> 'k list" where
  "tbl_keys = map fst"

text \<open>The primary key constraint.\<close>

definition tbl_ok :: "('k, 'v) tbl \<Rightarrow> bool" where
  "tbl_ok t = distinct (tbl_keys t)"

lemma tbl_get_upsert [table_simps]:
  "tbl_get (tbl_upsert k new upd t) k' =
     (if k' = k then Some (case tbl_get t k of None \<Rightarrow> new | Some v \<Rightarrow> upd v) else tbl_get t k')"
  by (induction t) auto

lemma tbl_get_update [table_simps]:
  "tbl_get (tbl_update p f t) k = map_option (\<lambda>v. if p k v then f v else v) (tbl_get t k)"
  by (induction t) (auto simp: tbl_update_def)

lemma tbl_get_append: "tbl_get (s @ t) k = (case tbl_get s k of None \<Rightarrow> tbl_get t k | Some v \<Rightarrow> Some v)"
  by (induction s) auto

lemma tbl_keys_simps [simp]:
  "tbl_keys [] = []" "tbl_keys (a # t) = fst a # tbl_keys t"
  by (simp_all add: tbl_keys_def)

lemma tbl_get_None_iff: "tbl_get t k = None \<longleftrightarrow> k \<notin> set (tbl_keys t)"
  by (induction t k rule: tbl_get.induct) auto

lemma tbl_get_Some_iff: "k \<in> set (tbl_keys t) \<longleftrightarrow> (\<exists>v. tbl_get t k = Some v)"
  by (metis not_None_eq tbl_get_None_iff)

lemma tbl_get_in: "tbl_get t k = Some v \<Longrightarrow> (k, v) \<in> set t"
  by (induction t) (auto split: if_splits)

lemma tbl_in_get: "tbl_ok t \<Longrightarrow> (k, v) \<in> set t \<Longrightarrow> tbl_get t k = Some v"
  by (induction t) (auto simp: tbl_ok_def tbl_keys_def rev_image_eqI)

lemma tbl_get_iff: "tbl_ok t \<Longrightarrow> tbl_get t k = Some v \<longleftrightarrow> (k, v) \<in> set t"
  by (blast intro: tbl_get_in tbl_in_get)

lemma tbl_keys_upsert:
  "set (tbl_keys (tbl_upsert k new upd t)) = insert k (set (tbl_keys t))"
  by (induction k new upd t rule: tbl_upsert.induct) auto

lemma tbl_keys_update [table_simps]: "tbl_keys (tbl_update p f t) = tbl_keys t"
  by (induction t) (auto simp: tbl_keys_def tbl_update_def)

lemma tbl_ok_upsert [intro]: "tbl_ok t \<Longrightarrow> tbl_ok (tbl_upsert k new upd t)"
proof (induction t)
  case Nil
  show ?case by (simp add: tbl_ok_def tbl_keys_def)
next
  case (Cons a t)
  obtain k' v where a: "a = (k', v)" by fastforce
  from Cons have "tbl_ok (tbl_upsert k new upd t)" by (simp add: tbl_ok_def tbl_keys_def)
  moreover have "k' \<noteq> k \<Longrightarrow> k' \<notin> set (tbl_keys (tbl_upsert k new upd t))"
    using Cons.prems by (simp add: tbl_keys_upsert) (simp add: a tbl_ok_def tbl_keys_def)
  ultimately show ?case
    using Cons.prems by (auto simp: a tbl_ok_def tbl_keys_def)
qed

lemma tbl_ok_update [intro]: "tbl_ok t \<Longrightarrow> tbl_ok (tbl_update p f t)"
  by (simp add: tbl_ok_def table_simps)

lemma tbl_ok_delete [intro]: "tbl_ok t \<Longrightarrow> tbl_ok (tbl_delete p t)"
  by (induction t) (auto simp: tbl_ok_def tbl_keys_def tbl_delete_def)

lemma tbl_ok_Nil [simp]: "tbl_ok []"
  by (simp add: tbl_ok_def tbl_keys_def)

lemma tbl_get_delete [table_simps]:
  "tbl_ok t \<Longrightarrow> tbl_get (tbl_delete p t) k =
     (case tbl_get t k of None \<Rightarrow> None | Some v \<Rightarrow> if p k v then None else Some v)"
proof (induction t)
  case Nil
  show ?case by (simp add: tbl_delete_def)
next
  case (Cons a t)
  obtain k' v where a: "a = (k', v)" by fastforce
  have ok: "tbl_ok t" and nk: "tbl_get t k' = None"
    using Cons.prems by (auto simp: a tbl_ok_def tbl_keys_def tbl_get_None_iff)
  show ?case
    using Cons.IH [OF ok] nk by (auto simp: a tbl_delete_def split: option.splits)
qed

lemma tbl_count_pos: "0 < tbl_count p t \<longleftrightarrow> (\<exists>k v. (k, v) \<in> set t \<and> p k v)"
  by (auto simp: tbl_count_def filter_empty_conv)

lemma length_tbl_delete: "length (tbl_delete p t) + tbl_count p t = length t"
  by (induction t) (auto simp: tbl_delete_def tbl_count_def)

subsection \<open>The interface of a keyed table\<close>

text \<open>
  What the mirror's clients rely on: an upsert is seen by the next lookup of its key, no other
  key changes, and the primary key stays one. The lemmas below hold for a run of upserts, which
  is how a batch of rows is written.
\<close>

locale keyed_table =
  fixes get :: "'t \<Rightarrow> 'k \<Rightarrow> 'v option"
    and upsert :: "'k \<Rightarrow> 'v \<Rightarrow> ('v \<Rightarrow> 'v) \<Rightarrow> 't \<Rightarrow> 't"
    and ok :: "'t \<Rightarrow> bool"
  assumes get_upsert: "get (upsert k new upd t) k' =
      (if k' = k then Some (case get t k of None \<Rightarrow> new | Some v \<Rightarrow> upd v) else get t k')"
    and ok_upsert: "ok t \<Longrightarrow> ok (upsert k new upd t)"
begin

lemma get_fold_other:
  "k \<notin> key ` set rs \<Longrightarrow> get (fold (\<lambda>r. upsert (key r) (new r) (upd r)) rs t) k = get t k"
  by (induction rs arbitrary: t) (auto simp: get_upsert)

lemma ok_fold: "ok t \<Longrightarrow> ok (fold (\<lambda>r. upsert (key r) (new r) (upd r)) rs t)"
  by (induction rs arbitrary: t) (auto simp: ok_upsert)

text \<open>The last row with the key decides, on top of what was there before.\<close>

lemma get_fold_last:
  assumes "key r \<notin> key ` set rs"
  shows "get (fold (\<lambda>r. upsert (key r) (new r) (upd r)) (qs @ r # rs) t) (key r) =
     Some (case get (fold (\<lambda>r. upsert (key r) (new r) (upd r)) qs t) (key r) of
             None \<Rightarrow> new r | Some v \<Rightarrow> upd r v)"
  using get_fold_other [OF assms] by (simp add: get_upsert)

lemma get_fold_dom:
  "(\<exists>v. get (fold (\<lambda>r. upsert (key r) (new r) (upd r)) rs t) k = Some v) \<longleftrightarrow>
   k \<in> key ` set rs \<or> (\<exists>v. get t k = Some v)"
  by (induction rs arbitrary: t) (auto simp: get_upsert)

text \<open>A property every written row has, and every update gives, holds of every key written.\<close>

lemma get_fold_prop:
  assumes "k \<in> key ` set rs" and "\<And>r. r \<in> set rs \<Longrightarrow> Q (new r)" and "\<And>r v. r \<in> set rs \<Longrightarrow> Q (upd r v)"
  shows "\<exists>v. get (fold (\<lambda>r. upsert (key r) (new r) (upd r)) rs t) k = Some v \<and> Q v"
  using assms
proof (induction rs arbitrary: t)
  case Nil
  then show ?case by simp
next
  case (Cons r rs)
  show ?case
  proof (cases "k \<in> key ` set rs")
    case True
    with Cons show ?thesis by simp
  next
    case False
    with Cons.prems have k: "k = key r" by simp
    show ?thesis
      using get_fold_other [OF False] Cons.prems(2,3) by (auto simp: get_upsert k split: option.splits)
  qed
qed

end

interpretation table: keyed_table tbl_get tbl_upsert tbl_ok
  by unfold_locales (auto simp: table_simps)

subsection \<open>Decimal text\<close>

definition digit :: "nat \<Rightarrow> char" where
  "digit n = char_of (48 + n)"

definition digit_val :: "char \<Rightarrow> nat option" where
  "digit_val c = (let n = of_char c :: nat in if 48 \<le> n \<and> n \<le> 57 then Some (n - 48) else None)"

lemma of_char_digit: "n < 10 \<Longrightarrow> of_char (digit n) = 48 + n"
  by (simp add: digit_def)

lemma digit_val_digit [simp]: "n < 10 \<Longrightarrow> digit_val (digit n) = Some n"
  by (simp add: digit_val_def of_char_digit)

lemma digit_val_Some: "digit_val c = Some n \<longleftrightarrow> n < 10 \<and> c = digit n"
proof
  assume "digit_val c = Some n"
  then have h: "(of_char c :: nat) = 48 + n" "n < 10"
    by (auto simp: digit_val_def Let_def split: if_splits)
  then have "c = char_of (48 + n)" by (metis char_of_char)
  with h show "n < 10 \<and> c = digit n" by (simp add: digit_def)
qed auto

lemma less_char_iff: "c < d \<longleftrightarrow> (of_char c :: nat) < of_char d"
  by (simp add: less_char_def)

lemma digit_less: "m < 10 \<Longrightarrow> n < 10 \<Longrightarrow> digit m < digit n \<longleftrightarrow> m < n"
  by (simp add: less_char_iff of_char_digit)

lemma digit_eq: "m < 10 \<Longrightarrow> n < 10 \<Longrightarrow> digit m = digit n \<longleftrightarrow> m = n"
  by (metis digit_val_digit option.inject)

text \<open>The shortest decimal (\<open>strconv.Itoa\<close>) and the fixed-width one (\<open>%0wd\<close> below \<open>10 ^ w\<close>).\<close>

fun dec :: "nat \<Rightarrow> string" where
  "dec n = (if n < 10 then [digit n] else dec (n div 10) @ [digit (n mod 10)])"

declare dec.simps [simp del]

fun fixdec :: "nat \<Rightarrow> nat \<Rightarrow> string" where
  "fixdec 0 n = []"
| "fixdec (Suc w) n = fixdec w (n div 10) @ [digit (n mod 10)]"

definition pad_dec :: "nat \<Rightarrow> nat \<Rightarrow> string" where
  "pad_dec w n = (if n < 10 ^ w then fixdec w n else dec n)"

definition dec_int :: "int \<Rightarrow> string" where
  "dec_int i = (if i < 0 then CHR ''-'' # dec (nat (- i)) else dec (nat i))"

text \<open>Reading digits, most significant first; \<open>None\<close> at any other character.\<close>

fun read_dec :: "nat \<Rightarrow> string \<Rightarrow> nat option" where
  "read_dec acc [] = Some acc"
| "read_dec acc (c # cs) =
     (case digit_val c of None \<Rightarrow> None | Some d \<Rightarrow> read_dec (10 * acc + d) cs)"

lemma read_dec_append:
  "read_dec acc (xs @ ys) = (case read_dec acc xs of None \<Rightarrow> None | Some a \<Rightarrow> read_dec a ys)"
  by (induction xs arbitrary: acc) (auto split: option.splits)

lemma length_fixdec [simp]: "length (fixdec w n) = w"
  by (induction w arbitrary: n) auto

lemma read_dec_fixdec: "n < 10 ^ w \<Longrightarrow> read_dec 0 (fixdec w n) = Some n"
proof (induction w arbitrary: n)
  case (Suc w)
  then have "n div 10 < 10 ^ w" by (simp add: less_mult_imp_div_less mult.commute)
  with Suc.IH show ?case by (simp add: read_dec_append)
qed simp

lemma read_dec_dec: "read_dec 0 (dec n) = Some n"
proof (induction n rule: dec.induct)
  case (1 n)
  then show ?case by (subst dec.simps) (auto simp: read_dec_append)
qed

lemma dec_not_Nil [simp]: "dec n \<noteq> []"
  by (subst dec.simps) simp

lemma read_dec_bound: "read_dec acc cs = Some n \<Longrightarrow> n < (acc + 1) * 10 ^ length cs"
proof (induction cs arbitrary: acc)
  case (Cons c cs)
  then obtain d where d: "d < 10" and r: "read_dec (10 * acc + d) cs = Some n"
    by (auto simp: digit_val_Some split: option.splits)
  have "n < (10 * acc + d + 1) * 10 ^ length cs" by (rule Cons.IH [OF r])
  also have "\<dots> \<le> (10 * acc + 10) * 10 ^ length cs" using d by (intro mult_le_mono1) simp
  finally show ?case by (simp add: algebra_simps)
qed simp

lemma fixdec_read_dec: "read_dec acc cs = Some n \<Longrightarrow> fixdec (length cs) n = cs"
proof (induction cs arbitrary: n rule: rev_induct)
  case (snoc c cs)
  then obtain a d where "read_dec acc cs = Some a" and d: "digit_val c = Some d" "n = 10 * a + d"
    by (auto simp: read_dec_append split: option.splits)
  with snoc.IH show ?case by (auto simp: digit_val_Some)
qed simp

subsection \<open>Lexicographic order of texts of equal width\<close>

lemma less_append_same_length:
  fixes a b c d :: "'a::linorder list"
  assumes "length a = length c"
  shows "a @ b < c @ d \<longleftrightarrow> a < c \<or> (a = c \<and> b < d)"
  using assms
proof (induction a c rule: list_induct2)
  case Nil
  show ?case by simp
next
  case (Cons x xs y ys)
  then show ?case by auto
qed

lemma radix_less:
  fixes q q' r r' k :: nat
  assumes "r < k" and "r' < k"
  shows "k * q + r < k * q' + r' \<longleftrightarrow> q < q' \<or> (q = q' \<and> r < r')"
proof -
  have less: "k * p + s < k * p' + s'" if "p < p'" and "s < k" for p p' s s'
  proof -
    have "k * p + s < k * Suc p" using that(2) by simp
    also have "\<dots> \<le> k * p'" using that(1) by (intro mult_le_mono2) simp
    finally show ?thesis by simp
  qed
  consider "q < q'" | "q = q'" | "q' < q" by linarith
  then show ?thesis
    using less [of q q' r r'] less [of q' q r' r] assms by cases auto
qed

lemma fixdec_less:
  "m < 10 ^ w \<Longrightarrow> n < 10 ^ w \<Longrightarrow> fixdec w m < fixdec w n \<longleftrightarrow> m < n"
proof (induction w arbitrary: m n)
  case (Suc w)
  then have "m div 10 < 10 ^ w" "n div 10 < 10 ^ w"
    by (simp_all add: less_mult_imp_div_less mult.commute)
  with Suc.IH have lt: "fixdec w (m div 10) < fixdec w (n div 10) \<longleftrightarrow> m div 10 < n div 10"
    and eq: "fixdec w (m div 10) = fixdec w (n div 10) \<longleftrightarrow> m div 10 = n div 10"
    using read_dec_fixdec by (auto, metis option.inject)
  have "fixdec (Suc w) m < fixdec (Suc w) n \<longleftrightarrow>
      m div 10 < n div 10 \<or> (m div 10 = n div 10 \<and> m mod 10 < n mod 10)"
    by (simp add: less_append_same_length lt eq digit_less)
  also have "\<dots> \<longleftrightarrow> m < n"
    using radix_less [of "m mod 10" 10 "n mod 10" "m div 10" "n div 10"] by simp
  finally show ?case .
qed simp

lemma fixdec_eq: "m < 10 ^ w \<Longrightarrow> n < 10 ^ w \<Longrightarrow> fixdec w m = fixdec w n \<longleftrightarrow> m = n"
  by (metis option.inject read_dec_fixdec)

end
