(* ===== verification/GoTime.thy ===== *)
theory GoTime
  imports Prelude
begin

text \<open>
  The part of Go's \<open>time\<close> package the program uses: instants, saturating differences, the civil
  calendar, the date layout \<open>2006-01-02\<close> and the fixed-width timestamp layout of
  \<open>store/mirror.go\<close> and \<open>auth/storage.go\<close>. An instant is its distance from Go's zero time
  (0001-01-01T00:00:00Z) in nanoseconds, so \<open>IsZero\<close> is \<open>t = 0\<close>; zones are left out (every
  stored time is UTC).
\<close>

type_synonym time = int
type_synonym duration = int

abbreviation "ns_second \<equiv> 1000000000 :: int"
abbreviation "ns_minute \<equiv> 60 * ns_second"
abbreviation "ns_hour \<equiv> 3600 * ns_second"
abbreviation "ns_day \<equiv> 86400 * ns_second"

definition IsZero :: "time \<Rightarrow> bool" where
  "IsZero t = (t = 0)"

text \<open>\<open>t.Sub(u)\<close> saturates at the largest and smallest \<open>Duration\<close> (an int64 of nanoseconds).\<close>

definition time_Sub :: "time \<Rightarrow> time \<Rightarrow> duration" where
  "time_Sub t u = max (- (2 ^ 63)) (min (2 ^ 63 - 1) (t - u))"

text \<open>Go's integer division truncates towards zero.\<close>

definition quot :: "int \<Rightarrow> int \<Rightarrow> int" where
  "quot a b = sgn a * sgn b * (\<bar>a\<bar> div \<bar>b\<bar>)"

lemma quot_nonneg: "0 \<le> a \<Longrightarrow> 0 < b \<Longrightarrow> quot a b = a div b"
  by (cases "a = 0") (simp_all add: quot_def)

lemma quot_nonpos: "a \<le> 0 \<Longrightarrow> 0 < b \<Longrightarrow> quot a b \<le> 0"
  by (cases "a = 0") (auto simp: quot_def intro: pos_imp_zdiv_nonneg_iff [THEN iffD2])

subsection \<open>The civil calendar\<close>

definition is_leap :: "int \<Rightarrow> bool" where
  "is_leap y = (y mod 4 = 0 \<and> (y mod 100 \<noteq> 0 \<or> y mod 400 = 0))"

text \<open>Days before year \<open>y\<close>, and before month \<open>m\<close> of it, counted from 0001-01-01.\<close>

definition days_before_year :: "int \<Rightarrow> int" where
  "days_before_year y = 365 * (y - 1) + (y - 1) div 4 - (y - 1) div 100 + (y - 1) div 400"

definition days_before_month :: "int \<Rightarrow> int \<Rightarrow> int" where
  "days_before_month y m =
     [0, 31, 59, 90, 120, 151, 181, 212, 243, 273, 304, 334, 365] ! nat (m - 1) +
     (if 2 < m \<and> is_leap y then 1 else 0)"

definition days_in_month :: "int \<Rightarrow> int \<Rightarrow> int" where
  "days_in_month y m = days_before_month y (m + 1) - days_before_month y m"

text \<open>A civil date: year, month 1..12, day 1..\<open>days_in_month\<close>.\<close>

type_synonym date = "int \<times> int \<times> int"

fun valid_date :: "date \<Rightarrow> bool" where
  "valid_date (y, m, d) = (1 \<le> m \<and> m \<le> 12 \<and> 1 \<le> d \<and> d \<le> days_in_month y m)"

fun day_number :: "date \<Rightarrow> int" where
  "day_number (y, m, d) = days_before_year y + days_before_month y m + (d - 1)"

text \<open>The inverse: the year from the mean year length, corrected by at most one.\<close>

definition year_of :: "int \<Rightarrow> int" where
  "year_of n =
     (let y = (400 * n) div 146097 + 1
      in if n < days_before_year y then y - 1
         else if days_before_year (y + 1) \<le> n then y + 1 else y)"

definition month_of :: "int \<Rightarrow> int \<Rightarrow> int" where
  "month_of y r =
     (if r < days_before_month y 2 then 1 else if r < days_before_month y 3 then 2 else
      if r < days_before_month y 4 then 3 else if r < days_before_month y 5 then 4 else
      if r < days_before_month y 6 then 5 else if r < days_before_month y 7 then 6 else
      if r < days_before_month y 8 then 7 else if r < days_before_month y 9 then 8 else
      if r < days_before_month y 10 then 9 else if r < days_before_month y 11 then 10 else
      if r < days_before_month y 12 then 11 else 12)"

definition date_of_day :: "int \<Rightarrow> date" where
  "date_of_day n =
     (let y = year_of n; r = n - days_before_year y; m = month_of y r
      in (y, m, r - days_before_month y m + 1))"

lemma div_bounds:
  fixes q k :: int
  assumes "0 < k"
  shows "k * (q div k) \<le> q" "q < k * (q div k) + k"
  using assms mult_div_mod_eq [of k q] pos_mod_bound [OF assms, of q] pos_mod_sign [OF assms, of q]
  by linarith+

lemma div_pred:
  fixes y k :: int
  assumes "0 < k"
  shows "(y - 1) div k = (if y mod k = 0 then y div k - 1 else y div k)"
proof -
  have b: "0 \<le> y mod k" "y mod k < k" and e: "y = k * (y div k) + y mod k"
    using assms by simp_all
  show ?thesis
  proof (cases "y mod k = 0")
    case True
    with e have "y - 1 = k * (y div k - 1) + (k - 1)" by (simp add: right_diff_distrib)
    with assms True show ?thesis by (simp add: int_div_pos_eq [of "y - 1" k "y div k - 1" "k - 1"])
  next
    case False
    from e have "y - 1 = k * (y div k) + (y mod k - 1)" by linarith
    with b False show ?thesis by (simp add: int_div_pos_eq [of "y - 1" k "y div k" "y mod k - 1"])
  qed
qed

lemma leap_mods:
  fixes y :: int
  shows "y mod 100 = 0 \<Longrightarrow> y mod 4 = 0" and "y mod 400 = 0 \<Longrightarrow> y mod 100 = 0"
proof -
  have "y mod 100 mod 4 = y mod 4" and "y mod 400 mod 100 = y mod 100"
    by (simp_all add: mod_mod_cancel)
  then show "y mod 100 = 0 \<Longrightarrow> y mod 4 = 0" and "y mod 400 = 0 \<Longrightarrow> y mod 100 = 0"
    by simp_all
qed

lemma year_length:
  "days_before_year (y + 1) - days_before_year y = (if is_leap y then 366 else 365)"
  by (auto simp: days_before_year_def is_leap_def div_pred dest: leap_mods)

lemma days_before_year_bounds:
  "146097 * y - 146897 \<le> 400 * days_before_year y"
  "400 * days_before_year y \<le> 146097 * y - 145697"
proof -
  define q a b c where "q = y - 1" and "a = q div 4" and "b = q div 100" and "c = q div 400"
  have "4 * a \<le> q" "q < 4 * a + 4" "100 * b \<le> q" "q < 100 * b + 100" "400 * c \<le> q" "q < 400 * c + 400"
    unfolding a_def b_def c_def by (rule div_bounds, simp)+
  moreover have "days_before_year y = 365 * q + a - b + c"
    by (simp add: days_before_year_def q_def a_def b_def c_def)
  moreover have "y = q + 1" by (simp add: q_def)
  ultimately show "146097 * y - 146897 \<le> 400 * days_before_year y"
    "400 * days_before_year y \<le> 146097 * y - 145697"
    by linarith+
qed

lemma days_before_year_mono: "y < z \<Longrightarrow> days_before_year (y + 1) \<le> days_before_year z"
proof (induction "nat (z - y - 1)" arbitrary: z)
  case 0
  then have "z = y + 1" by simp
  then show ?case by simp
next
  case (Suc n)
  then have "n = nat (z - 1 - y - 1)" "y < z - 1" by linarith+
  then have "days_before_year (y + 1) \<le> days_before_year (z - 1)" by (rule Suc.hyps(1))
  with year_length [of "z - 1"] show ?case by (auto split: if_splits)
qed

lemma year_of_bounds: "days_before_year (year_of n) \<le> n" "n < days_before_year (year_of n + 1)"
proof -
  define y where "y = (400 * n) div 146097 + 1"
  have q: "146097 * y - 146097 \<le> 400 * n" "400 * n < 146097 * y"
    using div_bounds [of 146097 "400 * n"] unfolding y_def by (simp_all add: distrib_left)
  have lo: "days_before_year (y - 1) \<le> n"
    using q days_before_year_bounds(2) [of "y - 1"] by (simp add: right_diff_distrib)
  have hi: "n < days_before_year (y + 2)"
    using q days_before_year_bounds(1) [of "y + 2"] by (simp add: distrib_left)
  have "days_before_year (year_of n) \<le> n \<and> n < days_before_year (year_of n + 1)"
    using lo hi unfolding year_of_def y_def [symmetric] Let_def by (auto simp: add.commute)
  then show "days_before_year (year_of n) \<le> n" "n < days_before_year (year_of n + 1)" by simp_all
qed

lemma year_of_unique:
  assumes "days_before_year y \<le> n" and "n < days_before_year (y + 1)"
  shows "year_of n = y"
proof (rule ccontr)
  assume "year_of n \<noteq> y"
  then consider "year_of n < y" | "y < year_of n" by linarith
  then show False
    using assms year_of_bounds [of n] days_before_year_mono [of "year_of n" y]
      days_before_year_mono [of y "year_of n"] by cases linarith+
qed

text \<open>Months, by a check of the twelve months in both kinds of year.\<close>

lemma month_cases:
  assumes "1 \<le> m" "m \<le> (12 :: int)"
  shows "m = 1 \<or> m = 2 \<or> m = 3 \<or> m = 4 \<or> m = 5 \<or> m = 6 \<or> m = 7 \<or> m = 8 \<or> m = 9
    \<or> m = 10 \<or> m = 11 \<or> m = 12"
  using assms by presburger

lemma month_of_split:
  assumes "0 \<le> r" and "r < (if is_leap y then 366 else 365)"
  shows "1 \<le> month_of y r" "month_of y r \<le> 12" "days_before_month y (month_of y r) \<le> r"
    "r < days_before_month y (month_of y r + 1)"
proof -
  have "days_before_month y 1 = 0" "days_before_month y 13 = (if is_leap y then 366 else 365)"
    by (simp_all add: days_before_month_def)
  with assms show "1 \<le> month_of y r" "month_of y r \<le> 12" "days_before_month y (month_of y r) \<le> r"
    "r < days_before_month y (month_of y r + 1)"
    by (simp_all add: month_of_def not_less)
qed

lemma month_of_unique:
  assumes "1 \<le> m" "m \<le> 12" "days_before_month y m \<le> r" "r < days_before_month y (m + 1)"
  shows "month_of y r = m"
  using month_cases [OF assms(1,2)] assms(3,4)
  by (elim disjE) (auto simp: month_of_def days_before_month_def split: if_splits)

lemma days_before_month_bounds:
  assumes "1 \<le> m" "m \<le> 12"
  shows "0 \<le> days_before_month y m"
    and "days_before_month y (m + 1) \<le> (if is_leap y then 366 else 365)"
    and "28 \<le> days_in_month y m" "days_in_month y m \<le> 31"
  using month_cases [OF assms]
  by (auto simp: days_before_month_def days_in_month_def)

lemma date_of_day_valid: "valid_date (date_of_day n)"
proof -
  have "0 \<le> n - days_before_year (year_of n)"
    "n - days_before_year (year_of n) < (if is_leap (year_of n) then 366 else 365)"
    using year_of_bounds [of n] year_length [of "year_of n"] by linarith+
  from month_of_split [OF this] show ?thesis
    by (simp add: date_of_day_def Let_def days_in_month_def)
qed

lemma day_number_date_of_day [simp]: "day_number (date_of_day n) = n"
  by (simp add: date_of_day_def Let_def)

lemma day_number_in_year:
  assumes "valid_date (y, m, d)"
  shows "days_before_year y \<le> day_number (y, m, d)" "day_number (y, m, d) < days_before_year (y + 1)"
  using assms days_before_month_bounds [of m y] year_length [of y]
  by (auto simp: days_in_month_def)

lemma date_of_day_number [simp]:
  assumes "valid_date dt"
  shows "date_of_day (day_number dt) = dt"
proof -
  obtain y m d where dt: "dt = (y, m, d)" by (cases dt) auto
  have y: "year_of (day_number dt) = y"
    using day_number_in_year assms unfolding dt by (intro year_of_unique) auto
  have "month_of y (day_number dt - days_before_year y) = m"
    using assms unfolding dt by (intro month_of_unique) (auto simp: days_in_month_def)
  with y show ?thesis by (simp add: date_of_day_def Let_def dt)
qed

subsection \<open>Dates as text\<close>

text \<open>The layout \<open>2006-01-02\<close>: a year outside 0..9999 is written longer, or with a sign.\<close>

fun format_date :: "date \<Rightarrow> string" where
  "format_date (y, m, d) =
     (if y < 0 then CHR ''-'' # pad_dec 4 (nat (- y)) else pad_dec 4 (nat y)) @
     ''-'' @ fixdec 2 (nat m) @ ''-'' @ fixdec 2 (nat d)"

text \<open>\<open>time.Parse(time.DateOnly, s)\<close>: exactly \<open>dddd-dd-dd\<close>, and a day that exists.\<close>

definition parse_date :: "string \<Rightarrow> date option" where
  "parse_date s =
     (if length s = 10 \<and> s ! 4 = CHR ''-'' \<and> s ! 7 = CHR ''-'' then
        (case (read_dec 0 (take 4 s), read_dec 0 (take 2 (drop 5 s)), read_dec 0 (drop 8 s)) of
           (Some y, Some m, Some d) \<Rightarrow>
             if valid_date (int y, int m, int d) then Some (int y, int m, int d) else None
         | _ \<Rightarrow> None)
      else None)"

definition date_time :: "date \<Rightarrow> time" where
  "date_time dt = day_number dt * ns_day"

definition four_digit :: "date \<Rightarrow> bool" where
  "four_digit dt = (0 \<le> fst dt \<and> fst dt \<le> 9999)"

lemma format_date_four_digit:
  assumes "four_digit (y, m, d)"
  shows "format_date (y, m, d) = fixdec 4 (nat y) @ ''-'' @ fixdec 2 (nat m) @ ''-'' @ fixdec 2 (nat d)"
  using assms by (auto simp: four_digit_def pad_dec_def nat_less_iff)

lemma valid_date_bounds:
  assumes "valid_date (y, m, d)"
  shows "nat m < 10 ^ 2" "nat d < 10 ^ 2" "0 \<le> m" "0 \<le> d"
  using assms days_before_month_bounds(4) [of m y] by auto

lemma parse_format_date:
  assumes "valid_date dt" and "four_digit dt"
  shows "parse_date (format_date dt) = Some dt"
proof -
  obtain y m d where dt: "dt = (y, m, d)" by (cases dt) auto
  have y: "0 \<le> y" "nat y < 10 ^ 4" using assms(2) by (auto simp: dt four_digit_def)
  note b = valid_date_bounds [OF assms(1) [unfolded dt]]
  let ?s = "fixdec 4 (nat y) @ ''-'' @ fixdec 2 (nat m) @ ''-'' @ fixdec 2 (nat d)"
  have len: "length (fixdec 4 (nat y)) = 4" "length (fixdec 2 (nat m)) = 2" "length (fixdec 2 (nat d)) = 2"
    by (rule length_fixdec)+
  have "take 4 ?s = fixdec 4 (nat y)" "take 2 (drop 5 ?s) = fixdec 2 (nat m)" "drop 8 ?s = fixdec 2 (nat d)"
    "?s ! 4 = CHR ''-''" "?s ! 7 = CHR ''-''" "length ?s = 10"
    using len by (simp_all add: nth_append del: fixdec.simps)
  then show ?thesis
    using assms y b format_date_four_digit [of y m d]
    by (simp add: parse_date_def dt read_dec_fixdec del: fixdec.simps format_date.simps)
qed

text \<open>What parses is a valid date of a four-digit year, written as itself.\<close>

lemma parse_date_Some:
  assumes "parse_date s = Some dt"
  shows "valid_date dt" "four_digit dt" "format_date dt = s"
proof -
  from assms obtain y m d where r: "read_dec 0 (take 4 s) = Some y" "read_dec 0 (take 2 (drop 5 s)) = Some m"
      "read_dec 0 (drop 8 s) = Some d"
    and dt: "dt = (int y, int m, int d)" and v: "valid_date (int y, int m, int d)"
    and l: "length s = 10" "s ! 4 = CHR ''-''" "s ! 7 = CHR ''-''"
    by (auto simp: parse_date_def split: if_splits option.splits simp del: valid_date.simps)
  show "valid_date dt" using v dt by simp
  have y: "y < 10 ^ 4" using read_dec_bound [OF r(1)] l by simp
  then show fd: "four_digit dt" by (simp add: dt four_digit_def)
  have "fixdec 4 y = take 4 s" "fixdec 2 m = take 2 (drop 5 s)" "fixdec 2 d = drop 8 s"
    using fixdec_read_dec [OF r(1)] fixdec_read_dec [OF r(2)] fixdec_read_dec [OF r(3)] l by simp_all
  moreover have "s = take 4 s @ s ! 4 # take 2 (drop 5 s) @ s ! 7 # drop 8 s"
    using l(1) by (auto simp: list_eq_iff_nth_eq nth_append nth_Cons less_Suc_eq numeral_eq_Suc split: nat.splits)
  ultimately show "format_date dt = s"
    using format_date_four_digit [of "int y" "int m" "int d"] fd l
    by (simp add: dt del: format_date.simps fixdec.simps)
qed

lemma length_format_date: "valid_date dt \<Longrightarrow> four_digit dt \<Longrightarrow> length (format_date dt) = 10"
  by (cases dt) (simp add: format_date_four_digit del: format_date.simps fixdec.simps)

lemma days_before_month_mono:
  assumes "1 \<le> m" "m < m'" "m' \<le> 12"
  shows "days_before_month y (m + 1) \<le> days_before_month y m'"
  using assms(2,3)
proof (induction "nat (m' - m - 1)" arbitrary: m')
  case 0
  then have "m' = m + 1" by simp
  then show ?case by simp
next
  case (Suc n)
  then have "n = nat (m' - 1 - m - 1)" "m < m' - 1" "m' - 1 \<le> 12" by linarith+
  then have "days_before_month y (m + 1) \<le> days_before_month y (m' - 1)" by (rule Suc.hyps(1))
  also have "\<dots> \<le> days_before_month y m'"
    using days_before_month_bounds(3) [of "m' - 1" y] assms(1) Suc.prems by (simp add: days_in_month_def)
  finally show ?case .
qed

text \<open>Chronological order is the lexicographic order of year, month and day.\<close>

lemma day_number_less:
  assumes "valid_date (y, m, d)" and "valid_date (y', m', d')"
  shows "day_number (y, m, d) < day_number (y', m', d') \<longleftrightarrow>
    y < y' \<or> (y = y' \<and> (m < m' \<or> (m = m' \<and> d < d')))"
proof -
  have less: "day_number (a, b, c) < day_number (a', b', c')"
    if "valid_date (a, b, c)" "valid_date (a', b', c')"
      "a < a' \<or> (a = a' \<and> (b < b' \<or> (b = b' \<and> c < c')))" for a b c a' b' c'
  proof (cases "a < a'")
    case True
    then show ?thesis
      using day_number_in_year(2) [OF that(1)] day_number_in_year(1) [OF that(2)]
        days_before_year_mono [OF True] by linarith
  next
    case False
    then show ?thesis
      using that days_before_month_mono [of b b' a] by (auto simp: days_in_month_def)
  qed
  have "y < y' \<or> (y = y' \<and> (m < m' \<or> (m = m' \<and> d < d'))) \<or>
      y' < y \<or> (y' = y \<and> (m' < m \<or> (m' = m \<and> d' < d))) \<or> (y', m', d') = (y, m, d)"
    by auto
  then show ?thesis
    using less [OF assms] less [OF assms(2,1)] by (auto simp del: day_number.simps)
qed

lemma format_date_less:
  assumes "valid_date dt" "four_digit dt" and "valid_date dt'" "four_digit dt'"
  shows "format_date dt < format_date dt' \<longleftrightarrow> day_number dt < day_number dt'"
proof -
  obtain y m d where dt: "dt = (y, m, d)" by (cases dt) auto
  obtain y' m' d' where dt': "dt' = (y', m', d')" by (cases dt') auto
  have b: "nat y < 10 ^ 4" "nat y' < 10 ^ 4" "0 \<le> y" "0 \<le> y'"
    using assms(2,4) by (auto simp: dt dt' four_digit_def)
  note v = valid_date_bounds [OF assms(1) [unfolded dt]] valid_date_bounds [OF assms(3) [unfolded dt']]
  have "format_date dt < format_date dt' \<longleftrightarrow>
      nat y < nat y' \<or> (nat y = nat y' \<and> (nat m < nat m' \<or> (nat m = nat m' \<and> nat d < nat d')))"
    using b v
    by (simp add: dt dt' format_date_four_digit [OF assms(2) [unfolded dt]]
        format_date_four_digit [OF assms(4) [unfolded dt']] less_append_same_length fixdec_less fixdec_eq
        del: format_date.simps fixdec.simps)
  also have "\<dots> \<longleftrightarrow> day_number dt < day_number dt'"
    unfolding dt dt' using day_number_less [OF assms(1) [unfolded dt] assms(3) [unfolded dt']] b v
    by (auto simp: nat_less_eq_zless eq_nat_nat_iff simp del: day_number.simps)
  finally show ?thesis .
qed

subsection \<open>Timestamps as text\<close>

text \<open>\<open>15:04:05.000000000Z\<close> of a time of day in nanoseconds.\<close>

definition clock_text :: "nat \<Rightarrow> string" where
  "clock_text r =
     fixdec 2 (r div 3600000000000) @ '':'' @ fixdec 2 (r div 60000000000 mod 60) @ '':'' @
     fixdec 2 (r div 1000000000 mod 60) @ ''.'' @ fixdec 9 (r mod 1000000000) @ ''Z''"

text \<open>\<open>formatTime\<close>: \<open>t.UTC().Format("2006-01-02T15:04:05.000000000Z07:00")\<close>.\<close>

definition formatTime :: "time \<Rightarrow> string" where
  "formatTime t = format_date (date_of_day (t div ns_day)) @ ''T'' @ clock_text (nat (t mod ns_day))"

text \<open>\<open>t.UTC().Format(time.RFC3339)\<close>.\<close>

definition formatRFC3339 :: "time \<Rightarrow> string" where
  "formatRFC3339 t =
     (let r = nat (t mod ns_day)
      in format_date (date_of_day (t div ns_day)) @ ''T'' @ fixdec 2 (r div 3600000000000) @ '':'' @
         fixdec 2 (r div 60000000000 mod 60) @ '':'' @ fixdec 2 (r div 1000000000 mod 60) @ ''Z'')"

definition formatTimePtr :: "time option \<Rightarrow> string option" where
  "formatTimePtr = map_option formatTime"

text \<open>A fraction is a point or comma and digits, of which the first nine count.\<close>

definition parse_frac :: "string \<Rightarrow> (nat \<times> string) option" where
  "parse_frac s =
     (case s of
        c # rest \<Rightarrow>
          if c = CHR ''.'' \<or> c = CHR '',''
          then (let ds = takeWhile (\<lambda>x. digit_val x \<noteq> None) rest; ds9 = take 9 ds
                in if ds = [] then None
                   else map_option (\<lambda>n. (n * 10 ^ (9 - length ds9), drop (length ds) rest)) (read_dec 0 ds9))
          else Some (0, s)
      | [] \<Rightarrow> Some (0, s))"

text \<open>A zone is \<open>Z\<close> or \<open>+hh:mm\<close> / \<open>-hh:mm\<close>; the result is its offset in seconds.\<close>

definition parse_zone :: "string \<Rightarrow> int option" where
  "parse_zone s =
     (if s = ''Z'' then Some 0
      else if length s = 6 \<and> (s ! 0 = CHR ''+'' \<or> s ! 0 = CHR ''-'') \<and> s ! 3 = CHR '':'' then
        (case (read_dec 0 (take 2 (drop 1 s)), read_dec 0 (drop 4 s)) of
           (Some h, Some m) \<Rightarrow>
             if h \<le> 24 \<and> m \<le> 60
             then Some ((if s ! 0 = CHR ''-'' then - 1 else 1) * (3600 * int h + 60 * int m)) else None
         | _ \<Rightarrow> None)
      else None)"

text \<open>\<open>time.Parse(time.RFC3339Nano, s)\<close> on the strict RFC 3339 form.\<close>

definition parseTime :: "string \<Rightarrow> time option" where
  "parseTime s =
     (if 19 \<le> length s \<and> s ! 10 = CHR ''T'' \<and> s ! 13 = CHR '':'' \<and> s ! 16 = CHR '':'' then
        (case (parse_date (take 10 s), read_dec 0 (take 2 (drop 11 s)),
               read_dec 0 (take 2 (drop 14 s)), read_dec 0 (take 2 (drop 17 s))) of
           (Some dt, Some h, Some mi, Some sec) \<Rightarrow>
             if h < 24 \<and> mi < 60 \<and> sec < 60 then
               (case parse_frac (drop 19 s) of
                  None \<Rightarrow> None
                | Some (ns, rest) \<Rightarrow>
                    map_option (\<lambda>off. date_time dt + (3600 * int h + 60 * int mi + int sec - off) * ns_second + int ns)
                      (parse_zone rest))
             else None
         | _ \<Rightarrow> None)
      else None)"

text \<open>The instants of the years 0 to 9999, whose text has the fixed width.\<close>

definition storable :: "time \<Rightarrow> bool" where
  "storable t = four_digit (date_of_day (t div ns_day))"

lemma storable_0: "storable 0"
  by code_simp

lemma length_clock_text: "length (clock_text r) = 19"
  by (simp add: clock_text_def del: fixdec.simps)

lemma clock_split:
  "r = 1000000000 * (60 * (60 * (r div 3600000000000) + r div 60000000000 mod 60) + r div 1000000000 mod 60)
     + r mod (1000000000 :: nat)"
proof -
  have "r div 3600000000000 = r div 60000000000 div 60" "r div 60000000000 = r div 1000000000 div 60"
    by (simp_all flip: div_mult2_eq)
  then show ?thesis
    by (metis div_mult_mod_eq mult.commute)
qed

lemma clock_text_less:
  assumes "r < 86400000000000" and "r' < 86400000000000"
  shows "clock_text r < clock_text r' \<longleftrightarrow> r < r'"
proof -
  define h m s n where "h r = r div 3600000000000" and "m r = r div 60000000000 mod 60"
    and "s r = r div 1000000000 mod 60" and "n r = r mod 1000000000" for r :: nat
  have sm: "r = 1000000000 * (60 * (60 * h r + m r) + s r) + n r" for r
    unfolding h_def m_def s_def n_def by (rule clock_split)
  have b: "m r < 60" "s r < 60" "n r < 1000000000" for r
    by (simp_all add: m_def s_def n_def)
  have hb: "h r < 10 ^ 2" "h r' < 10 ^ 2"
    using assms by (simp_all add: h_def less_mult_imp_div_less)
  have w: "m r < 10 ^ 2" "s r < 10 ^ 2" "n r < 10 ^ 9" for r
    using b [of r] by simp_all
  have "clock_text r < clock_text r' \<longleftrightarrow>
      h r < h r' \<or> (h r = h r' \<and> (m r < m r' \<or> (m r = m r' \<and>
        (s r < s r' \<or> (s r = s r' \<and> n r < n r')))))"
    using hb w [of r] w [of r']
    unfolding clock_text_def h_def [symmetric] m_def [symmetric] s_def [symmetric] n_def [symmetric]
    by (simp add: less_append_same_length fixdec_less fixdec_eq del: fixdec.simps)
  also have "\<dots> \<longleftrightarrow> r < r'"
    using radix_less [OF b(3) [of r] b(3) [of r'], of "60 * (60 * h r + m r) + s r" "60 * (60 * h r' + m r') + s r'"]
      radix_less [OF b(2) [of r] b(2) [of r'], of "60 * h r + m r" "60 * h r' + m r'"]
      radix_less [OF b(1) [of r] b(1) [of r'], of "h r" "h r'"] sm [of r] sm [of r'] b [of r] b [of r']
    by auto
  finally show ?thesis .
qed

lemma mod_day_bounds: "0 \<le> t mod ns_day" "nat (t mod ns_day) < 86400000000000"
  using pos_mod_bound [of ns_day t] pos_mod_sign [of ns_day t] by (simp_all add: nat_less_iff)

lemma time_split: "t = t div ns_day * ns_day + t mod ns_day"
  by simp

text \<open>The comment of \<open>timeLayout\<close>: comparing the stored texts orders the times.\<close>

lemma formatTime_less:
  assumes "storable t" and "storable u"
  shows "formatTime t < formatTime u \<longleftrightarrow> t < u"
proof -
  let ?d = "\<lambda>t. date_of_day (t div ns_day)" and ?r = "\<lambda>t. nat (t mod ns_day)"
  have eq: "format_date (?d t) = format_date (?d u) \<longleftrightarrow> t div ns_day = u div ns_day"
    using assms by (metis (no_types, lifting) date_of_day_valid day_number_date_of_day option.inject
        parse_format_date storable_def)
  have "formatTime t < formatTime u \<longleftrightarrow>
      t div ns_day < u div ns_day \<or> (t div ns_day = u div ns_day \<and> ?r t < ?r u)"
    using assms eq mod_day_bounds
    by (simp add: formatTime_def storable_def less_append_same_length length_format_date date_of_day_valid
        format_date_less clock_text_less del: format_date.simps)
  also have "\<dots> \<longleftrightarrow> t < u"
  proof -
    have "t div ns_day < u div ns_day \<Longrightarrow> t < u" "u div ns_day < t div ns_day \<Longrightarrow> u < t"
      by (meson leD le_less_linear zdiv_mono1 zero_less_numeral mult_pos_pos)+
    moreover have "t div ns_day = u div ns_day \<Longrightarrow> t < u \<longleftrightarrow> t mod ns_day < u mod ns_day"
      using time_split [of t] time_split [of u] by linarith
    moreover have "?r t < ?r u \<longleftrightarrow> t mod ns_day < u mod ns_day"
      by (rule nat_less_eq_zless [OF mod_day_bounds(1)])
    ultimately show ?thesis
      by (metis less_irrefl less_asym linorder_less_linear)
  qed
  finally show ?thesis .
qed

lemma formatTime_inj: "storable t \<Longrightarrow> storable u \<Longrightarrow> formatTime t = formatTime u \<longleftrightarrow> t = u"
  by (metis formatTime_less less_irrefl linorder_neqE_linordered_idom)

lemma formatTime_le: "storable t \<Longrightarrow> storable u \<Longrightarrow> formatTime t \<le> formatTime u \<longleftrightarrow> t \<le> u"
  by (metis formatTime_less linorder_not_less)

lemma takeWhile_fixdec:
  "\<not> P c \<Longrightarrow> (\<And>x. x \<in> set a \<Longrightarrow> P x) \<Longrightarrow> takeWhile P (a @ c # b) = a"
  by (induction a) auto

lemma digits_fixdec: "x \<in> set (fixdec w n) \<Longrightarrow> digit_val x \<noteq> None"
  by (induction w arbitrary: n) auto

lemma parse_frac_fixdec:
  assumes "n < 10 ^ 9"
  shows "parse_frac (''.'' @ fixdec 9 n @ ''Z'') = Some (n, ''Z'')"
proof -
  have "\<not> digit_val CHR ''Z'' \<noteq> None" by (simp add: digit_val_def)
  then have "takeWhile (\<lambda>x. digit_val x \<noteq> None) (fixdec 9 n @ ''Z'') = fixdec 9 n"
    using digits_fixdec [of _ 9 n] by (intro takeWhile_fixdec) auto
  moreover have "length (fixdec 9 n) = 9" "fixdec 9 n \<noteq> []"
    using length_fixdec [of 9 n] by (metis, metis list.size(3) zero_neq_numeral)
  ultimately show ?thesis
    using read_dec_fixdec [OF assms] by (simp add: parse_frac_def Let_def del: fixdec.simps)
qed

lemma parseTime_formatTime:
  assumes "storable t"
  shows "parseTime (formatTime t) = Some t"
proof -
  define D where "D = format_date (date_of_day (t div ns_day))"
  define r where "r = nat (t mod ns_day)"
  define h m s n where "h = r div 3600000000000" and "m = r div 60000000000 mod 60"
    and "s = r div 1000000000 mod 60" and "n = r mod 1000000000"
  have r: "r < 86400000000000" unfolding r_def by (rule mod_day_bounds)
  have b: "h < 24" "m < 60" "s < 60" "n < 10 ^ 9"
    using r by (simp_all add: h_def m_def s_def n_def less_mult_imp_div_less)
  have rr: "r = 1000000000 * (60 * (60 * h + m) + s) + n"
    unfolding h_def m_def s_def n_def by (rule clock_split)
  have D: "length D = 10" "parse_date D = Some (date_of_day (t div ns_day))"
    using assms by (simp_all add: D_def storable_def length_format_date date_of_day_valid parse_format_date
        del: format_date.simps)
  have f: "formatTime t = D @ ''T'' @ fixdec 2 h @ '':'' @ fixdec 2 m @ '':'' @ fixdec 2 s @ ''.'' @ fixdec 9 n @ ''Z''"
    by (simp add: formatTime_def clock_text_def D_def h_def m_def s_def n_def r_def del: fixdec.simps format_date.simps)
  let ?f = "D @ ''T'' @ fixdec 2 h @ '':'' @ fixdec 2 m @ '':'' @ fixdec 2 s @ ''.'' @ fixdec 9 n @ ''Z''"
  have len: "length (fixdec 2 k) = 2" for k by (rule length_fixdec)
  have "?f ! 10 = CHR ''T''" "?f ! 13 = CHR '':''" "?f ! 16 = CHR '':''" "19 \<le> length ?f"
    "take 10 ?f = D" "take 2 (drop 11 ?f) = fixdec 2 h" "take 2 (drop 14 ?f) = fixdec 2 m"
    "take 2 (drop 17 ?f) = fixdec 2 s" "drop 19 ?f = ''.'' @ fixdec 9 n @ ''Z''"
    using len D(1) by (simp_all add: nth_append del: fixdec.simps)
  moreover have "read_dec 0 (fixdec 2 h) = Some h" "read_dec 0 (fixdec 2 m) = Some m" "read_dec 0 (fixdec 2 s) = Some s"
    using b by (simp_all add: read_dec_fixdec del: fixdec.simps)
  moreover have "parse_zone ''Z'' = Some 0" by (simp add: parse_zone_def)
  moreover have "date_time (date_of_day (t div ns_day)) +
      (3600 * int h + 60 * int m + int s - 0) * ns_second + int n = t"
  proof -
    have "t mod ns_day = int r" unfolding r_def using mod_day_bounds(1) by simp
    then have "t = t div ns_day * ns_day + int r" using time_split [of t] by linarith
    then show ?thesis using rr by (simp add: date_time_def)
  qed
  ultimately show ?thesis
    unfolding f parseTime_def by (simp add: D(2) b parse_frac_fixdec [OF b(4), simplified] del: fixdec.simps)
qed

lemma formatTimePtr_simps [simp]:
  "formatTimePtr None = None" "formatTimePtr (Some t) = Some (formatTime t)"
  by (simp_all add: formatTimePtr_def)

subsection \<open>Durations as text\<close>

text \<open>\<open>Duration.String\<close>.\<close>

fun drop_zeros :: "string \<Rightarrow> string" where
  "drop_zeros s = rev (dropWhile (\<lambda>c. c = CHR ''0'') (rev s))"

definition with_frac :: "nat \<Rightarrow> nat \<Rightarrow> string" where
  "with_frac v prec =
     (let f = drop_zeros (fixdec prec (v mod 10 ^ prec))
      in dec (v div 10 ^ prec) @ (if f = [] then [] else ''.'' @ f))"

definition duration_String :: "duration \<Rightarrow> string" where
  "duration_String d =
     (let u = nat \<bar>d\<bar>; secs = u div 1000000000; sign = (if d < 0 then ''-'' else [])
      in if u = 0 then ''0s''
         else if u < 1000 then sign @ dec u @ ''ns''
         else if u < 1000000 then sign @ with_frac u 3 @ [char_of (194 :: nat), char_of (181 :: nat), CHR ''s'']
         else if u < 1000000000 then sign @ with_frac u 6 @ ''ms''
         else sign @ (if 3600 \<le> secs then dec (secs div 3600) @ ''h'' else []) @
              (if 60 \<le> secs then dec (secs div 60 mod 60) @ ''m'' else []) @
              with_frac (u mod 60000000000) 9 @ ''s'')"

end
