(* ===== verification/StoreRows.thy ===== *)
theory StoreRows
  imports GoTime
begin

text \<open>
  The mirror's row types (\<open>store/mirror.go\<close>) and its tables (\<open>store/migrations/0001_mirror.sql\<close>).
  A Go pointer field is an \<open>option\<close>, a Go \<open>map[string]int64\<close> an association list.

  Accounts and categories have fields whose column holds another type: a timestamp is stored as
  text and a loan term as JSON. Their records are polymorphic in those fields, \<open>'t\<close> for a
  timestamp and \<open>'p\<close> for a loan term, and used at two types: the Go struct and the row. The local
  columns (\<open>tax_bucket\<close>, \<open>first_seen_at\<close>) extend the record.
\<close>

type_synonym periodic = "(string \<times> int64) list"

record ('t, 'p) account_rec =
  acc_id :: string
  acc_name :: string
  acc_type :: string
  acc_on_budget :: bool
  acc_closed :: bool
  acc_note :: "string option"
  acc_balance :: int64
  acc_cleared_balance :: int64
  acc_uncleared_balance :: int64
  acc_transfer_payee_id :: "string option"
  acc_direct_import_linked :: bool
  acc_direct_import_in_error :: bool
  acc_last_reconciled_at :: "'t option"
  acc_debt_original_balance :: "int64 option"
  acc_debt_interest_rates :: "'p"
  acc_debt_minimum_payments :: "'p"
  acc_debt_escrow_amounts :: "'p"
  acc_deleted :: bool

type_synonym account = "(time, periodic) account_rec"

record account_row = "(string, string option) account_rec" +
  acc_tax_bucket :: "string option"

record category_group =
  grp_id :: string
  grp_name :: string
  grp_hidden :: bool
  grp_internal :: bool
  grp_deleted :: bool

record 't category_rec =
  cat_id :: string
  cat_category_group_id :: string
  cat_name :: string
  cat_hidden :: bool
  cat_internal :: bool
  cat_original_category_group_id :: "string option"
  cat_note :: "string option"
  cat_budgeted :: int64
  cat_activity :: int64
  cat_balance :: int64
  cat_goal_type :: "string option"
  cat_goal_needs_whole_amount :: "bool option"
  cat_goal_day :: "int64 option"
  cat_goal_cadence :: "int64 option"
  cat_goal_cadence_frequency :: "int64 option"
  cat_goal_creation_month :: "string option"
  cat_goal_target :: "int64 option"
  cat_goal_target_month :: "string option"
  cat_goal_target_date :: "string option"
  cat_goal_percentage_complete :: "int64 option"
  cat_goal_months_to_budget :: "int64 option"
  cat_goal_under_funded :: "int64 option"
  cat_goal_overall_funded :: "int64 option"
  cat_goal_overall_left :: "int64 option"
  cat_goal_snoozed_at :: "'t option"
  cat_deleted :: bool

type_synonym category = "time category_rec"
type_synonym category_row = "string category_rec"

record payee =
  pay_id :: string
  pay_name :: string
  pay_transfer_account_id :: "string option"
  pay_deleted :: bool

record transaction =
  tx_id :: string
  tx_date :: string
  tx_amount :: int64
  tx_memo :: "string option"
  tx_cleared :: string
  tx_approved :: bool
  tx_flag_color :: "string option"
  tx_flag_name :: "string option"
  tx_account_id :: string
  tx_payee_id :: "string option"
  tx_category_id :: "string option"
  tx_transfer_account_id :: "string option"
  tx_transfer_transaction_id :: "string option"
  tx_matched_transaction_id :: "string option"
  tx_import_id :: "string option"
  tx_import_payee_name :: "string option"
  tx_import_payee_name_original :: "string option"
  tx_debt_transaction_type :: "string option"
  tx_deleted :: bool

record transaction_row = transaction +
  tx_first_seen_at :: string

record subtransaction =
  sub_id :: string
  sub_transaction_id :: string
  sub_amount :: int64
  sub_memo :: "string option"
  sub_payee_id :: "string option"
  sub_category_id :: "string option"
  sub_transfer_account_id :: "string option"
  sub_transfer_transaction_id :: "string option"
  sub_deleted :: bool

record month =
  mon_month :: string
  mon_note :: "string option"
  mon_income :: int64
  mon_budgeted :: int64
  mon_activity :: int64
  mon_to_be_budgeted :: int64
  mon_age_of_money :: "int64 option"
  mon_deleted :: bool

record month_category =
  mc_month :: string
  mc_category_id :: string
  mc_budgeted :: int64
  mc_activity :: int64
  mc_balance :: int64
  mc_goal_target :: "int64 option"
  mc_goal_under_funded :: "int64 option"
  mc_goal_overall_funded :: "int64 option"
  mc_goal_overall_left :: "int64 option"
  mc_goal_percentage_complete :: "int64 option"
  mc_deleted :: bool

record scheduled_transaction =
  sch_id :: string
  sch_date_first :: string
  sch_date_next :: string
  sch_frequency :: string
  sch_amount :: int64
  sch_memo :: "string option"
  sch_flag_color :: "string option"
  sch_flag_name :: "string option"
  sch_account_id :: string
  sch_payee_id :: "string option"
  sch_category_id :: "string option"
  sch_transfer_account_id :: "string option"
  sch_deleted :: bool

record scheduled_subtransaction =
  ssub_id :: string
  ssub_scheduled_transaction_id :: string
  ssub_amount :: int64
  ssub_memo :: "string option"
  ssub_payee_id :: "string option"
  ssub_category_id :: "string option"
  ssub_transfer_account_id :: "string option"
  ssub_deleted :: bool

text \<open>The delta cursor of one plan, as the Go struct and as its row.\<close>

record sync_state =
  ss_plan_id :: string
  ss_server_knowledge :: int64
  ss_synced_at :: time

record sync_row =
  sr_server_knowledge :: int64
  sr_synced_at :: string

text \<open>The stored archived-plan scan (\<open>store/planscan.go\<close>) and the row of the Slack message (\<open>store/status.go\<close>).\<close>

record plan_scan_row =
  ps_name :: string
  ps_has_discretionary :: "bool option"
  ps_scan_error :: "string option"
  ps_scanned_at :: string

record status_row =
  st_channel_id :: "string option"
  st_ts :: "string option"
  st_backup_at :: "string option"
  st_backup_ok :: "bool option"
  st_post_attempt_at :: "string option"

text \<open>Keys: \<open>(plan_id, id)\<close>, and \<open>(plan_id, month, category_id)\<close> for month categories.\<close>

type_synonym key = "string \<times> string"

record db =
  accounts :: "(key, account_row) tbl"
  category_groups :: "(key, category_group) tbl"
  categories :: "(key, category_row) tbl"
  payees :: "(key, payee) tbl"
  transactions :: "(key, transaction_row) tbl"
  subtransactions :: "(key, subtransaction) tbl"
  months :: "(key, month) tbl"
  month_categories :: "(string \<times> string \<times> string, month_category) tbl"
  scheduled_transactions :: "(key, scheduled_transaction) tbl"
  scheduled_subtransactions :: "(key, scheduled_subtransaction) tbl"
  sync_states :: "(string, sync_row) tbl"
  plan_scans :: "(string, plan_scan_row) tbl"
  status_message :: "status_row option"

definition empty_db :: db where
  "empty_db = \<lparr>accounts = [], category_groups = [], categories = [], payees = [], transactions = [],
     subtransactions = [], months = [], month_categories = [], scheduled_transactions = [],
     scheduled_subtransactions = [], sync_states = [], plan_scans = [], status_message = None\<rparr>"

text \<open>
  The deferred foreign keys: a subtransaction's transaction, a month category's month and a
  scheduled subtransaction's scheduled transaction exist, in the same plan.
\<close>

definition foreign_keys :: "db \<Rightarrow> bool" where
  "foreign_keys d =
     (list_all (\<lambda>((p, _), s). tbl_get (transactions d) (p, sub_transaction_id s) \<noteq> None) (subtransactions d) \<and>
      list_all (\<lambda>((p, m, _), _). tbl_get (months d) (p, m) \<noteq> None) (month_categories d) \<and>
      list_all (\<lambda>((p, _), s). tbl_get (scheduled_transactions d) (p, ssub_scheduled_transaction_id s) \<noteq> None)
        (scheduled_subtransactions d))"

text \<open>The primary keys, and that a row is filed under its own id.\<close>

definition keys_ok :: "db \<Rightarrow> bool" where
  "keys_ok d = (tbl_ok (accounts d) \<and> tbl_ok (category_groups d) \<and> tbl_ok (categories d) \<and> tbl_ok (payees d) \<and>
     tbl_ok (transactions d) \<and> tbl_ok (subtransactions d) \<and> tbl_ok (months d) \<and> tbl_ok (month_categories d) \<and>
     tbl_ok (scheduled_transactions d) \<and> tbl_ok (scheduled_subtransactions d) \<and> tbl_ok (sync_states d) \<and>
     tbl_ok (plan_scans d))"

lemma empty_db_ok [simp]: "foreign_keys empty_db" "keys_ok empty_db"
  by (simp_all add: foreign_keys_def keys_ok_def empty_db_def)

end
