(* ===== verification/SqlTx.thy ===== *)
theory SqlTx
  imports Prelude
begin

text \<open>
  A write transaction on the one writer connection (\<open>store/store.go\<close>: \<open>writeTx\<close>; the same
  primitives carry \<open>auth/storage.go\<close>: \<open>BeginTX\<close>, \<open>Commit\<close>, \<open>Rollback\<close>).

  The connection's own behaviour is SQLite's: between \<open>BEGIN\<close> and a successful \<open>COMMIT\<close> it works on
  a copy; a failed \<open>COMMIT\<close> leaves the transaction open; closing a connection undoes an open one.
  Any of these statements can fail for reasons of the environment (a cancelled context, a full
  disk); \<open>tx_faults\<close> says which do, and every lemma holds for all of them.
\<close>

record 'db conn =
  committed :: 'db
  working :: "'db option"
  pooled :: bool

record tx_faults =
  acquire_fault :: "error option"
  begin_fault :: "error option"
  commit_fault :: "error option"
  rollback_fault :: "error option"

definition no_faults :: tx_faults where
  "no_faults = \<lparr>acquire_fault = None, begin_fault = None, commit_fault = None, rollback_fault = None\<rparr>"

text \<open>How a Go function body ends: it returns, it returns an error, or it panics.\<close>

datatype 'a outcome = Returns 'a | Fails error | Panics string

definition sql_begin :: "tx_faults \<Rightarrow> 'db conn \<Rightarrow> error option \<times> 'db conn" where
  "sql_begin flt c =
     (case begin_fault flt of
        Some e \<Rightarrow> (Some e, c)
      | None \<Rightarrow>
          (case working c of
             Some _ \<Rightarrow> (Some (newError ''cannot start a transaction within a transaction''), c)
           | None \<Rightarrow> (None, c\<lparr>working := Some (committed c)\<rparr>)))"

text \<open>\<open>fk\<close> is the check of the deferred foreign keys at \<open>COMMIT\<close>.\<close>

definition sql_commit :: "tx_faults \<Rightarrow> ('db \<Rightarrow> bool) \<Rightarrow> 'db conn \<Rightarrow> error option \<times> 'db conn" where
  "sql_commit flt fk c =
     (case working c of
        None \<Rightarrow> (Some (newError ''cannot commit - no transaction is active''), c)
      | Some d \<Rightarrow>
          (case commit_fault flt of
             Some e \<Rightarrow> (Some e, c)
           | None \<Rightarrow>
               if fk d then (None, c\<lparr>committed := d, working := None\<rparr>)
               else (Some (newError ''FOREIGN KEY constraint failed''), c)))"

definition sql_rollback :: "tx_faults \<Rightarrow> 'db conn \<Rightarrow> error option \<times> 'db conn" where
  "sql_rollback flt c =
     (case rollback_fault flt of
        Some e \<Rightarrow> (Some e, c)
      | None \<Rightarrow>
          (case working c of
             None \<Rightarrow> (Some (newError ''cannot rollback - no transaction is active''), c)
           | Some _ \<Rightarrow> (None, c\<lparr>working := None\<rparr>)))"

text \<open>\<open>c.Raw(func(any) error { return driver.ErrBadConn })\<close>: the pool closes the connection.\<close>

definition drop_conn :: "'db conn \<Rightarrow> 'db conn" where
  "drop_conn c = c\<lparr>working := None, pooled := False\<rparr>"

text \<open>Running the body on the open transaction.\<close>

definition run_body :: "('db \<Rightarrow> 'db outcome) \<Rightarrow> 'db conn \<Rightarrow> unit outcome \<times> 'db conn" where
  "run_body fn c =
     (case working c of
        None \<Rightarrow> (Fails (newError ''no transaction is active''), c)
      | Some d \<Rightarrow>
          (case fn d of
             Returns d' \<Rightarrow> (Returns (), c\<lparr>working := Some d'\<rparr>)
           | Fails e \<Rightarrow> (Fails e, c)
           | Panics p \<Rightarrow> (Panics p, c)))"

text \<open>The deferred function of \<open>writeTx\<close>.\<close>

definition writeTx_cleanup :: "tx_faults \<Rightarrow> bool \<Rightarrow> 'db conn \<Rightarrow> 'db conn" where
  "writeTx_cleanup flt was_committed c =
     (if was_committed then c
      else (case sql_rollback flt c of
              (None, c') \<Rightarrow> c'
            | (Some _, c') \<Rightarrow> drop_conn c'))"

definition writeTx ::
    "tx_faults \<Rightarrow> ('db \<Rightarrow> bool) \<Rightarrow> ('db \<Rightarrow> 'db outcome) \<Rightarrow> 'db conn \<Rightarrow> unit outcome \<times> 'db conn" where
  "writeTx flt fk fn c =
     (case acquire_fault flt of
        Some e \<Rightarrow> (Fails (wrapError ''store: acquire writer'' e), c)
      | None \<Rightarrow>
          (case sql_begin flt c of
             (Some e, c1) \<Rightarrow> (Fails (wrapError ''store: begin'' e), c1)
           | (None, c1) \<Rightarrow>
               (case run_body fn c1 of
                  (Fails e, c2) \<Rightarrow> (Fails e, writeTx_cleanup flt False c2)
                | (Panics p, c2) \<Rightarrow> (Panics p, writeTx_cleanup flt False c2)
                | (Returns _, c2) \<Rightarrow>
                    (case sql_commit flt fk c2 of
                       (Some e, c3) \<Rightarrow> (Fails (wrapError ''store: commit'' e), writeTx_cleanup flt False c3)
                     | (None, c3) \<Rightarrow> (Returns (), writeTx_cleanup flt True c3)))))"

text \<open>A connection that can be used again: idle, or gone from the pool.\<close>

definition conn_idle :: "'db conn \<Rightarrow> bool" where
  "conn_idle c = (working c = None)"

definition fresh_conn :: "'db \<Rightarrow> 'db conn" where
  "fresh_conn d = \<lparr>committed = d, working = None, pooled = True\<rparr>"

lemma conn_idle_simps [simp]:
  "conn_idle (fresh_conn d)" "committed (fresh_conn d) = d" "working (fresh_conn d) = None"
  by (simp_all add: fresh_conn_def conn_idle_def)

lemmas tx_defs = sql_begin_def sql_commit_def sql_rollback_def drop_conn_def run_body_def
  writeTx_cleanup_def writeTx_def

text \<open>
  The transaction is all or nothing: it returns without an error exactly when the body returned,
  the foreign keys hold and \<open>COMMIT\<close> succeeded, and then the committed state is the body's result;
  on any other exit, panics included, the committed state is what it was. Either way the
  connection is not left inside a transaction.
\<close>

lemma writeTx_exit:
  assumes "conn_idle c"
  shows "conn_idle (snd (writeTx flt fk fn c))"
    and "fst (writeTx flt fk fn c) = Returns () \<Longrightarrow>
      \<exists>d. fn (committed c) = Returns d \<and> fk d \<and> committed (snd (writeTx flt fk fn c)) = d"
    and "fst (writeTx flt fk fn c) \<noteq> Returns () \<Longrightarrow> committed (snd (writeTx flt fk fn c)) = committed c"
  using assms
  by (auto simp: tx_defs conn_idle_def split: option.splits outcome.splits)

lemma writeTx_success:
  assumes "conn_idle c" and "acquire_fault flt = None" "begin_fault flt = None" "commit_fault flt = None"
    and "fn (committed c) = Returns d" and "fk d"
  shows "writeTx flt fk fn c = (Returns (), c\<lparr>committed := d, working := None\<rparr>)"
  using assms by (simp add: tx_defs conn_idle_def)

text \<open>
  A connection stays pooled unless \<open>ROLLBACK\<close> itself failed: a refused batch costs nothing.
\<close>

lemma writeTx_pooled:
  "conn_idle c \<Longrightarrow> rollback_fault flt = None \<Longrightarrow> pooled (snd (writeTx flt fk fn c)) = pooled c"
  by (auto simp: tx_defs conn_idle_def split: option.splits outcome.splits)

text \<open>A body that cannot panic, from one that returns a result.\<close>

definition body :: "('db \<Rightarrow> 'db result) \<Rightarrow> 'db \<Rightarrow> 'db outcome" where
  "body f d = (case f d of Inl e \<Rightarrow> Fails e | Inr d' \<Rightarrow> Returns d')"

definition outcome_error :: "'a outcome \<Rightarrow> error option" where
  "outcome_error x = (case x of Returns _ \<Rightarrow> None | Fails e \<Rightarrow> Some e | Panics p \<Rightarrow> Some (newError p))"

lemma outcome_error_simps [simp]:
  "outcome_error (Returns x) = None" "outcome_error (Fails e) = Some e" "outcome_error (Panics p) = Some (newError p)"
  by (simp_all add: outcome_error_def)

lemma outcome_error_None [simp]: "outcome_error x = None \<longleftrightarrow> (\<exists>v. x = Returns v)"
  by (cases x) (auto simp: outcome_error_def)

subsection \<open>The interface of a transaction runner\<close>

text \<open>
  What the packages that write rely on: \<open>run fn c\<close> either commits \<open>fn\<close>'s result or leaves the
  database as it was. A run of such transactions keeps every invariant the bodies keep.
\<close>

locale atomic_runner =
  fixes run :: "tx_faults \<Rightarrow> ('db \<Rightarrow> 'db outcome) \<Rightarrow> 'db conn \<Rightarrow> unit outcome \<times> 'db conn"
  assumes run_idle: "conn_idle c \<Longrightarrow> conn_idle (snd (run flt fn c))"
    and run_ok: "conn_idle c \<Longrightarrow> fst (run flt fn c) = Returns () \<Longrightarrow> fn (committed c) = Returns (committed (snd (run flt fn c)))"
    and run_other: "conn_idle c \<Longrightarrow> fst (run flt fn c) \<noteq> Returns () \<Longrightarrow> committed (snd (run flt fn c)) = committed c"
begin

lemma run_cases:
  assumes "conn_idle c"
  obtains (ok) "fst (run flt fn c) = Returns ()" "fn (committed c) = Returns (committed (snd (run flt fn c)))"
  | (unchanged) "fst (run flt fn c) \<noteq> Returns ()" "committed (snd (run flt fn c)) = committed c"
  using assms run_ok run_other by blast

lemma run_keeps:
  assumes "conn_idle c" and "P (committed c)"
    and "\<And>d. fn (committed c) = Returns d \<Longrightarrow> P d"
  shows "P (committed (snd (run flt fn c)))"
  using assms by (cases rule: run_cases [of c flt fn]) auto

lemma run_many_keeps:
  assumes "conn_idle c" and "P (committed c)"
    and "\<And>flt fn d d'. (flt, fn) \<in> set txs \<Longrightarrow> P d \<Longrightarrow> fn d = Returns d' \<Longrightarrow> P d'"
  shows "conn_idle (fold (\<lambda>(flt, fn) c. snd (run flt fn c)) txs c) \<and>
    P (committed (fold (\<lambda>(flt, fn) c. snd (run flt fn c)) txs c))"
  using assms
proof (induction txs arbitrary: c)
  case Nil
  then show ?case by simp
next
  case (Cons tx txs)
  obtain flt fn where tx: "tx = (flt, fn)" by fastforce
  have step: "\<And>d d'. P d \<Longrightarrow> fn d = Returns d' \<Longrightarrow> P d'" using Cons.prems(3) tx by (metis list.set_intros(1))
  have "P (committed (snd (run flt fn c)))"
    using Cons.prems(1,2) by (rule run_keeps) (rule step [OF Cons.prems(2)])
  moreover have "conn_idle (snd (run flt fn c))" using Cons.prems(1) by (rule run_idle)
  moreover have "\<And>flt fn d d'. (flt, fn) \<in> set txs \<Longrightarrow> P d \<Longrightarrow> fn d = Returns d' \<Longrightarrow> P d'"
    using Cons.prems(3) by (meson list.set_intros(2))
  ultimately have "conn_idle (fold (\<lambda>(flt, fn) c. snd (run flt fn c)) txs (snd (run flt fn c))) \<and>
      P (committed (fold (\<lambda>(flt, fn) c. snd (run flt fn c)) txs (snd (run flt fn c))))"
    by (intro Cons.IH)
  then show ?case by (simp add: tx)
qed

end

interpretation store_tx: atomic_runner "\<lambda>flt. writeTx flt fk" for fk
proof unfold_locales
  fix c :: "'a conn" and flt fn
  assume c: "conn_idle c"
  show "conn_idle (snd (writeTx flt fk fn c))" using writeTx_exit(1) [OF c] .
  show "fst (writeTx flt fk fn c) = Returns () \<Longrightarrow> fn (committed c) = Returns (committed (snd (writeTx flt fk fn c)))"
    using writeTx_exit(2) [OF c] by blast
  show "fst (writeTx flt fk fn c) \<noteq> Returns () \<Longrightarrow> committed (snd (writeTx flt fk fn c)) = committed c"
    using writeTx_exit(3) [OF c] .
qed

end
