(* ===== verification/GoText.thy ===== *)
theory GoText
  imports Prelude
begin

text \<open>
  The parts of Go's \<open>strings\<close> and \<open>regexp\<close> packages the program uses, on bytes. White space is Unicode's.
  \<open>ToLower\<close> maps the ASCII letters, as SQLite's \<open>lower\<close> does, and leaves every other letter alone; Go's maps those
  of the other scripts too. \<open>EqualFold\<close> is Go's for texts one of which is ASCII.
  The second half is the id scrubbing of \<open>ynab/errors.go\<close>, \<open>cmd/health.go\<close> and
  \<open>sync/mirror.go\<close>, which share one regular expression.
\<close>

subsection \<open>strings\<close>

definition byte_text :: "nat list \<Rightarrow> string" where
  "byte_text = map char_of"

definition HasPrefix :: "string \<Rightarrow> string \<Rightarrow> bool" where
  "HasPrefix s p = (take (length p) s = p)"

text \<open>The length of the UTF-8 encoded rune a text starts with; 0 when its first byte starts none.\<close>

definition byte_in :: "nat \<times> nat \<Rightarrow> char \<Rightarrow> bool" where
  "byte_in bounds c = (let n = of_char c :: nat in fst bounds \<le> n \<and> n \<le> snd bounds)"

definition has_bytes :: "(nat \<times> nat) list \<Rightarrow> string \<Rightarrow> bool" where
  "has_bytes bs s \<longleftrightarrow> length bs \<le> length s \<and> list_all2 byte_in bs (take (length bs) s)"

definition rune_patterns :: "(nat \<times> nat) list list" where
  "rune_patterns =
     (let cont = (128, 191)
      in [[(0, 127)], [(194, 223), cont], [(224, 224), (160, 191), cont], [(225, 236), cont, cont],
          [(237, 237), (128, 159), cont], [(238, 239), cont, cont], [(240, 240), (144, 191), cont, cont],
          [(241, 243), cont, cont, cont], [(244, 244), (128, 143), cont, cont]])"

definition rune_len :: "string \<Rightarrow> nat" where
  "rune_len s = (case find (\<lambda>bs. has_bytes bs s) rune_patterns of None \<Rightarrow> 0 | Some bs \<Rightarrow> length bs)"

definition is_space :: "char \<Rightarrow> bool" where
  "is_space c = (let n = of_char c :: nat in n = 32 \<or> (9 \<le> n \<and> n \<le> 13))"

text \<open>The encodings of the runes \<open>unicode.IsSpace\<close> knows, and \<open>strings.TrimSpace\<close>, which takes them off either end.\<close>

definition space_runes :: "string list" where
  "space_runes =
     map (\<lambda>n. byte_text [n]) [9, 10, 11, 12, 13, 32] @ [byte_text [194, 133], byte_text [194, 160], byte_text [225, 154, 128]] @
     map (\<lambda>n. byte_text [226, 128, n]) ([128..<139] @ [168, 169, 175]) @ [byte_text [226, 129, 159], byte_text [227, 128, 128]]"

function trim_front :: "string list \<Rightarrow> string \<Rightarrow> string" where
  "trim_front ws s =
     (case find (\<lambda>w. w \<noteq> [] \<and> HasPrefix s w) ws of None \<Rightarrow> s | Some w \<Rightarrow> trim_front ws (drop (length w) s))"
  by pat_completeness auto
termination
  by (relation "measure (\<lambda>(_, s). length s)") (auto simp: find_Some_iff HasPrefix_def intro!: diff_less split: list.splits)

declare trim_front.simps [simp del]

definition TrimSpace :: "string \<Rightarrow> string" where
  "TrimSpace s = rev (trim_front (map rev space_runes) (rev (trim_front space_runes s)))"

definition lower_char :: "char \<Rightarrow> char" where
  "lower_char c = (let n = of_char c :: nat in if 65 \<le> n \<and> n \<le> 90 then char_of (n + 32) else c)"

definition ToLower :: "string \<Rightarrow> string" where
  "ToLower = map lower_char"

definition TrimPrefix :: "string \<Rightarrow> string \<Rightarrow> string" where
  "TrimPrefix s p = (if HasPrefix s p then drop (length p) s else s)"

definition TrimRight :: "string \<Rightarrow> char list \<Rightarrow> string" where
  "TrimRight s cutset = rev (dropWhile (\<lambda>c. c \<in> set cutset) (rev s))"

definition Trim :: "string \<Rightarrow> char list \<Rightarrow> string" where
  "Trim s cutset = TrimRight (dropWhile (\<lambda>c. c \<in> set cutset) s) cutset"

text \<open>\<open>strings.Split(s, sep)\<close> for a one-byte separator: never empty.\<close>

fun Split :: "char \<Rightarrow> string \<Rightarrow> string list" where
  "Split sep [] = [[]]"
| "Split sep (c # cs) =
     (if c = sep then [] # Split sep cs
      else (case Split sep cs of [] \<Rightarrow> [[c]] | p # ps \<Rightarrow> (c # p) # ps))"

text \<open>\<open>strings.Cut(s, sep)\<close> for a one-byte separator.\<close>

fun Cut :: "char \<Rightarrow> string \<Rightarrow> string \<times> string \<times> bool" where
  "Cut sep [] = ([], [], False)"
| "Cut sep (c # cs) =
     (if c = sep then ([], cs, True)
      else (case Cut sep cs of (a, b, f) \<Rightarrow> (c # a, b, f)))"

text \<open>\<open>strings.ReplaceAll(s, old, new)\<close>, leftmost matches first, for a non-empty \<open>old\<close>.\<close>

function ReplaceAll :: "string \<Rightarrow> string \<Rightarrow> string \<Rightarrow> string" where
  "ReplaceAll old new s =
     (if old = [] \<or> s = [] then s
      else if HasPrefix s old then new @ ReplaceAll old new (drop (length old) s)
      else hd s # ReplaceAll old new (tl s))"
  by pat_completeness auto
termination
  by (relation "measure (\<lambda>(_, _, s). length s)") (auto simp: length_greater_0_conv)

declare ReplaceAll.simps [simp del]

text \<open>
  \<open>strings.EqualFold\<close>, when one of the texts is ASCII: besides the two cases of a letter, U+212A folds to \<open>k\<close> and
  U+017F to \<open>s\<close>.
\<close>

definition fold_text :: "string \<Rightarrow> string" where
  "fold_text s = ToLower (ReplaceAll (byte_text [226, 132, 170]) ''k'' (ReplaceAll (byte_text [197, 191]) ''s'' s))"

definition EqualFold :: "string \<Rightarrow> string \<Rightarrow> bool" where
  "EqualFold a b = (fold_text a = fold_text b)"

fun Contains :: "string \<Rightarrow> string \<Rightarrow> bool" where
  "Contains [] p = (p = [])"
| "Contains (c # cs) p = (HasPrefix (c # cs) p \<or> Contains cs p)"

fun Join :: "string \<Rightarrow> string list \<Rightarrow> string" where
  "Join sep [] = []"
| "Join sep [x] = x"
| "Join sep (x # y # ys) = x @ sep @ Join sep (y # ys)"

text \<open>A lower-case hexadecimal digit and \<open>hex.EncodeToString\<close>.\<close>

definition hex_digit :: "nat \<Rightarrow> char" where
  "hex_digit n = char_of (if n < 10 then 48 + n else 87 + n)"

definition EncodeToString :: "string \<Rightarrow> string" where
  "EncodeToString bs = concat (map (\<lambda>c. let n = of_char c :: nat in [hex_digit (n div 16), hex_digit (n mod 16)]) bs)"

text \<open>
  \<open>%q\<close> of a text: quotes, backslashes, control characters and bytes that are no UTF-8 escaped. Every rune from
  U+0080 on is taken to be printable.
\<close>

definition quote_char :: "char \<Rightarrow> string" where
  "quote_char c =
     (let n = of_char c :: nat
      in if c = CHR 0x22 \<or> c = CHR 0x5C then [CHR 0x5C, c]
         else if n = 7 then [CHR 0x5C, CHR ''a''] else if n = 8 then [CHR 0x5C, CHR ''b'']
         else if n = 9 then [CHR 0x5C, CHR ''t''] else if n = 10 then [CHR 0x5C, CHR ''n'']
         else if n = 11 then [CHR 0x5C, CHR ''v''] else if n = 12 then [CHR 0x5C, CHR ''f'']
         else if n = 13 then [CHR 0x5C, CHR ''r'']
         else if n < 32 \<or> 127 \<le> n then [CHR 0x5C, CHR ''x'', hex_digit (n div 16), hex_digit (n mod 16)]
         else [c])"

function quote_runes :: "string \<Rightarrow> string" where
  "quote_runes [] = []"
| "quote_runes (c # cs) =
     (let n = rune_len (c # cs)
      in if n \<le> 1 then quote_char c @ quote_runes cs else take n (c # cs) @ quote_runes (drop n (c # cs)))"
  by pat_completeness auto
termination
  by (relation "measure length") auto

declare quote_runes.simps [simp del]

definition Quote :: "string \<Rightarrow> string" where
  "Quote s = [CHR 0x22] @ quote_runes s @ [CHR 0x22]"

text \<open>\<open>strconv.ParseInt(s, 10, 64)\<close>, which \<open>strconv.Atoi\<close> is for a 64-bit \<open>int\<close>.\<close>

definition ParseInt64 :: "string \<Rightarrow> int64 option" where
  "ParseInt64 s =
     (let neg = HasPrefix s ''-''; ds = (if neg \<or> HasPrefix s ''+'' then drop 1 s else s)
      in if ds = [] then None
         else (case read_dec 0 ds of
                 None \<Rightarrow> None
               | Some n \<Rightarrow> if n < 2 ^ 63 \<or> (neg \<and> n = 2 ^ 63) then Some (if neg then - of_nat n else of_nat n) else None))"

text \<open>A parsed URL (\<open>url.Parse\<close> itself is an argument where it is used).\<close>

record url =
  u_scheme :: string
  u_opaque :: string
  u_user :: bool
  u_host :: string
  u_hostname :: string
  u_path :: string
  u_raw_query :: string
  u_fragment :: string

lemma HasPrefix_iff: "HasPrefix s p \<longleftrightarrow> (\<exists>r. s = p @ r)"
  unfolding HasPrefix_def by (metis append_eq_conv_conj)

lemma Contains_iff: "Contains s p \<longleftrightarrow> (\<exists>a b. s = a @ p @ b)"
proof (induction s)
  case Nil
  show ?case by auto
next
  case (Cons c cs)
  have "(\<exists>a b. c # cs = a @ p @ b) \<longleftrightarrow> (\<exists>b. c # cs = p @ b) \<or> (\<exists>a b. cs = a @ p @ b)"
    by (metis append_Cons append_Nil append_eq_Cons_conv)
  with Cons show ?case by (simp add: HasPrefix_iff)
qed

lemma lower_char_cases:
  obtains "lower_char c = c" "\<not> (65 \<le> (of_char c :: nat) \<and> (of_char c :: nat) \<le> 90)"
  | "lower_char c = char_of (of_char c + 32 :: nat)" "65 \<le> (of_char c :: nat)" "(of_char c :: nat) \<le> 90"
  by (cases "65 \<le> (of_char c :: nat) \<and> (of_char c :: nat) \<le> 90") (auto simp: lower_char_def Let_def)

lemma lower_char_idem [simp]: "lower_char (lower_char c) = lower_char c"
proof (cases c rule: lower_char_cases)
  case 2
  then have "(of_char (lower_char c) :: nat) = of_char c + 32" by simp
  then show ?thesis using 2(2) by (simp add: lower_char_def [of "lower_char c"] Let_def)
qed simp

lemma ToLower_idem [simp]: "ToLower (ToLower s) = ToLower s"
  by (simp add: ToLower_def comp_def)

lemma trim_front_suffix: "\<exists>p. s = p @ trim_front ws s"
proof (induction ws s rule: trim_front.induct)
  case (1 ws s)
  show ?case
  proof (cases "find (\<lambda>w. w \<noteq> [] \<and> HasPrefix s w) ws")
    case (Some w)
    with 1 obtain p where "drop (length w) s = p @ trim_front ws (drop (length w) s)" by blast
    then have "s = (take (length w) s @ p) @ trim_front ws (drop (length w) s)" by (metis append.assoc append_take_drop_id)
    with Some show ?thesis by (intro exI [of _ "take (length w) s @ p"]) (simp add: trim_front.simps [of ws s])
  qed (simp add: trim_front.simps)
qed

lemma trim_front_done: "find (\<lambda>w. w \<noteq> [] \<and> HasPrefix (trim_front ws s) w) ws = None"
proof (induction ws s rule: trim_front.induct)
  case (1 ws s)
  then show ?case
    by (cases "find (\<lambda>w. w \<noteq> [] \<and> HasPrefix s w) ws") (simp_all add: trim_front.simps [of ws s])
qed

lemma TrimSpace_idem [simp]: "TrimSpace (TrimSpace s) = TrimSpace s"
proof -
  let ?ws = "space_runes" and ?rs = "map rev space_runes"
  define y where "y = trim_front ?ws s"
  define z where "z = TrimSpace s"
  have z: "rev z = trim_front ?rs (rev y)" by (simp add: z_def y_def TrimSpace_def)
  obtain p where "rev y = p @ rev z" using trim_front_suffix [of "rev y" ?rs] z by auto
  then have y: "y = z @ rev p" by (metis rev_append rev_rev_ident)
  have "\<not> (w \<noteq> [] \<and> HasPrefix y w)" if "w \<in> set ?ws" for w
    using trim_front_done [of ?ws s] that by (auto simp: y_def find_None_iff)
  then have "\<not> (w \<noteq> [] \<and> HasPrefix z w)" if "w \<in> set ?ws" for w
  proof -
    have "HasPrefix y w" if "HasPrefix z w"
    proof -
      from that have w: "take (length w) z = w" by (simp add: HasPrefix_def)
      then have "length w \<le> length z" by (metis length_take min.cobounded1)
      with w show ?thesis by (simp add: y HasPrefix_def)
    qed
    with \<open>w \<in> set ?ws \<Longrightarrow> \<not> (w \<noteq> [] \<and> HasPrefix y w)\<close> that show ?thesis by blast
  qed
  then have "find (\<lambda>w. w \<noteq> [] \<and> HasPrefix z w) ?ws = None" unfolding find_None_iff by blast
  then have front: "trim_front ?ws z = z" by (simp add: trim_front.simps)
  have "find (\<lambda>w. w \<noteq> [] \<and> HasPrefix (rev z) w) ?rs = None" unfolding z by (rule trim_front_done)
  then have "trim_front ?rs (rev z) = rev z" by (simp only: trim_front.simps [of ?rs "rev z"] option.case)
  then have "TrimSpace z = z" by (simp add: TrimSpace_def front)
  then show ?thesis by (simp add: z_def)
qed

subsection \<open>Scrubbing ids\<close>

text \<open>
  \<open>(?i)[0-9a-f]{8}-[0-9a-f]{4}-[0-9a-f]{4}-[0-9a-f]{4}-[0-9a-f]{12}\<close>, at the start of \<open>s\<close>.
\<close>

definition is_hex :: "char \<Rightarrow> bool" where
  "is_hex c = (let n = of_char c :: nat in
     (48 \<le> n \<and> n \<le> 57) \<or> (97 \<le> n \<and> n \<le> 102) \<or> (65 \<le> n \<and> n \<le> 70))"

definition uuid_shape :: "bool list" where
  "uuid_shape = replicate 8 True @ [False] @ replicate 4 True @ [False] @ replicate 4 True @ [False] @
     replicate 4 True @ [False] @ replicate 12 True"

definition uuid_at :: "string \<Rightarrow> bool" where
  "uuid_at s = (36 \<le> length s \<and> list_all2 (\<lambda>h c. if h then is_hex c else c = CHR ''-'') uuid_shape (take 36 s))"

text \<open>\<open>uuidRE.ReplaceAllString(s, rep)\<close>.\<close>

function replace_uuids :: "string \<Rightarrow> string \<Rightarrow> string" where
  "replace_uuids rep s =
     (if s = [] then []
      else if uuid_at s then rep @ replace_uuids rep (drop 36 s)
      else hd s # replace_uuids rep (tl s))"
  by pat_completeness auto
termination
  by (relation "measure (\<lambda>(_, s). length s)") (auto simp: uuid_at_def)

declare replace_uuids.simps [simp del]

fun has_uuid :: "string \<Rightarrow> bool" where
  "has_uuid [] = False"
| "has_uuid (c # cs) = (uuid_at (c # cs) \<or> has_uuid cs)"

definition uuid_char :: "char \<Rightarrow> bool" where
  "uuid_char c = (is_hex c \<or> c = CHR ''-'')"

lemma uuid_at_chars: "uuid_at s \<Longrightarrow> c \<in> set (take 36 s) \<Longrightarrow> uuid_char c"
  by (auto simp: uuid_at_def uuid_char_def in_set_conv_nth list_all2_conv_all_nth split: if_splits)

lemma uuid_at_cong: "take 36 s = take 36 s' \<Longrightarrow> uuid_at s = uuid_at s'"
proof -
  assume t: "take 36 s = take 36 s'"
  have "36 \<le> length s \<longleftrightarrow> length (take 36 s) = 36" "36 \<le> length s' \<longleftrightarrow> length (take 36 s') = 36"
    by auto
  with t show ?thesis by (simp add: uuid_at_def)
qed

text \<open>Up to the first replacement the text is unchanged.\<close>

lemma replace_uuids_take:
  assumes "rep \<noteq> []" "\<not> uuid_char (hd rep)" "k \<le> length (replace_uuids rep s)"
    and "\<forall>c \<in> set (take k (replace_uuids rep s)). uuid_char c"
  shows "take k (replace_uuids rep s) = take k s"
  using assms
proof (induction rep s arbitrary: k rule: replace_uuids.induct)
  case (1 rep s)
  show ?case
  proof (cases "s = [] \<or> k = 0")
    case True
    then show ?thesis by (auto simp: replace_uuids.simps [of rep "[]"])
  next
    case False
    then obtain c cs j where s: "s = c # cs" and k: "k = Suc j" by (cases s; cases k) auto
    show ?thesis
    proof (cases "uuid_at s")
      case True
      then have "replace_uuids rep s = rep @ replace_uuids rep (drop 36 s)"
        by (subst replace_uuids.simps) (simp add: s)
      with "1.prems" k have False by (cases rep) auto
      then show ?thesis ..
    next
      case False
      then have r: "replace_uuids rep s = c # replace_uuids rep cs"
        by (subst replace_uuids.simps) (simp add: s)
      with "1.prems" k have "take j (replace_uuids rep cs) = take j cs"
        using "1.IH"(2) [of j] False s by simp
      with r k s show ?thesis by simp
    qed
  qed
qed

lemma has_uuid_append_barrier:
  assumes "\<not> uuid_char e" and "length x < 36" and "\<not> has_uuid y"
  shows "\<not> has_uuid (x @ e # y)"
  using assms(2)
proof (induction x)
  case Nil
  have "\<not> uuid_at (e # y)" using uuid_at_chars [of "e # y" e] assms(1) by auto
  with assms(3) show ?case by simp
next
  case (Cons c x)
  have "e \<in> set (take 36 ((c # x) @ e # y))"
    using Cons.prems by (simp add: take_Cons')
  then have "\<not> uuid_at ((c # x) @ e # y)" using uuid_at_chars assms(1) by blast
  with Cons show ?case by simp
qed

text \<open>
  No id survives, for a replacement that cannot be part of one: its first and last bytes are not
  id characters.
\<close>

lemma replace_uuids_clean:
  assumes "rep = b # mid @ [e]" and "\<not> uuid_char b" and "\<not> uuid_char e" and "length rep \<le> 36"
  shows "\<not> has_uuid (replace_uuids rep s)"
  using assms
proof (induction rep s rule: replace_uuids.induct)
  case (1 rep s)
  show ?case
  proof (cases s)
    case Nil
    then show ?thesis by (simp add: replace_uuids.simps)
  next
    case (Cons c cs)
    show ?thesis
    proof (cases "uuid_at s")
      case True
      then have "replace_uuids rep s = (b # mid) @ e # replace_uuids rep (drop 36 s)"
        using "1.prems" Cons by (subst replace_uuids.simps) simp
      moreover have "\<not> has_uuid (replace_uuids rep (drop 36 s))"
        using "1.IH"(1) "1.prems" True Cons by simp
      ultimately show ?thesis
        using has_uuid_append_barrier [of e "b # mid"] "1.prems" by simp
    next
      case False
      then have r: "replace_uuids rep s = c # replace_uuids rep cs"
        using Cons by (subst replace_uuids.simps) simp
      have IH: "\<not> has_uuid (replace_uuids rep cs)"
        using "1.IH"(2) "1.prems" False Cons by simp
      have "\<not> uuid_at (c # replace_uuids rep cs)"
      proof
        assume u: "uuid_at (c # replace_uuids rep cs)"
        then have "35 \<le> length (replace_uuids rep cs)" by (simp add: uuid_at_def)
        moreover have "\<forall>x \<in> set (take 35 (replace_uuids rep cs)). uuid_char x"
          using uuid_at_chars [OF u] by (simp add: numeral_eq_Suc)
        ultimately have "take 35 (replace_uuids rep cs) = take 35 cs"
          using "1.prems" by (intro replace_uuids_take) auto
        then have "uuid_at (c # cs)" using u by (subst (asm) uuid_at_cong [of _ "c # cs"]) simp_all
        with False Cons show False by simp
      qed
      with IH r show ?thesis by simp
    qed
  qed
qed

text \<open>\<open>scrub\<close> of \<open>cmd/health.go\<close>: secrets first, then ids.\<close>

definition scrub :: "string \<Rightarrow> string list \<Rightarrow> string" where
  "scrub s secrets =
     replace_uuids ''<id>'' (fold (\<lambda>secret s. if secret \<noteq> [] then ReplaceAll secret ''<secret>'' s else s) secrets s)"

lemma scrub_clean: "\<not> has_uuid (scrub s secrets)"
  unfolding scrub_def
  by (rule replace_uuids_clean [of _ "CHR ''<''" "''id''" "CHR ''>''"]) (simp_all add: uuid_char_def is_hex_def)

end
