(* ===== verification/StoreMirror.thy ===== *)
theory StoreMirror
  imports StoreRows SqlTx GoText
begin

text \<open>
  The writes of the mirror (\<open>store/mirror.go\<close>): one prepared \<open>INSERT ... ON CONFLICT DO UPDATE\<close> per
  row, in one transaction with the delta cursor. \<open>stmt_faults\<close> says which prepare or execute
  fails in the environment.
\<close>

record stmt_faults =
  prepare_fault :: "string \<Rightarrow> error option"
  exec_fault :: "string \<Rightarrow> nat \<Rightarrow> error option"

definition no_stmt_faults :: stmt_faults where
  "no_stmt_faults = \<lparr>prepare_fault = (\<lambda>_. None), exec_fault = (\<lambda>_ _. None)\<rparr>"

text \<open>\<open>upsert\<close>: the query once per row; \<open>put\<close> is its effect.\<close>

definition upsert :: "stmt_faults \<Rightarrow> string \<Rightarrow> ('r \<Rightarrow> 'd \<Rightarrow> 'd) \<Rightarrow> 'r list \<Rightarrow> 'd \<Rightarrow> 'd result" where
  "upsert flt table put rows d =
     (if rows = [] then Inr d
      else (case prepare_fault flt table of
              Some e \<Rightarrow> Inl (wrapError (''store: prepare '' @ table @ '' upsert'') e)
            | None \<Rightarrow>
                each (\<lambda>i r d. case exec_fault flt table i of
                                Some e \<Rightarrow> Inl (wrapError (''store: upsert '' @ table) e)
                              | None \<Rightarrow> Inr (put r d)) 0 rows d))"

lemma upsert_Inr: "upsert flt table put rows d = Inr d' \<Longrightarrow> d' = fold put rows d"
  by (auto simp: upsert_def split: if_splits option.splits dest!: each_is_fold [where g = put])

lemma upsert_no_faults [simp]: "upsert no_stmt_faults table put rows d = Inr (fold put rows d)"
  by (auto simp: upsert_def no_stmt_faults_def intro!: each_total)

subsection \<open>Text of the columns that are not stored as they are\<close>

text \<open>
  \<open>periodicJSON\<close>: a JSON object with its keys sorted, or NULL when empty. The escaping is
  \<open>encoding/json\<close>'s on ASCII (bytes above 127 are copied).
\<close>

definition json_char :: "char \<Rightarrow> string" where
  "json_char c =
     (let n = of_char c :: nat in
      if n = 34 then [char_of (92 :: nat), c]
      else if n = 92 then [c, c]
      else if n = 8 then [char_of (92 :: nat), CHR ''b'']
      else if n = 12 then [char_of (92 :: nat), CHR ''f'']
      else if n = 10 then [char_of (92 :: nat), CHR ''n'']
      else if n = 13 then [char_of (92 :: nat), CHR ''r'']
      else if n = 9 then [char_of (92 :: nat), CHR ''t'']
      else if n < 32 \<or> n = 60 \<or> n = 62 \<or> n = 38
        then [char_of (92 :: nat), CHR ''u'', CHR ''0'', CHR ''0'', hex_digit (n div 16), hex_digit (n mod 16)]
      else [c])"

definition json_string :: "string \<Rightarrow> string" where
  "json_string s = char_of (34 :: nat) # concat (map json_char s) @ [char_of (34 :: nat)]"

definition periodicJSON :: "periodic \<Rightarrow> string option" where
  "periodicJSON m =
     (if m = [] then None
      else Some (''{'' @ concat (map (\<lambda>(i, (k, v)). (if i = 0 then [] else '','') @ json_string k @ '':'' @ dec_int (sint v))
                           (enumerate 0 (sort_key fst m))) @ ''}''))"

subsection \<open>The statements\<close>

text \<open>
  Each \<open>put\<close> inserts the row of \<open>args\<close>; on conflict it overwrites every column named in
  \<open>DO UPDATE SET\<close>, which is every column but the key and the local ones.
\<close>

definition account_args :: "account \<Rightarrow> (string, string option) account_rec" where
  "account_args a = \<lparr>
     acc_id = acc_id a, acc_name = acc_name a, acc_type = acc_type a,
     acc_on_budget = acc_on_budget a, acc_closed = acc_closed a, acc_note = acc_note a,
     acc_balance = acc_balance a, acc_cleared_balance = acc_cleared_balance a,
     acc_uncleared_balance = acc_uncleared_balance a,
     acc_transfer_payee_id = acc_transfer_payee_id a,
     acc_direct_import_linked = acc_direct_import_linked a,
     acc_direct_import_in_error = acc_direct_import_in_error a,
     acc_last_reconciled_at = formatTimePtr (acc_last_reconciled_at a),
     acc_debt_original_balance = acc_debt_original_balance a,
     acc_debt_interest_rates = periodicJSON (acc_debt_interest_rates a),
     acc_debt_minimum_payments = periodicJSON (acc_debt_minimum_payments a),
     acc_debt_escrow_amounts = periodicJSON (acc_debt_escrow_amounts a), acc_deleted = acc_deleted a\<rparr>"

definition put_account :: "string \<Rightarrow> account \<Rightarrow> db \<Rightarrow> db" where
  "put_account plan a d = d\<lparr>accounts :=
     tbl_upsert (plan, acc_id a)
       (account_rec.extend (account_args a) (account_row.fields None))
       (\<lambda>old. account_rec.extend (account_args a) (account_row.fields (acc_tax_bucket old)))
       (accounts d)\<rparr>"

definition UpsertAccounts :: "stmt_faults \<Rightarrow> string \<Rightarrow> account list \<Rightarrow> db \<Rightarrow> db result" where
  "UpsertAccounts flt plan rows = upsert flt ''accounts'' (put_account plan) rows"

text \<open>\<open>SetAccountTaxBucket\<close>: the only writer of the local column; no such account is an error.\<close>

definition SetAccountTaxBucket :: "stmt_faults \<Rightarrow> string \<Rightarrow> string \<Rightarrow> string option \<Rightarrow> db \<Rightarrow> db result" where
  "SetAccountTaxBucket flt plan accountID bucket d =
     (case exec_fault flt ''set tax_bucket'' 0 of
        Some e \<Rightarrow> Inl (wrapError ''store: set tax_bucket'' e)
      | None \<Rightarrow>
          let here = (\<lambda>k _. k = (plan, accountID))
          in if tbl_count here (accounts d) = 0
             then Inl (newError (''store: set tax_bucket: account '' @ accountID @ '' not found''))
             else Inr (d\<lparr>accounts := tbl_update here (\<lambda>r. r\<lparr>acc_tax_bucket := bucket\<rparr>) (accounts d)\<rparr>))"

definition put_category_group :: "string \<Rightarrow> category_group \<Rightarrow> db \<Rightarrow> db" where
  "put_category_group plan g d =
     d\<lparr>category_groups := tbl_upsert (plan, grp_id g) g (\<lambda>_. g) (category_groups d)\<rparr>"

definition UpsertCategoryGroups :: "stmt_faults \<Rightarrow> string \<Rightarrow> category_group list \<Rightarrow> db \<Rightarrow> db result" where
  "UpsertCategoryGroups flt plan rows = upsert flt ''category_groups'' (put_category_group plan) rows"

definition category_args :: "category \<Rightarrow> category_row" where
  "category_args c = \<lparr>
     cat_id = cat_id c, cat_category_group_id = cat_category_group_id c, cat_name = cat_name c,
     cat_hidden = cat_hidden c, cat_internal = cat_internal c,
     cat_original_category_group_id = cat_original_category_group_id c, cat_note = cat_note c,
     cat_budgeted = cat_budgeted c, cat_activity = cat_activity c, cat_balance = cat_balance c,
     cat_goal_type = cat_goal_type c, cat_goal_needs_whole_amount = cat_goal_needs_whole_amount c,
     cat_goal_day = cat_goal_day c, cat_goal_cadence = cat_goal_cadence c,
     cat_goal_cadence_frequency = cat_goal_cadence_frequency c,
     cat_goal_creation_month = cat_goal_creation_month c, cat_goal_target = cat_goal_target c,
     cat_goal_target_month = cat_goal_target_month c,
     cat_goal_target_date = cat_goal_target_date c,
     cat_goal_percentage_complete = cat_goal_percentage_complete c,
     cat_goal_months_to_budget = cat_goal_months_to_budget c,
     cat_goal_under_funded = cat_goal_under_funded c,
     cat_goal_overall_funded = cat_goal_overall_funded c,
     cat_goal_overall_left = cat_goal_overall_left c,
     cat_goal_snoozed_at = formatTimePtr (cat_goal_snoozed_at c), cat_deleted = cat_deleted c\<rparr>"

definition put_category :: "string \<Rightarrow> category \<Rightarrow> db \<Rightarrow> db" where
  "put_category plan c d =
     d\<lparr>categories := tbl_upsert (plan, cat_id c) (category_args c) (\<lambda>_. category_args c) (categories d)\<rparr>"

definition UpsertCategories :: "stmt_faults \<Rightarrow> string \<Rightarrow> category list \<Rightarrow> db \<Rightarrow> db result" where
  "UpsertCategories flt plan rows = upsert flt ''categories'' (put_category plan) rows"

definition put_payee :: "string \<Rightarrow> payee \<Rightarrow> db \<Rightarrow> db" where
  "put_payee plan p d = d\<lparr>payees := tbl_upsert (plan, pay_id p) p (\<lambda>_. p) (payees d)\<rparr>"

definition UpsertPayees :: "stmt_faults \<Rightarrow> string \<Rightarrow> payee list \<Rightarrow> db \<Rightarrow> db result" where
  "UpsertPayees flt plan rows = upsert flt ''payees'' (put_payee plan) rows"

text \<open>
  \<open>first_seen_at\<close> is the sync time on insert, and again when an existing row first gains an
  \<open>import_id\<close>.
\<close>

definition put_transaction :: "string \<Rightarrow> string \<Rightarrow> transaction \<Rightarrow> db \<Rightarrow> db" where
  "put_transaction plan now x d = d\<lparr>transactions :=
     tbl_upsert (plan, tx_id x)
       (transaction.extend x (transaction_row.fields now))
       (\<lambda>old. transaction.extend x (transaction_row.fields
          (if tx_import_id old = None \<and> tx_import_id x \<noteq> None then now else tx_first_seen_at old)))
       (transactions d)\<rparr>"

definition UpsertTransactions :: "stmt_faults \<Rightarrow> string \<Rightarrow> transaction list \<Rightarrow> time \<Rightarrow> db \<Rightarrow> db result" where
  "UpsertTransactions flt plan rows syncedAt =
     upsert flt ''transactions'' (put_transaction plan (formatTime syncedAt)) rows"

definition put_subtransaction :: "string \<Rightarrow> subtransaction \<Rightarrow> db \<Rightarrow> db" where
  "put_subtransaction plan s d =
     d\<lparr>subtransactions := tbl_upsert (plan, sub_id s) s (\<lambda>_. s) (subtransactions d)\<rparr>"

definition UpsertSubtransactions :: "stmt_faults \<Rightarrow> string \<Rightarrow> subtransaction list \<Rightarrow> db \<Rightarrow> db result" where
  "UpsertSubtransactions flt plan rows = upsert flt ''subtransactions'' (put_subtransaction plan) rows"

definition put_month :: "string \<Rightarrow> month \<Rightarrow> db \<Rightarrow> db" where
  "put_month plan m d = d\<lparr>months := tbl_upsert (plan, mon_month m) m (\<lambda>_. m) (months d)\<rparr>"

definition UpsertMonths :: "stmt_faults \<Rightarrow> string \<Rightarrow> month list \<Rightarrow> db \<Rightarrow> db result" where
  "UpsertMonths flt plan rows = upsert flt ''months'' (put_month plan) rows"

definition put_month_category :: "string \<Rightarrow> month_category \<Rightarrow> db \<Rightarrow> db" where
  "put_month_category plan m d =
     d\<lparr>month_categories := tbl_upsert (plan, mc_month m, mc_category_id m) m (\<lambda>_. m) (month_categories d)\<rparr>"

definition UpsertMonthCategories :: "stmt_faults \<Rightarrow> string \<Rightarrow> month_category list \<Rightarrow> db \<Rightarrow> db result" where
  "UpsertMonthCategories flt plan rows = upsert flt ''month_categories'' (put_month_category plan) rows"

definition put_scheduled :: "string \<Rightarrow> scheduled_transaction \<Rightarrow> db \<Rightarrow> db" where
  "put_scheduled plan s d =
     d\<lparr>scheduled_transactions := tbl_upsert (plan, sch_id s) s (\<lambda>_. s) (scheduled_transactions d)\<rparr>"

definition UpsertScheduledTransactions ::
    "stmt_faults \<Rightarrow> string \<Rightarrow> scheduled_transaction list \<Rightarrow> db \<Rightarrow> db result" where
  "UpsertScheduledTransactions flt plan rows = upsert flt ''scheduled_transactions'' (put_scheduled plan) rows"

definition put_scheduled_sub :: "string \<Rightarrow> scheduled_subtransaction \<Rightarrow> db \<Rightarrow> db" where
  "put_scheduled_sub plan s d =
     d\<lparr>scheduled_subtransactions := tbl_upsert (plan, ssub_id s) s (\<lambda>_. s) (scheduled_subtransactions d)\<rparr>"

definition UpsertScheduledSubtransactions ::
    "stmt_faults \<Rightarrow> string \<Rightarrow> scheduled_subtransaction list \<Rightarrow> db \<Rightarrow> db result" where
  "UpsertScheduledSubtransactions flt plan rows =
     upsert flt ''scheduled_subtransactions'' (put_scheduled_sub plan) rows"

subsection \<open>The delta cursor\<close>

definition put_sync_state :: "sync_state \<Rightarrow> db \<Rightarrow> db" where
  "put_sync_state s d =
     (let r = \<lparr>sr_server_knowledge = ss_server_knowledge s, sr_synced_at = formatTime (ss_synced_at s)\<rparr>
      in d\<lparr>sync_states := tbl_upsert (ss_plan_id s) r (\<lambda>_. r) (sync_states d)\<rparr>)"

text \<open>\<open>Tx.SetSyncState\<close>.\<close>

definition SetSyncState :: "stmt_faults \<Rightarrow> sync_state \<Rightarrow> db \<Rightarrow> db result" where
  "SetSyncState flt s d =
     (case exec_fault flt ''sync_state'' 0 of
        Some e \<Rightarrow> Inl (wrapError ''store: set sync_state'' e)
      | None \<Rightarrow> Inr (put_sync_state s d))"

text \<open>\<open>DB.Update\<close>: the body in one write transaction.\<close>

definition Update :: "tx_faults \<Rightarrow> (db \<Rightarrow> db outcome) \<Rightarrow> db conn \<Rightarrow> unit outcome \<times> db conn" where
  "Update flt fn c = writeTx flt foreign_keys fn c"

lemma Update_cases:
  assumes "conn_idle c"
  obtains (ok) c' where "Update flt (body f) c = (Returns (), c')" "conn_idle c'" "f (committed c) = Inr (committed c')"
  | (failed) out e c' where "Update flt (body f) c = (out, c')" "outcome_error out = Some e" "conn_idle c'"
      "committed c' = committed c"
proof (cases "fst (Update flt (body f) c) = Returns ()")
  case True
  with store_tx.run_ok [OF assms, of flt foreign_keys "body f"] store_tx.run_idle [OF assms, of flt foreign_keys "body f"]
  show thesis using ok [of "snd (Update flt (body f) c)"]
    by (cases "Update flt (body f) c") (auto simp: Update_def body_def split: sum.splits)
next
  case False
  then obtain e where "outcome_error (fst (Update flt (body f) c)) = Some e"
    using outcome_error_None by (metis option.exhaust unit.exhaust)
  with False store_tx.run_other [OF assms, of flt foreign_keys "body f"] store_tx.run_idle [OF assms, of flt foreign_keys "body f"]
  show thesis using failed [of "fst (Update flt (body f) c)" "snd (Update flt (body f) c)" e]
    by (cases "Update flt (body f) c") (auto simp: Update_def)
qed

text \<open>\<open>DB.SetSyncState\<close>: the cursor in a transaction of its own.\<close>

definition DB_SetSyncState :: "tx_faults \<Rightarrow> stmt_faults \<Rightarrow> sync_state \<Rightarrow> db conn \<Rightarrow> unit outcome \<times> db conn" where
  "DB_SetSyncState flt sflt s c = Update flt (body (SetSyncState sflt s)) c"

text \<open>\<open>GetSyncState\<close>: \<open>None\<close> when the plan was never synced.\<close>

definition GetSyncState :: "error option \<Rightarrow> db \<Rightarrow> string \<Rightarrow> sync_state option result" where
  "GetSyncState flt d plan =
     (case flt of
        Some e \<Rightarrow> Inl (wrapError ''store: get sync_state'' e)
      | None \<Rightarrow>
          (case tbl_get (sync_states d) plan of
             None \<Rightarrow> Inr None
           | Some r \<Rightarrow>
               (case parseTime (sr_synced_at r) of
                  None \<Rightarrow> Inl (newError ''store: parse sync_state.synced_at'')
                | Some t \<Rightarrow> Inr (Some \<lparr>ss_plan_id = plan, ss_server_knowledge = sr_server_knowledge r, ss_synced_at = t\<rparr>))))"

end
