(* ===== verification/SyncMapping.thy ===== *)
theory SyncMapping
  imports StoreMirror
begin

text \<open>
  \<open>sync/mapping.go\<close>: one export or delta mapped onto mirror rows. The input records carry the
  fields of the YNAB client library's structs that the mapping reads; a calendar date is the type
  \<open>'d\<close>, and the library's \<open>Date.String\<close> is the parameter \<open>dstr\<close>. \<open>Milliunits\<close> is an \<open>int64\<close>.
\<close>

record api_account =
  xacc_id :: string
  xacc_name :: string
  xacc_type :: string
  xacc_on_budget :: bool
  xacc_closed :: bool
  xacc_note :: "string option"
  xacc_balance :: int64
  xacc_cleared_balance :: int64
  xacc_uncleared_balance :: int64
  xacc_transfer_payee_id :: "string option"
  xacc_direct_import_linked :: bool
  xacc_direct_import_in_error :: bool
  xacc_last_reconciled_at :: "time option"
  xacc_debt_original_balance :: "int64 option"
  xacc_debt_interest_rates :: periodic
  xacc_debt_minimum_payments :: periodic
  xacc_debt_escrow_amounts :: periodic
  xacc_deleted :: bool

record api_category_group =
  xgrp_id :: string
  xgrp_name :: string
  xgrp_hidden :: bool
  xgrp_internal :: bool
  xgrp_deleted :: bool

record 'd api_category =
  xcat_id :: string
  xcat_category_group_id :: string
  xcat_name :: string
  xcat_hidden :: bool
  xcat_internal :: bool
  xcat_original_category_group_id :: "string option"
  xcat_note :: "string option"
  xcat_budgeted :: int64
  xcat_activity :: int64
  xcat_balance :: int64
  xcat_goal_type :: "string option"
  xcat_goal_needs_whole_amount :: "bool option"
  xcat_goal_day :: "int64 option"
  xcat_goal_cadence :: "int64 option"
  xcat_goal_cadence_frequency :: "int64 option"
  xcat_goal_creation_month :: "'d option"
  xcat_goal_target :: "int64 option"
  xcat_goal_target_month :: "'d option"
  xcat_goal_target_date :: "'d option"
  xcat_goal_percentage_complete :: "int64 option"
  xcat_goal_months_to_budget :: "int64 option"
  xcat_goal_under_funded :: "int64 option"
  xcat_goal_overall_funded :: "int64 option"
  xcat_goal_overall_left :: "int64 option"
  xcat_goal_snoozed_at :: "time option"
  xcat_deleted :: bool

record api_payee =
  xpay_id :: string
  xpay_name :: string
  xpay_transfer_account_id :: "string option"
  xpay_deleted :: bool

record 'd api_transaction =
  xtx_id :: string
  xtx_date :: "'d"
  xtx_amount :: int64
  xtx_memo :: "string option"
  xtx_cleared :: string
  xtx_approved :: bool
  xtx_flag_color :: "string option"
  xtx_flag_name :: "string option"
  xtx_account_id :: string
  xtx_payee_id :: "string option"
  xtx_category_id :: "string option"
  xtx_transfer_account_id :: "string option"
  xtx_transfer_transaction_id :: "string option"
  xtx_matched_transaction_id :: "string option"
  xtx_import_id :: "string option"
  xtx_import_payee_name :: "string option"
  xtx_import_payee_name_original :: "string option"
  xtx_debt_transaction_type :: "string option"
  xtx_deleted :: bool

record api_subtransaction =
  xsub_id :: string
  xsub_transaction_id :: string
  xsub_amount :: int64
  xsub_memo :: "string option"
  xsub_payee_id :: "string option"
  xsub_category_id :: "string option"
  xsub_transfer_account_id :: "string option"
  xsub_transfer_transaction_id :: "string option"
  xsub_deleted :: bool

record 'd api_month =
  xmon_month :: "'d"
  xmon_note :: "string option"
  xmon_income :: int64
  xmon_budgeted :: int64
  xmon_activity :: int64
  xmon_to_be_budgeted :: int64
  xmon_age_of_money :: "int64 option"
  xmon_deleted :: bool
  xmon_categories :: "'d api_category list"

record 'd api_scheduled =
  xsch_id :: string
  xsch_date_first :: "'d"
  xsch_date_next :: "'d"
  xsch_frequency :: string
  xsch_amount :: int64
  xsch_memo :: "string option"
  xsch_flag_color :: "string option"
  xsch_flag_name :: "string option"
  xsch_account_id :: string
  xsch_payee_id :: "string option"
  xsch_category_id :: "string option"
  xsch_transfer_account_id :: "string option"
  xsch_deleted :: bool

record api_scheduled_sub =
  xssub_id :: string
  xssub_scheduled_transaction_id :: string
  xssub_amount :: int64
  xssub_memo :: "string option"
  xssub_payee_id :: "string option"
  xssub_category_id :: "string option"
  xssub_transfer_account_id :: "string option"
  xssub_deleted :: bool

record 'd plan_detail =
  pd_accounts :: "api_account list"
  pd_category_groups :: "api_category_group list"
  pd_categories :: "'d api_category list"
  pd_payees :: "api_payee list"
  pd_transactions :: "'d api_transaction list"
  pd_subtransactions :: "api_subtransaction list"
  pd_months :: "'d api_month list"
  pd_scheduled_transactions :: "'d api_scheduled list"
  pd_scheduled_subtransactions :: "api_scheduled_sub list"

record batch =
  b_accounts :: "account list"
  b_category_groups :: "category_group list"
  b_categories :: "category list"
  b_payees :: "payee list"
  b_transactions :: "transaction list"
  b_subs :: "subtransaction list"
  b_months :: "month list"
  b_month_cats :: "month_category list"
  b_scheduled :: "scheduled_transaction list"
  b_scheduled_subs :: "scheduled_subtransaction list"

definition empty_batch :: batch where
  "empty_batch = \<lparr>b_accounts = [], b_category_groups = [], b_categories = [], b_payees = [], b_transactions = [],
     b_subs = [], b_months = [], b_month_cats = [], b_scheduled = [], b_scheduled_subs = []\<rparr>"

subsection \<open>Pointers\<close>

definition milliPtr :: "int64 option \<Rightarrow> int64 option" where
  "milliPtr m = (case m of None \<Rightarrow> None | Some v \<Rightarrow> Some v)"

definition intPtr :: "int64 option \<Rightarrow> int64 option" where
  "intPtr i = (case i of None \<Rightarrow> None | Some v \<Rightarrow> Some v)"

definition strPtr :: "string option \<Rightarrow> string option" where
  "strPtr s = (case s of None \<Rightarrow> None | Some v \<Rightarrow> Some v)"

definition datePtr :: "('d \<Rightarrow> string) \<Rightarrow> 'd option \<Rightarrow> string option" where
  "datePtr dstr d = (case d of None \<Rightarrow> None | Some v \<Rightarrow> Some (dstr v))"

definition periodic_of :: "periodic \<Rightarrow> periodic" where
  "periodic_of p = (if length p = 0 then [] else map (\<lambda>(k, v). (k, v)) p)"

subsection \<open>Rows\<close>

definition mapAccount :: "api_account \<Rightarrow> account" where
  "mapAccount a = \<lparr>
     acc_id = xacc_id a, acc_name = xacc_name a, acc_type = xacc_type a,
     acc_on_budget = xacc_on_budget a, acc_closed = xacc_closed a, acc_note = xacc_note a,
     acc_balance = xacc_balance a, acc_cleared_balance = xacc_cleared_balance a,
     acc_uncleared_balance = xacc_uncleared_balance a,
     acc_transfer_payee_id = xacc_transfer_payee_id a,
     acc_direct_import_linked = xacc_direct_import_linked a,
     acc_direct_import_in_error = xacc_direct_import_in_error a,
     acc_last_reconciled_at = xacc_last_reconciled_at a,
     acc_debt_original_balance = milliPtr (xacc_debt_original_balance a),
     acc_debt_interest_rates = periodic_of (xacc_debt_interest_rates a),
     acc_debt_minimum_payments = periodic_of (xacc_debt_minimum_payments a),
     acc_debt_escrow_amounts = periodic_of (xacc_debt_escrow_amounts a),
     acc_deleted = xacc_deleted a\<rparr>"

definition mapCategoryGroup :: "api_category_group \<Rightarrow> category_group" where
  "mapCategoryGroup g = \<lparr>
     grp_id = xgrp_id g, grp_name = xgrp_name g, grp_hidden = xgrp_hidden g,
     grp_internal = xgrp_internal g, grp_deleted = xgrp_deleted g\<rparr>"

definition mapCategory :: "('d \<Rightarrow> string) \<Rightarrow> 'd api_category \<Rightarrow> category" where
  "mapCategory dstr c = \<lparr>
     cat_id = xcat_id c, cat_category_group_id = xcat_category_group_id c, cat_name = xcat_name c,
     cat_hidden = xcat_hidden c, cat_internal = xcat_internal c,
     cat_original_category_group_id = xcat_original_category_group_id c, cat_note = xcat_note c,
     cat_budgeted = xcat_budgeted c, cat_activity = xcat_activity c, cat_balance = xcat_balance c,
     cat_goal_type = strPtr (xcat_goal_type c),
     cat_goal_needs_whole_amount = xcat_goal_needs_whole_amount c,
     cat_goal_day = intPtr (xcat_goal_day c), cat_goal_cadence = intPtr (xcat_goal_cadence c),
     cat_goal_cadence_frequency = intPtr (xcat_goal_cadence_frequency c),
     cat_goal_creation_month = datePtr dstr (xcat_goal_creation_month c),
     cat_goal_target = milliPtr (xcat_goal_target c),
     cat_goal_target_month = datePtr dstr (xcat_goal_target_month c),
     cat_goal_target_date = datePtr dstr (xcat_goal_target_date c),
     cat_goal_percentage_complete = intPtr (xcat_goal_percentage_complete c),
     cat_goal_months_to_budget = intPtr (xcat_goal_months_to_budget c),
     cat_goal_under_funded = milliPtr (xcat_goal_under_funded c),
     cat_goal_overall_funded = milliPtr (xcat_goal_overall_funded c),
     cat_goal_overall_left = milliPtr (xcat_goal_overall_left c),
     cat_goal_snoozed_at = xcat_goal_snoozed_at c, cat_deleted = xcat_deleted c\<rparr>"

definition mapPayee :: "api_payee \<Rightarrow> payee" where
  "mapPayee x = \<lparr>
     pay_id = xpay_id x, pay_name = xpay_name x,
     pay_transfer_account_id = xpay_transfer_account_id x, pay_deleted = xpay_deleted x\<rparr>"

definition mapTransaction :: "('d \<Rightarrow> string) \<Rightarrow> 'd api_transaction \<Rightarrow> transaction" where
  "mapTransaction dstr t = \<lparr>
     tx_id = xtx_id t, tx_date = dstr (xtx_date t), tx_amount = xtx_amount t, tx_memo = xtx_memo t,
     tx_cleared = xtx_cleared t, tx_approved = xtx_approved t,
     tx_flag_color = strPtr (xtx_flag_color t), tx_flag_name = xtx_flag_name t,
     tx_account_id = xtx_account_id t, tx_payee_id = xtx_payee_id t,
     tx_category_id = xtx_category_id t, tx_transfer_account_id = xtx_transfer_account_id t,
     tx_transfer_transaction_id = xtx_transfer_transaction_id t,
     tx_matched_transaction_id = xtx_matched_transaction_id t, tx_import_id = xtx_import_id t,
     tx_import_payee_name = xtx_import_payee_name t,
     tx_import_payee_name_original = xtx_import_payee_name_original t,
     tx_debt_transaction_type = strPtr (xtx_debt_transaction_type t), tx_deleted = xtx_deleted t\<rparr>"

definition mapSubtransaction :: "api_subtransaction \<Rightarrow> subtransaction" where
  "mapSubtransaction s = \<lparr>
     sub_id = xsub_id s, sub_transaction_id = xsub_transaction_id s, sub_amount = xsub_amount s,
     sub_memo = xsub_memo s, sub_payee_id = xsub_payee_id s, sub_category_id = xsub_category_id s,
     sub_transfer_account_id = xsub_transfer_account_id s,
     sub_transfer_transaction_id = xsub_transfer_transaction_id s, sub_deleted = xsub_deleted s\<rparr>"

definition mapMonth :: "('d \<Rightarrow> string) \<Rightarrow> 'd api_month \<Rightarrow> month" where
  "mapMonth dstr m = \<lparr>
     mon_month = dstr (xmon_month m), mon_note = xmon_note m, mon_income = xmon_income m,
     mon_budgeted = xmon_budgeted m, mon_activity = xmon_activity m,
     mon_to_be_budgeted = xmon_to_be_budgeted m, mon_age_of_money = intPtr (xmon_age_of_money m),
     mon_deleted = xmon_deleted m\<rparr>"

definition mapMonthCategory :: "string \<Rightarrow> 'd api_category \<Rightarrow> month_category" where
  "mapMonthCategory mon c = \<lparr>
     mc_month = mon, mc_category_id = xcat_id c, mc_budgeted = xcat_budgeted c,
     mc_activity = xcat_activity c, mc_balance = xcat_balance c,
     mc_goal_target = milliPtr (xcat_goal_target c),
     mc_goal_under_funded = milliPtr (xcat_goal_under_funded c),
     mc_goal_overall_funded = milliPtr (xcat_goal_overall_funded c),
     mc_goal_overall_left = milliPtr (xcat_goal_overall_left c),
     mc_goal_percentage_complete = intPtr (xcat_goal_percentage_complete c),
     mc_deleted = xcat_deleted c\<rparr>"

definition mapScheduled :: "('d \<Rightarrow> string) \<Rightarrow> 'd api_scheduled \<Rightarrow> scheduled_transaction" where
  "mapScheduled dstr s = \<lparr>
     sch_id = xsch_id s, sch_date_first = dstr (xsch_date_first s),
     sch_date_next = dstr (xsch_date_next s), sch_frequency = xsch_frequency s,
     sch_amount = xsch_amount s, sch_memo = xsch_memo s,
     sch_flag_color = strPtr (xsch_flag_color s), sch_flag_name = xsch_flag_name s,
     sch_account_id = xsch_account_id s, sch_payee_id = xsch_payee_id s,
     sch_category_id = xsch_category_id s, sch_transfer_account_id = xsch_transfer_account_id s,
     sch_deleted = xsch_deleted s\<rparr>"

definition mapScheduledSub :: "api_scheduled_sub \<Rightarrow> scheduled_subtransaction" where
  "mapScheduledSub s = \<lparr>
     ssub_id = xssub_id s, ssub_scheduled_transaction_id = xssub_scheduled_transaction_id s,
     ssub_amount = xssub_amount s, ssub_memo = xssub_memo s, ssub_payee_id = xssub_payee_id s,
     ssub_category_id = xssub_category_id s,
     ssub_transfer_account_id = xssub_transfer_account_id s, ssub_deleted = xssub_deleted s\<rparr>"

text \<open>\<open>mapPlan\<close>: a nil plan is an empty batch; a month's categories become month categories.\<close>

definition mapPlan :: "('d \<Rightarrow> string) \<Rightarrow> 'd plan_detail option \<Rightarrow> batch" where
  "mapPlan dstr detail =
     (case detail of
        None \<Rightarrow> empty_batch
      | Some p \<Rightarrow> \<lparr>
          b_accounts = map mapAccount (pd_accounts p),
          b_category_groups = map mapCategoryGroup (pd_category_groups p),
          b_categories = map (mapCategory dstr) (pd_categories p),
          b_payees = map mapPayee (pd_payees p),
          b_transactions = map (mapTransaction dstr) (pd_transactions p),
          b_subs = map mapSubtransaction (pd_subtransactions p),
          b_months = map (mapMonth dstr) (pd_months p),
          b_month_cats = concat (map (\<lambda>m. map (mapMonthCategory (dstr (xmon_month m))) (xmon_categories m)) (pd_months p)),
          b_scheduled = map (mapScheduled dstr) (pd_scheduled_transactions p),
          b_scheduled_subs = map mapScheduledSub (pd_scheduled_subtransactions p)\<rparr>)"

text \<open>The month of a month category is one of the batch's months.\<close>

definition months_cover :: "batch \<Rightarrow> bool" where
  "months_cover b = list_all (\<lambda>c. mc_month c \<in> mon_month ` set (b_months b)) (b_month_cats b)"

lemma mapPlan_months_cover: "months_cover (mapPlan dstr detail)"
  by (auto simp: months_cover_def mapPlan_def empty_batch_def mapMonth_def mapMonthCategory_def list_all_iff image_image
      split: option.splits)

end
