(* ===== verification/MirrorFacts.thy ===== *)
theory MirrorFacts
  imports StoreMirror
begin

text \<open>
  What the mirror's writes do to the tables: each loop of upserts is a fold on one table, so the
  facts of \<open>keyed_table\<close> apply to it; nothing else changes. \<open>fold_puts\<close> collects the folds.
\<close>

named_theorems fold_puts \<open>a loop of upserts as a fold on its table\<close>

lemma fold_put_account [fold_puts]:
  "fold (put_account p) rs d = d\<lparr>accounts := fold (\<lambda>a. tbl_upsert (p, acc_id a)
       (account_rec.extend (account_args a) (account_row.fields None))
       (\<lambda>old. account_rec.extend (account_args a) (account_row.fields (acc_tax_bucket old)))) rs (accounts d)\<rparr>"
  by (induction rs arbitrary: d) (simp_all add: put_account_def)

lemma fold_put_category_group [fold_puts]:
  "fold (put_category_group p) rs d =
     d\<lparr>category_groups := fold (\<lambda>g. tbl_upsert (p, grp_id g) g (\<lambda>_. g)) rs (category_groups d)\<rparr>"
  by (induction rs arbitrary: d) (simp_all add: put_category_group_def)

lemma fold_put_category [fold_puts]:
  "fold (put_category p) rs d =
     d\<lparr>categories := fold (\<lambda>c. tbl_upsert (p, cat_id c) (category_args c) (\<lambda>_. category_args c)) rs (categories d)\<rparr>"
  by (induction rs arbitrary: d) (simp_all add: put_category_def)

lemma fold_put_payee [fold_puts]:
  "fold (put_payee p) rs d = d\<lparr>payees := fold (\<lambda>x. tbl_upsert (p, pay_id x) x (\<lambda>_. x)) rs (payees d)\<rparr>"
  by (induction rs arbitrary: d) (simp_all add: put_payee_def)

lemma fold_put_transaction [fold_puts]:
  "fold (put_transaction p now) rs d = d\<lparr>transactions := fold (\<lambda>x. tbl_upsert (p, tx_id x)
       (transaction.extend x (transaction_row.fields now))
       (\<lambda>old. transaction.extend x (transaction_row.fields
          (if tx_import_id old = None \<and> tx_import_id x \<noteq> None then now else tx_first_seen_at old))))
       rs (transactions d)\<rparr>"
  by (induction rs arbitrary: d) (simp_all add: put_transaction_def)

lemma fold_put_subtransaction [fold_puts]:
  "fold (put_subtransaction p) rs d =
     d\<lparr>subtransactions := fold (\<lambda>s. tbl_upsert (p, sub_id s) s (\<lambda>_. s)) rs (subtransactions d)\<rparr>"
  by (induction rs arbitrary: d) (simp_all add: put_subtransaction_def)

lemma fold_put_month [fold_puts]:
  "fold (put_month p) rs d = d\<lparr>months := fold (\<lambda>m. tbl_upsert (p, mon_month m) m (\<lambda>_. m)) rs (months d)\<rparr>"
  by (induction rs arbitrary: d) (simp_all add: put_month_def)

lemma fold_put_month_category [fold_puts]:
  "fold (put_month_category p) rs d = d\<lparr>month_categories :=
     fold (\<lambda>m. tbl_upsert (p, mc_month m, mc_category_id m) m (\<lambda>_. m)) rs (month_categories d)\<rparr>"
  by (induction rs arbitrary: d) (simp_all add: put_month_category_def)

lemma fold_put_scheduled [fold_puts]:
  "fold (put_scheduled p) rs d = d\<lparr>scheduled_transactions :=
     fold (\<lambda>s. tbl_upsert (p, sch_id s) s (\<lambda>_. s)) rs (scheduled_transactions d)\<rparr>"
  by (induction rs arbitrary: d) (simp_all add: put_scheduled_def)

lemma fold_put_scheduled_sub [fold_puts]:
  "fold (put_scheduled_sub p) rs d = d\<lparr>scheduled_subtransactions :=
     fold (\<lambda>s. tbl_upsert (p, ssub_id s) s (\<lambda>_. s)) rs (scheduled_subtransactions d)\<rparr>"
  by (induction rs arbitrary: d) (simp_all add: put_scheduled_sub_def)

subsection \<open>Rows of a table that is only overwritten\<close>

text \<open>A loop of plain upserts leaves each row either old or one of the batch, under its own key.\<close>

lemma fold_upsert_rows:
  assumes "(k, v) \<in> set (fold (\<lambda>r. tbl_upsert (key r) r (\<lambda>_. r)) rs t)"
  shows "(k, v) \<in> set t \<or> (v \<in> set rs \<and> k = key v)"
proof -
  have one: "(k, v) \<in> set (tbl_upsert j r (\<lambda>_. r) t) \<Longrightarrow> (k, v) \<in> set t \<or> (v = r \<and> k = j)" for j r t
    by (induction t) (auto split: if_splits)
  show ?thesis using assms
  proof (induction rs arbitrary: t)
    case (Cons r rs)
    then show ?case using one [of "key r" r t] by auto
  qed simp
qed

lemma tbl_upsert_same: "tbl_get t k = Some v \<Longrightarrow> f v = v \<Longrightarrow> tbl_upsert k n f t = t"
  by (induction t) (auto split: if_splits)

lemma fold_upsert_id:
  assumes "\<And>r. r \<in> set rs \<Longrightarrow> tbl_get t (key r) = Some r"
  shows "fold (\<lambda>r. tbl_upsert (key r) r (\<lambda>_. r)) rs t = t"
  using assms by (induction rs) (simp_all add: tbl_upsert_same)

lemma fold_upsert_all:
  assumes "distinct (map key rs)" and "r \<in> set rs"
  shows "tbl_get (fold (\<lambda>r. tbl_upsert (key r) r (\<lambda>_. r)) rs t) (key r) = Some r"
proof -
  obtain qs rs' where rs: "rs = qs @ r # rs'" using split_list [OF assms(2)] by blast
  with assms(1) have "key r \<notin> key ` set rs'" by auto
  from table.get_fold_last [where new = "\<lambda>r. r" and upd = "\<lambda>r _. r", OF this, of qs t]
  show ?thesis by (simp add: rs split: option.splits)
qed

text \<open>Writing a batch without duplicate keys a second time changes nothing.\<close>

lemma fold_upsert_twice:
  assumes "distinct (map key rs)"
  shows "fold (\<lambda>r. tbl_upsert (key r) r (\<lambda>_. r)) rs (fold (\<lambda>r. tbl_upsert (key r) r (\<lambda>_. r)) rs t) =
    fold (\<lambda>r. tbl_upsert (key r) r (\<lambda>_. r)) rs t"
  by (rule fold_upsert_id) (rule fold_upsert_all [OF assms])

text \<open>The same for writes that keep or recompute some column: a second write, with columns of its own.\<close>

lemma fold_upsert_again:
  assumes "distinct (map key rs)"
    and "\<And>r. r \<in> set rs \<Longrightarrow> upd' r (new r) = new r"
    and "\<And>r v. r \<in> set rs \<Longrightarrow> upd' r (upd r v) = upd r v"
  shows "fold (\<lambda>r. tbl_upsert (key r) (new' r) (upd' r)) rs (fold (\<lambda>r. tbl_upsert (key r) (new r) (upd r)) rs t) =
    fold (\<lambda>r. tbl_upsert (key r) (new r) (upd r)) rs t"
proof -
  let ?T = "fold (\<lambda>r. tbl_upsert (key r) (new r) (upd r)) rs t"
  have "tbl_upsert (key r) (new' r) (upd' r) ?T = ?T" if r: "r \<in> set rs" for r
  proof -
    obtain qs rs' where rs: "rs = qs @ r # rs'" using split_list [OF r] by blast
    with assms(1) have "key r \<notin> key ` set rs'" by auto
    from table.get_fold_last [where new = new and upd = upd, OF this, of qs t] rs
    obtain w where w: "tbl_get ?T (key r) = Some w" "w = new r \<or> (\<exists>v. w = upd r v)"
      by (auto simp del: fold_append fold_simps split: option.splits)
    have "upd' r w = w" using w(2) assms(2,3) [OF r] by auto
    then show ?thesis by (rule tbl_upsert_same [OF w(1)])
  qed
  then have "set xs \<subseteq> set rs \<Longrightarrow> fold (\<lambda>r. tbl_upsert (key r) (new' r) (upd' r)) xs ?T = ?T" for xs
    by (induction xs) simp_all
  then show ?thesis by simp
qed

subsection \<open>Accounts\<close>

lemma account_args_simps [simp]:
  "acc_id (account_args a) = acc_id a"
  "acc_direct_import_in_error (account_args a) = acc_direct_import_in_error a"
  "acc_deleted (account_args a) = acc_deleted a"
  by (simp_all add: account_args_def)

lemma account_row_sel [simp]:
  "acc_tax_bucket (account_rec.extend r (account_row.fields b)) = b"
  "acc_direct_import_in_error (account_rec.extend r (account_row.fields b)) = acc_direct_import_in_error r"
  "acc_deleted (account_rec.extend r (account_row.fields b)) = acc_deleted r"
  by (simp_all add: account_rec.defs account_row.defs)

text \<open>The local tag of an account survives any number of upserts; a new account has none.\<close>

definition bucket_of :: "db \<Rightarrow> key \<Rightarrow> string option" where
  "bucket_of d k = (case tbl_get (accounts d) k of None \<Rightarrow> None | Some r \<Rightarrow> acc_tax_bucket r)"

lemma put_account_bucket [simp]: "bucket_of (put_account p a d) k = bucket_of d k"
  by (simp add: bucket_of_def put_account_def table_simps split: option.splits)

lemma fold_put_account_bucket: "bucket_of (fold (put_account p) rs d) k = bucket_of d k"
  by (induction rs arbitrary: d) simp_all

subsection \<open>Transactions\<close>

lemma transaction_row_sel [simp]:
  "tx_first_seen_at (transaction.extend x (transaction_row.fields s)) = s"
  "tx_import_id (transaction.extend x (transaction_row.fields s)) = tx_import_id x"
  "tx_id (transaction.extend x (transaction_row.fields s)) = tx_id x"
  "tx_deleted (transaction.extend x (transaction_row.fields s)) = tx_deleted x"
  by (simp_all add: transaction.defs transaction_row.defs)

text \<open>When the mirror first saw a transaction, as one write changes it.\<close>

definition first_seen :: "db \<Rightarrow> key \<Rightarrow> string option" where
  "first_seen d k = map_option tx_first_seen_at (tbl_get (transactions d) k)"

definition has_import :: "db \<Rightarrow> key \<Rightarrow> bool" where
  "has_import d k = (case tbl_get (transactions d) k of None \<Rightarrow> False | Some r \<Rightarrow> tx_import_id r \<noteq> None)"

lemma put_transaction_first_seen:
  "first_seen (put_transaction p now x d) k =
     (if k = (p, tx_id x) \<and> (tbl_get (transactions d) k = None \<or> (\<not> has_import d k \<and> tx_import_id x \<noteq> None))
      then Some now else first_seen d k)"
  by (auto simp: first_seen_def has_import_def put_transaction_def table_simps split: option.splits)

lemma fold_put_transaction_dom:
  "(\<exists>v. tbl_get (transactions (fold (put_transaction p now) rs d)) k = Some v) \<longleftrightarrow>
     k \<in> (\<lambda>x. (p, tx_id x)) ` set rs \<or> (\<exists>v. tbl_get (transactions d) k = Some v)"
  by (induction rs arbitrary: d) (auto simp: put_transaction_def table_simps)

lemma fold_put_scheduled_dom:
  "(\<exists>v. tbl_get (scheduled_transactions (fold (put_scheduled p) rs d)) k = Some v) \<longleftrightarrow>
     k \<in> (\<lambda>x. (p, sch_id x)) ` set rs \<or> (\<exists>v. tbl_get (scheduled_transactions d) k = Some v)"
  by (induction rs arbitrary: d) (auto simp: put_scheduled_def table_simps)

lemma fold_put_month_dom:
  "(\<exists>v. tbl_get (months (fold (put_month p) rs d)) k = Some v) \<longleftrightarrow>
     k \<in> (\<lambda>x. (p, mon_month x)) ` set rs \<or> (\<exists>v. tbl_get (months d) k = Some v)"
  by (induction rs arbitrary: d) (auto simp: put_month_def table_simps)

text \<open>A second write of the same rows, at any later time, changes no row.\<close>

lemma fold_put_transaction_twice:
  "distinct (map tx_id rs) \<Longrightarrow>
     fold (put_transaction p now') rs (fold (put_transaction p now) rs d) = fold (put_transaction p now) rs d"
  unfolding fold_put_transaction
  by (simp, rule arg_cong [where f = "\<lambda>T. d\<lparr>transactions := T\<rparr>"], rule fold_upsert_again)
    (auto simp: distinct_map inj_on_def)

lemma fold_put_account_twice:
  "distinct (map acc_id rs) \<Longrightarrow>
     fold (put_account p) rs (fold (put_account p) rs d) = fold (put_account p) rs d"
  unfolding fold_put_account
  by (simp, rule arg_cong [where f = "\<lambda>T. d\<lparr>accounts := T\<rparr>"], rule fold_upsert_again)
    (auto simp: distinct_map inj_on_def)

text \<open>When a batch of distinct transactions stamps a row, and that it leaves the others alone.\<close>

lemma fold_put_transaction_other:
  "k \<notin> (\<lambda>x. (p, tx_id x)) ` set rs \<Longrightarrow>
     tbl_get (transactions (fold (put_transaction p now) rs d)) k = tbl_get (transactions d) k"
  unfolding fold_put_transaction
  using table.get_fold_other [where key = "\<lambda>x. (p, tx_id x)" and rs = rs and k = k] by simp

lemma fold_put_transaction_first_seen:
  assumes "distinct (map tx_id rs)" and "x \<in> set rs" and k_def: "k = (p, tx_id x)"
  shows "first_seen (fold (put_transaction p now) rs d) k =
     (if tbl_get (transactions d) k = None \<or> (\<not> has_import d k \<and> tx_import_id x \<noteq> None)
      then Some now else first_seen d k)"
proof -
  obtain qs rs' where rs: "rs = qs @ x # rs'" using split_list [OF assms(2)] by blast
  with assms(1) have fresh: "k \<notin> (\<lambda>x. (p, tx_id x)) ` set qs" "k \<notin> (\<lambda>x. (p, tx_id x)) ` set rs'"
    by (auto simp: k_def)
  let ?d = "fold (put_transaction p now) qs d"
  have same: "tbl_get (transactions ?d) k = tbl_get (transactions d) k"
    by (rule fold_put_transaction_other [OF fresh(1)])
  have "first_seen (fold (put_transaction p now) rs d) k = first_seen (put_transaction p now x ?d) k"
    by (simp add: rs first_seen_def fold_put_transaction_other [OF fresh(2)])
  moreover have "first_seen ?d k = first_seen d k" "has_import ?d k = has_import d k"
    by (simp_all add: first_seen_def has_import_def same)
  ultimately show ?thesis unfolding put_transaction_first_seen k_def [symmetric] same by auto
qed

subsection \<open>The cursor\<close>

lemma GetSyncState_put:
  assumes "storable (ss_synced_at s)"
  shows "GetSyncState None (put_sync_state s d) (ss_plan_id s) = Inr (Some s)"
  using parseTime_formatTime [OF assms]
  by (cases s) (simp add: GetSyncState_def put_sync_state_def Let_def table_simps split: option.splits)

lemma GetSyncState_put_other:
  "p \<noteq> ss_plan_id s \<Longrightarrow> GetSyncState flt (put_sync_state s d) p = GetSyncState flt d p"
  by (cases flt) (simp_all add: GetSyncState_def put_sync_state_def Let_def table_simps)

end
