(* ===== verification/SyncTick.thy ===== *)
theory SyncTick
  imports SyncMapping MirrorFacts GoText
begin

text \<open>
  \<open>sync/sync.go\<close> and the tick's part of \<open>sync/mirror.go\<close>: one tick reads the cursor, fetches an
  export or a delta, ties subtransactions to their parents, finds bank-link changes, and writes
  rows and cursor in one transaction. The YNAB client is a parameter (its \<open>PlanAPI\<close> interface);
  the reads of the mirror see the committed database of the connection.
\<close>

subsection \<open>Tying subtransactions to their parents\<close>

text \<open>
  \<open>has\<close>: whether an id is in the batch or already mirrored; an id found in the mirror is remembered
  in the batch map (here the list of its keys). \<open>flt\<close> is a failure of the lookup.
\<close>

definition has :: "error option \<Rightarrow> string list \<Rightarrow> (string \<Rightarrow> bool) \<Rightarrow> string \<Rightarrow> string \<Rightarrow> (bool \<times> string list) result" where
  "has flt batch mirrored table key =
     (if key \<in> set batch then Inr (True, batch)
      else (case flt of
              Some e \<Rightarrow> Inl (wrapError (''sync: look up '' @ table @ '' parent'') e)
            | None \<Rightarrow> if mirrored key then Inr (True, key # batch) else Inr (False, batch)))"

text \<open>The loop over \<open>b.subs\<close> (and the one over \<open>b.scheduledSubs\<close>): the kept rows and the orphan count.\<close>

fun keep_children ::
    "(nat \<Rightarrow> error option) \<Rightarrow> (string \<Rightarrow> bool) \<Rightarrow> string \<Rightarrow> ('s \<Rightarrow> string) \<Rightarrow> nat \<Rightarrow> string list \<Rightarrow> 's list \<Rightarrow>
     ('s list \<times> nat) result" where
  "keep_children flt mirrored table parent i batch [] = Inr ([], 0)"
| "keep_children flt mirrored table parent i batch (s # ss) =
     (case has (flt i) batch mirrored table (parent s) of
        Inl e \<Rightarrow> Inl e
      | Inr (ok, batch') \<Rightarrow>
          (case keep_children flt mirrored table parent (Suc i) batch' ss of
             Inl e \<Rightarrow> Inl e
           | Inr (kept, orphans) \<Rightarrow> Inr (if ok then s # kept else kept, if ok then orphans else Suc orphans)))"

text \<open>A query of several rows fails itself, or afterwards with \<open>rows.Err\<close>.\<close>

datatype rows_fault = AtQuery error | AtRows error

text \<open>\<open>liveSubs\<close>: the mirrored, not yet deleted children of a transaction.\<close>

definition liveSubs :: "rows_fault option \<Rightarrow> db \<Rightarrow> string \<Rightarrow> string \<Rightarrow> subtransaction list result" where
  "liveSubs flt d plan txnID =
     (case flt of
        Some (AtQuery e) \<Rightarrow> Inl (wrapError ''sync: read subtransactions'' e)
      | Some (AtRows e) \<Rightarrow> Inl e
      | None \<Rightarrow> Inr (map (\<lambda>((_, sid), s). s\<lparr>sub_id := sid, sub_transaction_id := txnID, sub_deleted := False\<rparr>)
          (filter (\<lambda>((p, _), s). p = plan \<and> sub_transaction_id s = txnID \<and> \<not> sub_deleted s) (subtransactions d))))"

text \<open>The loop over tombstoned parents: their live children the batch does not mention are tombstoned too.\<close>

fun tombstones ::
    "(nat \<Rightarrow> rows_fault option) \<Rightarrow> db \<Rightarrow> string \<Rightarrow> string list \<Rightarrow> nat \<Rightarrow> transaction list \<Rightarrow> subtransaction list result" where
  "tombstones flt d plan seen i [] = Inr []"
| "tombstones flt d plan seen i (t # ts) =
     (if \<not> tx_deleted t then tombstones flt d plan seen (Suc i) ts
      else (case liveSubs (flt i) d plan (tx_id t) of
              Inl e \<Rightarrow> Inl e
            | Inr children \<Rightarrow>
                (case tombstones flt d plan seen (Suc i) ts of
                   Inl e \<Rightarrow> Inl e
                 | Inr rest \<Rightarrow>
                     Inr (map (\<lambda>c. c\<lparr>sub_deleted := True\<rparr>) (filter (\<lambda>c. sub_id c \<notin> set seen) children) @ rest))))"

record read_faults =
  cursor_fault :: "error option"
  parent_fault :: "nat \<Rightarrow> error option"
  children_fault :: "nat \<Rightarrow> rows_fault option"
  sched_fault :: "nat \<Rightarrow> error option"
  link_fault :: "error option"

definition no_read_faults :: read_faults where
  "no_read_faults = \<lparr>cursor_fault = None, parent_fault = (\<lambda>_. None), children_fault = (\<lambda>_. None),
     sched_fault = (\<lambda>_. None), link_fault = None\<rparr>"

definition mirrored_txn :: "db \<Rightarrow> string \<Rightarrow> string \<Rightarrow> bool" where
  "mirrored_txn d plan key = (tbl_get (transactions d) (plan, key) \<noteq> None)"

definition mirrored_sched :: "db \<Rightarrow> string \<Rightarrow> string \<Rightarrow> bool" where
  "mirrored_sched d plan key = (tbl_get (scheduled_transactions d) (plan, key) \<noteq> None)"

definition stitch :: "read_faults \<Rightarrow> db \<Rightarrow> string \<Rightarrow> batch \<Rightarrow> (batch \<times> nat) result" where
  "stitch flt d plan b =
     (case keep_children (parent_fault flt) (mirrored_txn d plan) ''transactions'' sub_transaction_id 0
             (map tx_id (b_transactions b)) (b_subs b) of
        Inl e \<Rightarrow> Inl e
      | Inr (subs, orphans) \<Rightarrow>
          (case tombstones (children_fault flt) d plan (map sub_id subs) 0 (b_transactions b) of
             Inl e \<Rightarrow> Inl e
           | Inr stones \<Rightarrow>
               (case keep_children (sched_fault flt) (mirrored_sched d plan) ''scheduled_transactions''
                       ssub_scheduled_transaction_id 0 (map sch_id (b_scheduled b)) (b_scheduled_subs b) of
                  Inl e \<Rightarrow> Inl e
                | Inr (ssubs, orphans') \<Rightarrow>
                    Inr (b\<lparr>b_subs := subs @ stones, b_scheduled_subs := ssubs\<rparr>, orphans + orphans'))))"

subsection \<open>Bank-link events\<close>

record link_event =
  le_account_id :: string
  le_account_name :: string
  le_in_error :: bool

text \<open>\<open>prior\<close>: the mirrored state; an account the mirror does not have counts as healthy.\<close>

definition prior_in_error :: "db \<Rightarrow> string \<Rightarrow> string \<Rightarrow> bool" where
  "prior_in_error d plan key =
     (case tbl_get (accounts d) (plan, key) of None \<Rightarrow> False | Some r \<Rightarrow> acc_direct_import_in_error r)"

definition linkEvents :: "error option \<Rightarrow> db \<Rightarrow> string \<Rightarrow> account list \<Rightarrow> link_event list result" where
  "linkEvents flt d plan accts =
     (case flt of
        Some e \<Rightarrow> Inl (wrapError ''sync: read link state'' e)
      | None \<Rightarrow> Inr (map (\<lambda>a. \<lparr>le_account_id = acc_id a, le_account_name = acc_name a, le_in_error = acc_direct_import_in_error a\<rparr>)
          (filter (\<lambda>a. \<not> (acc_deleted a \<or> acc_direct_import_in_error a = prior_in_error d plan (acc_id a))) accts)))"

subsection \<open>Writing a batch\<close>

definition upsertBatch :: "stmt_faults \<Rightarrow> string \<Rightarrow> batch \<Rightarrow> time \<Rightarrow> db \<Rightarrow> db result" where
  "upsertBatch flt plan b syncedAt d =
     each (\<lambda>_ step d. step d) 0
       [UpsertAccounts flt plan (b_accounts b),
        UpsertCategoryGroups flt plan (b_category_groups b),
        UpsertCategories flt plan (b_categories b),
        UpsertPayees flt plan (b_payees b),
        (\<lambda>d. UpsertTransactions flt plan (b_transactions b) syncedAt d),
        UpsertSubtransactions flt plan (b_subs b),
        UpsertMonths flt plan (b_months b),
        UpsertMonthCategories flt plan (b_month_cats b),
        UpsertScheduledTransactions flt plan (b_scheduled b),
        UpsertScheduledSubtransactions flt plan (b_scheduled_subs b)] d"

definition batch_counts :: "batch \<Rightarrow> (string \<times> nat) list" where
  "batch_counts b =
     [(''accounts'', length (b_accounts b)), (''category_groups'', length (b_category_groups b)),
      (''categories'', length (b_categories b)), (''payees'', length (b_payees b)),
      (''transactions'', length (b_transactions b)), (''subtransactions'', length (b_subs b)),
      (''months'', length (b_months b)), (''month_categories'', length (b_month_cats b)),
      (''scheduled_transactions'', length (b_scheduled b)),
      (''scheduled_subtransactions'', length (b_scheduled_subs b))]"

subsection \<open>One tick\<close>

record tick_result =
  tr_initial :: bool
  tr_skipped :: bool
  tr_server_knowledge :: int64
  tr_rows :: "(string \<times> nat) list"
  tr_orphans :: nat
  tr_link_events :: "link_event list"

text \<open>The client of one plan, as the tick sees its answers: a full export, or a delta since a cursor.\<close>

record 'd plan_api =
  api_export :: "('d plan_detail option \<times> int64) result"
  api_delta :: "int64 \<Rightarrow> ('d plan_detail option \<times> int64) result"

text \<open>What the environment decides in one tick.\<close>

record tick_env =
  te_reads :: read_faults
  te_tx :: tx_faults
  te_stmt :: stmt_faults
  te_before_cursor :: "error option"
  te_now :: time

definition skippable :: "error \<Rightarrow> bool" where
  "skippable e = (errors_Is e ErrBudgetExhausted \<or> errors_Is e ErrRateLimited)"

text \<open>The body of the write transaction.\<close>

definition tick_body :: "tick_env \<Rightarrow> string \<Rightarrow> batch \<Rightarrow> int64 \<Rightarrow> db \<Rightarrow> db result" where
  "tick_body env plan b knowledge d =
     (case upsertBatch (te_stmt env) plan b (te_now env) d of
        Inl e \<Rightarrow> Inl e
      | Inr d1 \<Rightarrow>
          (case te_before_cursor env of
             Some e \<Rightarrow> Inl e
           | None \<Rightarrow> SetSyncState (te_stmt env)
               \<lparr>ss_plan_id = plan, ss_server_knowledge = knowledge, ss_synced_at = te_now env\<rparr> d1))"

definition skipped_tick :: "bool \<Rightarrow> tick_result" where
  "skipped_tick initial = \<lparr>tr_initial = initial, tr_skipped = True, tr_server_knowledge = 0, tr_rows = [],
     tr_orphans = 0, tr_link_events = []\<rparr>"

definition SyncPlan ::
    "('d \<Rightarrow> string) \<Rightarrow> tick_env \<Rightarrow> 'd plan_api \<Rightarrow> string \<Rightarrow> db conn \<Rightarrow> tick_result result \<times> db conn" where
  "SyncPlan dstr env api plan c =
     (case GetSyncState (cursor_fault (te_reads env)) (committed c) plan of
        Inl e \<Rightarrow> (Inl (wrapError ''sync: read cursor'' e), c)
      | Inr cur \<Rightarrow>
          let initial = (cur = None);
              fetched = (case cur of None \<Rightarrow> api_export api | Some s \<Rightarrow> api_delta api (ss_server_knowledge s))
          in (case fetched of
                Inl e \<Rightarrow>
                  if skippable e then (Inr (skipped_tick initial), c)
                  else (Inl (wrapError ''sync: fetch'' e), c)
              | Inr (detail, knowledge) \<Rightarrow>
                  (case stitch (te_reads env) (committed c) plan (mapPlan dstr detail) of
                     Inl e \<Rightarrow> (Inl e, c)
                   | Inr (b, orphans) \<Rightarrow>
                       (case (if initial then Inr []
                              else linkEvents (link_fault (te_reads env)) (committed c) plan (b_accounts b)) of
                          Inl e \<Rightarrow> (Inl e, c)
                        | Inr events \<Rightarrow>
                            (case Update (te_tx env) (body (tick_body env plan b knowledge)) c of
                               (out, c') \<Rightarrow>
                                 (case outcome_error out of
                                    Some e \<Rightarrow> (Inl (wrapError ''sync: apply'' e), c')
                                  | None \<Rightarrow>
                                      (Inr \<lparr>tr_initial = initial, tr_skipped = False, tr_server_knowledge = knowledge,
                                         tr_rows = batch_counts b, tr_orphans = orphans, tr_link_events = events\<rparr>, c')))))))"

subsection \<open>The import trigger\<close>

record import_result =
  ir_imported :: nat
  ir_skipped :: bool

definition TriggerImport :: "string list result \<Rightarrow> import_result result" where
  "TriggerImport ids =
     (case ids of
        Inl e \<Rightarrow> if skippable e then Inr \<lparr>ir_imported = 0, ir_skipped = True\<rparr>
                 else Inl (wrapError ''sync: import'' e)
      | Inr xs \<Rightarrow> Inr \<lparr>ir_imported = length xs, ir_skipped = False\<rparr>)"

end
