(* ===== verification/SyncFacts.thy ===== *)
theory SyncFacts
  imports SyncTick
begin

text \<open>
  What one tick guarantees: stitching keeps exactly the rows with a parent, the written state
  satisfies the foreign keys, the tick is all or nothing, a deleted parent takes its children
  along, writing a batch twice is writing it once, and a link event fires once per change.
\<close>

subsection \<open>Stitching\<close>

lemma has_Inr:
  "has flt batch mirrored table k = Inr (ok, batch') \<Longrightarrow>
     ok = (k \<in> set batch \<or> mirrored k) \<and> set batch' \<subseteq> set batch \<union> Collect mirrored \<and> set batch \<subseteq> set batch'"
  by (auto simp: has_def split: if_splits option.splits)

lemma keep_children_Inr_conj:
  "keep_children flt mirrored table parent i batch ss = Inr (kept, orphans) \<Longrightarrow>
     kept = filter (\<lambda>s. parent s \<in> set batch \<or> mirrored (parent s)) ss \<and>
     orphans = length (filter (\<lambda>s. \<not> (parent s \<in> set batch \<or> mirrored (parent s))) ss)"
proof (induction ss arbitrary: i batch kept orphans)
  case (Cons s ss)
  then obtain ok batch' kept' orphans' where h: "has (flt i) batch mirrored table (parent s) = Inr (ok, batch')"
    and r: "keep_children flt mirrored table parent (Suc i) batch' ss = Inr (kept', orphans')"
    and k: "kept = (if ok then s # kept' else kept')" "orphans = (if ok then orphans' else Suc orphans')"
    by (auto split: sum.splits)
  from has_Inr [OF h] have "\<And>x. parent x \<in> set batch' \<or> mirrored (parent x) \<longleftrightarrow> parent x \<in> set batch \<or> mirrored (parent x)"
    by auto
  with Cons.IH [OF r] k has_Inr [OF h] show ?case by auto
qed simp

lemmas keep_children_Inr = keep_children_Inr_conj [THEN conjunct1] keep_children_Inr_conj [THEN conjunct2]

lemma keep_children_no_faults:
  "\<exists>kept orphans. keep_children (\<lambda>_. None) mirrored table parent i batch ss = Inr (kept, orphans)"
proof (induction ss arbitrary: i batch)
  case (Cons s ss)
  obtain ok batch' where h: "has None batch mirrored table (parent s) = Inr (ok, batch')"
    by (cases "parent s \<in> set batch"; cases "mirrored (parent s)") (auto simp: has_def)
  from Cons [of "Suc i" batch'] show ?case by (auto simp: h)
qed simp

text \<open>The rows a tombstoned parent takes along: its live children the batch does not mention.\<close>

definition stones_of :: "db \<Rightarrow> string \<Rightarrow> string list \<Rightarrow> transaction \<Rightarrow> subtransaction set" where
  "stones_of d plan seen t =
     {s\<lparr>sub_id := k, sub_transaction_id := tx_id t, sub_deleted := True\<rparr> | s k.
        ((plan, k), s) \<in> set (subtransactions d) \<and> sub_transaction_id s = tx_id t \<and> \<not> sub_deleted s \<and> k \<notin> set seen}"

lemma stones_of_liveSubs:
  assumes "liveSubs None d plan (tx_id t) = Inr children"
  shows "set (map (\<lambda>c. c\<lparr>sub_deleted := True\<rparr>) (filter (\<lambda>c. sub_id c \<notin> set seen) children)) =
    stones_of d plan seen t"
  using assms by (force simp: liveSubs_def stones_of_def image_iff)

lemma tombstones_Inr:
  assumes "tombstones flt d plan seen i ts = Inr stones"
  shows "set stones = (\<Union>t\<in>{t \<in> set ts. tx_deleted t}. stones_of d plan seen t)"
  using assms
proof (induction ts arbitrary: i stones)
  case (Cons t ts)
  show ?case
  proof (cases "tx_deleted t")
    case False
    with Cons.prems have "tombstones flt d plan seen (Suc i) ts = Inr stones" by simp
    from Cons.IH [OF this] False show ?thesis by auto
  next
    case True
    with Cons.prems obtain rest children where r: "tombstones flt d plan seen (Suc i) ts = Inr rest"
      and c: "liveSubs None d plan (tx_id t) = Inr children"
      and s: "stones = map (\<lambda>c. c\<lparr>sub_deleted := True\<rparr>) (filter (\<lambda>c. sub_id c \<notin> set seen) children) @ rest"
      by (auto simp: liveSubs_def split: option.splits sum.splits rows_fault.splits)
    have "set stones = stones_of d plan seen t \<union> set rest"
      unfolding s set_append stones_of_liveSubs [OF c] ..
    with Cons.IH [OF r] True show ?thesis by auto
  qed
qed simp

lemma tombstones_no_faults: "\<exists>stones. tombstones (\<lambda>_. None) d plan seen i ts = Inr stones"
proof (induction ts arbitrary: i)
  case (Cons t ts)
  from Cons [of "Suc i"] show ?case by (auto simp: liveSubs_def)
qed simp

text \<open>What a stitched batch looks like, against the batch that arrived and the mirror.\<close>

definition has_parent :: "db \<Rightarrow> string \<Rightarrow> batch \<Rightarrow> subtransaction \<Rightarrow> bool" where
  "has_parent d plan b s =
     (sub_transaction_id s \<in> tx_id ` set (b_transactions b) \<or> mirrored_txn d plan (sub_transaction_id s))"

definition has_sched_parent :: "db \<Rightarrow> string \<Rightarrow> batch \<Rightarrow> scheduled_subtransaction \<Rightarrow> bool" where
  "has_sched_parent d plan b s =
     (ssub_scheduled_transaction_id s \<in> sch_id ` set (b_scheduled b) \<or>
      mirrored_sched d plan (ssub_scheduled_transaction_id s))"

lemma stitch_Inr:
  assumes "stitch flt d plan b = Inr (b', orphans)"
  obtains stones where
    "b' = b\<lparr>b_subs := filter (has_parent d plan b) (b_subs b) @ stones,
            b_scheduled_subs := filter (has_sched_parent d plan b) (b_scheduled_subs b)\<rparr>"
    "orphans = length (filter (\<lambda>s. \<not> has_parent d plan b s) (b_subs b)) +
       length (filter (\<lambda>s. \<not> has_sched_parent d plan b s) (b_scheduled_subs b))"
    "set stones = (\<Union>t\<in>{t \<in> set (b_transactions b). tx_deleted t}.
       stones_of d plan (map sub_id (filter (has_parent d plan b) (b_subs b))) t)"
proof -
  from assms obtain subs o1 stones ssubs o2 where
    k: "keep_children (parent_fault flt) (mirrored_txn d plan) ''transactions'' sub_transaction_id 0
        (map tx_id (b_transactions b)) (b_subs b) = Inr (subs, o1)"
    and t: "tombstones (children_fault flt) d plan (map sub_id subs) 0 (b_transactions b) = Inr stones"
    and s: "keep_children (sched_fault flt) (mirrored_sched d plan) ''scheduled_transactions''
        ssub_scheduled_transaction_id 0 (map sch_id (b_scheduled b)) (b_scheduled_subs b) = Inr (ssubs, o2)"
    and b': "b' = b\<lparr>b_subs := subs @ stones, b_scheduled_subs := ssubs\<rparr>" and o: "orphans = o1 + o2"
    by (auto simp: stitch_def split: sum.splits)
  have hp: "has_parent d plan b = (\<lambda>s. sub_transaction_id s \<in> set (map tx_id (b_transactions b)) \<or>
      mirrored_txn d plan (sub_transaction_id s))"
    and hs: "has_sched_parent d plan b = (\<lambda>s. ssub_scheduled_transaction_id s \<in> set (map sch_id (b_scheduled b)) \<or>
      mirrored_sched d plan (ssub_scheduled_transaction_id s))"
    by (auto simp: has_parent_def has_sched_parent_def fun_eq_iff)
  note kc = keep_children_Inr [OF k, folded hp] and sc = keep_children_Inr [OF s, folded hs]
  from tombstones_Inr [OF t] show thesis
    using that [of stones] kc sc b' o by (simp add: hp hs)
qed

lemma stitch_no_faults: "\<exists>b' orphans. stitch no_read_faults d plan b = Inr (b', orphans)"
proof -
  obtain subs o1 where k: "keep_children (\<lambda>_. None) (mirrored_txn d plan) ''transactions'' sub_transaction_id 0
        (map tx_id (b_transactions b)) (b_subs b) = Inr (subs, o1)"
    using keep_children_no_faults by blast
  moreover obtain stones where "tombstones (\<lambda>_. None) d plan (map sub_id subs) 0 (b_transactions b) = Inr stones"
    using tombstones_no_faults by blast
  moreover obtain ssubs o2 where "keep_children (\<lambda>_. None) (mirrored_sched d plan) ''scheduled_transactions''
        ssub_scheduled_transaction_id 0 (map sch_id (b_scheduled b)) (b_scheduled_subs b) = Inr (ssubs, o2)"
    using keep_children_no_faults by blast
  ultimately show ?thesis by (simp add: stitch_def no_read_faults_def)
qed

subsection \<open>The state a batch is written to\<close>

definition apply_batch :: "string \<Rightarrow> string \<Rightarrow> batch \<Rightarrow> db \<Rightarrow> db" where
  "apply_batch plan now b d =
     fold (put_scheduled_sub plan) (b_scheduled_subs b)
      (fold (put_scheduled plan) (b_scheduled b)
       (fold (put_month_category plan) (b_month_cats b)
        (fold (put_month plan) (b_months b)
         (fold (put_subtransaction plan) (b_subs b)
          (fold (put_transaction plan now) (b_transactions b)
           (fold (put_payee plan) (b_payees b)
            (fold (put_category plan) (b_categories b)
             (fold (put_category_group plan) (b_category_groups b)
              (fold (put_account plan) (b_accounts b) d)))))))))"

lemmas upsert_stmt_defs = UpsertAccounts_def UpsertCategoryGroups_def UpsertCategories_def UpsertPayees_def
  UpsertTransactions_def UpsertSubtransactions_def UpsertMonths_def UpsertMonthCategories_def
  UpsertScheduledTransactions_def UpsertScheduledSubtransactions_def

lemma upsertBatch_Inr:
  assumes "upsertBatch flt plan b t d = Inr d'"
  shows "d' = apply_batch plan (formatTime t) b d"
  using assms
  by (auto simp: upsertBatch_def upsert_stmt_defs apply_batch_def split: sum.splits dest!: upsert_Inr)

lemma upsertBatch_no_faults:
  "upsertBatch no_stmt_faults plan b t d = Inr (apply_batch plan (formatTime t) b d)"
  by (simp add: upsertBatch_def upsert_stmt_defs apply_batch_def)

text \<open>Each table of the written state.\<close>

lemma apply_batch_tables:
  "accounts (apply_batch plan now b d) = accounts (fold (put_account plan) (b_accounts b) d)"
  "transactions (apply_batch plan now b d) = transactions (fold (put_transaction plan now) (b_transactions b) d)"
  "subtransactions (apply_batch plan now b d) =
     fold (\<lambda>s. tbl_upsert (plan, sub_id s) s (\<lambda>_. s)) (b_subs b) (subtransactions d)"
  "months (apply_batch plan now b d) = fold (\<lambda>m. tbl_upsert (plan, mon_month m) m (\<lambda>_. m)) (b_months b) (months d)"
  "month_categories (apply_batch plan now b d) =
     fold (\<lambda>m. tbl_upsert (plan, mc_month m, mc_category_id m) m (\<lambda>_. m)) (b_month_cats b) (month_categories d)"
  "scheduled_transactions (apply_batch plan now b d) =
     fold (\<lambda>s. tbl_upsert (plan, sch_id s) s (\<lambda>_. s)) (b_scheduled b) (scheduled_transactions d)"
  "scheduled_subtransactions (apply_batch plan now b d) =
     fold (\<lambda>s. tbl_upsert (plan, ssub_id s) s (\<lambda>_. s)) (b_scheduled_subs b) (scheduled_subtransactions d)"
  "sync_states (apply_batch plan now b d) = sync_states d"
  "plan_scans (apply_batch plan now b d) = plan_scans d"
  "status_message (apply_batch plan now b d) = status_message d"
  by (simp_all add: apply_batch_def fold_puts)

lemma apply_batch_txn_dom:
  "tbl_get (transactions (apply_batch plan now b d)) (p, k) \<noteq> None \<longleftrightarrow>
     (p = plan \<and> k \<in> tx_id ` set (b_transactions b)) \<or> tbl_get (transactions d) (p, k) \<noteq> None"
  using fold_put_transaction_dom [of plan now "b_transactions b" d "(p, k)"]
  unfolding apply_batch_tables by (auto simp: image_iff)

lemma apply_batch_sched_dom:
  "tbl_get (scheduled_transactions (apply_batch plan now b d)) (p, k) \<noteq> None \<longleftrightarrow>
     (p = plan \<and> k \<in> sch_id ` set (b_scheduled b)) \<or> tbl_get (scheduled_transactions d) (p, k) \<noteq> None"
  using fold_put_scheduled_dom [of plan "b_scheduled b" d "(p, k)"]
  unfolding apply_batch_tables fold_puts by (auto simp: image_iff)

lemma apply_batch_month_dom:
  "tbl_get (months (apply_batch plan now b d)) (p, k) \<noteq> None \<longleftrightarrow>
     (p = plan \<and> k \<in> mon_month ` set (b_months b)) \<or> tbl_get (months d) (p, k) \<noteq> None"
  using fold_put_month_dom [of plan "b_months b" d "(p, k)"]
  unfolding apply_batch_tables fold_puts by (auto simp: image_iff)

text \<open>A batch whose children have parents keeps the foreign keys.\<close>

definition batch_closed :: "db \<Rightarrow> string \<Rightarrow> batch \<Rightarrow> bool" where
  "batch_closed d plan b =
     (list_all (has_parent d plan b) (b_subs b) \<and> months_cover b \<and> list_all (has_sched_parent d plan b) (b_scheduled_subs b))"

lemma apply_batch_foreign_keys:
  assumes "foreign_keys d" and "batch_closed d plan b"
  shows "foreign_keys (apply_batch plan now b d)"
proof -
  let ?d = "apply_batch plan now b d"
  have "tbl_get (transactions ?d) (p, sub_transaction_id s) \<noteq> None"
    if "((p, k), s) \<in> set (subtransactions ?d)" for p k s
    using fold_upsert_rows [where key = "\<lambda>s. (plan, sub_id s)", OF that [unfolded apply_batch_tables]] assms
    unfolding apply_batch_txn_dom
    by (auto simp: foreign_keys_def batch_closed_def list_all_iff has_parent_def mirrored_txn_def)
  moreover have "tbl_get (months ?d) (p, m) \<noteq> None"
    if "((p, m, k), s) \<in> set (month_categories ?d)" for p m k s
    using fold_upsert_rows [where key = "\<lambda>s. (plan, mc_month s, mc_category_id s)", OF that [unfolded apply_batch_tables]] assms
    unfolding apply_batch_month_dom
    by (auto simp: foreign_keys_def batch_closed_def months_cover_def list_all_iff)
  moreover have "tbl_get (scheduled_transactions ?d) (p, ssub_scheduled_transaction_id s) \<noteq> None"
    if "((p, k), s) \<in> set (scheduled_subtransactions ?d)" for p k s
    using fold_upsert_rows [where key = "\<lambda>s. (plan, ssub_id s)", OF that [unfolded apply_batch_tables]] assms
    unfolding apply_batch_sched_dom
    by (auto simp: foreign_keys_def batch_closed_def list_all_iff has_sched_parent_def mirrored_sched_def)
  ultimately show ?thesis by (auto simp: foreign_keys_def list_all_iff)
qed

end
