(* ===== verification/SyncSpec.thy ===== *)
theory SyncSpec
  imports SyncFacts
begin

text \<open>
  The properties of one tick of \<open>sync/sync.go\<close>, over the tables of \<open>store/mirror.go\<close>. Each rests
  on the facts of \<open>SyncFacts\<close> and on the transaction runner's interface (\<open>store_tx\<close>).
\<close>

subsection \<open>All or nothing\<close>

lemma tick_body_Inr:
  assumes "tick_body env plan b k d = Inr d'"
  shows "d' = put_sync_state \<lparr>ss_plan_id = plan, ss_server_knowledge = k, ss_synced_at = te_now env\<rparr>
    (apply_batch plan (formatTime (te_now env)) b d)"
  using assms by (auto simp: tick_body_def SetSyncState_def split: sum.splits option.splits dest!: upsertBatch_Inr)

text \<open>The state a successful tick writes.\<close>

definition tick_state :: "string \<Rightarrow> time \<Rightarrow> int64 \<Rightarrow> batch \<Rightarrow> db \<Rightarrow> db" where
  "tick_state plan now k b d =
     put_sync_state \<lparr>ss_plan_id = plan, ss_server_knowledge = k, ss_synced_at = now\<rparr>
       (apply_batch plan (formatTime now) b d)"

text \<open>A tick stops before its transaction, leaving everything alone, or ends as the transaction ends.\<close>

definition fetched :: "'d plan_api \<Rightarrow> sync_state option \<Rightarrow> ('d plan_detail option \<times> int64) result" where
  "fetched api cur = (case cur of None \<Rightarrow> api_export api | Some s \<Rightarrow> api_delta api (ss_server_knowledge s))"

definition tick_reads ::
    "('d \<Rightarrow> string) \<Rightarrow> read_faults \<Rightarrow> 'd plan_api \<Rightarrow> string \<Rightarrow> db \<Rightarrow> sync_state option \<Rightarrow>
     int64 \<Rightarrow> batch \<Rightarrow> nat \<Rightarrow> link_event list \<Rightarrow> bool" where
  "tick_reads dstr flt api plan d cur k b orphans events \<longleftrightarrow>
     GetSyncState (cursor_fault flt) d plan = Inr cur \<and>
     (\<exists>detail. fetched api cur = Inr (detail, k) \<and> stitch flt d plan (mapPlan dstr detail) = Inr (b, orphans)) \<and>
     (if cur = None then Inr [] else linkEvents (link_fault flt) d plan (b_accounts b)) = Inr events"

definition tick_done :: "bool \<Rightarrow> int64 \<Rightarrow> batch \<Rightarrow> nat \<Rightarrow> link_event list \<Rightarrow> tick_result" where
  "tick_done initial k b orphans events = \<lparr>tr_initial = initial, tr_skipped = False, tr_server_knowledge = k,
     tr_rows = batch_counts b, tr_orphans = orphans, tr_link_events = events\<rparr>"

lemma SyncPlan_applied:
  assumes "tick_reads dstr (te_reads env) api plan (committed c) cur k b orphans events"
  shows "SyncPlan dstr env api plan c =
    (case Update (te_tx env) (body (tick_body env plan b k)) c of (out, c') \<Rightarrow>
       (case outcome_error out of Some e \<Rightarrow> (Inl (wrapError ''sync: apply'' e), c')
        | None \<Rightarrow> (Inr (tick_done (cur = None) k b orphans events), c')))"
  using assms unfolding tick_done_def tick_reads_def
  by (auto simp: SyncPlan_def Let_def fetched_def)

lemma SyncPlan_cases:
  obtains (stopped) r where "SyncPlan dstr env api plan c = (r, c)" "\<And>res. r = Inr res \<Longrightarrow> tr_skipped res"
  | (applied) cur k b orphans events
    where "tick_reads dstr (te_reads env) api plan (committed c) cur k b orphans events"
proof (cases "GetSyncState (cursor_fault (te_reads env)) (committed c) plan")
  case (Inl e)
  then show thesis using stopped by (simp add: SyncPlan_def)
next
  case cur: (Inr cur)
  show thesis
  proof (cases "fetched api cur")
    case (Inl e)
    with cur show thesis using stopped
      by (cases "skippable e") (auto simp: SyncPlan_def Let_def fetched_def skipped_tick_def)
  next
    case f: (Inr dk)
    obtain detail k where dk: "dk = (detail, k)" by fastforce
    show thesis
    proof (cases "stitch (te_reads env) (committed c) plan (mapPlan dstr detail)")
      case (Inl e)
      with cur f dk show thesis using stopped by (simp add: SyncPlan_def Let_def fetched_def)
    next
      case st: (Inr bo)
      obtain b orphans where bo: "bo = (b, orphans)" by fastforce
      show thesis
      proof (cases "if cur = None then Inr [] else linkEvents (link_fault (te_reads env)) (committed c) plan (b_accounts b)")
        case (Inl e)
        with cur f dk st bo show thesis using stopped by (simp add: SyncPlan_def Let_def fetched_def)
      next
        case (Inr events)
        with cur f dk st bo show thesis using applied [of cur k b orphans events] by (auto simp: tick_reads_def)
      qed
    qed
  qed
qed

lemma GetSyncState_Inr: "GetSyncState flt d plan = Inr cur \<Longrightarrow> GetSyncState None d plan = Inr cur"
  by (auto simp: GetSyncState_def split: option.splits)

lemma linkEvents_Inr: "linkEvents flt d plan accts = Inr evs \<Longrightarrow> linkEvents None d plan accts = Inr evs"
  by (auto simp: linkEvents_def split: option.splits)

lemma SyncPlan_exit:
  assumes "conn_idle c" and "SyncPlan dstr env api plan c = (r, c')"
  obtains (unchanged) "committed c' = committed c" "conn_idle c'" "\<And>res. r = Inr res \<Longrightarrow> tr_skipped res \<and> c' = c"
  | (applied) cur k b orphans events
    where "tick_reads dstr (te_reads env) api plan (committed c) cur k b orphans events"
      "r = Inr (tick_done (cur = None) k b orphans events)" "conn_idle c'"
      "committed c' = tick_state plan (te_now env) k b (committed c)"
proof (cases rule: SyncPlan_cases [of dstr env api plan c])
  case (stopped r0)
  with assms show thesis using unchanged by simp
next
  case reads: (applied cur k b orphans events)
  note eq = SyncPlan_applied [OF reads]
  from assms(1) show thesis
  proof (cases rule: Update_cases [of c "te_tx env" "tick_body env plan b k"])
    case (ok c2)
    with assms(2) eq tick_body_Inr [OF ok(3)] show thesis
      using applied [OF reads] by (simp add: tick_state_def)
  next
    case (failed out e c2)
    with assms(2) eq show thesis using unchanged by auto
  qed
qed

lemma tick_readsD:
  assumes "tick_reads dstr flt api plan d cur k b orphans events"
  obtains detail where "GetSyncState None d plan = Inr cur" "fetched api cur = Inr (detail, k)"
    "stitch flt d plan (mapPlan dstr detail) = Inr (b, orphans)" "cur = None \<Longrightarrow> events = []"
    "cur \<noteq> None \<Longrightarrow> linkEvents None d plan (b_accounts b) = Inr events"
  using assms GetSyncState_Inr linkEvents_Inr that unfolding tick_reads_def by (cases "cur = None") fastforce+

text \<open>
  C1: a tick is all or nothing. If it reports an error or a skip, the mirror is exactly what it was;
  otherwise the one committed change is the stitched batch of what YNAB answered together with the
  cursor of that same answer, the counts are the batch's, an initial load reports no link events,
  and the writer connection is never left inside a transaction. It holds for every failure of the
  environment: reads, statements, BEGIN, COMMIT, ROLLBACK.
\<close>

theorem SyncPlan_atomic:
  assumes "conn_idle c" and "SyncPlan dstr env api plan c = (r, c')"
  shows "conn_idle c' \<and>
    (case r of
       Inl e \<Rightarrow> committed c' = committed c
     | Inr res \<Rightarrow>
         if tr_skipped res then c' = c
         else \<exists>cur detail b.
           GetSyncState None (committed c) plan = Inr cur \<and>
           (case cur of None \<Rightarrow> api_export api | Some s \<Rightarrow> api_delta api (ss_server_knowledge s)) =
             Inr (detail, tr_server_knowledge res) \<and>
           stitch (te_reads env) (committed c) plan (mapPlan dstr detail) = Inr (b, tr_orphans res) \<and>
           committed c' = tick_state plan (te_now env) (tr_server_knowledge res) b (committed c) \<and>
           tr_rows res = batch_counts b \<and> tr_initial res = (cur = None) \<and>
           (cur = None \<longrightarrow> tr_link_events res = []) \<and>
           (cur \<noteq> None \<longrightarrow> linkEvents None (committed c) plan (b_accounts b) = Inr (tr_link_events res)))"
  using assms
proof (cases rule: SyncPlan_exit)
  case unchanged
  then show ?thesis by (auto split: sum.splits)
next
  case (applied cur k b orphans events)
  from applied(1) show ?thesis
    by (rule tick_readsD) (use applied(2-) in \<open>auto simp: tick_done_def fetched_def\<close>)
qed

subsection \<open>A tick does not fail by itself\<close>

lemma foreign_keys_put_sync_state [simp]: "foreign_keys (put_sync_state s d) = foreign_keys d"
  by (simp add: foreign_keys_def put_sync_state_def Let_def)

lemma stitch_closed:
  assumes "stitch flt d plan b = Inr (b', orphans)" and "months_cover b"
  shows "batch_closed d plan b'"
  using assms(1)
proof (cases rule: stitch_Inr)
  case (1 stones)
  have p: "has_parent d plan b' = has_parent d plan b" "has_sched_parent d plan b' = has_sched_parent d plan b"
    by (auto simp: fun_eq_iff has_parent_def has_sched_parent_def 1(1))
  from 1(3) have "\<forall>s \<in> set stones. has_parent d plan b s" by (auto simp: stones_of_def has_parent_def)
  with assms(2) show ?thesis
    by (auto simp: batch_closed_def p list_all_iff) (auto simp: 1(1) months_cover_def list_all_iff)
qed

lemma tick_state_foreign_keys:
  assumes "tick_reads dstr flt api plan d cur k b orphans events" and "foreign_keys d"
  shows "foreign_keys (tick_state plan now k b d)"
  using assms apply_batch_foreign_keys stitch_closed [OF _ mapPlan_months_cover]
  by (force simp: tick_reads_def tick_state_def)

text \<open>
  C2: when no statement fails and YNAB answers, a tick always succeeds, whatever the payload holds:
  the orphans are dropped and the tombstoned children added, so the deferred foreign keys can never
  refuse the commit, and the committed mirror satisfies them again.
\<close>

theorem SyncPlan_succeeds:
  assumes "conn_idle c" and "foreign_keys (committed c)"
    and "env = \<lparr>te_reads = no_read_faults, te_tx = no_faults, te_stmt = no_stmt_faults, te_before_cursor = None, te_now = now\<rparr>"
    and "GetSyncState None (committed c) plan = Inr cur"
    and "(case cur of None \<Rightarrow> api_export api | Some s \<Rightarrow> api_delta api (ss_server_knowledge s)) = Inr (detail, k)"
  shows "\<exists>res c'. SyncPlan dstr env api plan c = (Inr res, c') \<and> \<not> tr_skipped res \<and>
    tr_server_knowledge res = k \<and> conn_idle c' \<and> pooled c' = pooled c \<and> foreign_keys (committed c')"
proof -
  obtain b orphans where st: "stitch no_read_faults (committed c) plan (mapPlan dstr detail) = Inr (b, orphans)"
    using stitch_no_faults by blast
  let ?ev = "if cur = None then Inr [] else linkEvents None (committed c) plan (b_accounts b)"
  obtain events where ev: "?ev = Inr events" by (cases cur) (auto simp: linkEvents_def)
  have r: "tick_reads dstr (te_reads env) api plan (committed c) cur k b orphans events"
    using assms(3-5) st ev by (auto simp: tick_reads_def fetched_def no_read_faults_def)
  let ?d = "tick_state plan now k b (committed c)"
  have fk: "foreign_keys ?d" using tick_state_foreign_keys [OF r assms(2)] .
  have "tick_body env plan b k (committed c) = Inr ?d"
    by (simp add: tick_body_def assms(3) upsertBatch_no_faults SetSyncState_def no_stmt_faults_def tick_state_def
        upsertBatch_no_faults [unfolded no_stmt_faults_def])
  then have "Update (te_tx env) (body (tick_body env plan b k)) c = (Returns (), c\<lparr>committed := ?d, working := None\<rparr>)"
    unfolding Update_def using assms(1,3) fk by (intro writeTx_success) (simp_all add: no_faults_def body_def)
  with SyncPlan_applied [OF r] fk show ?thesis by (simp add: tick_done_def conn_idle_def)
qed

subsection \<open>The cursor\<close>

text \<open>
  C3: a successful tick leaves its own server knowledge as the plan's cursor, and the plan's next
  tick asks YNAB for exactly the delta since then: its outcome does not depend on what a full
  export, or a delta from any other cursor, would answer.
\<close>

theorem SyncPlan_resumes:
  assumes "conn_idle c" and "SyncPlan dstr env api plan c = (Inr res, c')" and "\<not> tr_skipped res"
    and "storable (te_now env)"
  shows "GetSyncState None (committed c') plan = Inr (Some \<lparr>ss_plan_id = plan,
      ss_server_knowledge = tr_server_knowledge res, ss_synced_at = te_now env\<rparr>) \<and>
    SyncPlan dstr env' api' plan c' = SyncPlan dstr env' \<lparr>api_export = x,
      api_delta = (\<lambda>n. if n = tr_server_knowledge res then api_delta api' n else y n)\<rparr> plan c'"
  using assms(1,2)
proof (cases rule: SyncPlan_exit)
  case (applied cur k b orphans events)
  let ?s = "\<lparr>ss_plan_id = plan, ss_server_knowledge = k, ss_synced_at = te_now env\<rparr>"
  have k: "tr_server_knowledge res = k" using applied(2) by (simp add: tick_done_def)
  have cur: "GetSyncState None (committed c') plan = Inr (Some ?s)"
    using GetSyncState_put [of ?s] assms(4) by (simp add: applied(4) tick_state_def)
  have "GetSyncState (cursor_fault (te_reads env')) (committed c') plan = Inr (Some ?s) \<or>
      (\<exists>e. GetSyncState (cursor_fault (te_reads env')) (committed c') plan = Inl e)"
    using cur by (auto simp: GetSyncState_def split: option.splits)
  then have "SyncPlan dstr env' api' plan c' = SyncPlan dstr env' \<lparr>api_export = x,
      api_delta = (\<lambda>n. if n = k then api_delta api' n else y n)\<rparr> plan c'"
    by (auto simp: SyncPlan_def Let_def)
  with cur show ?thesis by (simp add: k)
qed (use assms(3) in auto)

subsection \<open>What the written batch does to the mirror\<close>

lemma fold_upsert_key_row:
  assumes "tbl_ok t" and "(k, v) \<in> set (fold (\<lambda>r. tbl_upsert (key r) r (\<lambda>_. r)) rs t)" and "k \<in> key ` set rs"
  shows "v \<in> set rs"
proof -
  let ?T = "fold (\<lambda>r. tbl_upsert (key r) r (\<lambda>_. r)) rs t"
  have "tbl_ok ?T" using assms(1) by (rule table.ok_fold)
  with assms(2) have "tbl_get ?T k = Some v" by (simp add: tbl_in_get)
  with table.get_fold_prop [OF assms(3), of "\<lambda>v. v \<in> set rs" "\<lambda>r. r" "\<lambda>r _. r" t] show ?thesis by auto
qed

text \<open>A live row of a tombstoned parent, after the write, is a row of the payload under its own key.\<close>

lemma live_child_in_payload:
  assumes "keys_ok d" and "stitch flt d plan b = Inr (b', orphans)"
    and "t \<in> set (b_transactions b)" and "tx_deleted t"
    and "((plan, k), s) \<in> set (subtransactions (tick_state plan now n b' d))" and "sub_transaction_id s = tx_id t"
    and "\<not> sub_deleted s"
  shows "k \<in> sub_id ` set (filter (has_parent d plan b) (b_subs b))"
  using assms(2)
proof (cases rule: stitch_Inr)
  case (1 stones)
  let ?key = "\<lambda>s. (plan, sub_id s)" and ?kept = "filter (has_parent d plan b) (b_subs b)"
  have subs: "b_subs b' = ?kept @ stones" by (simp add: 1(1))
  have row: "((plan, k), s) \<in> set (fold (\<lambda>s. tbl_upsert (?key s) s (\<lambda>_. s)) (b_subs b') (subtransactions d))"
    using assms(5) by (simp add: tick_state_def put_sync_state_def Let_def apply_batch_tables)
  have dead: "sub_deleted x" if "x \<in> set stones" for x using that 1(3) by (auto simp: stones_of_def)
  show ?thesis
  proof (rule ccontr)
    assume fresh: "k \<notin> sub_id ` set ?kept"
    show False
    proof (cases "(plan, k) \<in> ?key ` set (b_subs b')")
      case True
      have "s \<in> set (b_subs b')"
        using row True assms(1) by (intro fold_upsert_key_row [where key = ?key]) (auto simp: keys_ok_def)
      with dead assms(7) have "s \<in> set ?kept" by (auto simp: subs)
      from True fresh obtain x where x: "x \<in> set stones" "sub_id x = k" by (auto simp: subs)
      have "tbl_get (fold (\<lambda>s. tbl_upsert (?key s) s (\<lambda>_. s)) (b_subs b') (subtransactions d)) (plan, k) = Some s"
        by (rule tbl_in_get [OF _ row]) (use assms(1) in \<open>auto simp: keys_ok_def intro: table.ok_fold\<close>)
      moreover obtain v where "tbl_get (fold (\<lambda>s. tbl_upsert (?key s) s (\<lambda>_. s)) stones
          (fold (\<lambda>s. tbl_upsert (?key s) s (\<lambda>_. s)) ?kept (subtransactions d))) (plan, k) = Some v" "sub_deleted v"
        using table.get_fold_prop [of "(plan, k)" ?key stones sub_deleted "\<lambda>r. r" "\<lambda>r _. r"] x dead by force
      ultimately show False using assms(7) by (simp add: subs)
    next
      case False
      with fold_upsert_rows [where key = ?key, OF row] have old: "((plan, k), s) \<in> set (subtransactions d)" by auto
      then have "s\<lparr>sub_id := k, sub_transaction_id := tx_id t, sub_deleted := True\<rparr> \<in> stones_of d plan (map sub_id ?kept) t"
        using assms(6,7) fresh by (auto simp: stones_of_def)
      with 1(3) assms(3,4) have "s\<lparr>sub_id := k, sub_transaction_id := tx_id t, sub_deleted := True\<rparr> \<in> set stones" by auto
      with False show False by (force simp: subs)
    qed
  qed
qed

text \<open>
  C4: deleting a transaction deletes its children. After a batch that carries a tombstone of \<open>t\<close> is
  written, every mirrored subtransaction of \<open>t\<close> is deleted, unless the payload itself lists it as
  live; YNAB sends no tombstones for the children of a deleted parent.
\<close>

theorem tombstone_cascade:
  assumes "keys_ok d" and "stitch flt d plan b = Inr (b', orphans)"
    and "t \<in> set (b_transactions b)" and "tx_deleted t"
    and "((plan, k), s) \<in> set (subtransactions (tick_state plan now n b' d))" and "sub_transaction_id s = tx_id t"
  shows "sub_deleted s \<or> s \<in> set (b_subs b)"
  using assms(2)
proof (cases rule: stitch_Inr)
  case (1 stones)
  let ?key = "\<lambda>s. (plan, sub_id s)"
  have row: "((plan, k), s) \<in> set (fold (\<lambda>s. tbl_upsert (?key s) s (\<lambda>_. s)) (b_subs b') (subtransactions d))"
    using assms(5) by (simp add: tick_state_def put_sync_state_def Let_def apply_batch_tables)
  have in_batch: "s \<in> set (b_subs b') \<Longrightarrow> ?thesis"
    using 1 by (auto simp: stones_of_def)
  show ?thesis
  proof (cases "(plan, k) \<in> ?key ` set (b_subs b')")
    case True
    with row assms(1) show ?thesis
      by (intro in_batch fold_upsert_key_row [where key = ?key]) (auto simp: keys_ok_def)
  next
    case False
    with fold_upsert_rows [where key = ?key, OF row] in_batch have old: "((plan, k), s) \<in> set (subtransactions d)" by auto
    show ?thesis
    proof (rule ccontr)
      assume "\<not> ?thesis"
      with old False 1(1) have "s\<lparr>sub_id := k, sub_transaction_id := tx_id t, sub_deleted := True\<rparr> \<in>
          stones_of d plan (map sub_id (filter (has_parent d plan b) (b_subs b))) t"
        using assms(6) by (auto simp: stones_of_def image_iff)
      with 1 assms(3,4) have "s\<lparr>sub_id := k, sub_transaction_id := tx_id t, sub_deleted := True\<rparr> \<in> set (b_subs b')"
        by auto
      with False show False by force
    qed
  qed
qed

lemma apply_batch_fields:
  "apply_batch plan now b d = d\<lparr>
     accounts := accounts (fold (put_account plan) (b_accounts b) d),
     category_groups := fold (\<lambda>g. tbl_upsert (plan, grp_id g) g (\<lambda>_. g)) (b_category_groups b) (category_groups d),
     categories := fold (\<lambda>c. tbl_upsert (plan, cat_id c) (category_args c) (\<lambda>_. category_args c)) (b_categories b) (categories d),
     payees := fold (\<lambda>x. tbl_upsert (plan, pay_id x) x (\<lambda>_. x)) (b_payees b) (payees d),
     transactions := transactions (fold (put_transaction plan now) (b_transactions b) d),
     subtransactions := fold (\<lambda>s. tbl_upsert (plan, sub_id s) s (\<lambda>_. s)) (b_subs b) (subtransactions d),
     months := fold (\<lambda>m. tbl_upsert (plan, mon_month m) m (\<lambda>_. m)) (b_months b) (months d),
     month_categories := fold (\<lambda>m. tbl_upsert (plan, mc_month m, mc_category_id m) m (\<lambda>_. m)) (b_month_cats b) (month_categories d),
     scheduled_transactions := fold (\<lambda>s. tbl_upsert (plan, sch_id s) s (\<lambda>_. s)) (b_scheduled b) (scheduled_transactions d),
     scheduled_subtransactions := fold (\<lambda>s. tbl_upsert (plan, ssub_id s) s (\<lambda>_. s)) (b_scheduled_subs b) (scheduled_subtransactions d)\<rparr>"
  by (simp add: apply_batch_def fold_puts)

text \<open>A batch names each row once, as one answer of the API does.\<close>

definition batch_distinct :: "batch \<Rightarrow> bool" where
  "batch_distinct b \<longleftrightarrow>
     distinct (map acc_id (b_accounts b)) \<and> distinct (map grp_id (b_category_groups b)) \<and>
     distinct (map cat_id (b_categories b)) \<and> distinct (map pay_id (b_payees b)) \<and>
     distinct (map tx_id (b_transactions b)) \<and> distinct (map sub_id (b_subs b)) \<and>
     distinct (map mon_month (b_months b)) \<and> distinct (map (\<lambda>m. (mc_month m, mc_category_id m)) (b_month_cats b)) \<and>
     distinct (map sch_id (b_scheduled b)) \<and> distinct (map ssub_id (b_scheduled_subs b))"

lemma fold_upsert_absorbed:
  assumes "distinct (map key rs)" and "key ` set rs \<inter> key ` set xs = {}"
  shows "fold (\<lambda>r. tbl_upsert (key r) r (\<lambda>_. r)) rs (fold (\<lambda>r. tbl_upsert (key r) r (\<lambda>_. r)) (rs @ xs) t) =
    fold (\<lambda>r. tbl_upsert (key r) r (\<lambda>_. r)) (rs @ xs) t"
proof (rule fold_upsert_id)
  fix r assume r: "r \<in> set rs"
  have "tbl_get (fold (\<lambda>r. tbl_upsert (key r) r (\<lambda>_. r)) (rs @ xs) t) (key r) =
      tbl_get (fold (\<lambda>r. tbl_upsert (key r) r (\<lambda>_. r)) rs t) (key r)"
    using table.get_fold_other [of "key r" key xs "\<lambda>r. r" "\<lambda>r _. r"] r assms(2) by fastforce
  also have "\<dots> = Some r" by (rule fold_upsert_all [OF assms(1) r])
  finally show "tbl_get (fold (\<lambda>r. tbl_upsert (key r) r (\<lambda>_. r)) (rs @ xs) t) (key r) = Some r" .
qed

text \<open>A batch is absorbed by what it wrote before, even if it came with further split lines then.\<close>

lemma apply_batch_absorbed:
  assumes "batch_distinct b" and "sub_id ` set (b_subs b) \<inter> sub_id ` set xs = {}"
    and d'_def: "d' = apply_batch plan now (b\<lparr>b_subs := b_subs b @ xs\<rparr>) d"
  shows "apply_batch plan now' b d' = d'"
proof -
  note dist = assms(1) [unfolded batch_distinct_def]
  note t = apply_batch_tables [where b = "b\<lparr>b_subs := b_subs b @ xs\<rparr>", simplified, folded d'_def]
  have same: "accounts (fold (put_account plan) (b_accounts b) d') = accounts d'"
    "transactions (fold (put_transaction plan now') (b_transactions b) d') = transactions d'"
  proof -
    have "accounts (fold (put_account plan) (b_accounts b) d') =
        accounts (fold (put_account plan) (b_accounts b) (fold (put_account plan) (b_accounts b) d))"
      by (simp add: fold_put_account d'_def apply_batch_tables)
    with dist show "accounts (fold (put_account plan) (b_accounts b) d') = accounts d'"
      by (simp add: fold_put_account_twice d'_def apply_batch_tables)
    have "transactions (fold (put_transaction plan now') (b_transactions b) d') =
        transactions (fold (put_transaction plan now') (b_transactions b) (fold (put_transaction plan now) (b_transactions b) d))"
      by (simp add: fold_put_transaction d'_def apply_batch_tables)
    with dist show "transactions (fold (put_transaction plan now') (b_transactions b) d') = transactions d'"
      by (simp add: fold_put_transaction_twice d'_def apply_batch_tables)
  qed
  have subs: "fold (\<lambda>s. tbl_upsert (plan, sub_id s) s (\<lambda>_. s)) (b_subs b) (subtransactions d') = subtransactions d'"
    unfolding d'_def apply_batch_tables
    by (simp del: fold_append, rule fold_upsert_absorbed [where key = "\<lambda>s. (plan, sub_id s)"])
      (use dist assms(2) in \<open>auto simp: distinct_map inj_on_def\<close>)
  have keyed: "fold (\<lambda>g. tbl_upsert (plan, grp_id g) g (\<lambda>_. g)) (b_category_groups b) (category_groups d') = category_groups d'"
    "fold (\<lambda>c. tbl_upsert (plan, cat_id c) (category_args c) (\<lambda>_. category_args c)) (b_categories b) (categories d') = categories d'"
    "fold (\<lambda>x. tbl_upsert (plan, pay_id x) x (\<lambda>_. x)) (b_payees b) (payees d') = payees d'"
    "fold (\<lambda>m. tbl_upsert (plan, mon_month m) m (\<lambda>_. m)) (b_months b) (months d') = months d'"
    "fold (\<lambda>m. tbl_upsert (plan, mc_month m, mc_category_id m) m (\<lambda>_. m)) (b_month_cats b) (month_categories d') = month_categories d'"
    "fold (\<lambda>s. tbl_upsert (plan, sch_id s) s (\<lambda>_. s)) (b_scheduled b) (scheduled_transactions d') = scheduled_transactions d'"
    "fold (\<lambda>s. tbl_upsert (plan, ssub_id s) s (\<lambda>_. s)) (b_scheduled_subs b) (scheduled_subtransactions d') = scheduled_subtransactions d'"
    using dist unfolding d'_def apply_batch_fields
    by (auto simp: distinct_map inj_on_def intro!: fold_upsert_again)
  show ?thesis by (subst apply_batch_fields) (simp add: same subs keyed)
qed

lemma apply_batch_put_sync_state:
  "apply_batch plan now b (put_sync_state s d) = put_sync_state s (apply_batch plan now b d)"
  by (simp add: apply_batch_def put_sync_state_def Let_def fold_puts)

text \<open>
  What the mirror adds to YNAB's rows survives a tick. The local tax bucket of every account is
  untouched; a transaction's first-seen stamp changes only for a row the batch brings, and then only
  when the row is new or first gains an import id.
\<close>

theorem tick_keeps_local:
  assumes "batch_distinct b"
  shows "bucket_of (tick_state plan now k b d) key = bucket_of d key \<and>
    (\<forall>x \<in> set (b_transactions b). first_seen (tick_state plan now k b d) (plan, tx_id x) =
       (if tbl_get (transactions d) (plan, tx_id x) = None \<or> (\<not> has_import d (plan, tx_id x) \<and> tx_import_id x \<noteq> None)
        then Some (formatTime now) else first_seen d (plan, tx_id x))) \<and>
    (key \<notin> (\<lambda>x. (plan, tx_id x)) ` set (b_transactions b) \<longrightarrow>
       first_seen (tick_state plan now k b d) key = first_seen d key)"
proof -
  have tables: "accounts (tick_state plan now k b d) = accounts (fold (put_account plan) (b_accounts b) d)"
    "transactions (tick_state plan now k b d) = transactions (fold (put_transaction plan (formatTime now)) (b_transactions b) d)"
    by (simp_all add: tick_state_def put_sync_state_def Let_def apply_batch_tables)
  have "distinct (map tx_id (b_transactions b))" using assms by (simp add: batch_distinct_def)
  note seen = fold_put_transaction_first_seen [OF this _ refl, of _ plan "formatTime now" d]
  have "bucket_of (tick_state plan now k b d) key = bucket_of (fold (put_account plan) (b_accounts b) d) key"
    by (simp add: bucket_of_def tables(1))
  moreover have "first_seen (tick_state plan now k b d) j =
      first_seen (fold (put_transaction plan (formatTime now)) (b_transactions b) d) j" for j
    by (simp add: first_seen_def tables(2))
  ultimately show ?thesis
    using seen by (simp add: fold_put_account_bucket) (simp add: first_seen_def fold_put_transaction_other)
qed

lemma prior_in_error_tick:
  assumes "distinct (map acc_id (b_accounts b))" and "a \<in> set (b_accounts b)"
  shows "prior_in_error (tick_state plan now k b d) plan (acc_id a) = acc_direct_import_in_error a"
proof -
  let ?key = "\<lambda>a. (plan, acc_id a)"
  let ?new = "\<lambda>a. account_rec.extend (account_args a) (account_row.fields None)"
  let ?upd = "\<lambda>a old. account_rec.extend (account_args a) (account_row.fields (acc_tax_bucket old))"
  obtain qs rs where rs: "b_accounts b = qs @ a # rs" using split_list [OF assms(2)] by blast
  with assms(1) have last: "?key a \<notin> ?key ` set rs" by auto
  have t: "accounts (tick_state plan now k b d) = fold (\<lambda>a. tbl_upsert (?key a) (?new a) (?upd a)) (qs @ a # rs) (accounts d)"
    unfolding tick_state_def put_sync_state_def Let_def fold_put_account [symmetric] rs [symmetric]
    by (simp add: apply_batch_tables fold_put_account)
  show ?thesis
    unfolding prior_in_error_def t table.get_fold_last [where key = ?key, OF last]
    by (simp split: option.splits)
qed

text \<open>
  A bank link change is reported once. After a tick has recorded a batch, the next tick reports
  an account of that batch exactly when the account is live and its error flag differs from the
  recorded one; the same answer again reports nothing.
\<close>

theorem linkEvents_once:
  assumes "batch_distinct b" and "a \<in> set (b_accounts b)" and "acc_id a' = acc_id a"
  shows "linkEvents None (tick_state plan now k b d) plan [a'] =
      Inr (if acc_deleted a' \<or> acc_direct_import_in_error a' = acc_direct_import_in_error a then []
           else [\<lparr>le_account_id = acc_id a, le_account_name = acc_name a', le_in_error = acc_direct_import_in_error a'\<rparr>]) \<and>
    linkEvents None (tick_state plan now k b d) plan (b_accounts b) = Inr []"
proof -
  have dist: "distinct (map acc_id (b_accounts b))" using assms(1) by (simp add: batch_distinct_def)
  show ?thesis
    using prior_in_error_tick [OF dist assms(2), of plan now k d] prior_in_error_tick [OF dist, of _ plan now k d]
    by (simp add: linkEvents_def assms(3) filter_empty_conv)
qed

text \<open>
  What the second of two ticks with the same answer writes: the first one's mirror stitches the answer to the same
  rows, but for the tombstones it has written already.
\<close>

lemma stitch_again:
  assumes "keys_ok d" and "stitch flt d plan b = Inr (b1, o1)" and "stitch flt' (tick_state plan now k b1 d) plan b = Inr (b2, o2)"
  obtains stones where "b1 = b2\<lparr>b_subs := b_subs b2 @ stones\<rparr>" "sub_id ` set (b_subs b2) \<inter> sub_id ` set stones = {}" "o2 = o1"
    "b2 = b\<lparr>b_subs := filter (has_parent d plan b) (b_subs b), b_scheduled_subs := filter (has_sched_parent d plan b) (b_scheduled_subs b)\<rparr>"
  using assms(2)
proof (cases rule: stitch_Inr)
  case (1 stones)
  let ?d = "tick_state plan now k b1 d"
  have trans: "b_transactions b1 = b_transactions b" "b_scheduled b1 = b_scheduled b" by (simp_all add: 1(1))
  have "mirrored_txn ?d plan x \<longleftrightarrow> x \<in> tx_id ` set (b_transactions b) \<or> mirrored_txn d plan x" for x
    using apply_batch_txn_dom [of plan "formatTime now" b1 d plan x]
    by (simp add: mirrored_txn_def tick_state_def put_sync_state_def Let_def trans)
  then have p: "has_parent ?d plan b = has_parent d plan b" by (auto simp: fun_eq_iff has_parent_def)
  have "mirrored_sched ?d plan x \<longleftrightarrow> x \<in> sch_id ` set (b_scheduled b) \<or> mirrored_sched d plan x" for x
    using apply_batch_sched_dom [of plan "formatTime now" b1 d plan x]
    by (simp add: mirrored_sched_def tick_state_def put_sync_state_def Let_def trans)
  then have sp: "has_sched_parent ?d plan b = has_sched_parent d plan b" by (auto simp: fun_eq_iff has_sched_parent_def)
  from assms(3) show thesis
  proof (cases rule: stitch_Inr)
    case two: (1 stones')
    have "stones' = []"
    proof (rule ccontr)
      assume "stones' \<noteq> []"
      then obtain x where "x \<in> set stones'" by (cases stones') auto
      with two(3) obtain t s j where t: "t \<in> set (b_transactions b)" "tx_deleted t"
        and s: "((plan, j), s) \<in> set (subtransactions ?d)" "sub_transaction_id s = tx_id t" "\<not> sub_deleted s"
          "j \<notin> sub_id ` set (filter (has_parent d plan b) (b_subs b))"
        by (auto simp: stones_of_def p)
      from live_child_in_payload [OF assms(1,2) t s(1-3)] s(4) show False by blast
    qed
    with two 1 p sp show thesis
      by (intro that [of stones]) (auto simp: stones_of_def)
  qed
qed

text \<open>
  C5: applying an answer is idempotent. Of two ticks that YNAB answers the same rows, each row named once, the second one
  (later, under a new cursor, with its own faults) changes no mirrored row, not even a first-seen stamp: in the whole
  database only the cursor row is new. It drops the same orphans and reports no bank link change.
\<close>

theorem tick_idempotent:
  assumes "conn_idle c" and "keys_ok (committed c)"
    and "SyncPlan dstr env api plan c = (Inr res, c1)" and "\<not> tr_skipped res"
    and "GetSyncState None (committed c) plan = Inr cur" and "fetched api cur = Inr (detail, k)"
    and "SyncPlan dstr env' api' plan c1 = (Inr res', c2)" and "\<not> tr_skipped res'"
    and "GetSyncState None (committed c1) plan = Inr cur'" and "fetched api' cur' = Inr (detail, k')"
    and "batch_distinct (mapPlan dstr detail)"
  shows "committed c2 = put_sync_state \<lparr>ss_plan_id = plan, ss_server_knowledge = k', ss_synced_at = te_now env'\<rparr> (committed c1) \<and>
    tr_orphans res' = tr_orphans res \<and> tr_link_events res' = []"
  using assms(1,3)
proof (cases rule: SyncPlan_exit)
  case first: (applied cur1 k1 b1 o1 events1)
  let ?d = "committed c" and ?b = "mapPlan dstr detail"
  from first(3) assms(7) show ?thesis
  proof (cases rule: SyncPlan_exit)
    case second: (applied cur2 k2 b2 o2 events2)
    from first(1) have r1: "k1 = k" "stitch (te_reads env) ?d plan ?b = Inr (b1, o1)"
      by (rule tick_readsD, use assms(5,6) in auto)+
    from second(1) have r2: "k2 = k'" "stitch (te_reads env') (committed c1) plan ?b = Inr (b2, o2)"
        "events2 \<noteq> [] \<Longrightarrow> linkEvents None (committed c1) plan (b_accounts b2) = Inr events2"
      by (rule tick_readsD, use assms(9,10) in auto)+
    obtain stones where b: "b1 = b2\<lparr>b_subs := b_subs b2 @ stones\<rparr>" "sub_id ` set (b_subs b2) \<inter> sub_id ` set stones = {}" "o2 = o1"
        "b2 = ?b\<lparr>b_subs := filter (has_parent ?d plan ?b) (b_subs ?b), b_scheduled_subs := filter (has_sched_parent ?d plan ?b) (b_scheduled_subs ?b)\<rparr>"
      by (rule stitch_again [OF assms(2) r1(2)]) (use r2(2) first(4) in auto)
    have dist: "batch_distinct b2" using assms(11) by (simp add: b(4) batch_distinct_def distinct_map_filter)
    have "committed c2 = tick_state plan (te_now env') k' b2 (tick_state plan (te_now env) k b1 ?d)"
      using second(4) first(4) r1(1) r2(1) by simp
    also have "\<dots> = put_sync_state \<lparr>ss_plan_id = plan, ss_server_knowledge = k', ss_synced_at = te_now env'\<rparr>
        (tick_state plan (te_now env) k b1 ?d)"
      using apply_batch_absorbed [OF dist b(2)] by (simp add: tick_state_def apply_batch_put_sync_state flip: b(1))
    finally have rows: "committed c2 = put_sync_state \<lparr>ss_plan_id = plan, ss_server_knowledge = k', ss_synced_at = te_now env'\<rparr> (committed c1)"
      using first(4) r1(1) by simp
    have acc: "b_accounts b1 = b_accounts b2" "distinct (map acc_id (b_accounts b2))"
      using b(1) dist by (simp_all add: batch_distinct_def)
    have "linkEvents None (committed c1) plan (b_accounts b2) = Inr []"
      using prior_in_error_tick [of b1 _ plan "te_now env" k1 ?d] acc by (simp add: linkEvents_def first(4) filter_empty_conv)
    with r2(3) have "events2 = []" by (cases events2) auto
    with rows b(3) first(2) second(2) show ?thesis by (simp add: tick_done_def)
  qed (use assms(8) in auto)
qed (use assms(4) in auto)

subsection \<open>A concrete plan\<close>

definition ex_account :: "bool \<Rightarrow> api_account" where
  "ex_account bad = \<lparr>xacc_id = ''a1'', xacc_name = ''Checking'', xacc_type = ''checking'', xacc_on_budget = True,
     xacc_closed = False, xacc_note = None, xacc_balance = 1000, xacc_cleared_balance = 1000,
     xacc_uncleared_balance = 0, xacc_transfer_payee_id = None, xacc_direct_import_linked = True,
     xacc_direct_import_in_error = bad, xacc_last_reconciled_at = None, xacc_debt_original_balance = None,
     xacc_debt_interest_rates = [], xacc_debt_minimum_payments = [], xacc_debt_escrow_amounts = [],
     xacc_deleted = False\<rparr>"

definition ex_transaction :: "bool \<Rightarrow> string api_transaction" where
  "ex_transaction gone = \<lparr>xtx_id = ''t1'', xtx_date = ''2024-05-01'', xtx_amount = -5000, xtx_memo = None,
     xtx_cleared = ''cleared'', xtx_approved = True, xtx_flag_color = None, xtx_flag_name = None,
     xtx_account_id = ''a1'', xtx_payee_id = None, xtx_category_id = None, xtx_transfer_account_id = None,
     xtx_transfer_transaction_id = None, xtx_matched_transaction_id = None, xtx_import_id = None,
     xtx_import_payee_name = None, xtx_import_payee_name_original = None, xtx_debt_transaction_type = None,
     xtx_deleted = gone\<rparr>"

definition ex_sub :: "string \<Rightarrow> string \<Rightarrow> api_subtransaction" where
  "ex_sub k parent = \<lparr>xsub_id = k, xsub_transaction_id = parent, xsub_amount = -2500, xsub_memo = None,
     xsub_payee_id = None, xsub_category_id = None, xsub_transfer_account_id = None,
     xsub_transfer_transaction_id = None, xsub_deleted = False\<rparr>"

text \<open>An export with a split transaction and an orphan, and the delta that deletes the split.\<close>

definition ex_detail :: "bool \<Rightarrow> api_subtransaction list \<Rightarrow> string plan_detail" where
  "ex_detail later subs = \<lparr>pd_accounts = [ex_account later], pd_category_groups = [], pd_categories = [], pd_payees = [],
     pd_transactions = [ex_transaction later], pd_subtransactions = subs, pd_months = [],
     pd_scheduled_transactions = [], pd_scheduled_subtransactions = []\<rparr>"

definition ex_export :: "string plan_detail" where
  "ex_export = ex_detail False [ex_sub ''s1'' ''t1'', ex_sub ''s2'' ''t9'']"

definition ex_delta :: "string plan_detail" where
  "ex_delta = ex_detail True []"

definition ex_api :: "string plan_api" where
  "ex_api = \<lparr>api_export = Inr (Some ex_export, 7), api_delta = (\<lambda>_. Inr (Some ex_delta, 8))\<rparr>"

definition ex_env :: tick_env where
  "ex_env = \<lparr>te_reads = no_read_faults, te_tx = no_faults, te_stmt = no_stmt_faults, te_before_cursor = None, te_now = 0\<rparr>"

definition ex_tick :: "db conn \<Rightarrow> tick_result result \<times> db conn" where
  "ex_tick = SyncPlan (\<lambda>s. s) ex_env ex_api ''p''"

definition ex_first :: "tick_result result \<times> db conn" where
  "ex_first = ex_tick (fresh_conn empty_db)"


lemmas tick_eval = SyncPlan_def GetSyncState_def skippable_def stitch_def has_def liveSubs_def mapPlan_def empty_batch_def
  mapAccount_def mapTransaction_def mapSubtransaction_def mirrored_txn_def mirrored_sched_def
  linkEvents_def prior_in_error_def Update_def writeTx_def sql_begin_def sql_commit_def run_body_def writeTx_cleanup_def
  body_def tick_body_def upsertBatch_def upsert_stmt_defs upsert_def no_stmt_faults_def no_faults_def no_read_faults_def
  SetSyncState_def put_sync_state_def put_account_def put_transaction_def put_subtransaction_def foreign_keys_def
  batch_counts_def ex_tick_def ex_env_def ex_api_def ex_export_def ex_delta_def ex_detail_def ex_account_def ex_transaction_def ex_sub_def
  empty_db_def account_args_def milliPtr_def periodic_of_def strPtr_def account_rec.defs account_row.defs transaction.defs transaction_row.defs

theorem SyncPlan_atomic_witness:
  "\<exists>res c'. ex_first = (Inr res, c') \<and> \<not> tr_skipped res \<and> tr_orphans res = 1 \<and> conn_idle c' \<and>
     tr_link_events res = []"
proof -
  have "case fst ex_first of Inr res \<Rightarrow> \<not> tr_skipped res \<and> tr_orphans res = 1 \<and> tr_initial res | Inl e \<Rightarrow> False"
    by (simp add: tick_eval ex_first_def)
  then obtain res where "fst ex_first = Inr res" "\<not> tr_skipped res" "tr_orphans res = 1" "tr_initial res"
    by (auto split: sum.splits)
  with SyncPlan_atomic [of "fresh_conn empty_db" "\<lambda>s. s" ex_env ex_api "''p''" "fst ex_first" "snd ex_first"]
  show ?thesis by (cases ex_first) (auto simp: ex_first_def ex_tick_def)
qed

theorem SyncPlan_succeeds_witness:
  "\<exists>res c'. SyncPlan (\<lambda>s. s) ex_env ex_api ''p'' (fresh_conn empty_db) = (Inr res, c') \<and> \<not> tr_skipped res \<and>
     tr_server_knowledge res = 7 \<and> conn_idle c' \<and> pooled c' = pooled (fresh_conn empty_db) \<and> foreign_keys (committed c')"
  by (rule SyncPlan_succeeds [where cur = None and detail = "Some ex_export" and now = 0])
    (simp_all add: ex_env_def ex_api_def GetSyncState_def empty_db_def, simp add: foreign_keys_def)

theorem SyncPlan_resumes_witness:
  "\<exists>c'. snd ex_first = c' \<and> GetSyncState None (committed c') ''p'' =
     Inr (Some \<lparr>ss_plan_id = ''p'', ss_server_knowledge = 7, ss_synced_at = 0\<rparr>)"
proof -
  have "case fst ex_first of Inr res \<Rightarrow> \<not> tr_skipped res \<and> tr_server_knowledge res = 7 | Inl e \<Rightarrow> False"
    by (simp add: tick_eval ex_first_def)
  then obtain res where res: "SyncPlan (\<lambda>s. s) ex_env ex_api ''p'' (fresh_conn empty_db) = (Inr res, snd ex_first)"
      "\<not> tr_skipped res" "tr_server_knowledge res = 7"
    by (cases ex_first) (auto simp: ex_first_def ex_tick_def split: sum.splits)
  have "storable (te_now ex_env)" by (simp add: ex_env_def storable_0)
  with SyncPlan_resumes [OF _ res(1,2)] res(3) show ?thesis by (simp add: ex_env_def)
qed

theorem tombstone_cascade_witness:
  "\<exists>s. tbl_get (subtransactions (committed (snd (ex_tick (snd ex_first))))) (''p'', ''s1'') = Some s \<and> sub_deleted s"
proof -
  let ?d = "committed (snd ex_first)" and ?b = "mapPlan (\<lambda>s. s) (Some ex_delta)"
  define b' where "b' = fst (projr (stitch no_read_faults ?d ''p'' ?b))"
  define d' where "d' = tick_state ''p'' 0 8 b' ?d"
  have st: "stitch no_read_faults ?d ''p'' ?b = Inr (b', 0)"
    by (simp add: b'_def tick_eval ex_first_def)
  have d': "committed (snd (ex_tick (snd ex_first))) = d'"
    by (simp add: d'_def tick_state_def apply_batch_def b'_def tick_eval ex_first_def parseTime_formatTime [OF storable_0])
  obtain s where s: "tbl_get (subtransactions d') (''p'', ''s1'') = Some s" "sub_transaction_id s = ''t1''"
    by (simp add: d'_def tick_state_def apply_batch_def b'_def tick_eval ex_first_def)
  have "keys_ok ?d" by (simp add: keys_ok_def tick_eval ex_first_def tbl_ok_def)
  from tombstone_cascade [OF this st, of "mapTransaction (\<lambda>s. s) (ex_transaction True)" "''s1''" s 0 8]
  have "sub_deleted s \<or> s \<in> set (b_subs ?b)"
    using tbl_get_in [OF s(1)] s(2) by (simp add: d'_def tick_eval)
  then have "sub_deleted s" by (simp add: tick_eval)
  with s d' show ?thesis by blast
qed

definition ex_again :: "string plan_api" where
  "ex_again = \<lparr>api_export = Inr (None, 0), api_delta = (\<lambda>_. Inr (Some ex_export, 8))\<rparr>"

theorem tick_idempotent_witness:
  "\<exists>res c2. SyncPlan (\<lambda>s. s) ex_env ex_again ''p'' (snd ex_first) = (Inr res, c2) \<and> tr_orphans res = 1 \<and>
     committed c2 = put_sync_state \<lparr>ss_plan_id = ''p'', ss_server_knowledge = 8, ss_synced_at = 0\<rparr> (committed (snd ex_first))"
proof -
  have "case fst ex_first of Inr res \<Rightarrow> \<not> tr_skipped res \<and> tr_orphans res = 1 | Inl e \<Rightarrow> False"
    by (simp add: tick_eval ex_first_def)
  then obtain res where first: "SyncPlan (\<lambda>s. s) ex_env ex_api ''p'' (fresh_conn empty_db) = (Inr res, snd ex_first)"
      "\<not> tr_skipped res" "tr_orphans res = 1"
    by (cases ex_first) (auto simp: ex_first_def ex_tick_def split: sum.splits)
  let ?second = "SyncPlan (\<lambda>s. s) ex_env ex_again ''p'' (snd ex_first)"
  have "case fst ?second of Inr res \<Rightarrow> \<not> tr_skipped res | Inl e \<Rightarrow> False"
    by (simp add: tick_eval ex_again_def ex_first_def parseTime_formatTime [OF storable_0])
  then obtain res' c2 where second: "?second = (Inr res', c2)" "\<not> tr_skipped res'"
    by (cases ?second) (auto split: sum.splits)
  have cur: "GetSyncState None (committed (snd ex_first)) ''p'' = Inr (Some \<lparr>ss_plan_id = ''p'', ss_server_knowledge = 7, ss_synced_at = 0\<rparr>)"
    by (simp add: tick_eval ex_first_def parseTime_formatTime [OF storable_0])
  have dist: "batch_distinct (mapPlan (\<lambda>s. s) (Some ex_export))" by (simp add: batch_distinct_def tick_eval)
  have now: "te_now ex_env = 0" by (simp add: ex_env_def)
  from tick_idempotent [OF _ _ first(1,2) _ _ second cur _ dist, of None 7 8]
  have "committed c2 = put_sync_state \<lparr>ss_plan_id = ''p'', ss_server_knowledge = 8, ss_synced_at = 0\<rparr> (committed (snd ex_first)) \<and>
      tr_orphans res' = tr_orphans res"
    by (simp add: fetched_def ex_api_def ex_again_def GetSyncState_def empty_db_def now) (simp add: empty_db_def keys_ok_def)
  with second first(3) show ?thesis by auto
qed

theorem tick_keeps_local_witness:
  "first_seen (tick_state ''p'' 0 7 (mapPlan (\<lambda>s. s) (Some ex_export)) empty_db) (''p'', ''t1'') = Some (formatTime 0)"
proof -
  let ?b = "mapPlan (\<lambda>s. s) (Some ex_export)"
  have "batch_distinct ?b" by (simp add: batch_distinct_def tick_eval)
  from tick_keeps_local [OF this, of "''p''" 0 7 empty_db "(''p'', ''t1'')"]
  show ?thesis by (simp add: tick_eval)
qed

theorem linkEvents_once_witness:
  "linkEvents None (tick_state ''p'' 0 7 (mapPlan (\<lambda>s. s) (Some ex_export)) empty_db) ''p'' [mapAccount (ex_account True)] =
     Inr [\<lparr>le_account_id = ''a1'', le_account_name = ''Checking'', le_in_error = True\<rparr>]"
proof -
  let ?b = "mapPlan (\<lambda>s. s) (Some ex_export)"
  have "batch_distinct ?b" by (simp add: batch_distinct_def tick_eval)
  from linkEvents_once [OF this, of "mapAccount (ex_account False)" "mapAccount (ex_account True)" "''p''" 0 7 empty_db]
  show ?thesis by (simp add: tick_eval)
qed

end
