(* ===== verification/StoreQueries.thy ===== *)
theory StoreQueries
  imports StoreMirror GoText
begin

text \<open>
  The queries over the mirror (\<open>sync/mirror.go\<close>: \<open>Freshness\<close>; \<open>store/status.go\<close>:
  \<open>AccountImports\<close>) and the archived-plan scan with its table (\<open>store/planscan.go\<close>,
  \<open>sync/mirror.go\<close>: \<open>ScanDiscretionary\<close>).
\<close>

subsection \<open>Import freshness\<close>

text \<open>SQL's \<open>MAX\<close> of a text column: the greatest in byte order, NULL of no rows.\<close>

fun sql_max :: "string list \<Rightarrow> string option" where
  "sql_max [] = None"
| "sql_max (x # xs) = (case sql_max xs of None \<Rightarrow> Some x | Some y \<Rightarrow> Some (max x y))"

text \<open>The joined rows of an account: its live transactions with an import id.\<close>

definition imports_of :: "db \<Rightarrow> string \<Rightarrow> string \<Rightarrow> transaction_row list" where
  "imports_of d plan account =
     map snd (filter (\<lambda>((p, _), t). p = plan \<and> tx_account_id t = account \<and> tx_import_id t \<noteq> None \<and> \<not> tx_deleted t)
       (transactions d))"

record account_freshness =
  af_account_id :: string
  af_name :: string
  af_closed :: bool
  af_linked :: bool
  af_in_error :: bool
  af_newest_import_date :: string
  af_last_import_seen_at :: "time option"
  af_synced_at :: time

text \<open>The rows of \<open>WHERE a.plan_id = ? AND ...\<close>, in the order of \<open>ORDER BY a.name, a.id\<close>.\<close>

definition plan_accounts :: "db \<Rightarrow> string \<Rightarrow> (account_row \<Rightarrow> bool) \<Rightarrow> (string \<times> account_row) list" where
  "plan_accounts d plan q =
     sort_key (\<lambda>(k, a). (acc_name a, k))
       (map (\<lambda>((_, k), a). (k, a)) (filter (\<lambda>((p, _), a). p = plan \<and> q a) (accounts d)))"

definition freshness_row :: "db \<Rightarrow> string \<Rightarrow> time \<Rightarrow> string \<times> account_row \<Rightarrow> account_freshness result" where
  "freshness_row d plan synced ka =
     (case ka of (k, a) \<Rightarrow>
        let ts = imports_of d plan k;
            f = (\<lambda>seen. \<lparr>af_account_id = k, af_name = acc_name a, af_closed = acc_closed a,
              af_linked = acc_direct_import_linked a, af_in_error = acc_direct_import_in_error a,
              af_newest_import_date = (case sql_max (map tx_date ts) of None \<Rightarrow> [] | Some x \<Rightarrow> x),
              af_last_import_seen_at = seen, af_synced_at = synced\<rparr>)
        in (case sql_max (map tx_first_seen_at ts) of
              None \<Rightarrow> Inr (f None)
            | Some s \<Rightarrow>
                (case parseTime s of
                   None \<Rightarrow> Inl (newError ''sync: freshness: parse first_seen_at'')
                 | Some t \<Rightarrow> Inr (f (Some t)))))"

text \<open>A plan never synced has the zero \<open>SyncedAt\<close>.\<close>

definition Freshness :: "error option \<Rightarrow> error option \<Rightarrow> db \<Rightarrow> string \<Rightarrow> account_freshness list result" where
  "Freshness sflt flt d plan =
     (case GetSyncState sflt d plan of
        Inl e \<Rightarrow> Inl (wrapError ''sync: freshness'' e)
      | Inr st \<Rightarrow>
          (case flt of
             Some e \<Rightarrow> Inl (wrapError ''sync: freshness'' e)
           | None \<Rightarrow>
               collect (freshness_row d plan (case st of None \<Rightarrow> 0 | Some s \<Rightarrow> ss_synced_at s))
                 (plan_accounts d plan (\<lambda>a. \<not> acc_deleted a))))"

record account_import =
  ai_name :: string
  ai_newest_import :: string
  ai_in_error :: bool

definition AccountImports :: "error option \<Rightarrow> db \<Rightarrow> string \<Rightarrow> account_import list result" where
  "AccountImports flt d plan =
     (case flt of
        Some e \<Rightarrow> Inl (wrapError ''store: read account imports'' e)
      | None \<Rightarrow>
          Inr (map (\<lambda>(k, a). \<lparr>ai_name = acc_name a,
                 ai_newest_import = (case sql_max (map tx_date (imports_of d plan k)) of None \<Rightarrow> [] | Some x \<Rightarrow> x),
                 ai_in_error = acc_direct_import_in_error a\<rparr>)
            (plan_accounts d plan (\<lambda>a. \<not> acc_deleted a \<and> \<not> acc_closed a \<and> acc_direct_import_linked a))))"

subsection \<open>The stored plan scan\<close>

record plan_scan =
  sc_plan_id :: string
  sc_name :: string
  sc_has_discretionary :: bool
  sc_scan_error :: string
  sc_scanned_at :: time

definition put_plan_scan :: "plan_scan \<Rightarrow> db \<Rightarrow> db" where
  "put_plan_scan p d =
     (let row = \<lparr>ps_name = sc_name p,
            ps_has_discretionary = (if sc_scan_error p \<noteq> [] then None else Some (sc_has_discretionary p)),
            ps_scan_error = (if sc_scan_error p \<noteq> [] then Some (sc_scan_error p) else None),
            ps_scanned_at = formatTime (sc_scanned_at p)\<rparr>
      in d\<lparr>plan_scans := tbl_upsert (sc_plan_id p) row
             (\<lambda>old. row\<lparr>
                ps_has_discretionary := (if ps_scan_error row = None then ps_has_discretionary row else ps_has_discretionary old),
                ps_scanned_at := (if ps_scan_error row = None then ps_scanned_at row else ps_scanned_at old)\<rparr>)
             (plan_scans d)\<rparr>)"

definition replace_scans_body :: "stmt_faults \<Rightarrow> plan_scan list \<Rightarrow> db \<Rightarrow> db result" where
  "replace_scans_body sflt rows d =
     (case exec_fault sflt ''prune'' 0 of
        Some e \<Rightarrow> Inl (wrapError ''store: prune plan_scan'' e)
      | None \<Rightarrow> upsert sflt ''plan_scan'' put_plan_scan rows
          (d\<lparr>plan_scans := tbl_delete (\<lambda>k _. k \<notin> set (map sc_plan_id rows)) (plan_scans d)\<rparr>))"

definition ReplacePlanScans :: "tx_faults \<Rightarrow> stmt_faults \<Rightarrow> plan_scan list \<Rightarrow> db conn \<Rightarrow> unit outcome \<times> db conn" where
  "ReplacePlanScans flt sflt rows c = Update flt (body (replace_scans_body sflt rows)) c"

definition scan_of_row :: "string \<times> plan_scan_row \<Rightarrow> plan_scan result" where
  "scan_of_row kr =
     (case kr of (k, r) \<Rightarrow>
        (case parseTime (ps_scanned_at r) of
           None \<Rightarrow> Inl (newError ''store: parse plan_scan.scanned_at'')
         | Some t \<Rightarrow> Inr \<lparr>sc_plan_id = k, sc_name = ps_name r,
             sc_has_discretionary = (ps_has_discretionary r = Some True),
             sc_scan_error = (case ps_scan_error r of None \<Rightarrow> [] | Some e \<Rightarrow> e), sc_scanned_at = t\<rparr>))"

definition PlanScans :: "error option \<Rightarrow> db \<Rightarrow> plan_scan list result" where
  "PlanScans flt d =
     (case flt of
        Some e \<Rightarrow> Inl (wrapError ''store: read plan_scan'' e)
      | None \<Rightarrow> collect scan_of_row (sort_key (\<lambda>(k, r). (ps_name r, k)) (plan_scans d)))"

subsection \<open>The scan\<close>

text \<open>A plan summary is its id and name; a category group its deletion flag and its categories.\<close>

record plan_summary =
  pl_id :: string
  pl_name :: string

record scan_group =
  sg_deleted :: bool
  sg_categories :: "(string \<times> bool) list"

definition DiscretionaryName :: string where
  "DiscretionaryName = ''Discretionary''"

definition hasDiscretionary :: "scan_group list \<Rightarrow> bool" where
  "hasDiscretionary groups =
     list_ex (\<lambda>g. \<not> sg_deleted g \<and>
       list_ex (\<lambda>(name, gone). \<not> gone \<and> EqualFold (TrimSpace name) DiscretionaryName) (sg_categories g)) groups"

record scan_failure =
  sf_name :: string
  sf_err :: string
  sf_orig :: error

record scan_error =
  se_scanned :: nat
  se_failed :: "scan_failure list"

text \<open>\<open>ScanError.Unwrap\<close>: causes that show the redacted text and match the original's sentinels.\<close>

definition scanCause :: "scan_failure \<Rightarrow> error" where
  "scanCause f = Error (sf_err f) (err_is (sf_orig f)) None"

definition ScanError_Unwrap :: "scan_error \<Rightarrow> error list" where
  "ScanError_Unwrap e = map scanCause (se_failed e)"

text \<open>One plan of the scan: its row, whether it was found, and its failure.\<close>

definition scan_plan :: "plan_summary \<Rightarrow> scan_group list result \<Rightarrow> time \<Rightarrow> plan_scan \<times> plan_summary list \<times> scan_failure list" where
  "scan_plan p answer now =
     (case answer of
        Inl e \<Rightarrow>
          let text = replace_uuids ''{id}'' (err_msg e)
          in (\<lparr>sc_plan_id = pl_id p, sc_name = pl_name p, sc_has_discretionary = False, sc_scan_error = text, sc_scanned_at = now\<rparr>,
              [], [\<lparr>sf_name = pl_name p, sf_err = text, sf_orig = e\<rparr>])
      | Inr groups \<Rightarrow>
          (\<lparr>sc_plan_id = pl_id p, sc_name = pl_name p, sc_has_discretionary = hasDiscretionary groups, sc_scan_error = [], sc_scanned_at = now\<rparr>,
           if hasDiscretionary groups then [p] else [], []))"

text \<open>The loop: \<open>ctx i\<close> is \<open>ctx.Err()\<close> before plan \<open>i\<close>, \<open>now i\<close> the clock after its answer.\<close>

fun scan_plans ::
    "(nat \<Rightarrow> error option) \<Rightarrow> (string \<Rightarrow> scan_group list result) \<Rightarrow> (nat \<Rightarrow> time) \<Rightarrow> nat \<Rightarrow> plan_summary list \<Rightarrow>
     (plan_scan list \<times> plan_summary list \<times> scan_failure list) result" where
  "scan_plans ctx client now i [] = Inr ([], [], [])"
| "scan_plans ctx client now i (p # ps) =
     (case ctx i of
        Some e \<Rightarrow> Inl (wrapError ''sync: scan plans'' e)
      | None \<Rightarrow>
          (case scan_plan p (client (pl_id p)) (now i) of
             (row, found, failed) \<Rightarrow>
               (case scan_plans ctx client now (Suc i) ps of
                  Inl e \<Rightarrow> Inl e
                | Inr (rows, out, fails) \<Rightarrow> Inr (row # rows, found @ out, failed @ fails))))"

text \<open>The plans found, and the \<open>*ScanError\<close> when some plan failed; other errors stop the scan.\<close>

definition ScanDiscretionary ::
    "tx_faults \<Rightarrow> stmt_faults \<Rightarrow> (nat \<Rightarrow> error option) \<Rightarrow> (nat \<Rightarrow> time) \<Rightarrow> plan_summary list result \<Rightarrow>
     (string \<Rightarrow> scan_group list result) \<Rightarrow> db conn \<Rightarrow> (plan_summary list \<times> scan_error option) result \<times> db conn" where
  "ScanDiscretionary flt sflt ctx now listing client c =
     (case listing of
        Inl e \<Rightarrow> (Inl (wrapError ''sync: list plans'' e), c)
      | Inr plans \<Rightarrow>
          (case scan_plans ctx client now 0 plans of
             Inl e \<Rightarrow> (Inl e, c)
           | Inr (rows, out, fails) \<Rightarrow>
               (case ReplacePlanScans flt sflt rows c of
                  (res, c') \<Rightarrow>
                    (case outcome_error res of
                       Some e \<Rightarrow> (Inl (wrapError ''sync: save plan scan'' e), c')
                     | None \<Rightarrow> (Inr (out, if fails = [] then None
                                           else Some \<lparr>se_scanned = length plans, se_failed = fails\<rparr>), c')))))"

end
