(* ===== verification/QueryFacts.thy ===== *)
theory QueryFacts
  imports StoreQueries SyncSpec
begin

text \<open>
  What the mirror's queries and the plan scan compute: \<open>MAX\<close> of the stored stamps is the latest
  time, and a scan's table is exactly the listed plans with their latest good verdicts.
\<close>

subsection \<open>Freshness\<close>

lemma sql_max_None [simp]: "sql_max xs = None \<longleftrightarrow> xs = []"
  by (cases xs) (auto split: option.splits)

lemma sql_max_Some: "sql_max xs = Some m \<longleftrightarrow> m \<in> set xs \<and> (\<forall>x \<in> set xs. x \<le> m)"
proof (induction xs arbitrary: m)
  case (Cons x xs)
  show ?case
  proof (cases "sql_max xs")
    case None
    then show ?thesis by auto
  next
    case (Some y)
    with Cons.IH [of y] show ?thesis by (auto simp: max_def intro: order_antisym)
  qed
qed simp

text \<open>The mirror stamps every transaction with the text of a storable time.\<close>

definition stamped :: "db \<Rightarrow> bool" where
  "stamped d = (\<forall>(k, t) \<in> set (transactions d). \<exists>u. storable u \<and> tx_first_seen_at t = formatTime u)"

lemma imports_stamped:
  "stamped d \<Longrightarrow> t \<in> set (imports_of d plan k) \<Longrightarrow> \<exists>u. storable u \<and> tx_first_seen_at t = formatTime u"
  by (force simp: stamped_def imports_of_def)

lemma newest_stamp:
  assumes "stamped d" and "sql_max (map tx_first_seen_at (imports_of d plan k)) = Some s"
  obtains u where "storable u" "s = formatTime u" "parseTime s = Some u"
    "\<exists>t \<in> set (imports_of d plan k). tx_first_seen_at t = formatTime u"
    "\<And>t v. t \<in> set (imports_of d plan k) \<Longrightarrow> storable v \<Longrightarrow> tx_first_seen_at t = formatTime v \<Longrightarrow> v \<le> u"
proof -
  from assms(2) obtain t where t: "t \<in> set (imports_of d plan k)" "s = tx_first_seen_at t"
    and le: "\<forall>x \<in> set (imports_of d plan k). tx_first_seen_at x \<le> s"
    by (auto simp: sql_max_Some)
  from imports_stamped [OF assms(1) t(1)] t(2) obtain u where u: "storable u" "s = formatTime u" by auto
  show thesis
  proof (rule that [OF u])
    show "parseTime s = Some u" using u parseTime_formatTime by simp
    show "\<exists>t \<in> set (imports_of d plan k). tx_first_seen_at t = formatTime u" using t u by auto
    fix x v assume "x \<in> set (imports_of d plan k)" "storable v" "tx_first_seen_at x = formatTime v"
    then show "v \<le> u" using le u formatTime_le by metis
  qed
qed

text \<open>The last import seen of an account: none, or the latest stamp of its live imports.\<close>

definition latest_seen :: "db \<Rightarrow> string \<Rightarrow> account_freshness \<Rightarrow> bool" where
  "latest_seen d plan f \<longleftrightarrow>
     (case af_last_import_seen_at f of
        None \<Rightarrow> imports_of d plan (af_account_id f) = []
      | Some u \<Rightarrow> (\<exists>t \<in> set (imports_of d plan (af_account_id f)). tx_first_seen_at t = formatTime u) \<and>
          (\<forall>t v. t \<in> set (imports_of d plan (af_account_id f)) \<and> storable v \<and> tx_first_seen_at t = formatTime v \<longrightarrow> v \<le> u))"

lemma freshness_row_Inr:
  assumes "stamped d"
  shows "\<exists>f. freshness_row d plan synced ka = Inr f \<and> af_account_id f = fst ka \<and> latest_seen d plan f"
proof (cases "sql_max (map tx_first_seen_at (imports_of d plan (fst ka)))")
  case None
  then show ?thesis by (cases ka) (simp add: freshness_row_def Let_def latest_seen_def)
next
  case (Some s)
  then show ?thesis
    by (cases ka, cases rule: newest_stamp [OF assms Some]) (auto simp: freshness_row_def Let_def latest_seen_def)
qed

text \<open>
  \<open>Freshness\<close> lists exactly the live accounts of the plan, and an account's
  \<open>LastImportSeenAt\<close> is the latest time at which any of its live imported transactions was first
  seen: comparing the stored texts with \<open>MAX\<close> is comparing the times.
\<close>

theorem Freshness_latest:
  assumes "stamped d" and "GetSyncState None d plan = Inr st"
  shows "\<exists>fs. Freshness None None d plan = Inr fs \<and>
    map af_account_id fs = map fst (plan_accounts d plan (\<lambda>a. \<not> acc_deleted a)) \<and>
    list_all (latest_seen d plan) fs"
proof -
  let ?synced = "case st of None \<Rightarrow> 0 | Some s \<Rightarrow> ss_synced_at s"
  let ?row = "\<lambda>ka. projr (freshness_row d plan ?synced ka)"
  have row: "freshness_row d plan ?synced ka = Inr (?row ka)" "af_account_id (?row ka) = fst ka"
      "latest_seen d plan (?row ka)" for ka
    using freshness_row_Inr [OF assms(1), of plan ?synced ka] by auto
  have "Freshness None None d plan = Inr (map ?row (plan_accounts d plan (\<lambda>a. \<not> acc_deleted a)))"
    by (simp add: Freshness_def assms(2)) (rule collect_map, rule row(1))
  then show ?thesis by (simp add: row(2,3) list_all_iff)
qed

subsection \<open>The plan scan\<close>

lemma replace_uuids_Nil_iff: "replace_uuids ''{id}'' s = [] \<longleftrightarrow> s = []"
  by (subst replace_uuids.simps) auto

definition plan_scan_args :: "plan_scan \<Rightarrow> plan_scan_row" where
  "plan_scan_args p = \<lparr>ps_name = sc_name p,
     ps_has_discretionary = (if sc_scan_error p \<noteq> [] then None else Some (sc_has_discretionary p)),
     ps_scan_error = (if sc_scan_error p \<noteq> [] then Some (sc_scan_error p) else None),
     ps_scanned_at = formatTime (sc_scanned_at p)\<rparr>"

text \<open>A failed scan keeps the plan's last good verdict and its time.\<close>

definition plan_scan_over :: "plan_scan \<Rightarrow> plan_scan_row \<Rightarrow> plan_scan_row" where
  "plan_scan_over p old =
     (if sc_scan_error p = [] then plan_scan_args p
      else (plan_scan_args p)\<lparr>ps_has_discretionary := ps_has_discretionary old, ps_scanned_at := ps_scanned_at old\<rparr>)"

lemma fold_put_plan_scan:
  "fold put_plan_scan rs d =
     d\<lparr>plan_scans := fold (\<lambda>p. tbl_upsert (sc_plan_id p) (plan_scan_args p) (plan_scan_over p)) rs (plan_scans d)\<rparr>"
proof (induction rs arbitrary: d)
  case (Cons p rs)
  have "put_plan_scan p d = d\<lparr>plan_scans := tbl_upsert (sc_plan_id p) (plan_scan_args p) (plan_scan_over p) (plan_scans d)\<rparr>" for d
  proof -
    have over: "plan_scan_over p = (\<lambda>old. if sc_scan_error p = [] then plan_scan_args p
        else (plan_scan_args p)\<lparr>ps_has_discretionary := ps_has_discretionary old, ps_scanned_at := ps_scanned_at old\<rparr>)"
      by (simp add: fun_eq_iff plan_scan_over_def)
    show ?thesis
      by (cases "sc_scan_error p = []") (simp_all add: put_plan_scan_def plan_scan_args_def Let_def over)
  qed
  then show ?case by (simp add: Cons)
qed simp

lemma tbl_get_delete_keys: "tbl_get (tbl_delete (\<lambda>k _. q k) t) k = (if q k then None else tbl_get t k)"
  by (induction t) (auto simp: tbl_delete_def split: if_splits)

text \<open>What the table holds of one plan after a scan of it.\<close>

lemma replace_scans_get:
  assumes "distinct (map sc_plan_id rows)" and "p \<in> set rows"
    and "replace_scans_body sflt rows d = Inr d'"
  shows "tbl_get (plan_scans d') (sc_plan_id p) =
     Some (case tbl_get (plan_scans d) (sc_plan_id p) of None \<Rightarrow> plan_scan_args p | Some old \<Rightarrow> plan_scan_over p old)"
proof -
  obtain qs rs where rows: "rows = qs @ p # rs" using split_list [OF assms(2)] by blast
  with assms(1) have fresh: "sc_plan_id p \<notin> sc_plan_id ` set qs" "sc_plan_id p \<notin> sc_plan_id ` set rs" by auto
  let ?t = "tbl_delete (\<lambda>k _. k \<notin> set (map sc_plan_id rows)) (plan_scans d)"
  have d': "plan_scans d' = fold (\<lambda>p. tbl_upsert (sc_plan_id p) (plan_scan_args p) (plan_scan_over p)) rows ?t"
    using assms(3) by (auto simp: replace_scans_body_def fold_put_plan_scan split: option.splits dest!: upsert_Inr)
  have kept: "tbl_get ?t (sc_plan_id p) = tbl_get (plan_scans d) (sc_plan_id p)"
    using assms(2) by (simp add: tbl_get_delete_keys image_iff) blast
  show ?thesis
    unfolding d' rows table.get_fold_last [where key = sc_plan_id, OF fresh(2)]
      table.get_fold_other [where key = sc_plan_id, OF fresh(1)] kept [unfolded rows] ..
qed

lemma replace_scans_keys:
  assumes "replace_scans_body sflt rows d = Inr d'"
  shows "tbl_get (plan_scans d') k \<noteq> None \<longleftrightarrow> k \<in> sc_plan_id ` set rows"
proof -
  let ?t = "tbl_delete (\<lambda>k _. k \<notin> set (map sc_plan_id rows)) (plan_scans d)"
  have d': "plan_scans d' = fold (\<lambda>p. tbl_upsert (sc_plan_id p) (plan_scan_args p) (plan_scan_over p)) rows ?t"
    using assms by (auto simp: replace_scans_body_def fold_put_plan_scan split: option.splits dest!: upsert_Inr)
  show ?thesis
    using table.get_fold_dom [where key = sc_plan_id and new = plan_scan_args and upd = plan_scan_over and rs = rows and t = ?t and k = k]
    unfolding d' by (auto simp: tbl_get_delete_keys)
qed

text \<open>The rows a scan stores, by plan.\<close>

definition failed_plan :: "(string \<Rightarrow> scan_group list result) \<Rightarrow> plan_summary \<Rightarrow> bool" where
  "failed_plan client p = (case client (pl_id p) of Inl _ \<Rightarrow> True | Inr _ \<Rightarrow> False)"

definition found_plan :: "(string \<Rightarrow> scan_group list result) \<Rightarrow> plan_summary \<Rightarrow> bool" where
  "found_plan client p = (case client (pl_id p) of Inl _ \<Rightarrow> False | Inr groups \<Rightarrow> hasDiscretionary groups)"

definition scan_row :: "(string \<Rightarrow> scan_group list result) \<Rightarrow> plan_summary \<Rightarrow> time \<Rightarrow> plan_scan" where
  "scan_row client p now = fst (scan_plan p (client (pl_id p)) now)"

lemma scan_row_id [simp]: "sc_plan_id (scan_row client p now) = pl_id p"
  by (simp add: scan_row_def scan_plan_def Let_def split: sum.splits)

lemma scan_plans_Inr:
  assumes "scan_plans ctx client now i ps = Inr (rows, out, fails)"
  shows "rows = map (\<lambda>(j, p). scan_row client p (now j)) (enumerate i ps) \<and> out = filter (found_plan client) ps \<and>
    map sf_name fails = map pl_name (filter (failed_plan client) ps) \<and>
    (\<forall>f \<in> set fails. sf_err f = replace_uuids ''{id}'' (err_msg (sf_orig f)))"
  using assms
proof (induction ps arbitrary: i rows out fails)
  case (Cons p ps)
  then obtain rows' out' fails' where r: "scan_plans ctx client now (Suc i) ps = Inr (rows', out', fails')"
    and o: "rows = scan_row client p (now i) # rows'" "out = fst (snd (scan_plan p (client (pl_id p)) (now i))) @ out'"
      "fails = snd (snd (scan_plan p (client (pl_id p)) (now i))) @ fails'"
    by (auto simp: scan_row_def split: option.splits prod.splits sum.splits)
  from Cons.IH [OF r] o show ?case
    by (auto simp: scan_plan_def found_plan_def failed_plan_def Let_def split: sum.splits)
qed simp

lemma scan_rows_ids: "map sc_plan_id (map (\<lambda>(j, p). scan_row client p (now j)) (enumerate i ps)) = map pl_id ps"
  by (induction ps arbitrary: i) simp_all

text \<open>
  C9: a plan scan that is saved leaves exactly the listed plans in the table, each with its name. A
  plan that answered has its fresh verdict and time and no error; a plan that failed has its
  redacted error and keeps the verdict and the time of its last good scan. The plans returned are
  the ones that answered and have a live "Discretionary" category, and no stored error shows an id.
\<close>

theorem ScanDiscretionary_stored:
  assumes "conn_idle c" and "distinct (map pl_id plans)" and "\<forall>k e. client k = Inl e \<longrightarrow> err_msg e \<noteq> []"
    and "ScanDiscretionary flt sflt ctx now (Inr plans) client c = (Inr (out, err), c')"
  shows "(\<forall>k. tbl_get (plan_scans (committed c')) k \<noteq> None \<longleftrightarrow> k \<in> pl_id ` set plans) \<and>
    (\<forall>i < length plans.
       tbl_get (plan_scans (committed c')) (pl_id (plans ! i)) =
       Some (case client (pl_id (plans ! i)) of
               Inr groups \<Rightarrow> \<lparr>ps_name = pl_name (plans ! i), ps_has_discretionary = Some (hasDiscretionary groups),
                 ps_scan_error = None, ps_scanned_at = formatTime (now i)\<rparr>
             | Inl e \<Rightarrow>
                 let old = tbl_get (plan_scans (committed c)) (pl_id (plans ! i))
                 in \<lparr>ps_name = pl_name (plans ! i),
                   ps_has_discretionary = (case old of None \<Rightarrow> None | Some r \<Rightarrow> ps_has_discretionary r),
                   ps_scan_error = Some (replace_uuids ''{id}'' (err_msg e)),
                   ps_scanned_at = (case old of None \<Rightarrow> formatTime (now i) | Some r \<Rightarrow> ps_scanned_at r)\<rparr>)) \<and>
    out = filter (found_plan client) plans \<and> (err = None \<longleftrightarrow> \<not> list_ex (failed_plan client) plans) \<and>
    (\<forall>e. \<not> has_uuid (replace_uuids ''{id}'' (err_msg e)))"
proof -
  obtain rows fails where s: "scan_plans ctx client now 0 plans = Inr (rows, out, fails)"
    and u: "ReplacePlanScans flt sflt rows c = (Returns (), c')" and err: "err = None \<longleftrightarrow> fails = []"
    using assms(4) by (auto simp: ScanDiscretionary_def split: sum.splits prod.splits option.splits if_splits)
  note sp = scan_plans_Inr [OF s]
  have body: "replace_scans_body sflt rows (committed c) = Inr (committed c')"
    using u store_tx.run_ok [OF assms(1), of flt foreign_keys "body (replace_scans_body sflt rows)"]
    by (auto simp: ReplacePlanScans_def Update_def body_def split: sum.splits)
  have ids: "map sc_plan_id rows = map pl_id plans" using sp scan_rows_ids by simp
  have "k \<in> sc_plan_id ` set rows \<longleftrightarrow> k \<in> pl_id ` set plans" for k
    using ids by (metis set_map)
  with replace_scans_keys [OF body] have keys:
    "\<forall>k. tbl_get (plan_scans (committed c')) k \<noteq> None \<longleftrightarrow> k \<in> pl_id ` set plans" by simp
  have row: "tbl_get (plan_scans (committed c')) (pl_id (plans ! i)) =
      Some (case tbl_get (plan_scans (committed c)) (pl_id (plans ! i)) of
              None \<Rightarrow> plan_scan_args (scan_row client (plans ! i) (now i))
            | Some old \<Rightarrow> plan_scan_over (scan_row client (plans ! i) (now i)) old)" if "i < length plans" for i
  proof -
    have "rows ! i = scan_row client (plans ! i) (now i)" "i < length rows"
      using sp that by (simp_all add: nth_enumerate_eq)
    then have "scan_row client (plans ! i) (now i) \<in> set rows" by (metis nth_mem)
    from replace_scans_get [OF _ this body] assms(2) ids show ?thesis by simp
  qed
  have "err = None \<longleftrightarrow> \<not> list_ex (failed_plan client) plans"
    using sp err by (metis list_ex_iff filter_empty_conv map_is_Nil_conv)
  moreover have "\<not> has_uuid (replace_uuids ''{id}'' (err_msg e))" for e
    by (rule replace_uuids_clean [where b = "CHR ''{''" and mid = "''id''" and e = "CHR ''}''"])
      (simp_all add: uuid_char_def is_hex_def)
  ultimately show ?thesis
    using keys row sp assms(3)
    by (auto simp: scan_row_def scan_plan_def plan_scan_args_def plan_scan_over_def Let_def replace_uuids_Nil_iff
        split: sum.splits option.splits)
qed

subsection \<open>Concrete inputs\<close>

definition ex_imported :: db where
  "ex_imported = put_transaction ''p'' (formatTime 5)
     (mapTransaction (\<lambda>s. s) ((ex_transaction False)\<lparr>xtx_import_id := Some ''i1''\<rparr>))
     (put_account ''p'' (mapAccount (ex_account False)) empty_db)"

theorem Freshness_latest_witness:
  "\<exists>f. Freshness None None ex_imported ''p'' = Inr [f] \<and> af_account_id f = ''a1'' \<and> latest_seen ex_imported ''p'' f \<and>
     imports_of ex_imported ''p'' ''a1'' \<noteq> []"
proof -
  have s5: "storable 5" by code_simp
  have d: "stamped ex_imported" "GetSyncState None ex_imported ''p'' = Inr None"
      "imports_of ex_imported ''p'' ''a1'' \<noteq> []"
      "map fst (plan_accounts ex_imported ''p'' (\<lambda>a. \<not> acc_deleted a)) = [''a1'']"
    using s5 by (auto simp: ex_imported_def stamped_def imports_of_def plan_accounts_def tick_eval)
  from Freshness_latest [OF d(1,2)] d(3,4) show ?thesis by (auto simp: Cons_eq_map_conv)
qed

definition ex_plans :: "plan_summary list" where
  "ex_plans = [\<lparr>pl_id = ''p1'', pl_name = ''Old''\<rparr>, \<lparr>pl_id = ''p2'', pl_name = ''New''\<rparr>]"

definition ex_client :: "string \<Rightarrow> scan_group list result" where
  "ex_client k = (if k = ''p1'' then Inl (newError ''boom'')
     else Inr [\<lparr>sg_deleted = False, sg_categories = [('' discretionary '', False)]\<rparr>])"

definition ex_scan :: "(plan_summary list \<times> scan_error option) result \<times> db conn" where
  "ex_scan = ScanDiscretionary no_faults no_stmt_faults (\<lambda>_. None) (\<lambda>_. 5) (Inr ex_plans) ex_client (fresh_conn empty_db)"

theorem ScanDiscretionary_stored_witness:
  "\<exists>err c'. ex_scan = (Inr ([\<lparr>pl_id = ''p2'', pl_name = ''New''\<rparr>], err), c') \<and> err \<noteq> None \<and>
     tbl_get (plan_scans (committed c')) ''p2'' = Some \<lparr>ps_name = ''New'', ps_has_discretionary = Some True,
       ps_scan_error = None, ps_scanned_at = formatTime 5\<rparr>"
proof -
  have disc: "hasDiscretionary [\<lparr>sg_deleted = False, sg_categories = [('' discretionary '', False)]\<rparr>]"
    by code_simp
  have "case fst ex_scan of Inr _ \<Rightarrow> True | Inl _ \<Rightarrow> False"
    by (simp add: ex_scan_def ScanDiscretionary_def ex_plans_def ex_client_def scan_plan_def Let_def disc ReplacePlanScans_def
        replace_scans_body_def Update_def writeTx_def tx_defs no_faults_def body_def upsert_def no_stmt_faults_def
        foreign_keys_def empty_db_def put_plan_scan_def)
  then obtain x where "fst ex_scan = Inr x" by (auto split: sum.splits)
  then have "ex_scan = (Inr x, snd ex_scan)" by (metis prod.collapse)
  then obtain out err c' where r: "ex_scan = (Inr (out, err), c')" by (cases x) auto
  have dist: "distinct (map pl_id ex_plans)" by (simp add: ex_plans_def)
  have msg: "\<forall>k e. ex_client k = Inl e \<longrightarrow> err_msg e \<noteq> []"
    by (auto simp: ex_client_def newError_def split: if_splits)
  note all = ScanDiscretionary_stored [OF conn_idle_simps(1) dist msg r [unfolded ex_scan_def]]
  have "tbl_get (plan_scans (committed c')) (pl_id (ex_plans ! 1)) = Some \<lparr>ps_name = ''New'', ps_has_discretionary = Some True,
       ps_scan_error = None, ps_scanned_at = formatTime 5\<rparr>"
    using all [THEN conjunct2, THEN conjunct1, rule_format, of 1] by (simp add: ex_client_def ex_plans_def disc)
  moreover have "out = filter (found_plan ex_client) ex_plans" "err = None \<longleftrightarrow> \<not> list_ex (failed_plan ex_client) ex_plans"
    using all [THEN conjunct2, THEN conjunct2] by blast+
  ultimately show ?thesis using r by (auto simp add: ex_plans_def found_plan_def failed_plan_def ex_client_def disc)
qed

end
