(* ===== verification/StoreStatus.thy ===== *)
theory StoreStatus
  imports StoreQueries
begin

text \<open>
  \<open>store/status.go\<close>: the one row behind the Slack status message, read as a struct whose missing
  columns are zero values, and the interface the status updater uses it through (\<open>status_store\<close>).
\<close>

record status_state =
  su_channel_id :: string
  su_ts :: string
  su_backup_at :: time
  su_backup_ok :: bool
  su_post_attempt_at :: time

definition no_status :: status_state where
  "no_status = \<lparr>su_channel_id = [], su_ts = [], su_backup_at = 0, su_backup_ok = False, su_post_attempt_at = 0\<rparr>"

definition no_status_row :: status_row where
  "no_status_row = \<lparr>st_channel_id = None, st_ts = None, st_backup_at = None, st_backup_ok = None, st_post_attempt_at = None\<rparr>"

text \<open>A nullable text column as \<open>sql.NullString\<close>'s \<open>String\<close>, and a nullable time column.\<close>

definition null_string :: "string option \<Rightarrow> string" where
  "null_string c = (case c of None \<Rightarrow> [] | Some s \<Rightarrow> s)"

definition null_time :: "string \<Rightarrow> string option \<Rightarrow> time result" where
  "null_time what c =
     (case c of
        None \<Rightarrow> Inr 0
      | Some s \<Rightarrow> (case parseTime s of
                     None \<Rightarrow> Inl (newError (''store: parse status_message.'' @ what))
                   | Some t \<Rightarrow> Inr t))"

definition GetStatusState :: "error option \<Rightarrow> db \<Rightarrow> status_state result" where
  "GetStatusState flt d =
     (case flt of
        Some e \<Rightarrow> Inl (wrapError ''store: get status_message'' e)
      | None \<Rightarrow>
          (case status_message d of
             None \<Rightarrow> Inr no_status
           | Some r \<Rightarrow>
               (case null_time ''backup_at'' (st_backup_at r) of
                  Inl e \<Rightarrow> Inl e
                | Inr backup_at \<Rightarrow>
                    (case null_time ''post_attempt_at'' (st_post_attempt_at r) of
                       Inl e \<Rightarrow> Inl e
                     | Inr attempt \<Rightarrow> Inr \<lparr>su_channel_id = null_string (st_channel_id r), su_ts = null_string (st_ts r),
                         su_backup_at = backup_at, su_backup_ok = (st_backup_ok r = Some True),
                         su_post_attempt_at = attempt\<rparr>))))"

text \<open>\<open>INSERT ... VALUES (1, ...) ON CONFLICT (id) DO UPDATE SET\<close> on the single row.\<close>

definition put_status :: "stmt_faults \<Rightarrow> string \<Rightarrow> (status_row \<Rightarrow> status_row) \<Rightarrow> db \<Rightarrow> db result" where
  "put_status flt what f d =
     (case exec_fault flt ''status_message'' 0 of
        Some e \<Rightarrow> Inl (wrapError what e)
      | None \<Rightarrow> Inr (d\<lparr>status_message := Some (f (case status_message d of None \<Rightarrow> no_status_row | Some r \<Rightarrow> r))\<rparr>))"

definition SetStatusPostAttempt :: "tx_faults \<Rightarrow> stmt_faults \<Rightarrow> time \<Rightarrow> db conn \<Rightarrow> unit outcome \<times> db conn" where
  "SetStatusPostAttempt flt sflt at c =
     Update flt (body (put_status sflt ''store: set status_message post attempt''
       (\<lambda>r. r\<lparr>st_post_attempt_at := (if IsZero at then None else Some (formatTime at))\<rparr>))) c"

definition SetStatusMessage :: "tx_faults \<Rightarrow> stmt_faults \<Rightarrow> string \<Rightarrow> string \<Rightarrow> db conn \<Rightarrow> unit outcome \<times> db conn" where
  "SetStatusMessage flt sflt channelID ts c =
     Update flt (body (put_status sflt ''store: set status_message''
       (\<lambda>r. r\<lparr>st_channel_id := Some channelID, st_ts := Some ts\<rparr>))) c"

definition SetStatusBackup :: "tx_faults \<Rightarrow> stmt_faults \<Rightarrow> time \<Rightarrow> bool \<Rightarrow> db conn \<Rightarrow> unit outcome \<times> db conn" where
  "SetStatusBackup flt sflt at ok c =
     Update flt (body (put_status sflt ''store: set status_message backup''
       (\<lambda>r. r\<lparr>st_backup_at := Some (formatTime at), st_backup_ok := Some ok\<rparr>))) c"

subsection \<open>The interface\<close>

text \<open>
  \<open>status.Store\<close> as the updater uses it, each operation with the failure its environment picks:
  the interface's operations as a record of functions.
\<close>

record ('f, 's) status_ops =
  op_get :: "'f \<Rightarrow> 's \<Rightarrow> status_state result"
  op_set_attempt :: "'f \<Rightarrow> time \<Rightarrow> 's \<Rightarrow> error option \<times> 's"
  op_set_message :: "'f \<Rightarrow> string \<Rightarrow> string \<Rightarrow> 's \<Rightarrow> error option \<times> 's"
  op_set_backup :: "'f \<Rightarrow> time \<Rightarrow> bool \<Rightarrow> 's \<Rightarrow> error option \<times> 's"
  op_get_sync :: "'f \<Rightarrow> string \<Rightarrow> 's \<Rightarrow> sync_state option result"
  op_accounts :: "'f \<Rightarrow> string \<Rightarrow> 's \<Rightarrow> account_import list result"

text \<open>
  The contract: \<open>view\<close> is what a read that does not fail returns, and a write changes its own
  fields of it, or nothing when it fails.
\<close>

locale status_store =
  fixes ops :: "('f, 's) status_ops" and view :: "'s \<Rightarrow> status_state" and ok :: "'s \<Rightarrow> bool"
  assumes get_view: "ok s \<Longrightarrow> op_get ops f s = Inr st \<Longrightarrow> st = view s"
    and attempt_ok: "ok s \<Longrightarrow> storable t \<Longrightarrow> op_set_attempt ops f t s = (r, s') \<Longrightarrow>
      ok s' \<and> view s' = (if r = None then (view s)\<lparr>su_post_attempt_at := t\<rparr> else view s)"
    and message_ok: "ok s \<Longrightarrow> op_set_message ops f ch ts s = (r, s') \<Longrightarrow>
      ok s' \<and> view s' = (if r = None then (view s)\<lparr>su_channel_id := ch, su_ts := ts\<rparr> else view s)"
    and backup_ok: "ok s \<Longrightarrow> storable t \<Longrightarrow> op_set_backup ops f t b s = (r, s') \<Longrightarrow>
      ok s' \<and> view s' = (if r = None then (view s)\<lparr>su_backup_at := t, su_backup_ok := b\<rparr> else view s)"
begin

text \<open>Whatever is written, the other fields stay.\<close>

lemma attempt_frame:
  assumes "ok s" "storable t" "op_set_attempt ops f t s = (r, s')"
  shows "su_ts (view s') = su_ts (view s)" "su_channel_id (view s') = su_channel_id (view s)"
    "su_post_attempt_at (view s') \<in> {t, su_post_attempt_at (view s)}"
  using attempt_ok [OF assms] by auto

lemma message_frame: "ok s \<Longrightarrow> op_set_message ops f ch ts s = (r, s') \<Longrightarrow> su_post_attempt_at (view s') = su_post_attempt_at (view s)"
  using message_ok [of s f ch ts r s'] by auto

lemma backup_frame:
  assumes "ok s" "storable t" "op_set_backup ops f t b s = (r, s')"
  shows "su_post_attempt_at (view s') = su_post_attempt_at (view s)" "su_ts (view s') = su_ts (view s)"
    "su_channel_id (view s') = su_channel_id (view s)"
  using backup_ok [OF assms] by auto

end

subsection \<open>The database behind the interface\<close>

record status_faults =
  sf_read :: "error option"
  sf_tx :: tx_faults
  sf_stmt :: stmt_faults

definition db_status_ops :: "(status_faults, db conn) status_ops" where
  "db_status_ops = \<lparr>
     op_get = (\<lambda>f c. GetStatusState (sf_read f) (committed c)),
     op_set_attempt = (\<lambda>f at c. apfst outcome_error (SetStatusPostAttempt (sf_tx f) (sf_stmt f) at c)),
     op_set_message = (\<lambda>f ch ts c. apfst outcome_error (SetStatusMessage (sf_tx f) (sf_stmt f) ch ts c)),
     op_set_backup = (\<lambda>f at b c. apfst outcome_error (SetStatusBackup (sf_tx f) (sf_stmt f) at b c)),
     op_get_sync = (\<lambda>f plan c. GetSyncState (sf_read f) (committed c) plan),
     op_accounts = (\<lambda>f plan c. AccountImports (sf_read f) (committed c) plan)\<rparr>"

definition status_view :: "db conn \<Rightarrow> status_state" where
  "status_view c = (case GetStatusState None (committed c) of Inl _ \<Rightarrow> no_status | Inr st \<Rightarrow> st)"

definition status_ok :: "db conn \<Rightarrow> bool" where
  "status_ok c = (conn_idle c \<and> (\<exists>st. GetStatusState None (committed c) = Inr st))"

text \<open>A read depends on the row alone, and a missing row reads as an empty one.\<close>

definition read_status :: "status_row \<Rightarrow> status_state result" where
  "read_status r = GetStatusState None (empty_db\<lparr>status_message := Some r\<rparr>)"

definition status_row_of :: "db \<Rightarrow> status_row" where
  "status_row_of d = (case status_message d of None \<Rightarrow> no_status_row | Some r \<Rightarrow> r)"

lemma GetStatusState_row: "GetStatusState None d = read_status (status_row_of d)"
  by (cases "status_message d")
    (simp_all add: read_status_def status_row_of_def GetStatusState_def no_status_row_def no_status_def null_time_def null_string_def)

lemma put_status_row: "put_status sflt what g d = Inr d' \<Longrightarrow> status_row_of d' = g (status_row_of d)"
  by (auto simp: put_status_def status_row_of_def split: option.splits)

lemma put_status_update:
  assumes "status_ok c" and "Update flt (body (put_status sflt what g)) c = (out, c')"
    and read: "\<And>r st. read_status r = Inr st \<Longrightarrow> read_status (g r) = Inr (h st)"
  shows "status_ok c' \<and> status_view c' = (if outcome_error out = None then h (status_view c) else status_view c)"
proof -
  from assms(1) obtain st where c: "conn_idle c" and st: "read_status (status_row_of (committed c)) = Inr st"
    by (auto simp: status_ok_def GetStatusState_row)
  from c show ?thesis
  proof (cases rule: Update_cases [of c flt "put_status sflt what g"])
    case (ok c2)
    with assms(2) st read [OF st] put_status_row [OF ok(3)] show ?thesis
      by (auto simp: status_ok_def status_view_def GetStatusState_row)
  next
    case (failed out2 e c2)
    with assms(2) st show ?thesis by (auto simp: status_ok_def status_view_def GetStatusState_row)
  qed
qed

lemma read_status_simps:
  "read_status r = Inr st \<Longrightarrow> storable at \<Longrightarrow>
     read_status (r\<lparr>st_post_attempt_at := (if IsZero at then None else Some (formatTime at))\<rparr>) = Inr (st\<lparr>su_post_attempt_at := at\<rparr>)"
  "read_status r = Inr st \<Longrightarrow> read_status (r\<lparr>st_channel_id := Some ch, st_ts := Some ts\<rparr>) = Inr (st\<lparr>su_channel_id := ch, su_ts := ts\<rparr>)"
  "read_status r = Inr st \<Longrightarrow> storable at \<Longrightarrow>
     read_status (r\<lparr>st_backup_at := Some (formatTime at), st_backup_ok := Some b\<rparr>) = Inr (st\<lparr>su_backup_at := at, su_backup_ok := b\<rparr>)"
  by (auto simp: read_status_def GetStatusState_def null_time_def null_string_def parseTime_formatTime IsZero_def split: sum.splits)

interpretation db_status: status_store db_status_ops status_view status_ok
proof unfold_locales
  fix c f st
  assume "status_ok c" "op_get db_status_ops f c = Inr st"
  then show "st = status_view c"
    by (auto simp: db_status_ops_def status_view_def GetStatusState_def split: option.splits sum.splits)
next
  fix c c' f t r
  assume "status_ok c" "storable t" "op_set_attempt db_status_ops f t c = (r, c')"
  then show "status_ok c' \<and> status_view c' = (if r = None then (status_view c)\<lparr>su_post_attempt_at := t\<rparr> else status_view c)"
    using put_status_update [where h = "su_post_attempt_at_update (\<lambda>_. t)" and flt = "sf_tx f" and sflt = "sf_stmt f", of c] read_status_simps
    by (auto simp: db_status_ops_def SetStatusPostAttempt_def apfst_def map_prod_def split: prod.splits)
next
  fix c c' f ch ts r
  assume "status_ok c" "op_set_message db_status_ops f ch ts c = (r, c')"
  then show "status_ok c' \<and> status_view c' = (if r = None then (status_view c)\<lparr>su_channel_id := ch, su_ts := ts\<rparr> else status_view c)"
    using put_status_update [where h = "\<lambda>st. st\<lparr>su_channel_id := ch, su_ts := ts\<rparr>" and flt = "sf_tx f" and sflt = "sf_stmt f", of c] read_status_simps
    by (auto simp: db_status_ops_def SetStatusMessage_def apfst_def map_prod_def split: prod.splits)
next
  fix c c' f t b r
  assume "status_ok c" "storable t" "op_set_backup db_status_ops f t b c = (r, c')"
  then show "status_ok c' \<and> status_view c' = (if r = None then (status_view c)\<lparr>su_backup_at := t, su_backup_ok := b\<rparr> else status_view c)"
    using put_status_update [where h = "\<lambda>st. st\<lparr>su_backup_at := t, su_backup_ok := b\<rparr>" and flt = "sf_tx f" and sflt = "sf_stmt f", of c] read_status_simps
    by (auto simp: db_status_ops_def SetStatusBackup_def apfst_def map_prod_def split: prod.splits)
qed

end
