(* ===== verification/GoRegexp.thy ===== *)
theory GoRegexp
  imports GoText
begin

text \<open>
  Go's \<open>regexp\<close> on bytes, for the patterns of \<open>status/status.go\<close>: a match is the one a backtracking
  search prefers, which is what Go's leftmost-first matching returns. A character class of runes
  outside ASCII is an alternative of their encodings. Then \<open>strings.Fields\<close>, and what replacing
  secrets in a text guarantees.
\<close>

subsection \<open>Expressions\<close>

datatype rx = Byte "char \<Rightarrow> bool" | Lit string | Seq rx rx | Alt rx rx | Star rx | WordBoundary

abbreviation Opt :: "rx \<Rightarrow> rx" where
  "Opt r \<equiv> Alt r (Lit [])"

abbreviation Plus :: "rx \<Rightarrow> rx" where
  "Plus r \<equiv> Seq r (Star r)"

text \<open>A place in a text: the byte before it, and the text from it on.\<close>

type_synonym rx_at = "char option \<times> string"

definition is_word :: "char \<Rightarrow> bool" where
  "is_word c = (let n = of_char c :: nat in 48 \<le> n \<and> n \<le> 57 \<or> 65 \<le> n \<and> n \<le> 90 \<or> n = 95 \<or> 97 \<le> n \<and> n \<le> 122)"

definition word_boundary :: "rx_at \<Rightarrow> bool" where
  "word_boundary st =
     ((case fst st of None \<Rightarrow> False | Some c \<Rightarrow> is_word c) \<noteq> (case snd st of [] \<Rightarrow> False | c # _ \<Rightarrow> is_word c))"

text \<open>Where a match of \<open>r\<close> from a place can end, the preferred end first.\<close>

function rx_ends :: "rx \<Rightarrow> rx_at \<Rightarrow> rx_at list" where
  "rx_ends (Byte P) st = (case snd st of [] \<Rightarrow> [] | c # cs \<Rightarrow> if P c then [(Some c, cs)] else [])"
| "rx_ends (Lit w) st =
     (if HasPrefix (snd st) w then [(if w = [] then fst st else Some (last w), drop (length w) (snd st))] else [])"
| "rx_ends (Seq a b) st = concat (map (rx_ends b) (rx_ends a st))"
| "rx_ends (Alt a b) st = rx_ends a st @ rx_ends b st"
| "rx_ends (Star a) st =
     concat (map (\<lambda>st'. if length (snd st') < length (snd st) then rx_ends (Star a) st' else []) (rx_ends a st)) @ [st]"
| "rx_ends WordBoundary st = (if word_boundary st then [st] else [])"
  by pat_completeness auto
termination
  by (relation "measures [\<lambda>(r, _). size r, \<lambda>(_, st). length (snd st)]") auto

declare rx_ends.simps(5) [simp del]

lemma rx_ends_suffix: "st' \<in> set (rx_ends r st) \<Longrightarrow> \<exists>u. snd st = u @ snd st'"
proof (induction r st arbitrary: st' rule: rx_ends.induct)
  case (1 P st)
  then show ?case by (cases "snd st") (auto split: if_splits)
next
  case (2 w st)
  then show ?case by (auto simp: HasPrefix_iff split: if_splits)
next
  case (3 a b st)
  then obtain m where "m \<in> set (rx_ends a st)" "st' \<in> set (rx_ends b m)" by auto
  with 3 obtain u v where "snd st = u @ snd m" "snd m = v @ snd st'" by blast
  then show ?case by simp
next
  case (4 a b st)
  from 4(3) have "st' \<in> set (rx_ends a st) \<or> st' \<in> set (rx_ends b st)" by simp
  with 4(1,2) show ?case by blast
next
  case (5 a st)
  show ?case
  proof (cases "st' = st")
    case False
    with "5.prems" obtain m where m: "m \<in> set (rx_ends a st)" "length (snd m) < length (snd st)" "st' \<in> set (rx_ends (Star a) m)"
      by (auto simp: rx_ends.simps(5) [of a st] split: if_splits)
    obtain u where u: "snd st = u @ snd m" using "5.IH"(1) [OF m(1)] ..
    obtain v where "snd m = v @ snd st'" using "5.IH"(2) [OF m] ..
    with u show ?thesis by simp
  qed simp
next
  case (6 st)
  then show ?case by (auto split: if_splits)
qed

text \<open>
  \<open>ReplaceAllString\<close> with a literal replacement, for an expression that never matches the empty text;
  \<open>p\<close> is the byte before \<open>s\<close>.
\<close>

definition rx_match :: "rx \<Rightarrow> rx_at \<Rightarrow> rx_at option" where
  "rx_match r st =
     (case rx_ends r st of [] \<Rightarrow> None | st' # _ \<Rightarrow> if length (snd st') < length (snd st) then Some st' else None)"

function ReplaceAllString :: "rx \<Rightarrow> string \<Rightarrow> char option \<Rightarrow> string \<Rightarrow> string" where
  "ReplaceAllString r rep p s =
     (case rx_match r (p, s) of
        Some st \<Rightarrow> rep @ ReplaceAllString r rep (fst st) (snd st)
      | None \<Rightarrow> (case s of [] \<Rightarrow> [] | c # cs \<Rightarrow> c # ReplaceAllString r rep (Some c) cs))"
  by pat_completeness auto
termination
  by (relation "measure (\<lambda>(_, _, _, s). length s)") (auto simp: rx_match_def split: list.splits if_splits)

declare ReplaceAllString.simps [simp del]

text \<open>ASCII classes; with \<open>(?i)\<close>, a word also has the two runes that fold to \<open>s\<close> and \<open>k\<close>.\<close>

definition digit :: rx where
  "digit = Byte (\<lambda>c. let n = of_char c :: nat in 48 \<le> n \<and> n \<le> 57)"

definition digit_or_comma :: rx where
  "digit_or_comma = Byte (\<lambda>c. let n = of_char c :: nat in 48 \<le> n \<and> n \<le> 57 \<or> n = 44)"

definition one_of :: "string \<Rightarrow> rx" where
  "one_of cs = Byte (\<lambda>c. c \<in> set cs)"

definition rx_space :: rx where
  "rx_space = Byte (\<lambda>c. let n = of_char c :: nat in n = 9 \<or> n = 10 \<or> n = 12 \<or> n = 13 \<or> n = 32)"

definition folded_word :: rx where
  "folded_word = Alt (Byte is_word) (Alt (Lit (byte_text [197, 191])) (Lit (byte_text [226, 132, 170])))"

definition rx_seq :: "rx list \<Rightarrow> rx" where
  "rx_seq rs = foldr Seq rs (Lit [])"

definition folded :: "string \<Rightarrow> rx" where
  "folded w = rx_seq (map (\<lambda>c. Byte (\<lambda>d. lower_char d = c)) w)"

subsection \<open>Fields\<close>

text \<open>The white space of \<open>unicode.IsSpace\<close> a text starts with, as the length of its encoding; else 0.\<close>

definition space_len :: "string \<Rightarrow> nat" where
  "space_len s = (case find (HasPrefix s) space_runes of None \<Rightarrow> 0 | Some w \<Rightarrow> length w)"

text \<open>\<open>strings.Fields\<close>; \<open>cur\<close> is the field being read.\<close>

definition field :: "string \<Rightarrow> string list" where
  "field cur = (if cur = [] then [] else [cur])"

function fields_from :: "string \<Rightarrow> string \<Rightarrow> string list" where
  "fields_from cur [] = field cur"
| "fields_from cur (c # cs) =
     (let n = space_len (c # cs) in if n = 0 then fields_from (cur @ [c]) cs else field cur @ fields_from [] (drop n (c # cs)))"
  by pat_completeness auto
termination
  by (relation "measure (\<lambda>(_, s). length s)") auto

declare fields_from.simps [simp del]

definition Fields :: "string \<Rightarrow> string list" where
  "Fields s = fields_from [] s"

subsection \<open>What replacing leaves out\<close>

lemma HasPrefix_Nil [simp]: "HasPrefix s []"
  by (simp add: HasPrefix_def)

lemma Contains_prefix: "HasPrefix s p \<Longrightarrow> Contains s p"
  by (cases s) (auto simp: HasPrefix_def)

text \<open>An occurrence that cannot contain \<open>e\<close> lies before it or after it.\<close>

lemma Contains_barrier:
  assumes "Contains (x @ e # y) p" and "e \<notin> set p"
  shows "Contains x p \<or> Contains y p"
  using assms
proof (induction x)
  case Nil
  then show ?case by (cases p) (auto simp: HasPrefix_def intro: Contains_prefix)
next
  case (Cons c x)
  show ?case
  proof (cases "HasPrefix ((c # x) @ e # y) p")
    case True
    then have p: "take (length p) (c # x @ e # y) = p" by (simp add: HasPrefix_def)
    have "length p \<le> length (c # x)"
    proof (rule ccontr)
      assume "\<not> ?thesis"
      then have "e \<in> set (take (length p) ((c # x) @ e # y))" by (cases "p = []") (simp_all add: take_Cons')
      with p Cons.prems(2) show False by simp
    qed
    then have "take (length p) ((c # x) @ e # y) = take (length p) (c # x)" by (simp only: take_append) simp
    with p have "HasPrefix (c # x) p" by (simp add: HasPrefix_def)
    then show ?thesis by simp
  next
    case False
    with Cons show ?thesis by auto
  qed
qed

text \<open>A prefix of the result without the replacement's first byte was a prefix of the input.\<close>

lemma ReplaceAll_take:
  assumes "rep \<noteq> []" and "hd rep \<notin> A" and "k \<le> length (ReplaceAll old rep s)"
    and "set (take k (ReplaceAll old rep s)) \<subseteq> A"
  shows "take k (ReplaceAll old rep s) = take k s"
  using assms
proof (induction old rep s arbitrary: k rule: ReplaceAll.induct)
  case (1 old new s)
  show ?case
  proof (cases "old = [] \<or> s = [] \<or> k = 0")
    case True
    moreover have "old = [] \<or> s = [] \<Longrightarrow> ReplaceAll old new s = s" by (subst ReplaceAll.simps) simp
    ultimately show ?thesis by auto
  next
    case False
    then obtain c cs j where s: "s = c # cs" and k: "k = Suc j" by (cases s; cases k) auto
    show ?thesis
    proof (cases "HasPrefix s old")
      case True
      then have "ReplaceAll old new s = new @ ReplaceAll old new (drop (length old) s)"
        using False by (subst ReplaceAll.simps) simp
      with "1.prems" k have False by (cases new) auto
      then show ?thesis ..
    next
      case np: False
      then have r: "ReplaceAll old new s = c # ReplaceAll old new cs"
        using False s by (subst ReplaceAll.simps) simp
      with "1.prems" k have "take j (ReplaceAll old new cs) = take j cs"
        using "1.IH"(2) [of j] np False s by simp
      with r k s show ?thesis by simp
    qed
  qed
qed

lemma HasPrefix_take: "HasPrefix t p \<Longrightarrow> take (length p) t = take (length p) s \<Longrightarrow> HasPrefix s p"
  by (simp add: HasPrefix_def)

lemma not_Contains_parts:
  assumes "\<not> Contains s p" and "s = x @ y"
  shows "\<not> Contains y p" "\<not> HasPrefix s p"
  using assms by (auto simp: Contains_iff HasPrefix_iff) (metis append.assoc append_Nil)+

text \<open>
  Replacing keeps a text free of \<open>tok\<close>, and replacing \<open>tok\<close> itself makes it so, when the replacement
  starts and ends with bytes \<open>tok\<close> does not have and does not contain it.
\<close>

definition barrier :: "string \<Rightarrow> string \<Rightarrow> bool" where
  "barrier rep tok \<longleftrightarrow> (\<exists>mid b e. rep = b # mid @ [e] \<and> b \<notin> set tok \<and> e \<notin> set tok) \<and> \<not> Contains rep tok"

lemma barrier_append:
  assumes "barrier rep tok" and "\<not> Contains y tok"
  shows "\<not> Contains (rep @ y) tok"
proof
  assume c: "Contains (rep @ y) tok"
  from assms(1) obtain mid b e where r: "rep = b # mid @ [e]" "e \<notin> set tok" "\<not> Contains rep tok"
    by (auto simp: barrier_def)
  from c Contains_barrier [of "b # mid" e y tok] r assms(2) have "Contains (b # mid) tok" by simp
  then have "Contains rep tok" by (auto simp: r(1) Contains_iff) (metis append.assoc append_Cons)
  with r(3) show False ..
qed

lemma ReplaceAll_clean:
  assumes "barrier rep tok" and "tok \<noteq> []" and "old = tok \<or> \<not> Contains s tok" and "old \<noteq> []"
  shows "\<not> Contains (ReplaceAll old rep s) tok"
  using assms
proof (induction old rep s rule: ReplaceAll.induct)
  case (1 old new s)
  show ?case
  proof (cases s)
    case Nil
    then have "ReplaceAll old new s = []" by (subst ReplaceAll.simps) simp
    with "1.prems" show ?thesis by simp
  next
    case (Cons c cs)
    show ?thesis
    proof (cases "HasPrefix s old")
      case True
      then have r: "ReplaceAll old new s = new @ ReplaceAll old new (drop (length old) s)"
        using Cons "1.prems" by (subst ReplaceAll.simps) simp
      have "old = tok \<or> \<not> Contains (drop (length old) s) tok"
        using "1.prems"(3) not_Contains_parts(1) [of s tok "take (length old) s" "drop (length old) s"] by auto
      with "1.IH"(1) True Cons "1.prems" have "\<not> Contains (ReplaceAll old new (drop (length old) s)) tok" by simp
      with barrier_append "1.prems"(1) show ?thesis unfolding r by blast
    next
      case False
      then have r: "ReplaceAll old new s = c # ReplaceAll old new cs"
        using Cons "1.prems" by (subst ReplaceAll.simps) simp
      have "old = tok \<or> \<not> Contains cs tok"
        using "1.prems"(3) not_Contains_parts(1) [of s tok "[c]" cs] Cons by auto
      with "1.IH"(2) False Cons "1.prems" have tl: "\<not> Contains (ReplaceAll old new cs) tok" by simp
      have "\<not> HasPrefix (ReplaceAll old new s) tok"
      proof
        assume p: "HasPrefix (ReplaceAll old new s) tok"
        then have t: "take (length tok) (ReplaceAll old new s) = tok" by (simp add: HasPrefix_def)
        then have "length tok \<le> length (ReplaceAll old new s)" by (metis length_take min.cobounded1)
        moreover from "1.prems"(1) have "new \<noteq> []" "hd new \<notin> set tok" by (auto simp: barrier_def)
        ultimately have "take (length tok) (ReplaceAll old new s) = take (length tok) s"
          using ReplaceAll_take [of new "set tok" "length tok" old s] t by simp
        with p have "HasPrefix s tok" by (rule HasPrefix_take)
        with False "1.prems"(3) Contains_prefix show False by blast
      qed
      with tl r show ?thesis by simp
    qed
  qed
qed

text \<open>
  \<open>t\<close> is \<open>s\<close> with some parts, whatever they are, replaced by \<open>rep\<close>: what every \<open>Replace\<close> function returns.
\<close>

inductive replaced :: "string \<Rightarrow> string \<Rightarrow> string \<Rightarrow> bool" for rep where
  nothing: "replaced rep [] []"
| kept: "replaced rep s t \<Longrightarrow> replaced rep (c # s) (c # t)"
| part: "replaced rep s t \<Longrightarrow> replaced rep (u @ s) (rep @ t)"

lemma replaced_take:
  assumes "replaced rep s t" and "rep \<noteq> []" and "hd rep \<notin> A" and "k \<le> length t" and "set (take k t) \<subseteq> A"
  shows "take k t = take k s"
  using assms
proof (induction arbitrary: k)
  case (kept s t c)
  then show ?case by (cases k) auto
next
  case (part s t u)
  have "k = 0"
  proof (rule ccontr)
    assume "k \<noteq> 0"
    with part.prems(1) have "hd rep \<in> set (take k (rep @ t))" by (cases rep; cases k) auto
    with part.prems show False by blast
  qed
  then show ?case by simp
qed simp

lemma replaced_keeps_clean:
  assumes "replaced rep s t" and "barrier rep tok" and "tok \<noteq> []" and "\<not> Contains s tok"
  shows "\<not> Contains t tok"
  using assms
proof induction
  case (kept s t c)
  have tl: "\<not> Contains t tok" using kept.IH [OF kept.prems(1,2)] not_Contains_parts(1) [OF kept.prems(3), of "[c]" s] by simp
  have "\<not> HasPrefix (c # t) tok"
  proof
    assume p: "HasPrefix (c # t) tok"
    then have t: "take (length tok) (c # t) = tok" by (simp add: HasPrefix_def)
    then have "length tok \<le> length (c # t)" by (metis length_take min.cobounded1)
    moreover from kept.prems(1) have "rep \<noteq> []" "hd rep \<notin> set tok" by (auto simp: barrier_def)
    ultimately have "take (length tok) (c # t) = take (length tok) (c # s)"
      using replaced_take [OF replaced.kept [OF kept.hyps], of "set tok" "length tok"] t by simp
    with p have "HasPrefix (c # s) tok" by (rule HasPrefix_take)
    with kept.prems(3) Contains_prefix show False by blast
  qed
  with tl show ?case by simp
next
  case (part s t u)
  have "\<not> Contains s tok" using not_Contains_parts(1) [OF part.prems(3) refl] .
  with part.IH part.prems(1,2) have "\<not> Contains t tok" by blast
  with part.prems(1) show ?case by (rule barrier_append)
qed simp

lemma replaced_uuids: "replaced rep s (replace_uuids rep s)"
proof (induction rep s rule: replace_uuids.induct)
  case (1 rep s)
  show ?case
  proof (cases s)
    case Nil
    then show ?thesis by (subst replace_uuids.simps) (simp add: replaced.nothing)
  next
    case (Cons c cs)
    show ?thesis
    proof (cases "uuid_at s")
      case True
      then have "replace_uuids rep s = rep @ replace_uuids rep (drop 36 s)"
        using Cons by (subst replace_uuids.simps) simp
      with replaced.part [OF 1(1), of "take 36 s"] True Cons show ?thesis by simp
    next
      case False
      then have "replace_uuids rep s = c # replace_uuids rep cs"
        using Cons by (subst replace_uuids.simps) simp
      with replaced.kept [OF 1(2), of "hd s"] False Cons show ?thesis by simp
    qed
  qed
qed

lemma replaced_rx: "replaced rep s (ReplaceAllString r rep p s)"
proof (induction r rep p s rule: ReplaceAllString.induct)
  case (1 r rep p s)
  show ?case
  proof (cases "rx_match r (p, s)")
    case None
    show ?thesis
    proof (cases s)
      case Nil
      with None show ?thesis by (subst ReplaceAllString.simps) (simp add: replaced.nothing)
    next
      case (Cons c cs)
      with None have "ReplaceAllString r rep p s = c # ReplaceAllString r rep (Some c) cs"
        by (subst ReplaceAllString.simps) simp
      with replaced.kept [OF 1(1) [OF None Cons], of c] Cons show ?thesis by simp
    qed
  next
    case (Some st)
    then have "st \<in> set (rx_ends r (p, s))" by (auto simp: rx_match_def split: list.splits if_splits)
    then obtain u where u: "s = u @ snd st" using rx_ends_suffix by fastforce
    from Some have "ReplaceAllString r rep p s = rep @ ReplaceAllString r rep (fst st) (snd st)"
      by (subst ReplaceAllString.simps) simp
    with replaced.part [OF 1(2) [OF Some], of u] u show ?thesis by simp
  qed
qed

lemma scrub_keeps_clean:
  assumes "barrier ''<secret>'' tok" "barrier ''<id>'' tok" "tok \<noteq> []" and "tok \<in> set secrets \<or> \<not> Contains s tok"
  shows "\<not> Contains (scrub s secrets) tok"
proof -
  have "\<not> Contains (fold (\<lambda>secret s. if secret \<noteq> [] then ReplaceAll secret ''<secret>'' s else s) secrets s) tok"
    using assms(4)
  proof (induction secrets arbitrary: s)
    case (Cons x xs)
    from Cons.prems consider "tok \<in> set xs" | "x = tok" | "\<not> Contains s tok" by auto
    then show ?case
    proof cases
      case 1
      with Cons.IH show ?thesis by simp
    next
      case 2
      with ReplaceAll_clean [OF assms(1,3), of tok s] assms(3) Cons.IH show ?thesis by auto
    next
      case 3
      with ReplaceAll_clean [OF assms(1,3), of x s] Cons.IH show ?thesis by auto
    qed
  qed simp
  from replaced_keeps_clean [OF replaced_uuids assms(2,3) this] show ?thesis by (simp add: scrub_def)
qed

text \<open>What shows in the fields of a text, joined by blanks, is in the text.\<close>

lemma field_in: "f \<in> set (field cur) \<longleftrightarrow> f = cur \<and> cur \<noteq> []"
  by (simp add: field_def)

lemma Contains_append: "Contains (f @ y) f"
  unfolding Contains_iff by (metis append_Nil)

lemma fields_in: "f \<in> set (fields_from cur s) \<Longrightarrow> Contains (cur @ s) f"
proof (induction cur s rule: fields_from.induct)
  case (1 cur)
  then show ?case using Contains_append [of f "[]"] by (simp add: fields_from.simps field_in)
next
  case (2 cur c cs)
  show ?case
  proof (cases "space_len (c # cs) = 0")
    case True
    with 2 show ?thesis by (simp add: fields_from.simps)
  next
    case False
    let ?d = "drop (space_len (c # cs)) (c # cs)"
    from 2(3) False have "f = cur \<or> f \<in> set (fields_from [] ?d)" by (auto simp: fields_from.simps Let_def field_in)
    then show ?thesis
    proof
      assume "f \<in> set (fields_from [] ?d)"
      with 2(2) [OF refl False] obtain a b where "?d = a @ f @ b" by (auto simp: Contains_iff)
      then have "cur @ c # cs = (cur @ take (space_len (c # cs)) (c # cs) @ a) @ f @ b"
        by (metis append.assoc append_take_drop_id)
      then show ?thesis unfolding Contains_iff by blast
    qed (simp add: Contains_append)
  qed
qed

lemma space_len_char: "space_len (c # cs) = 0 \<Longrightarrow> \<not> is_space c"
proof -
  assume "space_len (c # cs) = 0"
  moreover have "w \<noteq> []" if "w \<in> set space_runes" for w
    using that by (auto simp: space_runes_def byte_text_def)
  moreover have "w \<in> set space_runes" if "find (HasPrefix (c # cs)) space_runes = Some w" for w
    using that by (auto simp: find_Some_iff)
  ultimately have n: "find (HasPrefix (c # cs)) space_runes = None"
    by (cases "find (HasPrefix (c # cs)) space_runes") (auto simp: space_len_def)
  have "byte_text [n] \<in> set space_runes" if "n \<in> {9, 10, 11, 12, 13, 32}" for n
    using that by (auto simp: space_runes_def)
  with n have no: "\<not> HasPrefix (c # cs) (byte_text [n])" if "n \<in> {9, 10, 11, 12, 13, 32}" for n
    using that unfolding find_None_iff by blast
  show ?thesis
  proof
    assume "is_space c"
    then have "of_char c \<in> {9, 10, 11, 12, 13, 32 :: nat}" by (auto simp: is_space_def Let_def)
    from no [OF this] show False by (simp add: HasPrefix_def byte_text_def)
  qed
qed

lemma fields_no_space:
  "\<forall>c\<in>set cur. \<not> is_space c \<Longrightarrow> f \<in> set (fields_from cur s) \<Longrightarrow> f \<noteq> [] \<and> (\<forall>c\<in>set f. \<not> is_space c)"
proof (induction cur s rule: fields_from.induct)
  case (1 cur)
  then show ?case by (auto simp: fields_from.simps field_in)
next
  case (2 cur c cs)
  show ?case
  proof (cases "space_len (c # cs) = 0")
    case True
    with 2 space_len_char show ?thesis by (simp add: fields_from.simps)
  next
    case False
    with 2(4) have "f \<in> set (field cur) \<or> f \<in> set (fields_from [] (drop (space_len (c # cs)) (c # cs)))"
      by (simp add: fields_from.simps(2) [of cur c cs] Let_def)
    with 2(2) [OF refl False] 2(3) show ?thesis by (auto simp: field_in)
  qed
qed

lemma Join_contains: "Contains (Join [b] fs) tok \<Longrightarrow> b \<notin> set tok \<Longrightarrow> tok \<noteq> [] \<Longrightarrow> \<exists>f\<in>set fs. Contains f tok"
proof (induction "[b]" fs rule: Join.induct)
  case (3 x y ys)
  from 3(2) have "Contains (x @ b # Join [b] (y # ys)) tok" by simp
  from Contains_barrier [OF this 3(3)] 3 show ?case by auto
qed auto

lemma Join_chars: "c \<in> set (Join sep fs) \<Longrightarrow> c \<in> set sep \<or> (\<exists>f\<in>set fs. c \<in> set f)"
  by (induction sep fs rule: Join.induct) auto

end
