(* ===== verification/GoRunes.thy ===== *)
theory GoRunes
  imports GoText
begin

text \<open>
  UTF-8: the runes (\<open>rune_len\<close>) of a byte string as Go reads them, in the two ways the program does: leaving invalid
  bytes out (\<open>strings.ToValidUTF8\<close> with an empty replacement) and as \<open>[]rune(s)\<close>.
\<close>

text \<open>\<open>[]rune(s)\<close>, each rune as its encoding; an invalid byte becomes U+FFFD.\<close>

function to_runes :: "string \<Rightarrow> string list" where
  "to_runes [] = []"
| "to_runes (c # cs) =
     (let n = rune_len (c # cs)
      in if n = 0 then byte_text [239, 191, 189] # to_runes cs else take n (c # cs) # to_runes (drop n (c # cs)))"
  by pat_completeness auto
termination
  by (relation "measure length") auto

declare to_runes.simps [simp del]

text \<open>The runes of a text, its invalid bytes left out.\<close>

function runes :: "string \<Rightarrow> string list" where
  "runes [] = []"
| "runes (c # cs) =
     (let n = rune_len (c # cs) in if n = 0 then runes cs else take n (c # cs) # runes (drop n (c # cs)))"
  by pat_completeness auto
termination
  by (relation "measure length") auto

declare runes.simps [simp del]

lemma rune_pattern_unique:
  assumes "p \<in> set rune_patterns" "q \<in> set rune_patterns" "has_bytes p s" "has_bytes q s"
  shows "p = q"
proof -
  obtain c cs where s: "s = c # cs" using assms(1,3) by (cases s) (auto simp: rune_patterns_def has_bytes_def Let_def)
  define n where "n = (of_char c :: nat)"
  have first: "p \<noteq> [] \<and> fst (hd p) \<le> n \<and> n \<le> snd (hd p)" if "p \<in> set rune_patterns" "has_bytes p s" for p
    using that by (cases p) (auto simp: rune_patterns_def has_bytes_def s byte_in_def n_def Let_def)
  show ?thesis
    using first [OF assms(1,3)] first [OF assms(2,4)] assms(1,2) by (auto simp: rune_patterns_def Let_def)
qed

lemma rune_len_pattern:
  assumes "p \<in> set rune_patterns" "has_bytes p s"
  shows "rune_len s = length p"
proof -
  obtain q where q: "find (\<lambda>bs. has_bytes bs s) rune_patterns = Some q"
    using assms by (cases "find (\<lambda>bs. has_bytes bs s) rune_patterns") (auto simp: find_None_iff)
  then have "q \<in> set rune_patterns" "has_bytes q s" by (auto simp: find_Some_iff)
  with assms have "q = p" by (blast intro: rune_pattern_unique)
  with q show ?thesis by (simp add: rune_len_def)
qed

lemma rune_len_pos:
  assumes "0 < rune_len s"
  obtains p where "p \<in> set rune_patterns" "has_bytes p s" "rune_len s = length p"
proof -
  obtain q where q: "find (\<lambda>bs. has_bytes bs s) rune_patterns = Some q"
    using assms by (cases "find (\<lambda>bs. has_bytes bs s) rune_patterns") (auto simp: rune_len_def)
  then have "q \<in> set rune_patterns" "has_bytes q s" by (auto simp: find_Some_iff)
  with q that show thesis by (simp add: rune_len_def)
qed

lemma rune_len_le: "rune_len s \<le> length s"
proof (cases "0 < rune_len s")
  case True
  then show ?thesis by (rule rune_len_pos) (simp add: has_bytes_def)
qed simp

lemma rune_len_take: "0 < rune_len s \<Longrightarrow> rune_len (take (rune_len s) s) = rune_len s"
  by (erule rune_len_pos) (auto simp: has_bytes_def intro!: rune_len_pattern)

lemma rune_len_append: "0 < rune_len r \<Longrightarrow> rune_len r = length r \<Longrightarrow> rune_len (r @ t) = length r"
proof (erule rune_len_pos)
  fix p assume p: "p \<in> set rune_patterns" "has_bytes p r" "rune_len r = length p" "rune_len r = length r"
  then have "has_bytes p (r @ t)" by (simp add: has_bytes_def)
  with p show ?thesis by (simp add: rune_len_pattern)
qed

definition is_rune :: "string \<Rightarrow> bool" where
  "is_rune r \<longleftrightarrow> 0 < length r \<and> rune_len r = length r"

lemma runes_are_runes: "r \<in> set (runes s) \<Longrightarrow> is_rune r"
proof (induction s rule: runes.induct)
  case (2 c cs)
  let ?n = "rune_len (c # cs)"
  show ?case
  proof (cases "?n = 0")
    case True
    with 2 show ?thesis by (simp add: runes.simps)
  next
    case False
    then have "is_rune (take ?n (c # cs))"
      using rune_len_take [of "c # cs"] rune_len_le [of "c # cs"] by (simp add: is_rune_def)
    with 2 False show ?thesis by (auto simp: runes.simps Let_def)
  qed
qed (simp add: runes.simps)

lemma runes_concat: "(\<And>r. r \<in> set rs \<Longrightarrow> is_rune r) \<Longrightarrow> runes (concat rs) = rs"
proof (induction rs)
  case (Cons r rs)
  have r: "is_rune r" using Cons.prems by simp
  then obtain c cs where c: "r = c # cs" by (cases r) (auto simp: is_rune_def)
  have n: "rune_len (r @ concat rs) = length r" using r by (intro rune_len_append) (auto simp: is_rune_def)
  have "runes (r @ concat rs) = r # runes (concat rs)"
    using n by (simp add: c runes.simps Let_def)
  with Cons show ?case by simp
qed (simp add: runes.simps)

lemma to_runes_are_runes: "r \<in> set (to_runes s) \<Longrightarrow> is_rune r"
proof (induction s rule: to_runes.induct)
  case (2 c cs)
  let ?n = "rune_len (c # cs)"
  show ?case
  proof (cases "?n = 0")
    case True
    have "is_rune (byte_text [239, 191, 189])" by code_simp
    with 2 True show ?thesis by (auto simp: to_runes.simps)
  next
    case False
    then have "is_rune (take ?n (c # cs))"
      using rune_len_take [of "c # cs"] rune_len_le [of "c # cs"] by (simp add: is_rune_def)
    with 2 False show ?thesis by (auto simp: to_runes.simps Let_def)
  qed
qed (simp add: to_runes.simps)

lemma to_runes_concat: "(\<And>r. r \<in> set rs \<Longrightarrow> is_rune r) \<Longrightarrow> to_runes (concat rs) = rs"
proof (induction rs)
  case (Cons r rs)
  have r: "is_rune r" using Cons.prems by simp
  then obtain c cs where c: "r = c # cs" by (cases r) (auto simp: is_rune_def)
  have n: "rune_len (r @ concat rs) = length r" using r by (intro rune_len_append) (auto simp: is_rune_def)
  have "to_runes (r @ concat rs) = r # to_runes (concat rs)"
    using n by (simp add: c to_runes.simps Let_def)
  with Cons show ?case by simp
qed (simp add: to_runes.simps)

text \<open>A text with U+FFFD for every invalid byte, as \<open>encoding/json\<close> makes it.\<close>

definition utf8 :: "string \<Rightarrow> string" where
  "utf8 s = concat (to_runes s)"

lemma utf8_again [simp]: "utf8 (utf8 s) = utf8 s"
  by (simp add: utf8_def to_runes_concat to_runes_are_runes)

subsection \<open>ASCII texts inside UTF-8\<close>

definition ascii :: "string \<Rightarrow> bool" where
  "ascii s \<longleftrightarrow> (\<forall>c\<in>set s. of_char c < (128 :: nat))"

lemma utf8_ascii: "ascii s \<Longrightarrow> utf8 s = s"
proof (induction s)
  case (Cons c s)
  have "has_bytes [(0, 127)] (c # s)" using Cons.prems by (simp add: has_bytes_def byte_in_def ascii_def Let_def)
  moreover have "[(0, 127)] \<in> set rune_patterns" by (simp add: rune_patterns_def Let_def)
  ultimately have "rune_len (c # s) = 1" using rune_len_pattern by fastforce
  with Cons show ?case by (simp add: utf8_def to_runes.simps ascii_def Let_def)
qed (simp add: utf8_def to_runes.simps)

text \<open>A rune is one ASCII byte, or has none.\<close>

lemma rune_bytes:
  assumes "is_rune r"
  shows "(\<exists>c. r = [c]) \<or> (\<forall>c\<in>set r. 128 \<le> (of_char c :: nat))"
proof -
  obtain p where p: "p \<in> set rune_patterns" "has_bytes p r" "length p = length r"
    using assms rune_len_pos [of r] by (metis is_rune_def)
  from p(1) have "p = [(0, 127)] \<or> (\<forall>b\<in>set p. 128 \<le> fst b)" by (auto simp: rune_patterns_def Let_def)
  then show ?thesis
  proof
    assume "p = [(0, 127)]"
    with p(3) show ?thesis by (cases r) auto
  next
    assume "\<forall>b\<in>set p. 128 \<le> fst b"
    moreover from p(2,3) have "list_all2 byte_in p r" by (simp add: has_bytes_def)
    ultimately have "\<forall>c\<in>set r. 128 \<le> (of_char c :: nat)"
      by (force simp: list_all2_conv_all_nth in_set_conv_nth byte_in_def Let_def)
    then show ?thesis ..
  qed
qed

text \<open>What \<open>[]rune(s)\<close> and back shows of ASCII text was there.\<close>

lemma to_runes_prefix: "ascii tok \<Longrightarrow> HasPrefix (concat (to_runes s)) tok \<Longrightarrow> HasPrefix s tok"
proof (induction s arbitrary: tok rule: to_runes.induct)
  case 1
  then show ?case by (simp add: to_runes.simps)
next
  case (2 c cs)
  show ?case
  proof (cases tok)
    case Nil
    then show ?thesis by (simp add: HasPrefix_def)
  next
    case (Cons t ts)
    define r where "r = hd (to_runes (c # cs))"
    have hd: "to_runes (c # cs) = r # (if rune_len (c # cs) = 0 then to_runes cs else to_runes (drop (rune_len (c # cs)) (c # cs)))"
      by (simp add: r_def to_runes.simps(2) [of c cs] Let_def)
    then have "r \<in> set (to_runes (c # cs))" by simp
    then have "is_rune r" by (rule to_runes_are_runes)
    then obtain x xs where x: "r = x # xs" by (cases r) (auto simp: is_rune_def)
    from 2(4) Cons hd x have "x = t" by (simp add: HasPrefix_def)
    with 2(3) Cons have "(of_char x :: nat) < 128" by (simp add: ascii_def)
    with rune_bytes [OF \<open>is_rune r\<close>] x have rx: "r = [x]" by auto
    have n: "rune_len (c # cs) = 1 \<and> c = x"
    proof (cases "rune_len (c # cs) = 0")
      case True
      then have "r = byte_text [239, 191, 189]" by (simp add: r_def to_runes.simps)
      with rx show ?thesis by (simp add: byte_text_def)
    next
      case False
      then have "r = take (rune_len (c # cs)) (c # cs)" by (simp add: r_def to_runes.simps Let_def)
      with rx rune_len_le [of "c # cs"] False show ?thesis by (cases "rune_len (c # cs)") (auto simp: min_def split: if_splits)
    qed
    have d: "drop (rune_len (c # cs)) (c # cs) = cs" "rune_len (c # cs) \<noteq> 0" using n [THEN conjunct1] by simp_all
    from 2(4) Cons hd rx d have "HasPrefix (concat (to_runes cs)) ts" by (simp add: HasPrefix_def)
    moreover have "ascii ts" using 2(3) Cons by (simp add: ascii_def)
    ultimately have "HasPrefix cs ts" using 2(2) [OF refl d(2), of ts] unfolding d(1) by blast
    with Cons n \<open>x = t\<close> show ?thesis by (simp add: HasPrefix_def)
  qed
qed

lemma to_runes_contains:
  assumes "ascii tok" and "Contains (concat (to_runes s)) tok"
  shows "Contains s tok"
  using assms
proof (induction s rule: to_runes.induct)
  case 1
  then show ?case by (simp add: to_runes.simps)
next
  case (2 c cs)
  let ?s = "c # cs"
  show ?case
  proof (cases "tok = []")
    case False
    let ?rest = "if rune_len ?s = 0 then cs else drop (rune_len ?s) ?s"
    obtain r where hd: "to_runes ?s = r # to_runes ?rest"
      by (cases "rune_len ?s = 0") (simp_all add: to_runes.simps(2) [of c cs] Let_def)
    then have "r \<in> set (to_runes ?s)" by simp
    then have r: "is_rune r" by (rule to_runes_are_runes)
    from 2(4) obtain a b where ab: "r @ concat (to_runes ?rest) = a @ tok @ b" unfolding hd by (auto simp: Contains_iff)
    show ?thesis
    proof (cases "a = []")
      case True
      with ab hd have "HasPrefix (concat (to_runes ?s)) tok" unfolding HasPrefix_iff by simp
      from to_runes_prefix [OF 2(3) this] show ?thesis by simp
    next
      case ne: False
      have "length r \<le> length a"
      proof (rule ccontr)
        assume short: "\<not> length r \<le> length a"
        from short ne have "length r \<noteq> 1" by (cases a) auto
        with rune_bytes [OF r] have high: "\<forall>c\<in>set r. 128 \<le> (of_char c :: nat)" by auto
        from short have "(r @ concat (to_runes ?rest)) ! length a = r ! length a" by (simp add: nth_append)
        moreover have "(a @ tok @ b) ! length a = hd tok" using False by (simp add: nth_append hd_conv_nth)
        ultimately have "hd tok = r ! length a" using ab by simp
        with short have "hd tok \<in> set r" by (metis not_le nth_mem)
        moreover have "hd tok \<in> set tok" using False by simp
        ultimately show False using high 2(3) by (fastforce simp: ascii_def)
      qed
      with ab have "concat (to_runes ?rest) = drop (length r) a @ tok @ b" by (simp add: append_eq_append_conv_if)
      then have "Contains (concat (to_runes ?rest)) tok" unfolding Contains_iff by blast
      with 2(1,2) 2(3) have "Contains ?rest tok" by (simp split: if_splits)
      then show ?thesis by (auto simp: Contains_iff split: if_splits) (metis append.assoc append_take_drop_id append_Cons)+
    qed
  qed (simp add: HasPrefix_def)
qed

lemma concat_take: "\<exists>z. concat xs = concat (take n xs) @ z"
  by (metis append_take_drop_id concat_append)

end
