(* ===== verification/StatusText.thy ===== *)
theory StatusText
  imports GoRegexp GoRunes
begin

text \<open>
  How \<open>status/status.go\<close> makes an error fit for the Slack message (\<open>redact\<close>, \<open>oneLine\<close>): the bot's
  token, other secrets and amounts are cut out, and what is left is one line of at most 300 runes.
\<close>

text \<open>\<open>xox[a-zA-Z]-[A-Za-z0-9-]+\<close>\<close>

definition is_letter :: "char \<Rightarrow> bool" where
  "is_letter c = (let n = of_char c :: nat in 65 \<le> n \<and> n \<le> 90 \<or> 97 \<le> n \<and> n \<le> 122)"

definition tokenRE :: rx where
  "tokenRE =
     Seq (Lit ''xox'') (Seq (Byte is_letter) (Seq (Lit ''-'')
       (Plus (Byte (\<lambda>c. is_letter c \<or> (let n = of_char c :: nat in 48 \<le> n \<and> n \<le> 57) \<or> c = CHR ''-'')))))"

text \<open>
  The three alternatives of \<open>amountRE\<close>, all under \<open>(?i)\<close>: a currency sign before digits, a decimal with two
  places, and an integer after a word with \<open>amount\<close> in it.
\<close>

definition currency :: rx where
  "currency = Alt (Lit ''$'') (Alt (Lit (byte_text [226, 130, 172])) (Lit (byte_text [194, 163])))"

definition amountRE :: rx where
  "amountRE =
     Alt (rx_seq [currency, Opt rx_space, Plus digit_or_comma, Opt (Seq (Lit ''.'') (Plus digit))])
    (Alt (rx_seq [WordBoundary, digit, Star digit_or_comma, Lit ''.'', digit, digit, WordBoundary])
         (rx_seq [WordBoundary, Star folded_word, folded ''amount'', Star folded_word, Opt (one_of [CHR 0x22, CHR 0x27]),
                  Star rx_space, Opt (one_of ''=:''), Star rx_space, Opt (one_of ''-+''), digit, Star digit_or_comma]))"

definition maxErrorLen :: nat where
  "maxErrorLen = 300"

text \<open>\<open>redact\<close>: the updater's token is never empty; \<open>extra\<close> is \<open>Config.Redact\<close>, when there is one.\<close>

definition upd_redact :: "string \<Rightarrow> (string \<Rightarrow> string) option \<Rightarrow> string \<Rightarrow> string" where
  "upd_redact token extra s =
     (let t = ReplaceAllString tokenRE ''<secret>'' None (ReplaceAll token ''<secret>'' s)
      in case extra of None \<Rightarrow> t | Some f \<Rightarrow> f t)"

text \<open>The ellipsis is the bytes E2 80 A6.\<close>

definition oneLine :: "string \<Rightarrow> (string \<Rightarrow> string) option \<Rightarrow> string \<Rightarrow> string" where
  "oneLine token extra s =
     (let line = Join '' '' (Fields (ReplaceAllString amountRE ''<amount>'' None (upd_redact token extra s)))
      in if maxErrorLen < length (to_runes line) then concat (take maxErrorLen (to_runes line)) @ byte_text [226, 128, 166]
         else line)"

subsection \<open>What the line shows\<close>

text \<open>
  A secret as the configured ones are: printable ASCII without angle brackets, longer than every
  placeholder.
\<close>

definition plain_secret :: "string \<Rightarrow> bool" where
  "plain_secret tok \<longleftrightarrow> 8 < length tok \<and> (\<forall>c\<in>set tok. 33 \<le> (of_char c :: nat) \<and> of_char c < (127 :: nat) \<and> c \<noteq> CHR ''<'' \<and> c \<noteq> CHR ''>'')"

lemma plain_secretD:
  assumes "plain_secret tok"
  shows "tok \<noteq> []" and "CHR ''<'' \<notin> set tok" and "CHR ''>'' \<notin> set tok" and "CHR '' '' \<notin> set tok" and "ascii tok"
proof -
  have c: "33 \<le> (of_char c :: nat) \<and> of_char c < (127 :: nat) \<and> c \<noteq> CHR ''<'' \<and> c \<noteq> CHR ''>''" if "c \<in> set tok" for c
    using assms that unfolding plain_secret_def by blast
  show "tok \<noteq> []" using assms unfolding plain_secret_def by force
  show "CHR ''<'' \<notin> set tok" "CHR ''>'' \<notin> set tok" using c by blast+
  show "CHR '' '' \<notin> set tok" using c [of "CHR '' ''"] by auto
  show "ascii tok" unfolding ascii_def using c by fastforce
qed

lemma plain_secret_barrier:
  assumes "plain_secret tok" and "rep = CHR ''<'' # mid @ ''>''" and "length rep \<le> 8"
  shows "barrier rep tok"
proof -
  have "\<not> Contains rep tok"
  proof
    assume "Contains rep tok"
    then have "length tok \<le> length rep" by (auto simp: Contains_iff)
    with assms show False by (simp add: plain_secret_def)
  qed
  with assms(2) plain_secretD(2,3) [OF assms(1)] show ?thesis unfolding barrier_def by blast
qed

lemma secret_barriers:
  assumes "plain_secret tok"
  shows "barrier ''<secret>'' tok" "barrier ''<id>'' tok" "barrier ''<amount>'' tok"
  by (rule plain_secret_barrier [OF assms, of _ "''secret''"] plain_secret_barrier [OF assms, of _ "''id''"]
      plain_secret_barrier [OF assms, of _ "''amount''"]; simp)+

lemma upd_redact_clean:
  assumes "plain_secret tok" and "tok = token \<or> extra = Some (\<lambda>s. scrub s secrets) \<and> tok \<in> set secrets"
    and "extra = None \<or> extra = Some (\<lambda>s. scrub s secrets)"
  shows "\<not> Contains (upd_redact token extra s) tok"
proof -
  note ne = plain_secretD(1) [OF assms(1)] and b = secret_barriers [OF assms(1)]
  let ?t = "ReplaceAllString tokenRE ''<secret>'' None (ReplaceAll token ''<secret>'' s)"
  have t: "\<not> Contains ?t tok" if "tok = token"
    using replaced_keeps_clean [OF replaced_rx b(1) ne] ReplaceAll_clean [OF b(1) ne, of token s] that ne by blast
  show ?thesis
  proof (cases "extra = None")
    case True
    with t assms(2) show ?thesis by (simp add: upd_redact_def)
  next
    case False
    with assms(3) have e: "extra = Some (\<lambda>s. scrub s secrets)" by blast
    from t assms(2) e have "tok \<in> set secrets \<or> \<not> Contains ?t tok" by blast
    from scrub_keeps_clean [OF b(1,2) ne this] e show ?thesis by (simp add: upd_redact_def)
  qed
qed

lemma line_clean:
  assumes "plain_secret tok" and "\<not> Contains s tok"
  shows "\<not> Contains (Join '' '' (Fields s)) tok"
proof
  note ne = plain_secretD(1,4) [OF assms(1)]
  assume "Contains (Join '' '' (Fields s)) tok"
  from Join_contains [OF this ne(2,1)] obtain f where f: "f \<in> set (fields_from [] s)" "Contains f tok"
    by (auto simp: Fields_def)
  from fields_in [OF f(1)] have "Contains s f" by simp
  with f(2) have "Contains s tok" unfolding Contains_iff by (metis append.assoc)
  with assms(2) show False ..
qed

lemma cut_clean:
  assumes "plain_secret tok" and "\<not> Contains s tok"
  shows "\<not> Contains (concat (take n (to_runes s)) @ byte_text [226, 128, 166]) tok"
proof
  note ne = plain_secretD(1) [OF assms(1)] and asc = plain_secretD(5) [OF assms(1)]
  have high: "c \<notin> set tok" if "c \<in> set (byte_text [226, 128, 166])" for c
    using that asc by (auto simp: ascii_def byte_text_def)
  assume "Contains (concat (take n (to_runes s)) @ byte_text [226, 128, 166]) tok"
  then have "Contains (concat (take n (to_runes s)) @ char_of (226 :: nat) # byte_text [128, 166]) tok"
    by (simp add: byte_text_def)
  moreover have "char_of (226 :: nat) \<notin> set tok" using high by (simp add: byte_text_def)
  ultimately have "Contains (concat (take n (to_runes s))) tok \<or> Contains (byte_text [128, 166]) tok"
    by (rule Contains_barrier)
  then show False
  proof
    assume "Contains (concat (take n (to_runes s))) tok"
    then obtain a b where "concat (take n (to_runes s)) = a @ tok @ b" by (auto simp: Contains_iff)
    moreover obtain z where "concat (to_runes s) = concat (take n (to_runes s)) @ z" using concat_take by blast
    ultimately have "concat (to_runes s) = a @ tok @ (b @ z)" by simp
    then have "Contains (concat (to_runes s)) tok" unfolding Contains_iff by blast
    with to_runes_contains [OF asc] assms(2) show False by blast
  next
    assume "Contains (byte_text [128, 166]) tok"
    then obtain a b where ab: "byte_text [128, 166] = a @ tok @ b" by (auto simp: Contains_iff)
    from ne have "hd tok \<in> set tok" by simp
    moreover from ab ne have "hd tok \<in> set (byte_text [128, 166])" by (cases tok) auto
    ultimately show False using high [of "hd tok"] by (auto simp: byte_text_def)
  qed
qed

lemma cut_chars:
  assumes "c \<in> set (concat (take n (to_runes s)))" and "is_space c"
  shows "c \<in> set s"
proof -
  have "(of_char c :: nat) < 128" using assms(2) by (auto simp: is_space_def Let_def)
  then have asc: "ascii [c]" by (simp add: ascii_def)
  obtain z where "concat (to_runes s) = concat (take n (to_runes s)) @ z" using concat_take by blast
  with assms(1) have "c \<in> set (concat (to_runes s))" by simp
  then have "Contains (concat (to_runes s)) [c]" unfolding Contains_iff by (metis split_list append_Cons append_Nil)
  from to_runes_contains [OF asc this] show ?thesis by (auto simp: Contains_iff)
qed

lemma cut_length: "length (to_runes (concat (take n (to_runes s)) @ byte_text [226, 128, 166])) \<le> Suc n"
proof -
  have "is_rune (byte_text [226, 128, 166])" by code_simp
  then have "to_runes (concat (take n (to_runes s) @ [byte_text [226, 128, 166]])) = take n (to_runes s) @ [byte_text [226, 128, 166]]"
    by (intro to_runes_concat) (auto dest: in_set_takeD to_runes_are_runes)
  then show ?thesis by simp
qed

lemma line_spaces: "c \<in> set (Join '' '' (Fields s)) \<Longrightarrow> is_space c \<Longrightarrow> c = CHR '' ''"
  using Join_chars [of c "'' ''" "Fields s"] fields_no_space [of "[]" _ s] by (auto simp: Fields_def)

text \<open>
  C31: The error shown in the Slack message is safe to show, whatever text the failure carried, valid
  UTF-8 or not: it contains neither the bot's token nor any other configured secret (printable ASCII
  longer than a placeholder), it is one line whose only white space is blanks, and it has at most
  \<open>maxErrorLen\<close> runes and the ellipsis.
\<close>

theorem oneLine_safe:
  assumes "plain_secret tok" and "tok = token \<or> extra = Some (\<lambda>s. scrub s secrets) \<and> tok \<in> set secrets"
    and "extra = None \<or> extra = Some (\<lambda>s. scrub s secrets)"
  shows "\<not> Contains (oneLine token extra s) tok \<and> length (to_runes (oneLine token extra s)) \<le> Suc maxErrorLen \<and>
    (\<forall>c\<in>set (oneLine token extra s). is_space c \<longrightarrow> c = CHR '' '')"
proof -
  let ?r = "ReplaceAllString amountRE ''<amount>'' None (upd_redact token extra s)"
  let ?line = "Join '' '' (Fields ?r)"
  have "\<not> Contains ?r tok"
    by (rule replaced_keeps_clean [OF replaced_rx secret_barriers(3) plain_secretD(1) upd_redact_clean])
      (fact assms(1) assms)+
  then have clean: "\<not> Contains ?line tok" by (rule line_clean [OF assms(1)])
  have cut: "is_space c \<longrightarrow> c = CHR '' ''"
    if "c \<in> set (concat (take n (to_runes ?line)) @ byte_text [226, 128, 166])" for c n
    using that cut_chars [of c n ?line] line_spaces [of c ?r] by (auto simp: is_space_def byte_text_def Let_def)
  show ?thesis
  proof (cases "maxErrorLen < length (to_runes ?line)")
    case True
    then have "oneLine token extra s = concat (take maxErrorLen (to_runes ?line)) @ byte_text [226, 128, 166]"
      by (simp add: oneLine_def Let_def)
    with cut_clean [OF assms(1) clean] cut_length cut show ?thesis by simp
  next
    case False
    then have "oneLine token extra s = ?line" by (simp add: oneLine_def Let_def)
    with clean False line_spaces show ?thesis by auto
  qed
qed

theorem oneLine_safe_witness:
  "\<not> Contains (oneLine ''xoxb-42-token'' None ''refused xoxb-42-token'') ''xoxb-42-token''"
proof -
  have "plain_secret ''xoxb-42-token''" by code_simp
  from oneLine_safe [OF this, of _ None] show ?thesis by blast
qed

end
