(* ===== verification/StatusUpdater.thy ===== *)
theory StatusUpdater
  imports StoreStatus StatusText
begin

text \<open>
  \<open>status/status.go\<close> and \<open>status/slack.go\<close>: the one Slack message finbot keeps current. Slack's
  HTTP answers are inputs (\<open>reply\<close>); the store is the interface \<open>status_ops\<close>. What the code only
  logs is left out.
\<close>

subsection \<open>The Slack client\<close>

datatype slack_error = ApiError string | StatusError string nat | SlackOther string

definition slack_error_text :: "slack_error \<Rightarrow> string" where
  "slack_error_text e =
     (case e of ApiError code \<Rightarrow> ''slack: '' @ code
      | StatusError method code \<Rightarrow> ''slack: '' @ method @ '': status '' @ dec code
      | SlackOther m \<Rightarrow> m)"

definition notPosted :: "slack_error \<Rightarrow> bool" where
  "notPosted e = (case e of ApiError _ \<Rightarrow> True | StatusError _ c \<Rightarrow> 400 \<le> c \<and> c < 500 | SlackOther _ \<Rightarrow> False)"

definition isCode :: "slack_error \<Rightarrow> string list \<Rightarrow> bool" where
  "isCode e codes = (case e of ApiError c \<Rightarrow> c \<in> set codes | _ \<Rightarrow> False)"

text \<open>
  What \<open>http.Client.Do\<close> and the decoder give: no response, or a status and a body, which can be
  unreadable, not JSON, or decode to \<open>ok\<close>, \<open>error\<close> and (if it fits) the method's own fields.
\<close>

datatype 'o slack_body = Unreadable string | Malformed | Decoded bool string "'o option"

datatype 'o reply = NoReply string | Reply nat "'o slack_body"

definition slack_do :: "string \<Rightarrow> 'o reply \<Rightarrow> slack_error + 'o" where
  "slack_do method r =
     (case r of
        NoReply m \<Rightarrow> Inl (SlackOther (''slack: '' @ method @ '': '' @ m))
      | Reply code b \<Rightarrow>
          if code \<noteq> 200 then Inl (StatusError method code)
          else (case b of
                  Unreadable m \<Rightarrow> Inl (SlackOther (''slack: '' @ method @ '': read: '' @ m))
                | Malformed \<Rightarrow> Inl (SlackOther (''slack: '' @ method @ '': malformed response''))
                | Decoded ok err out \<Rightarrow>
                    if \<not> ok then Inl (ApiError err)
                    else (case out of
                            None \<Rightarrow> Inl (SlackOther (''slack: '' @ method @ '': malformed response''))
                          | Some v \<Rightarrow> Inr v)))"

text \<open>
  \<open>findPrivateChannel\<close>: pages of \<open>(id, name)\<close> with the next cursor; \<open>pages i cursor\<close> is the answer
  to the \<open>i\<close>-th request. The loop ends only when a page is last, so it may not return.
\<close>

partial_function (option) findPrivateChannel ::
    "(nat \<Rightarrow> string \<Rightarrow> ((string \<times> string) list \<times> string) reply) \<Rightarrow> string \<Rightarrow> nat \<Rightarrow> string \<Rightarrow> (slack_error + string) option" where
  "findPrivateChannel pages name i cursor =
     (let r = slack_do ''users.conversations'' (pages i cursor)
      in if isl r then Some (Inl (projl r))
         else (let hit = find (\<lambda>c. snd c = name) (fst (projr r))
               in if hit \<noteq> None then Some (Inr (fst (the hit)))
                  else if snd (projr r) = [] then Some (Inl (SlackOther (''slack: the bot is not in a private channel named '' @ name)))
                  else findPrivateChannel pages name (Suc i) (snd (projr r))))"

definition slack_method :: "string \<Rightarrow> string" where
  "slack_method ts = (if ts \<noteq> [] then ''chat.update'' else ''chat.postMessage'')"

definition slack_send :: "string \<Rightarrow> string reply \<Rightarrow> slack_error + string" where
  "slack_send ts r =
     (case slack_do (slack_method ts) r of
        Inl e \<Rightarrow> Inl e
      | Inr out \<Rightarrow> if out = [] then Inl (SlackOther (''slack: '' @ slack_method ts @ '': response has no ts'')) else Inr out)"

subsection \<open>The message\<close>

record upd_config =
  cf_token :: string
  cf_redact :: "(string \<Rightarrow> string) option"
  cf_channel :: string
  cf_plan :: string
  cf_version :: string
  cf_import_enabled :: bool
  cf_backup_enabled :: bool
  cf_stale_after :: duration

record updater =
  u_loaded :: bool
  u_channel :: string
  u_stored :: status_state
  u_last_sync_ok :: time
  u_last_sync_err :: string
  u_last_backup_err :: string

text \<open>\<open>New\<close>'s zero state.\<close>

definition fresh_updater :: updater where
  "fresh_updater = \<lparr>u_loaded = False, u_channel = [], u_stored = no_status, u_last_sync_ok = 0,
     u_last_sync_err = [], u_last_backup_err = []\<rparr>"

text \<open>The replacer of \<open>escape\<close>; the zero-width space is the bytes E2 80 8B.\<close>

definition escape_char :: "char \<Rightarrow> string" where
  "escape_char c =
     (if c = CHR ''&'' then ''&amp;'' else if c = CHR ''<'' then ''&lt;'' else if c = CHR ''>'' then ''&gt;''
      else if c = CHR ''@'' then [c, char_of (226 :: nat), char_of (128 :: nat), char_of (139 :: nat)] else [c])"

definition escape :: "string \<Rightarrow> string" where
  "escape s = concat (map escape_char s)"

definition upd_state :: "upd_config \<Rightarrow> updater \<Rightarrow> time \<Rightarrow> account_import list \<Rightarrow> string" where
  "upd_state cfg u now accts =
     (if IsZero (u_last_sync_ok u) \<or> time_Sub now (u_last_sync_ok u) > cf_stale_after cfg
      then '':red_circle: *finbot: failing*''
      else if u_last_sync_err u \<noteq> [] \<or> (\<not> IsZero (su_backup_at (u_stored u)) \<and> \<not> su_backup_ok (u_stored u))
              \<or> list_ex ai_in_error accts
      then '':large_yellow_circle: *finbot: degraded*''
      else '':large_green_circle: *finbot: OK*'')"

text \<open>\<open>fmt\<close> formats a time of day in the display zone.\<close>

definition when_text :: "(time \<Rightarrow> string) \<Rightarrow> time \<Rightarrow> string" where
  "when_text fmt t = (if IsZero t then ''never'' else fmt t)"

definition lastError :: "updater \<Rightarrow> string" where
  "lastError u =
     (if u_last_sync_err u \<noteq> [] then escape (u_last_sync_err u)
      else if u_last_backup_err u \<noteq> [] then ''backup: '' @ escape (u_last_backup_err u)
      else ''none'')"

definition backup_text :: "upd_config \<Rightarrow> (time \<Rightarrow> string) \<Rightarrow> updater \<Rightarrow> string" where
  "backup_text cfg fmt u =
     (if \<not> cf_backup_enabled cfg then ''disabled''
      else if IsZero (su_backup_at (u_stored u)) then ''none yet''
      else if su_backup_ok (u_stored u) then when_text fmt (su_backup_at (u_stored u)) @ '', ok''
      else when_text fmt (su_backup_at (u_stored u)) @ '', failed'')"

definition onOff :: "bool \<Rightarrow> string" where
  "onOff b = (if b then ''on'' else ''off'')"

definition newline :: string where
  "newline = [char_of (10 :: nat)]"

text \<open>A bullet is the bytes E2 80 A2.\<close>

definition account_line :: "account_import \<Rightarrow> string" where
  "account_line a =
     newline @ [char_of (226 :: nat), char_of (128 :: nat), char_of (162 :: nat)] @ '' '' @ escape (ai_name a) @ '': '' @
     (if ai_newest_import a = [] then ''no imports'' else ai_newest_import a) @
     (if ai_in_error a then '' :warning: link error'' else [])"

definition render :: "upd_config \<Rightarrow> (time \<Rightarrow> string) \<Rightarrow> (time \<Rightarrow> string) \<Rightarrow> time \<Rightarrow> updater \<Rightarrow> account_import list result \<Rightarrow> string" where
  "render cfg fmt_now fmt now u accts =
     (let known = (case accts of Inl _ \<Rightarrow> [] | Inr as \<Rightarrow> as)
      in upd_state cfg u now known @ newline @
         ''*Updated:* '' @ fmt_now now @ newline @
         ''*Last successful sync:* '' @ when_text fmt (u_last_sync_ok u) @ newline @
         ''*Last error:* '' @ lastError u @ newline @
         ''*Last backup:* '' @ backup_text cfg fmt u @ newline @
         ''*Import:* '' @ onOff (cf_import_enabled cfg) @ newline @
         ''*Version:* '' @ escape (cf_version cfg) @ newline @
         (case accts of
            Inl _ \<Rightarrow> ''*Accounts:* unavailable''
          | Inr as \<Rightarrow> if as = [] then ''*Accounts:* none linked''
                     else ''*Accounts (newest import):*'' @ concat (map account_line as)))"

subsection \<open>One run\<close>

text \<open>Six hours.\<close>

definition repostEvery :: duration where
  "repostEvery = 21600000000000"

datatype upd_error = SlackErr slack_error | StoreErr error

text \<open>What the environment answers in one run, call by call, and whether Slack created a message.\<close>

record 'f upd_env =
  ev_get :: 'f
  ev_accounts :: 'f
  ev_backup :: 'f
  ev_attempt :: 'f
  ev_clear :: 'f
  ev_message :: 'f
  ev_find :: "slack_error + string"
  ev_find_again :: "slack_error + string"
  ev_edit :: "string reply"
  ev_edit_old :: "string reply"
  ev_post :: "string reply"
  ev_created :: bool
  ev_now :: time
  ev_now_render :: time
  ev_now_post :: time

text \<open>A request to Slack: channel, ts (empty for a new message), text.\<close>

type_synonym slack_call = "string \<times> string \<times> string"

definition load :: "('f, 's) status_ops \<Rightarrow> upd_config \<Rightarrow> 'f upd_env \<Rightarrow> 's \<Rightarrow> updater \<Rightarrow> updater" where
  "load ops cfg ev s u =
     (if u_loaded u then u
      else (case op_get ops (ev_get ev) s of
              Inl _ \<Rightarrow> u
            | Inr stored \<Rightarrow>
                let u1 = u\<lparr>u_stored := stored\<rparr>
                in (case op_get_sync ops (ev_get ev) (cf_plan cfg) s of
                      Inl _ \<Rightarrow> u1
                    | Inr None \<Rightarrow> u1\<lparr>u_loaded := True\<rparr>
                    | Inr (Some st) \<Rightarrow> u1\<lparr>u_last_sync_ok := ss_synced_at st, u_loaded := True\<rparr>)))"

definition capped :: "time \<Rightarrow> time \<Rightarrow> bool" where
  "capped now prev = (\<not> IsZero prev \<and> 0 \<le> time_Sub now prev \<and> time_Sub now prev < repostEvery)"

definition post ::
    "('f, 's) status_ops \<Rightarrow> 'f upd_env \<Rightarrow> string \<Rightarrow> updater \<Rightarrow> 's \<Rightarrow> upd_error option \<times> slack_call list \<times> updater \<times> 's" where
  "post ops ev text u s =
     (let now = ev_now_post ev; prev = su_post_attempt_at (u_stored u)
      in if capped now prev then
           (if su_ts (u_stored u) \<noteq> [] \<and> su_channel_id (u_stored u) \<noteq> u_channel u then
              (case slack_send (su_ts (u_stored u)) (ev_edit_old ev) of
                 Inl e \<Rightarrow> (Some (SlackErr e), [(su_channel_id (u_stored u), su_ts (u_stored u), text)], u, s)
               | Inr _ \<Rightarrow> (None, [(su_channel_id (u_stored u), su_ts (u_stored u), text)], u, s))
            else (None, [], u, s))
         else
           (case op_set_attempt ops (ev_attempt ev) now s of
              (Some e, s1) \<Rightarrow> (Some (StoreErr e), [], u, s1)
            | (None, s1) \<Rightarrow>
                let u1 = u\<lparr>u_stored := (u_stored u)\<lparr>su_post_attempt_at := now\<rparr>\<rparr>
                in (case slack_send [] (ev_post ev) of
                      Inl e \<Rightarrow>
                        if notPosted e then
                          (Some (SlackErr e), [(u_channel u, [], text)],
                           u1\<lparr>u_stored := (u_stored u1)\<lparr>su_post_attempt_at := prev\<rparr>\<rparr>,
                           snd (op_set_attempt ops (ev_clear ev) prev s1))
                        else (Some (SlackErr e), [(u_channel u, [], text)], u1, s1)
                    | Inr ts \<Rightarrow>
                        (None, [(u_channel u, [], text)],
                         u1\<lparr>u_stored := (u_stored u1)\<lparr>su_channel_id := u_channel u, su_ts := ts\<rparr>\<rparr>,
                         snd (op_set_message ops (ev_message ev) (u_channel u) ts s1)))))"

text \<open>The codes after which a new message is needed.\<close>

definition edit_lost :: "string list" where
  "edit_lost = [''message_not_found'', ''channel_not_found'', ''edit_window_closed'', ''cant_update_message'']"

definition upd_send ::
    "('f, 's) status_ops \<Rightarrow> 'f upd_env \<Rightarrow> string \<Rightarrow> updater \<Rightarrow> 's \<Rightarrow> upd_error option \<times> slack_call list \<times> updater \<times> 's" where
  "upd_send ops ev text u0 s =
     (case (if u_channel u0 = [] then map_sum id (\<lambda>ch. u0\<lparr>u_channel := ch\<rparr>) (ev_find ev) else Inr u0) of
        Inl e \<Rightarrow> (Some (SlackErr e), [], u0, s)
      | Inr u \<Rightarrow>
          if su_ts (u_stored u) \<noteq> [] \<and> su_channel_id (u_stored u) = u_channel u then
            let call = (u_channel u, su_ts (u_stored u), text)
            in (case slack_send (su_ts (u_stored u)) (ev_edit ev) of
                  Inr _ \<Rightarrow> (None, [call], u, s)
                | Inl e \<Rightarrow>
                    if \<not> isCode e edit_lost then (Some (SlackErr e), [call], u, s)
                    else if isCode e [''channel_not_found''] then
                      (case ev_find_again ev of
                         Inl e' \<Rightarrow> (Some (SlackErr e'), [call], u\<lparr>u_channel := []\<rparr>, s)
                       | Inr ch \<Rightarrow> apsnd (apfst (\<lambda>cs. call # cs)) (post ops ev text (u\<lparr>u_channel := ch\<rparr>) s))
                    else apsnd (apfst (\<lambda>cs. call # cs)) (post ops ev text u s))
          else post ops ev text u s)"

definition upd_update ::
    "('f, 's) status_ops \<Rightarrow> upd_config \<Rightarrow> (time \<Rightarrow> string) \<Rightarrow> (time \<Rightarrow> string) \<Rightarrow> 'f upd_env \<Rightarrow> updater \<Rightarrow> 's \<Rightarrow>
     slack_call list \<times> updater \<times> 's" where
  "upd_update ops cfg fmt_now fmt ev u s =
     (if \<not> u_loaded u then ([], u, s)
      else snd (upd_send ops ev
             (render cfg fmt_now fmt (ev_now_render ev) u (op_accounts ops (ev_accounts ev) (cf_plan cfg) s)) u s))"

definition SyncDone ::
    "('f, 's) status_ops \<Rightarrow> upd_config \<Rightarrow> (time \<Rightarrow> string) \<Rightarrow> (time \<Rightarrow> string) \<Rightarrow> 'f upd_env \<Rightarrow> string option \<Rightarrow> updater \<Rightarrow> 's \<Rightarrow>
     slack_call list \<times> updater \<times> 's" where
  "SyncDone ops cfg fmt_now fmt ev err u s =
     (let u1 = load ops cfg ev s u;
          u2 = (case err of Some e \<Rightarrow> u1\<lparr>u_last_sync_err := oneLine (cf_token cfg) (cf_redact cfg) e\<rparr>
                | None \<Rightarrow> u1\<lparr>u_last_sync_err := [], u_last_sync_ok := ev_now ev\<rparr>)
      in upd_update ops cfg fmt_now fmt ev u2 s)"

definition BackupDone ::
    "('f, 's) status_ops \<Rightarrow> upd_config \<Rightarrow> (time \<Rightarrow> string) \<Rightarrow> (time \<Rightarrow> string) \<Rightarrow> 'f upd_env \<Rightarrow> string option \<Rightarrow> updater \<Rightarrow> 's \<Rightarrow>
     slack_call list \<times> updater \<times> 's" where
  "BackupDone ops cfg fmt_now fmt ev err u s =
     (let u1 = load ops cfg ev s u;
          u2 = u1\<lparr>u_last_backup_err := (case err of None \<Rightarrow> [] | Some e \<Rightarrow> oneLine (cf_token cfg) (cf_redact cfg) e),
                  u_stored := (u_stored u1)\<lparr>su_backup_at := ev_now ev, su_backup_ok := (err = None)\<rparr>\<rparr>;
          s1 = snd (op_set_backup ops (ev_backup ev) (ev_now ev) (err = None) s)
      in upd_update ops cfg fmt_now fmt ev u2 s1)"

end
