(* ===== verification/StatusRuns.thy ===== *)
theory StatusRuns
  imports StatusUpdater
begin

text \<open>
  The status updater over time: runs after syncs and backups, and restarts, interleaved in any
  order, with every failure of the store and of Slack. The invariant is proved once for any store
  that keeps the contract \<open>status_store\<close>, and holds of the database through \<open>db_status\<close>.
\<close>

subsection \<open>The step relation\<close>

record 's status_sys =
  sy_updater :: updater
  sy_store :: 's
  sy_clock :: time
  sy_created :: "time list"

text \<open>
  What Slack promises: after an answer that proves a message was not created, none was; and a
  message can only be created by a request for one.
\<close>

definition asked_post :: "slack_call list \<Rightarrow> bool" where
  "asked_post calls = list_ex (\<lambda>(_, ts, _). ts = []) calls"

definition honest :: "'f upd_env \<Rightarrow> bool" where
  "honest ev = (case slack_send [] (ev_post ev) of Inl e \<Rightarrow> ev_created ev \<longrightarrow> \<not> notPosted e | Inr _ \<Rightarrow> ev_created ev)"

definition clock_ok :: "time \<Rightarrow> 'f upd_env \<Rightarrow> bool" where
  "clock_ok t ev = (t \<le> ev_now_post ev \<and> 0 < ev_now_post ev \<and> storable (ev_now_post ev) \<and> storable (ev_now ev))"

definition after_run :: "'s status_sys \<Rightarrow> 'f upd_env \<Rightarrow> slack_call list \<times> updater \<times> 's \<Rightarrow> 's status_sys" where
  "after_run sy ev out =
     (case out of (calls, u, s) \<Rightarrow>
        \<lparr>sy_updater = u, sy_store = s, sy_clock = ev_now_post ev,
         sy_created = (if asked_post calls \<and> ev_created ev then ev_now_post ev # sy_created sy else sy_created sy)\<rparr>)"

inductive status_step ::
    "('f, 's) status_ops \<Rightarrow> upd_config \<Rightarrow> (time \<Rightarrow> string) \<Rightarrow> (time \<Rightarrow> string) \<Rightarrow> 's status_sys \<Rightarrow> 's status_sys \<Rightarrow> bool"
  for ops cfg fmt_now fmt
where
  synced: "honest ev \<Longrightarrow> clock_ok (sy_clock sy) ev \<Longrightarrow>
    status_step ops cfg fmt_now fmt sy
      (after_run sy ev (SyncDone ops cfg fmt_now fmt ev err (sy_updater sy) (sy_store sy)))"
| backed_up: "honest ev \<Longrightarrow> clock_ok (sy_clock sy) ev \<Longrightarrow>
    status_step ops cfg fmt_now fmt sy
      (after_run sy ev (BackupDone ops cfg fmt_now fmt ev err (sy_updater sy) (sy_store sy)))"
| restarted: "status_step ops cfg fmt_now fmt sy (sy\<lparr>sy_updater := fresh_updater\<rparr>)"

inductive_cases status_stepE: "status_step ops cfg fmt_now fmt sy sy'"

inductive status_reach ::
    "('f, 's) status_ops \<Rightarrow> upd_config \<Rightarrow> (time \<Rightarrow> string) \<Rightarrow> (time \<Rightarrow> string) \<Rightarrow> 's status_sys \<Rightarrow> 's status_sys \<Rightarrow> bool"
  for ops cfg fmt_now fmt
where
  start: "status_reach ops cfg fmt_now fmt sy sy"
| more: "status_reach ops cfg fmt_now fmt sy sy' \<Longrightarrow> status_step ops cfg fmt_now fmt sy' sy'' \<Longrightarrow>
    status_reach ops cfg fmt_now fmt sy sy''"

text \<open>The newest first: each message at least \<open>repostEvery\<close> after the one before it.\<close>

fun spaced :: "time list \<Rightarrow> bool" where
  "spaced (t # u # ts) = (u + repostEvery \<le> t \<and> spaced (u # ts))"
| "spaced _ = True"

lemma capped_iff:
  assumes "prev \<le> now"
  shows "capped now prev \<longleftrightarrow> prev \<noteq> 0 \<and> now - prev < repostEvery"
  using assms by (auto simp: capped_def time_Sub_def IsZero_def repostEvery_def)

subsection \<open>The invariant\<close>

definition newest :: "time list \<Rightarrow> time" where
  "newest ts = (case ts of [] \<Rightarrow> 0 | t # _ \<Rightarrow> t)"

text \<open>An attempt on record is no later than the clock and no earlier than the newest message.\<close>

definition attempt_inv :: "time list \<Rightarrow> time \<Rightarrow> status_state \<Rightarrow> bool" where
  "attempt_inv created clock st \<longleftrightarrow>
     storable (su_post_attempt_at st) \<and> newest created \<le> su_post_attempt_at st \<and> su_post_attempt_at st \<le> clock"

definition created_inv :: "time list \<Rightarrow> bool" where
  "created_inv created \<longleftrightarrow> spaced created \<and> list_all (\<lambda>t. 0 < t) created"

context status_store
begin

definition cap_inv :: "'s \<Rightarrow> updater \<Rightarrow> time list \<Rightarrow> time \<Rightarrow> bool" where
  "cap_inv s u created clock \<longleftrightarrow>
     ok s \<and> created_inv created \<and> attempt_inv created clock (view s) \<and>
     (u_loaded u \<longrightarrow> attempt_inv created clock (u_stored u))"

text \<open>One post keeps the invariant, whatever the store and Slack answer.\<close>

lemma post_keeps:
  assumes inv: "cap_inv s u created clock" and "u_loaded u" and "honest ev" and "clock_ok clock ev"
    and p: "post ops ev text u s = (r, calls, u', s')"
  shows "cap_inv s' u' (if asked_post calls \<and> ev_created ev then ev_now_post ev # created else created) (ev_now_post ev)"
proof -
  let ?now = "ev_now_post ev" and ?prev = "su_post_attempt_at (u_stored u)"
  have prev: "storable ?prev" "newest created \<le> ?prev" "?prev \<le> ?now" "?prev \<le> clock"
    and now: "0 < ?now" "storable ?now" "clock \<le> ?now" and ok: "ok s"
    and cr: "spaced created" "list_all (\<lambda>t. 0 < t) created"
    and vs: "storable (su_post_attempt_at (view s))" "newest created \<le> su_post_attempt_at (view s)"
      "su_post_attempt_at (view s) \<le> ?now"
    using assms(1,2,4) by (auto simp: cap_inv_def attempt_inv_def clock_ok_def created_inv_def)
  show ?thesis
  proof (cases "capped ?now ?prev")
    case True
    with p have "u' = u" "s' = s" "\<not> asked_post calls"
      by (auto simp: post_def Let_def asked_post_def split: if_splits sum.splits)
    with prev now ok cr vs show ?thesis by (auto simp: cap_inv_def attempt_inv_def created_inv_def)
  next
    case False
    have space: "spaced (?now # created)" "list_all (\<lambda>t. 0 < t) (?now # created)"
      using False prev cr now capped_iff [OF prev(3)] by (cases created; auto simp: newest_def repostEvery_def)+
    obtain r1 s1 where s1: "op_set_attempt ops (ev_attempt ev) ?now s = (r1, s1)" by fastforce
    note a1 = attempt_ok [OF ok now(2) s1]
    show ?thesis
    proof (cases r1)
      case (Some e)
      with p s1 False have "u' = u" "s' = s1" "\<not> asked_post calls" by (auto simp: post_def Let_def asked_post_def)
      with a1 Some prev now cr vs show ?thesis by (auto simp: cap_inv_def attempt_inv_def created_inv_def)
    next
      case None
      show ?thesis
      proof (cases "slack_send [] (ev_post ev)")
        case (Inr ts)
        obtain r2 s2 where s2: "op_set_message ops (ev_message ev) (u_channel u) ts s1 = (r2, s2)" by fastforce
        have "ok s1" using a1 by simp
        note a2 = message_ok [OF this s2]
        from p s1 None Inr False s2 have "s' = s2" "asked_post calls"
            "u' = u\<lparr>u_stored := (u_stored u)\<lparr>su_post_attempt_at := ?now, su_channel_id := u_channel u, su_ts := ts\<rparr>\<rparr>"
          by (auto simp: post_def Let_def asked_post_def)
        moreover have "ev_created ev" using assms(3) Inr by (simp add: honest_def)
        ultimately show ?thesis using a1 a2 None space now prev
          by (auto simp: cap_inv_def attempt_inv_def created_inv_def newest_def)
      next
        case (Inl e)
        show ?thesis
        proof (cases "notPosted e")
          case False
          with p s1 None Inl \<open>\<not> capped ?now ?prev\<close> have "s' = s1" "asked_post calls"
              "u' = u\<lparr>u_stored := (u_stored u)\<lparr>su_post_attempt_at := ?now\<rparr>\<rparr>"
            by (auto simp: post_def Let_def asked_post_def)
          with a1 None space now prev cr show ?thesis
            by (auto simp: cap_inv_def attempt_inv_def created_inv_def newest_def)
        next
          case True
          obtain r2 s2 where s2: "op_set_attempt ops (ev_clear ev) ?prev s1 = (r2, s2)" by fastforce
          have "ok s1" using a1 by simp
          note a2 = attempt_ok [OF this prev(1) s2]
          from p s1 None Inl True s2 False have "s' = s2"
              "u' = u\<lparr>u_stored := (u_stored u)\<lparr>su_post_attempt_at := ?prev\<rparr>\<rparr>"
            by (auto simp: post_def Let_def)
          moreover have "\<not> ev_created ev" using assms(3) Inl True by (simp add: honest_def)
          ultimately show ?thesis using a1 a2 None now prev cr
            by (auto simp: cap_inv_def attempt_inv_def created_inv_def)
        qed
      qed
    qed
  qed
qed

lemma cap_inv_later:
  "cap_inv s u created clock \<Longrightarrow> clock \<le> now \<Longrightarrow> cap_inv s u created now"
  by (auto simp: cap_inv_def attempt_inv_def)

lemma cap_inv_channel [simp]: "cap_inv s (u\<lparr>u_channel := ch\<rparr>) created clock = cap_inv s u created clock"
  by (simp add: cap_inv_def)

lemma asked_post_edit [simp]: "ts \<noteq> [] \<Longrightarrow> asked_post ((ch, ts, text) # calls) = asked_post calls"
  by (simp add: asked_post_def)

lemma asked_post_Nil [simp]: "\<not> asked_post []"
  by (simp add: asked_post_def)

lemma send_keeps:
  assumes inv: "cap_inv s u0 created clock" and "u_loaded u0" and "honest ev" and "clock_ok clock ev"
    and p: "upd_send ops ev text u0 s = (r, calls, u', s')"
  shows "cap_inv s' u' (if asked_post calls \<and> ev_created ev then ev_now_post ev # created else created) (ev_now_post ev)"
proof -
  let ?done = "\<lambda>calls u' s'. cap_inv s' u' (if asked_post calls \<and> ev_created ev then ev_now_post ev # created else created) (ev_now_post ev)"
  have late: "clock \<le> ev_now_post ev" using assms(4) by (simp add: clock_ok_def)
  have posted: "?done calls' u'' s''" if "post ops ev text v s = (r', calls', u'', s'')" "cap_inv s v created clock" "u_loaded v" for v r' calls' u'' s''
    using post_keeps [OF that(2,3) assms(3,4) that(1)] .
  show ?thesis
  proof (cases "if u_channel u0 = [] then map_sum id (\<lambda>ch. u0\<lparr>u_channel := ch\<rparr>) (ev_find ev) else Inr u0")
    case (Inl e)
    with p inv late show ?thesis by (auto simp: upd_send_def intro: cap_inv_later)
  next
    case (Inr u)
    then have u: "cap_inv s u created clock" "u_loaded u" using inv assms(2)
      by (auto split: if_splits simp: map_sum_def split: sum.splits)
    obtain pr pcalls pu ps where pst: "post ops ev text u s = (pr, pcalls, pu, ps)" by (metis prod_cases4)
    let ?again = "\<lambda>ch. post ops ev text (u\<lparr>u_channel := ch\<rparr>) s"
    show ?thesis
    proof (cases "su_ts (u_stored u) \<noteq> [] \<and> su_channel_id (u_stored u) = u_channel u")
      case False
      with p Inr have "post ops ev text u s = (r, calls, u', s')" by (auto simp: upd_send_def)
      from posted [OF this u] show ?thesis .
    next
      case True
      note ed = p [unfolded upd_send_def Inr sum.case if_P [OF True] Let_def]
      show ?thesis
      proof (cases "slack_send (su_ts (u_stored u)) (ev_edit ev)")
        case (Inr ts)
        with ed True u late show ?thesis by (auto intro: cap_inv_later)
      next
        case (Inl e)
        note ed = ed [unfolded Inl sum.case]
        consider "\<not> isCode e edit_lost" | "isCode e edit_lost" "\<not> isCode e [''channel_not_found'']"
          | e' where "isCode e edit_lost" "isCode e [''channel_not_found'']" "ev_find_again ev = Inl e'"
          | ch where "isCode e edit_lost" "isCode e [''channel_not_found'']" "ev_find_again ev = Inr ch"
          by (cases "ev_find_again ev") auto
        then show ?thesis
        proof cases
          case 1
          with ed True u late show ?thesis by (auto intro: cap_inv_later)
        next
          case 2
          with ed pst posted [OF pst u] True show ?thesis by auto
        next
          case 3
          with ed True u late show ?thesis by (auto intro: cap_inv_later)
        next
          case (4 ch)
          obtain r2 c2 u2 s2 where again: "?again ch = (r2, c2, u2, s2)" by (metis prod_cases4)
          from posted [OF again] u have "?done c2 u2 s2" by simp
          with ed 4 again True show ?thesis by auto
        qed
      qed
    qed
  qed
qed

lemma update_keeps:
  assumes "cap_inv s u created clock" and "honest ev" and "clock_ok clock ev"
    and "upd_update ops cfg fmt_now fmt ev u s = (calls, u', s')"
  shows "cap_inv s' u' (if asked_post calls \<and> ev_created ev then ev_now_post ev # created else created) (ev_now_post ev)"
proof (cases "u_loaded u")
  case False
  with assms(4) have "calls = []" "u' = u" "s' = s" by (simp_all add: upd_update_def)
  with assms(1,3) show ?thesis by (auto simp: clock_ok_def intro: cap_inv_later)
next
  case True
  let ?text = "render cfg fmt_now fmt (ev_now_render ev) u (op_accounts ops (ev_accounts ev) (cf_plan cfg) s)"
  obtain r where "upd_send ops ev ?text u s = (r, calls, u', s')"
    using assms(4) True by (cases "upd_send ops ev ?text u s") (auto simp: upd_update_def)
  from send_keeps [OF assms(1) True assms(2,3) this] show ?thesis .
qed

lemma load_keeps: "cap_inv s u created clock \<Longrightarrow> cap_inv s (load ops cfg ev s u) created clock"
  using get_view by (auto simp: load_def cap_inv_def Let_def split: sum.splits option.splits)

lemma step_keeps:
  assumes "status_step ops cfg fmt_now fmt sy sy'"
    and inv: "cap_inv (sy_store sy) (sy_updater sy) (sy_created sy) (sy_clock sy)"
  shows "cap_inv (sy_store sy') (sy_updater sy') (sy_created sy') (sy_clock sy')"
proof -
  consider (synced) ev err where "sy' = after_run sy ev (SyncDone ops cfg fmt_now fmt ev err (sy_updater sy) (sy_store sy))"
      "honest ev" "clock_ok (sy_clock sy) ev"
    | (backed_up) ev err where "sy' = after_run sy ev (BackupDone ops cfg fmt_now fmt ev err (sy_updater sy) (sy_store sy))"
      "honest ev" "clock_ok (sy_clock sy) ev"
    | (restarted) "sy' = sy\<lparr>sy_updater := fresh_updater\<rparr>"
    using assms(1) by (rule status_stepE)
  then show ?thesis
  proof cases
  case (synced ev err)
  let ?u1 = "load ops cfg ev (sy_store sy) (sy_updater sy)"
  let ?u2 = "case err of Some e \<Rightarrow> ?u1\<lparr>u_last_sync_err := oneLine (cf_token cfg) (cf_redact cfg) e\<rparr> | None \<Rightarrow> ?u1\<lparr>u_last_sync_err := [], u_last_sync_ok := ev_now ev\<rparr>"
  obtain calls u' s' where o: "upd_update ops cfg fmt_now fmt ev ?u2 (sy_store sy) = (calls, u', s')" by (metis prod_cases3)
  have "cap_inv (sy_store sy) ?u2 (sy_created sy) (sy_clock sy)"
    using load_keeps [OF inv, of cfg ev] by (cases err) (auto simp: cap_inv_def)
  from update_keeps [OF this synced(2,3) o] synced(1) o show ?thesis
    by (simp add: after_run_def SyncDone_def Let_def)
next
  case (backed_up ev err)
  let ?u1 = "load ops cfg ev (sy_store sy) (sy_updater sy)"
  let ?u2 = "?u1\<lparr>u_last_backup_err := (case err of None \<Rightarrow> [] | Some e \<Rightarrow> oneLine (cf_token cfg) (cf_redact cfg) e),
    u_stored := (u_stored ?u1)\<lparr>su_backup_at := ev_now ev, su_backup_ok := (err = None)\<rparr>\<rparr>"
  obtain r s1 where b: "op_set_backup ops (ev_backup ev) (ev_now ev) (err = None) (sy_store sy) = (r, s1)" by fastforce
  obtain calls u' s' where o: "upd_update ops cfg fmt_now fmt ev ?u2 s1 = (calls, u', s')" by (metis prod_cases3)
  have st: "storable (ev_now ev)" using backed_up(3) by (simp add: clock_ok_def)
  have "cap_inv s1 ?u2 (sy_created sy) (sy_clock sy)"
    using load_keeps [OF inv, of cfg ev] backup_ok [OF _ st b] by (auto simp: cap_inv_def attempt_inv_def)
  from update_keeps [OF this backed_up(2,3) o] backed_up(1) o b show ?thesis
    by (simp add: after_run_def BackupDone_def Let_def)
next
  case restarted
  with inv show ?thesis by (simp add: cap_inv_def fresh_updater_def)
  qed
qed

lemma reach_keeps:
  assumes "status_reach ops cfg fmt_now fmt sy sy'"
    and "cap_inv (sy_store sy) (sy_updater sy) (sy_created sy) (sy_clock sy)"
  shows "cap_inv (sy_store sy') (sy_updater sy') (sy_created sy') (sy_clock sy')"
  using assms by induction (auto intro: step_keeps)

text \<open>Starting with no message, no two messages are closer than \<open>repostEvery\<close>.\<close>

lemma posts_spaced:
  assumes "status_reach ops cfg fmt_now fmt sy sy'" and "ok (sy_store sy)" and "sy_updater sy = fresh_updater"
    and "sy_created sy = []" and "storable (su_post_attempt_at (view (sy_store sy)))"
    and "0 \<le> su_post_attempt_at (view (sy_store sy))" and "su_post_attempt_at (view (sy_store sy)) \<le> sy_clock sy"
  shows "spaced (sy_created sy')"
proof -
  have "cap_inv (sy_store sy) (sy_updater sy) (sy_created sy) (sy_clock sy)"
    using assms(2-) by (simp add: cap_inv_def created_inv_def attempt_inv_def newest_def fresh_updater_def)
  from reach_keeps [OF assms(1) this] show ?thesis by (simp add: cap_inv_def created_inv_def)
qed

end

text \<open>
  C10: the status updater creates at most one Slack message every six hours. In every interleaving of
  runs and restarts, with any store failure, lost response or Slack error, two messages Slack really
  created are at least \<open>repostEvery\<close> apart, as long as the clock does not go back and Slack does
  not create a message whose request it answered with ok:false or a 4xx.
\<close>

theorem status_posts_spaced:
  assumes "status_reach db_status_ops cfg fmt_now fmt sy sy'"
    and "status_ok (sy_store sy)" and "sy_updater sy = fresh_updater" and "sy_created sy = []"
    and "storable (su_post_attempt_at (status_view (sy_store sy)))"
    and "0 \<le> su_post_attempt_at (status_view (sy_store sy))"
    and "su_post_attempt_at (status_view (sy_store sy)) \<le> sy_clock sy"
  shows "spaced (sy_created sy')"
  using assms by (rule db_status.posts_spaced)

subsection \<open>A first run\<close>

definition ex_faults :: status_faults where
  "ex_faults = \<lparr>sf_read = None, sf_tx = no_faults, sf_stmt = no_stmt_faults\<rparr>"

definition ex_upd_env :: "status_faults upd_env" where
  "ex_upd_env = \<lparr>ev_get = ex_faults, ev_accounts = ex_faults, ev_backup = ex_faults, ev_attempt = ex_faults,
     ev_clear = ex_faults, ev_message = ex_faults, ev_find = Inr ''C1'', ev_find_again = Inr ''C1'',
     ev_edit = NoReply [], ev_edit_old = NoReply [], ev_post = Reply 200 (Decoded True [] (Some ''17.1'')),
     ev_created = True, ev_now = 1, ev_now_render = 1, ev_now_post = 1\<rparr>"

definition ex_upd_config :: upd_config where
  "ex_upd_config = \<lparr>cf_token = ''xoxb-1'', cf_redact = None, cf_channel = ''finbot'', cf_plan = ''p'', cf_version = ''v1'', cf_import_enabled = True,
     cf_backup_enabled = True, cf_stale_after = 3600000000000\<rparr>"

definition ex_sys :: "db conn status_sys" where
  "ex_sys = \<lparr>sy_updater = fresh_updater, sy_store = fresh_conn empty_db, sy_clock = 0, sy_created = []\<rparr>"

definition ex_sys_after :: "db conn status_sys" where
  "ex_sys_after = after_run ex_sys ex_upd_env
     (SyncDone db_status_ops ex_upd_config (\<lambda>_. []) (\<lambda>_. []) ex_upd_env None (sy_updater ex_sys) (sy_store ex_sys))"

lemma ex_sys_created: "sy_created ex_sys_after = [1]"
  by (simp add: ex_sys_after_def ex_sys_def after_run_def SyncDone_def load_def upd_update_def upd_send_def post_def Let_def
      capped_def IsZero_def fresh_updater_def ex_upd_env_def ex_upd_config_def db_status_ops_def GetStatusState_def
      empty_db_def GetSyncState_def ex_faults_def no_status_def SetStatusPostAttempt_def SetStatusMessage_def Update_def
      writeTx_def tx_defs no_faults_def body_def put_status_def no_stmt_faults_def foreign_keys_def slack_send_def slack_do_def
      asked_post_def)

theorem status_posts_spaced_witness:
  "status_reach db_status_ops ex_upd_config (\<lambda>_. []) (\<lambda>_. []) ex_sys ex_sys_after \<and> sy_created ex_sys_after = [1] \<and>
   spaced (sy_created ex_sys_after)"
proof -
  have s1: "storable 1" by code_simp
  have "honest ex_upd_env" "clock_ok (sy_clock ex_sys) ex_upd_env"
    by (simp_all add: honest_def clock_ok_def ex_upd_env_def slack_send_def slack_do_def ex_sys_def s1)
  then have r: "status_reach db_status_ops ex_upd_config (\<lambda>_. []) (\<lambda>_. []) ex_sys ex_sys_after"
    unfolding ex_sys_after_def by (intro status_reach.more [OF status_reach.start] status_step.synced)
  have "status_ok (sy_store ex_sys)" "su_post_attempt_at (status_view (sy_store ex_sys)) = 0"
    by (simp_all add: ex_sys_def status_ok_def status_view_def GetStatusState_def empty_db_def no_status_def)
  with status_posts_spaced [OF r] show ?thesis using r storable_0 ex_sys_created by (simp add: ex_sys_def)
qed

end
