(* ===== verification/Governor.thy ===== *)
theory Governor
  imports Complex_Main GoTime
begin

text \<open>
  \<open>ynab/governor.go\<close>: the token bucket in front of every request to YNAB. A \<open>float64\<close> is a rational;
  every floating-point operation rounds its exact result with \<open>rnd\<close>, of which the lemmas use only
  what IEEE 754 says: it is monotone and exact on the integers below \<open>2 ^ 53\<close> (\<open>rounding\<close>) and, for the
  rate bound and the wait hint, errs by at most half a unit in the last place (\<open>float64_rounding\<close>).
\<close>

definition rounding :: "(rat \<Rightarrow> rat) \<Rightarrow> bool" where
  "rounding rnd \<longleftrightarrow> mono rnd \<and> (\<forall>n :: int. \<bar>n\<bar> \<le> 2 ^ 53 \<longrightarrow> rnd (of_int n) = of_int n)"

definition DefaultHourlyLimit :: int where
  "DefaultHourlyLimit = 200"

definition DefaultWriteReserve :: int where
  "DefaultWriteReserve = 20"

record governor =
  gv_capacity :: rat
  gv_reserve :: rat
  gv_per_sec :: rat
  gv_tokens :: rat
  gv_last :: time

definition NewGovernor :: "(rat \<Rightarrow> rat) \<Rightarrow> int \<Rightarrow> int \<Rightarrow> time \<Rightarrow> governor" where
  "NewGovernor rnd hourlyLimit reserve now =
     (let limit = max hourlyLimit 1;
          r0 = (if reserve < 0 then 0 else reserve);
          r = (if r0 > limit then limit else r0)
      in \<lparr>gv_capacity = rnd (of_int limit), gv_reserve = rnd (of_int r),
          gv_per_sec = rnd (rnd (of_int limit) / 3600), gv_tokens = rnd (of_int limit), gv_last = now\<rparr>)"

text \<open>\<open>Duration.Seconds\<close>: whole seconds plus the rest, each a float.\<close>

definition Seconds :: "(rat \<Rightarrow> rat) \<Rightarrow> duration \<Rightarrow> rat" where
  "Seconds rnd d =
     (let s = quot d 1000000000; ns = d - s * 1000000000
      in rnd (rnd (of_int s) + rnd (rnd (of_int ns) / 1000000000)))"

definition refill :: "(rat \<Rightarrow> rat) \<Rightarrow> time \<Rightarrow> governor \<Rightarrow> governor" where
  "refill rnd t g =
     (let el = Seconds rnd (time_Sub t (gv_last g));
          g1 = (if el > 0 then g\<lparr>gv_tokens := min (gv_capacity g) (rnd (gv_tokens g + rnd (el * gv_per_sec g)))\<rparr> else g)
      in g1\<lparr>gv_last := t\<rparr>)"

definition gov_floor :: "governor \<Rightarrow> bool \<Rightarrow> rat" where
  "gov_floor g write = (if write then 0 else gv_reserve g)"

definition kind :: "bool \<Rightarrow> string" where
  "kind write = (if write then ''write'' else ''read'')"

definition budget_text :: string where
  "budget_text = ''ynab: local request budget exhausted''"

text \<open>\<open>wait\<close> in \<open>Take\<close>: whole seconds, rounded up.\<close>

definition wait_seconds :: "(rat \<Rightarrow> rat) \<Rightarrow> rat \<Rightarrow> governor \<Rightarrow> int" where
  "wait_seconds rnd need g = \<lceil>rnd (rnd (need - gv_tokens g) / gv_per_sec g)\<rceil>"

definition Take :: "(rat \<Rightarrow> rat) \<Rightarrow> time \<Rightarrow> bool \<Rightarrow> governor \<Rightarrow> error option \<times> governor" where
  "Take rnd t write g =
     (let g1 = refill rnd t g; need = rnd (gov_floor g1 write + 1)
      in if gv_tokens g1 < need then
           (Some (Error (budget_text @ '': next '' @ kind write @ '' in '' @
              duration_String (wait_seconds rnd need g1 * 1000000000)) [ErrBudgetExhausted] None), g1)
         else (None, g1\<lparr>gv_tokens := rnd (gv_tokens g1 - 1)\<rparr>))"

definition Allow :: "(rat \<Rightarrow> rat) \<Rightarrow> time \<Rightarrow> bool \<Rightarrow> governor \<Rightarrow> error option \<times> governor" where
  "Allow rnd t write g =
     (let g1 = refill rnd t g
      in if gv_tokens g1 < rnd (gov_floor g1 write + 1)
         then (Some (Error (budget_text @ '': no '' @ kind write @ '' budget'') [ErrBudgetExhausted] None), g1)
         else (None, g1))"

text \<open>\<open>int(f)\<close> truncates towards zero.\<close>

definition trunc :: "rat \<Rightarrow> int" where
  "trunc x = (if 0 \<le> x then \<lfloor>x\<rfloor> else \<lceil>x\<rceil>)"

definition Remaining :: "(rat \<Rightarrow> rat) \<Rightarrow> time \<Rightarrow> governor \<Rightarrow> (int \<times> int) \<times> governor" where
  "Remaining rnd t g =
     (let g1 = refill rnd t g
      in ((max 0 (trunc (rnd (gv_tokens g1 - gv_reserve g1))), trunc (gv_tokens g1)), g1))"

subsection \<open>The bucket's invariant\<close>

text \<open>The capacity and the reserve are whole numbers a float holds exactly.\<close>

definition gov_ok :: "governor \<Rightarrow> bool" where
  "gov_ok g \<longleftrightarrow> (\<exists>c r :: int. gv_capacity g = of_int c \<and> gv_reserve g = of_int r \<and> 0 \<le> r \<and> r \<le> c \<and> c < 2 ^ 53) \<and>
     0 \<le> gv_per_sec g \<and> 0 \<le> gv_tokens g \<and> gv_tokens g \<le> gv_capacity g"

lemma rounding_int: "rounding rnd \<Longrightarrow> \<bar>n\<bar> \<le> 2 ^ 53 \<Longrightarrow> rnd (of_int n) = of_int n"
  by (simp add: rounding_def)

lemma rounding_mono: "rounding rnd \<Longrightarrow> x \<le> y \<Longrightarrow> rnd x \<le> rnd y"
  by (simp add: rounding_def mono_def)

lemma rounding_0: "rounding rnd \<Longrightarrow> rnd 0 = 0"
  using rounding_int [of rnd 0] by simp

lemma rounding_nonneg: "rounding rnd \<Longrightarrow> 0 \<le> x \<Longrightarrow> 0 \<le> rnd x"
  using rounding_mono [of rnd 0 x] by (simp add: rounding_0)

lemma NewGovernor_ok:
  assumes "rounding rnd" and "hourlyLimit < 2 ^ 53"
  shows "gov_ok (NewGovernor rnd hourlyLimit reserve now)"
proof -
  define l where "l = max hourlyLimit 1"
  define r0 where "r0 = (if reserve < 0 then 0 else reserve)"
  define r where "r = (if r0 > l then l else r0)"
  have b: "0 \<le> r" "r \<le> l" "0 < l" "l < 2 ^ 53" using assms(2) by (auto simp: l_def r_def r0_def)
  have i: "rnd (of_int l) = of_int l" "rnd (of_int r) = of_int r"
    using b by (intro rounding_int [OF assms(1)]; simp)+
  have "NewGovernor rnd hourlyLimit reserve now = \<lparr>gv_capacity = of_int l, gv_reserve = of_int r,
      gv_per_sec = rnd (of_int l / 3600), gv_tokens = of_int l, gv_last = now\<rparr>"
    unfolding NewGovernor_def Let_def l_def [symmetric] r0_def [symmetric] r_def [symmetric] i ..
  moreover have "0 \<le> rnd (of_int l / 3600)" using b by (intro rounding_nonneg [OF assms(1)]) simp
  ultimately show ?thesis unfolding gov_ok_def using b
    by (intro conjI exI [of _ l] exI [of _ r]) simp_all
qed

lemma gov_ok_tokens:
  "gov_ok g \<Longrightarrow> 0 \<le> x \<Longrightarrow> x \<le> gv_capacity g \<Longrightarrow> gov_ok (g\<lparr>gv_tokens := x\<rparr>)"
  by (simp add: gov_ok_def)

lemma gov_ok_last [simp]: "gov_ok (g\<lparr>gv_last := t\<rparr>) = gov_ok g"
  by (simp add: gov_ok_def)

lemma gov_ok_bounds:
  assumes "gov_ok g"
  shows "0 \<le> gv_tokens g" "gv_tokens g \<le> gv_capacity g" "0 \<le> gv_per_sec g"
  using assms by (simp_all add: gov_ok_def)

lemma refill_ok:
  assumes "rounding rnd" and "gov_ok g"
  shows "gov_ok (refill rnd t g)"
    and "gv_capacity (refill rnd t g) = gv_capacity g" "gv_reserve (refill rnd t g) = gv_reserve g"
proof -
  define el where "el = Seconds rnd (time_Sub t (gv_last g))"
  note b = gov_ok_bounds [OF assms(2)]
  have "gov_ok (g\<lparr>gv_tokens := min (gv_capacity g) (rnd (gv_tokens g + rnd (el * gv_per_sec g)))\<rparr>)" if "0 < el"
  proof (rule gov_ok_tokens [OF assms(2)])
    have "0 \<le> rnd (gv_tokens g + rnd (el * gv_per_sec g))"
      using that b by (intro rounding_nonneg [OF assms(1)] add_nonneg_nonneg mult_nonneg_nonneg) simp_all
    with b show "0 \<le> min (gv_capacity g) (rnd (gv_tokens g + rnd (el * gv_per_sec g)))" by simp
  qed simp
  with assms(2) show "gov_ok (refill rnd t g)" unfolding refill_def Let_def el_def [symmetric] by simp
qed (simp_all add: refill_def Let_def)

text \<open>What a token taken leaves: at least the floor of its kind.\<close>

lemma take_leaves:
  assumes "rounding rnd" and "gov_ok g" and "Take rnd t write g = (None, g')"
  shows "gov_ok g' \<and> gov_floor g write \<le> gv_tokens g' \<and> gv_capacity g' = gv_capacity g \<and> gv_reserve g' = gv_reserve g"
proof -
  let ?g = "refill rnd t g"
  note g = refill_ok [OF assms(1,2), of t]
  from g(1) obtain c r :: int where cr: "gv_capacity ?g = of_int c" "gv_reserve ?g = of_int r" "0 \<le> r" "r \<le> c" "c < 2 ^ 53"
    and t: "0 \<le> gv_tokens ?g" "gv_tokens ?g \<le> of_int c" and ps: "0 \<le> gv_per_sec ?g"
    by (auto simp: gov_ok_def)
  let ?f = "if write then 0 else r"
  have f: "gov_floor ?g write = of_int ?f" "gov_floor g write = of_int ?f"
    using cr(2) g(3) by (auto simp: gov_floor_def)
  have need: "rnd (gov_floor ?g write + 1) = of_int ?f + 1"
    using rounding_int [OF assms(1), of "?f + 1"] cr by (simp add: f)
  have enough: "of_int ?f + 1 \<le> gv_tokens ?g" and g': "g' = ?g\<lparr>gv_tokens := rnd (gv_tokens ?g - 1)\<rparr>"
    using assms(3) unfolding Take_def Let_def need by (auto split: if_splits)
  have "rnd (of_int ?f) \<le> rnd (gv_tokens ?g - 1)" using enough by (intro rounding_mono [OF assms(1)]) simp
  moreover have "rnd (of_int ?f) = of_int ?f" using cr by (intro rounding_int [OF assms(1)]) auto
  ultimately have low: "of_int ?f \<le> gv_tokens g'" by (simp add: g')
  have "rnd (gv_tokens ?g - 1) \<le> rnd (of_int c)" using t by (intro rounding_mono [OF assms(1)]) simp
  moreover have "rnd (of_int c) = of_int c" using cr by (intro rounding_int [OF assms(1)]) auto
  ultimately have "gv_tokens g' \<le> of_int c" by (simp add: g')
  moreover have "0 \<le> gv_tokens g'" using low cr(3) by (auto split: if_splits intro: order_trans)
  ultimately have "gov_ok g'" using cr ps by (auto simp: gov_ok_def g')
  with low f g g' show ?thesis by simp
qed

lemma take_refused:
  assumes "Take rnd t write g = (Some e, g')"
  shows "g' = refill rnd t g \<and> errors_Is e ErrBudgetExhausted"
  using assms by (auto simp: Take_def Let_def errors_Is_def split: if_splits)

subsection \<open>Runs of requests\<close>

text \<open>The requests that got a token, of a run of calls at given times.\<close>

fun run_takes :: "(rat \<Rightarrow> rat) \<Rightarrow> (time \<times> bool) list \<Rightarrow> governor \<Rightarrow> nat \<times> governor" where
  "run_takes rnd [] g = (0, g)"
| "run_takes rnd ((t, write) # calls) g =
     (case Take rnd t write g of
        (Some _, g1) \<Rightarrow> run_takes rnd calls g1
      | (None, g1) \<Rightarrow> (case run_takes rnd calls g1 of (n, g2) \<Rightarrow> (Suc n, g2)))"

lemma take_ok:
  assumes "rounding rnd" and "gov_ok g" and "Take rnd t w g = (r, g')"
  shows "gov_ok g'"
proof (cases r)
  case None
  with assms take_leaves show ?thesis by blast
next
  case (Some e)
  with assms take_refused have "g' = refill rnd t g" by blast
  with refill_ok(1) [OF assms(1,2)] show ?thesis by simp
qed

lemma run_takes_ok:
  assumes "rounding rnd" and "gov_ok g"
  shows "gov_ok (snd (run_takes rnd calls g))"
  using assms(2)
proof (induction calls arbitrary: g)
  case (Cons c calls)
  obtain t w where c: "c = (t, w)" by fastforce
  obtain r g1 where tk: "Take rnd t w g = (r, g1)" by fastforce
  from Cons.IH [OF take_ok [OF assms(1) Cons.prems tk]] show ?case
    by (cases r; cases "run_takes rnd calls g1") (simp_all add: c tk)
qed simp

lemma rounding_exact: "rounding (\<lambda>x. x)"
  by (simp add: rounding_def mono_def)

text \<open>
  C11: the budget's invariant. Whatever requests are made, at whatever times (the clock may even go
  back), under any rounding: the bucket stays between empty and full, a read that is let through
  leaves the write reserve untouched, and a refusal spends nothing and is \<open>ErrBudgetExhausted\<close>.
\<close>

theorem governor_invariant:
  assumes "rounding rnd" and "hourlyLimit < 2 ^ 53"
  shows "\<forall>calls t write r g'.
    Take rnd t write (snd (run_takes rnd calls (NewGovernor rnd hourlyLimit reserve now))) = (r, g') \<longrightarrow>
    0 \<le> gv_tokens g' \<and> gv_tokens g' \<le> gv_capacity g' \<and>
    (case r of
       None \<Rightarrow> \<not> write \<longrightarrow> gv_reserve g' \<le> gv_tokens g'
     | Some e \<Rightarrow> errors_Is e ErrBudgetExhausted \<and>
         g' = refill rnd t (snd (run_takes rnd calls (NewGovernor rnd hourlyLimit reserve now))))"
proof -
  have "Take rnd t w g = (r, g') \<Longrightarrow> gov_ok g \<Longrightarrow> 0 \<le> gv_tokens g' \<and> gv_tokens g' \<le> gv_capacity g' \<and>
      (case r of None \<Rightarrow> \<not> w \<longrightarrow> gv_reserve g' \<le> gv_tokens g'
       | Some e \<Rightarrow> errors_Is e ErrBudgetExhausted \<and> g' = refill rnd t g)" (is "_ \<Longrightarrow> _ \<Longrightarrow> ?kept t w g g' r") for t w g g' r
  proof -
    assume tk: "Take rnd t w g = (r, g')" and ok: "gov_ok g"
    note b = gov_ok_bounds [OF take_ok [OF assms(1) ok tk]]
    show "?kept t w g g' r"
    proof (cases r)
      case None
      with tk take_leaves [OF assms(1) ok] b show "?kept t w g g' r" by (fastforce simp: gov_floor_def)
    next
      case (Some e)
      with tk take_refused b show "?kept t w g g' r" by fastforce
    qed
  qed
  with run_takes_ok [OF assms(1) NewGovernor_ok [OF assms]] show ?thesis by blast
qed

subsection \<open>Rounding errors\<close>

text \<open>
  A \<open>float64\<close> operation errs by at most half a unit in the last place, \<open>2 ^ -53\<close> of the result (of 1,
  when the result is smaller).
\<close>

definition ulp :: rat where
  "ulp = 1 / 2 ^ 53"

definition float64_rounding :: "(rat \<Rightarrow> rat) \<Rightarrow> bool" where
  "float64_rounding rnd \<longleftrightarrow> rounding rnd \<and> (\<forall>x. \<bar>rnd x - x\<bar> \<le> ulp * max 1 \<bar>x\<bar>)"

lemma float64_rounding: "float64_rounding rnd \<Longrightarrow> rounding rnd"
  by (simp add: float64_rounding_def)

lemma float64_near:
  assumes "float64_rounding rnd" and "0 \<le> x" "x \<le> b" "1 \<le> b"
  shows "rnd x \<le> x + ulp * b" "x - ulp * b \<le> rnd x"
proof -
  have "\<bar>rnd x - x\<bar> \<le> ulp * max 1 \<bar>x\<bar>" using assms(1) by (simp add: float64_rounding_def)
  also have "\<dots> \<le> ulp * b" using assms(2-4) by (intro mult_left_mono) (auto simp: ulp_def)
  finally show "rnd x \<le> x + ulp * b" "x - ulp * b \<le> rnd x" by linarith+
qed

lemma ulp: "0 < ulp" "1000000000000000 * ulp \<le> 1" "ulp \<le> 1"
  by (simp_all add: ulp_def)

lemma ulp_mult: "0 \<le> x \<Longrightarrow> 1000000000000000 * (ulp * x) \<le> x" "0 \<le> x \<Longrightarrow> 0 \<le> ulp * x"
  using mult_right_mono [OF ulp(2), of x] ulp(1) by simp_all

abbreviation secs :: "duration \<Rightarrow> rat" where
  "secs d \<equiv> of_int d / 1000000000"

lemma Seconds_near:
  assumes "float64_rounding rnd" and "0 \<le> d" "d < 2 ^ 63"
  shows "Seconds rnd d \<le> secs d + 3 * (ulp * (1 + secs d))" "secs d - 3 * (ulp * (1 + secs d)) \<le> Seconds rnd d"
proof -
  define s where "s = d div 1000000000"
  define ns where "ns = d mod 1000000000"
  define a where "a = rnd (of_int ns / 1000000000)"
  note R = float64_rounding [OF assms(1)]
  have d: "d = s * 1000000000 + ns" "0 \<le> ns" "ns < 1000000000" "0 \<le> s" "s < 2 ^ 53"
    using assms(2,3) by (simp_all add: s_def ns_def)
  have e: "Seconds rnd d = rnd (of_int s + a)"
    using d rounding_int [OF R, of s] rounding_int [OF R, of ns] assms(2)
    by (simp add: Seconds_def Let_def quot_nonneg a_def flip: s_def)
  define z :: rat where "z = of_int s"
  define f :: rat where "f = of_int ns / 1000000000"
  define x where "x = secs d"
  have x: "x = z + f" by (simp add: x_def f_def z_def d(1) add_divide_distrib)
  have f: "0 \<le> f" "f \<le> 1" using d(2,3) by (simp_all add: f_def)
  from float64_near [OF assms(1) f] have a: "a \<le> f + ulp" "f - ulp \<le> a" by (simp_all add: a_def f_def)
  have a0: "0 \<le> a" using rounding_nonneg [OF R f(1)] by (simp add: a_def f_def)
  have s0: "0 \<le> z" using d(4) by (simp add: z_def)
  have b: "0 \<le> z + a" "z + a \<le> 2 + 2 * x" "1 \<le> 2 + 2 * x" "1 \<le> 1 + x"
    using a0 s0 f a(1) ulp(3) x by linarith+
  define q where "q = ulp * (1 + x)"
  have "ulp \<le> q" using ulp(1) mult_left_mono [OF b(4), of ulp] by (simp add: q_def)
  moreover have "ulp * (2 + 2 * x) = 2 * q" by (simp add: q_def algebra_simps)
  ultimately show "Seconds rnd d \<le> secs d + 3 * (ulp * (1 + secs d))" "secs d - 3 * (ulp * (1 + secs d)) \<le> Seconds rnd d"
    using float64_near [OF assms(1) b(1-3)] a x
    unfolding e z_def [symmetric] x_def [symmetric] q_def [symmetric] by simp_all
qed

text \<open>The rate of refill, as a float, of an hourly limit \<open>L\<close>.\<close>

lemma rate_near:
  assumes "float64_rounding rnd" and "1 \<le> L"
  shows "rnd (L / 3600) \<le> L / 3600 + ulp * L" "L / 3600 - ulp * L \<le> rnd (L / 3600)"
    "0 < rnd (L / 3600)" "rnd (L / 3600) \<le> L"
proof -
  show "rnd (L / 3600) \<le> L / 3600 + ulp * L" "L / 3600 - ulp * L \<le> rnd (L / 3600)"
    using float64_near [OF assms(1), of "L / 3600" L] assms(2) by simp_all
  moreover have "1000000000000000 * (ulp * L) \<le> L" using assms(2) by (intro ulp_mult(1)) simp
  ultimately show "0 < rnd (L / 3600)" "rnd (L / 3600) \<le> L" using assms(2) by linarith+
qed

text \<open>The rounded product of a time of about \<open>x\<close> seconds and the rate.\<close>

lemma product_near:
  assumes "float64_rounding rnd" and "1 \<le> L" and "0 \<le> x"
    and el: "0 \<le> el" "el \<le> x + 3 * (ulp * (1 + x))"
  shows "rnd (el * rnd (L / 3600)) \<le> x * L / 3600 + 5 * (ulp * (L * (1 + x)))"
proof -
  let ?ps = "rnd (L / 3600)"
  define q where "q = L * (1 + x)"
  note ps = rate_near [OF assms(1,2)]
  have q: "L \<le> q" "x * L \<le> q" "0 \<le> q" using assms(2,3) by (simp_all add: q_def field_simps)
  have "el * ?ps \<le> (x + 3 * (ulp * (1 + x))) * (L / 3600 + ulp * L)"
    using el ps assms(2,3) ulp(1) by (intro mult_mono) simp_all
  also have "\<dots> = x * L / 3600 + ulp * (x * L) + 3 * (ulp * q) / 3600 + 3 * (ulp * (ulp * q))"
    by (simp add: q_def field_simps)
  also have "\<dots> \<le> x * L / 3600 + 3 * (ulp * q)"
  proof -
    have "ulp * (x * L) \<le> ulp * q" using q(2) ulp(1) by (intro mult_left_mono) simp_all
    moreover have "1000000000000000 * (ulp * (ulp * q)) \<le> ulp * q" using q(3) ulp(1) by (intro ulp_mult(1)) simp
    moreover have "0 \<le> ulp * q" using q(3) ulp(1) by simp
    ultimately show ?thesis by linarith
  qed
  finally have p: "el * ?ps \<le> x * L / 3600 + 3 * (ulp * q)" .
  have "el * ?ps \<le> 2 * q" using p q ulp_mult(1) [OF q(3)] by linarith
  then have "rnd (el * ?ps) \<le> el * ?ps + ulp * (2 * q)"
    using float64_near(1) [OF assms(1), of "el * ?ps" "2 * q"] el(1) ps(3) q assms(2) by simp
  with p show ?thesis by (simp add: q_def [symmetric])
qed

subsection \<open>The rate of requests\<close>

text \<open>A bucket of an hourly limit of \<open>L\<close> requests, \<open>R\<close> of them reserved.\<close>

definition bucket :: "(rat \<Rightarrow> rat) \<Rightarrow> int \<Rightarrow> int \<Rightarrow> governor \<Rightarrow> bool" where
  "bucket rnd L R g \<longleftrightarrow> gov_ok g \<and> 1 \<le> L \<and> L < 2 ^ 53 \<and> gv_capacity g = of_int L \<and> gv_reserve g = of_int R \<and>
     gv_per_sec g = rnd (of_int L / 3600)"

definition limit_of :: "int \<Rightarrow> int" where
  "limit_of hourlyLimit = max hourlyLimit 1"

definition reserve_of :: "int \<Rightarrow> int \<Rightarrow> int" where
  "reserve_of hourlyLimit reserve = min (max reserve 0) (limit_of hourlyLimit)"

lemma NewGovernor_bucket:
  assumes "rounding rnd" and "hourlyLimit < 2 ^ 53"
  shows "bucket rnd (limit_of hourlyLimit) (reserve_of hourlyLimit reserve) (NewGovernor rnd hourlyLimit reserve now)"
proof -
  define l where "l = limit_of hourlyLimit"
  define r where "r = reserve_of hourlyLimit reserve"
  have b: "0 \<le> r" "r \<le> l" "1 \<le> l" "l < 2 ^ 53" using assms(2) by (auto simp: l_def r_def limit_of_def reserve_of_def)
  have i: "rnd (of_int l) = of_int l" "rnd (of_int r) = of_int r"
    using b by (intro rounding_int [OF assms(1)]; simp)+
  have "NewGovernor rnd hourlyLimit reserve now = \<lparr>gv_capacity = rnd (of_int l), gv_reserve = rnd (of_int r),
      gv_per_sec = rnd (rnd (of_int l) / 3600), gv_tokens = rnd (of_int l), gv_last = now\<rparr>"
    by (auto simp: NewGovernor_def Let_def l_def r_def limit_of_def reserve_of_def min_def max_def)
  with NewGovernor_ok [OF assms, of reserve now] b show ?thesis
    by (simp add: bucket_def i flip: l_def r_def)
qed

lemma refill_keeps:
  "gv_capacity (refill rnd t g) = gv_capacity g" "gv_reserve (refill rnd t g) = gv_reserve g"
  "gv_per_sec (refill rnd t g) = gv_per_sec g" "gv_last (refill rnd t g) = t"
  by (simp_all add: refill_def Let_def)

lemma Take_cases:
  assumes "Take rnd t w g = (r, g')"
  obtains e where "r = Some e" "g' = refill rnd t g"
  | "r = None" "g' = (refill rnd t g)\<lparr>gv_tokens := rnd (gv_tokens (refill rnd t g) - 1)\<rparr>"
    "rnd (gov_floor (refill rnd t g) w + 1) \<le> gv_tokens (refill rnd t g)"
  using assms by (auto simp: Take_def Let_def split: if_splits)

lemma bucket_refill: "rounding rnd \<Longrightarrow> bucket rnd L R g \<Longrightarrow> bucket rnd L R (refill rnd t g)"
  using refill_ok(1) [of rnd g t] by (simp add: bucket_def refill_keeps)

lemma bucket_Take:
  assumes "rounding rnd" and "bucket rnd L R g" and "Take rnd t w g = (r, g')"
  shows "bucket rnd L R g'" "gv_last g' = t"
proof -
  have "gov_ok g'" using take_ok [OF assms(1) _ assms(3)] assms(2) by (simp add: bucket_def)
  with assms(2) show "bucket rnd L R g'" "gv_last g' = t"
    by (cases rule: Take_cases [OF assms(3)]; simp add: bucket_def refill_keeps)+
qed

lemma bucket_run:
  assumes "rounding rnd" and "bucket rnd L R g"
  shows "bucket rnd L R (snd (run_takes rnd calls g))"
  using assms(2)
proof (induction calls arbitrary: g)
  case (Cons c calls)
  obtain t w where c: "c = (t, w)" by fastforce
  obtain r g1 where tk: "Take rnd t w g = (r, g1)" by fastforce
  from Cons.IH [OF bucket_Take(1) [OF assms(1) Cons.prems tk]] show ?case
    by (cases r; cases "run_takes rnd calls g1") (simp_all add: c tk)
qed simp

lemma bucket_bounds:
  assumes "bucket rnd L R g"
  shows "(1 :: rat) \<le> of_int L" "0 \<le> gv_tokens g" "gv_tokens g \<le> of_int L" "0 \<le> R" "R \<le> L"
  using assms by (auto simp: bucket_def gov_ok_def)

text \<open>A refill brings what the time since the last one earns, up to the rounding, and a request costs one.\<close>

lemma refill_near:
  assumes "float64_rounding rnd" and "bucket rnd L R g" and "gv_last g \<le> t"
  shows "gv_tokens (refill rnd t g) \<le> gv_tokens g + secs (t - gv_last g) * of_int L / 3600 +
    7 * (ulp * (of_int L * (1 + secs (t - gv_last g))))"
proof -
  define l :: rat where "l = of_int L"
  define x where "x = secs (time_Sub t (gv_last g))"
  define y where "y = secs (t - gv_last g)"
  define el where "el = Seconds rnd (time_Sub t (gv_last g))"
  define k where "k = gv_tokens g"
  define p where "p = rnd (el * rnd (l / 3600))"
  note R = float64_rounding [OF assms(1)] and b = bucket_bounds [OF assms(2), folded l_def k_def]
  have ts: "0 \<le> time_Sub t (gv_last g)" "time_Sub t (gv_last g) < 2 ^ 63" "time_Sub t (gv_last g) \<le> t - gv_last g"
    using assms(3) by (auto simp: time_Sub_def)
  have x: "0 \<le> x" "x \<le> y" using ts(1,3) by (simp_all add: x_def y_def divide_right_mono)
  have up: "x * l / 3600 \<le> y * l / 3600" "l * (1 + x) \<le> l * (1 + y)"
    using x b(1) by (simp_all add: mult_right_mono mult_left_mono divide_right_mono)
  define q where "q = ulp * (l * (1 + y))"
  have q: "ulp * (l * (1 + x)) \<le> q" using up(2) ulp(1) by (simp add: q_def)
  have q0: "0 \<le> q" using x b(1) ulp(1) by (simp add: q_def)
  have tok: "gv_tokens (refill rnd t g) = (if 0 < el then min l (rnd (k + p)) else k)"
    using assms(2) by (simp add: refill_def Let_def el_def p_def l_def k_def bucket_def)
  show ?thesis unfolding tok l_def [symmetric] y_def [symmetric] q_def [symmetric] k_def [symmetric]
  proof (cases "0 < el")
    case True
    from product_near [OF assms(1) b(1) x(1) _ Seconds_near(1) [OF assms(1) ts(1,2), folded x_def el_def]] True q up(1)
    have p: "p \<le> y * l / 3600 + 5 * q" by (simp add: p_def)
    have p0: "0 \<le> p" using True b(1) rate_near(3) [OF assms(1) b(1)] rounding_nonneg [OF R] by (simp add: p_def)
    have big: "k + p \<le> 2 * (l * (1 + y))" "1 \<le> 2 * (l * (1 + y))"
    proof -
      have "1000000000000000 * q \<le> l * (1 + y)" using ulp_mult(1) [of "l * (1 + y)"] x b(1) by (simp add: q_def)
      moreover have "l \<le> l * (1 + y)" "y * l / 3600 \<le> l * (1 + y)" using x b(1) by (simp_all add: field_simps)
      moreover have "l + y * l \<le> l * (1 + y)" by (simp add: algebra_simps)
      moreover have "0 \<le> y * l" using x b(1) by simp
      ultimately show "k + p \<le> 2 * (l * (1 + y))" "1 \<le> 2 * (l * (1 + y))" using p b by linarith+
    qed
    from float64_near(1) [OF assms(1) _ big] p p0 b(2) have "rnd (k + p) \<le> k + y * l / 3600 + 7 * q"
      by (simp add: q_def)
    then show "(if 0 < el then min l (rnd (k + p)) else k) \<le> k + y * l / 3600 + 7 * q"
      using True by (simp add: min.coboundedI2)
  qed (use x b(1) q0 in simp)
qed

lemma Take_near:
  assumes "float64_rounding rnd" and "bucket rnd L R g" and "Take rnd t w g = (r, g')"
  shows "(if r = None then 1 else 0) + gv_tokens g' \<le> gv_tokens (refill rnd t g) + ulp * of_int L"
proof -
  note b = bucket_bounds [OF bucket_refill [OF float64_rounding [OF assms(1)] assms(2), of t]]
  have u: "0 \<le> ulp * of_int L" using b(1) ulp(1) by simp
  show ?thesis
  proof (cases rule: Take_cases [OF assms(3)])
    case 2
    define k where "k = gv_tokens (refill rnd t g)"
    have "\<bar>rnd (k - 1) - (k - 1)\<bar> \<le> ulp * max 1 \<bar>k - 1\<bar>" using assms(1) by (simp add: float64_rounding_def)
    also have "\<dots> \<le> ulp * of_int L" using b ulp(1) by (intro mult_left_mono) (auto simp: k_def)
    finally show ?thesis using 2 by (simp add: k_def [symmetric])
  qed (use u in simp)
qed

definition last_call :: "time \<Rightarrow> (time \<times> bool) list \<Rightarrow> time" where
  "last_call from calls = (if calls = [] then from else fst (last calls))"

lemma run_takes_near:
  assumes "float64_rounding rnd" and "bucket rnd L R g" and "run_takes rnd calls g = (n, g')"
    and "sorted (gv_last g # map fst calls)"
  shows "of_nat n + gv_tokens g' \<le> gv_tokens g + secs (last_call (gv_last g) calls - gv_last g) * of_int L / 3600 +
    8 * (ulp * (of_int L * (of_nat (length calls) + secs (last_call (gv_last g) calls - gv_last g))))"
  using assms(2-4)
proof (induction calls arbitrary: g n)
  case (Cons c calls)
  obtain t w where c: "c = (t, w)" by fastforce
  obtain r g1 where tk: "Take rnd t w g = (r, g1)" by fastforce
  note g1 = bucket_Take [OF float64_rounding [OF assms(1)] Cons.prems(1) tk]
  from Cons.prems(3) have s: "gv_last g \<le> t" "sorted (t # map fst calls)" by (auto simp: c)
  define x where "x = secs (t - gv_last g)"
  define y where "y = secs (last_call t calls - t)"
  define l :: rat where "l = of_int L"
  obtain m where m: "run_takes rnd calls g1 = (m, g')" "of_nat n = of_nat m + (if r = None then 1 else 0 :: rat)"
    using Cons.prems(2) by (cases r; cases "run_takes rnd calls g1") (auto simp: c tk)
  have ih: "of_nat m + gv_tokens g' \<le> gv_tokens g1 + y * l / 3600 + 8 * (ulp * (l * (of_nat (length calls) + y)))"
    using Cons.IH [OF g1(1) m(1)] s(2) g1(2) by (simp add: y_def l_def)
  have "last_call (gv_last g) (c # calls) = last_call t calls" by (auto simp: last_call_def c)
  then have T: "secs (last_call (gv_last g) (c # calls) - gv_last g) = x + y"
    by (simp add: x_def y_def diff_divide_distrib)
  note refill_near [OF assms(1) Cons.prems(1) s(1), folded x_def l_def]
  moreover note Take_near [OF assms(1) Cons.prems(1) tk, folded l_def]
  moreover have "ulp * l \<le> ulp * (l * (1 + x))"
    using bucket_bounds(1) [OF Cons.prems(1)] s(1) ulp(1) by (simp add: l_def x_def)
  ultimately have "of_nat n + gv_tokens g' \<le> gv_tokens g + x * l / 3600 + 8 * (ulp * (l * (1 + x))) +
      (y * l / 3600 + 8 * (ulp * (l * (of_nat (length calls) + y))))"
    using ih m(2) by linarith
  also have "\<dots> = gv_tokens g + (x + y) * l / 3600 + 8 * (ulp * (l * (of_nat (length (c # calls)) + (x + y))))"
    by (simp add: field_simps)
  finally show ?case unfolding T l_def .
qed (simp add: last_call_def)

text \<open>
  C12: the client keeps under YNAB's limit. Of any calls in a row, after any others, with a clock that
  does not go back during them: with an hourly limit of \<open>L\<close>, those let through are at most
  \<open>L + L * T / 3600\<close>, a full bucket and what is refilled in the \<open>T\<close> seconds from the first of them to
  the last, plus what the roundings of a \<open>float64\<close> can add up to: a part in \<open>2 ^ 50\<close> of \<open>L\<close> for each
  call and each second. An idle bucket gathers no more than its capacity.
\<close>

theorem governor_rate:
  assumes "float64_rounding rnd" and "limit < 2 ^ 53"
    and "run_takes rnd calls (snd (run_takes rnd before (NewGovernor rnd limit reserve now))) = (n, g')"
    and "sorted (map fst calls)" and "calls \<noteq> []"
    and "L = of_int (limit_of limit)" and "T = secs (fst (last calls) - fst (hd calls))"
  shows "of_nat n \<le> L + L * T / 3600 + L * (of_nat (length calls) + T) / 2 ^ 50"
proof -
  note R = float64_rounding [OF assms(1)]
  define g where "g = snd (run_takes rnd before (NewGovernor rnd limit reserve now))"
  have g: "bucket rnd (limit_of limit) (reserve_of limit reserve) g"
    unfolding g_def by (intro bucket_run NewGovernor_bucket R assms(2))
  obtain t w cs where c: "calls = (t, w) # cs" using assms(5) by (cases calls) auto
  obtain r g1 where tk: "Take rnd t w g = (r, g1)" by fastforce
  note g1 = bucket_Take [OF R g tk]
  obtain m where m: "run_takes rnd cs g1 = (m, g')" "of_nat n = of_nat m + (if r = None then 1 else 0 :: rat)"
    using assms(3) unfolding g_def [symmetric]
    by (cases r; cases "run_takes rnd cs g1") (auto simp: c tk)
  have T: "T = secs (last_call t cs - t)" by (simp add: assms(7) c last_call_def)
  have "of_nat m + gv_tokens g' \<le> gv_tokens g1 + T * L / 3600 + 8 * (ulp * (L * (of_nat (length cs) + T)))"
    using run_takes_near [OF assms(1) g1(1) m(1)] assms(4) by (simp add: T c g1(2) assms(6))
  moreover have "0 \<le> gv_tokens g'"
    using bucket_bounds(2) [OF bucket_run [OF R g1(1), of cs]] by (simp add: m(1))
  moreover have "gv_tokens (refill rnd t g) \<le> L" using bucket_bounds(3) [OF bucket_refill [OF R g]] by (simp add: assms(6))
  moreover have "0 \<le> ulp * L" using bucket_bounds(1) [OF g] ulp(1) by (simp add: assms(6))
  moreover note Take_near [OF assms(1) g tk, folded assms(6)]
  ultimately have "of_nat n \<le> L + T * L / 3600 + 8 * (ulp * (L * (of_nat (length cs) + T))) + 8 * (ulp * L)"
    using m(2) by linarith
  then show ?thesis by (simp add: c ulp_def field_simps)
qed

subsection \<open>The wait a refusal announces\<close>

lemma wait_near:
  assumes "float64_rounding rnd" and "bucket rnd L R g" and "1 \<le> N" "N \<le> L * K" "K = 1 \<or> K = 2" "N \<le> 2 ^ 53"
    and short: "gv_tokens g < of_int N" and w: "w = wait_seconds rnd (of_int N) g"
  shows "0 \<le> w" "w \<le> 3600 * K + 1"
    "K = 1 \<Longrightarrow> of_int N - gv_tokens g \<le> of_int w * gv_per_sec g + 2 * (ulp * of_int L)"
proof -
  note R = float64_rounding [OF assms(1)]
  define l :: rat where "l = of_int L"
  define k where "k = gv_tokens g"
  define ps where "ps = gv_per_sec g"
  define q where "q = rnd (of_int N - k)"
  note b = bucket_bounds [OF assms(2), folded l_def k_def]
  have ps: "0 < ps" "ps \<le> l" "l / 3600 - ulp * l \<le> ps"
    using rate_near [OF assms(1) b(1)] assms(2) by (simp_all add: ps_def l_def bucket_def)
  have q: "0 \<le> q" using short by (auto simp: q_def k_def intro: rounding_nonneg [OF R])
  have N: "(of_int N :: rat) \<le> l * of_int K" using assms(4) by (simp add: l_def flip: of_int_mult)
  have "q \<le> rnd (of_int N)" unfolding q_def using b(2) by (intro rounding_mono [OF R]) simp
  then have q': "q \<le> of_int N" using rounding_int [OF R, of N] assms(3,6) by simp
  have wv: "w = \<lceil>rnd (q / ps)\<rceil>" by (simp add: w wait_seconds_def q_def k_def ps_def)
  show "0 \<le> w" using rounding_nonneg [OF R, of "q / ps"] q ps(1) by (simp add: wv)
  have "1000000000000000 * (ulp * l) \<le> l" using b(1) by (intro ulp_mult(1)) simp
  with ps(3) b(1) have "l \<le> 3601 * ps" "2 * l \<le> 7201 * ps" by linarith+
  then have "l * of_int K \<le> of_int (3600 * K + 1) * ps" using assms(5) by auto
  then have "q / ps \<le> of_int (3600 * K + 1)" using q' N ps(1) by (simp add: pos_divide_le_eq)
  from rounding_mono [OF R this] rounding_int [OF R, of "3600 * K + 1"] assms(5)
  show "w \<le> 3600 * K + 1" by (auto simp: wv ceiling_le_iff)
  show "of_int N - gv_tokens g \<le> of_int w * gv_per_sec g + 2 * (ulp * of_int L)" if "K = 1"
  proof -
    have "\<bar>rnd (of_int N - k) - (of_int N - k)\<bar> \<le> ulp * max 1 \<bar>of_int N - k\<bar>"
      using assms(1) by (simp add: float64_rounding_def)
    also have "\<dots> \<le> ulp * l" using that N b short ulp(1) by (intro mult_left_mono) (auto simp: k_def)
    finally have 1: "of_int N - k \<le> q + ulp * l" by (simp add: q_def)
    have "\<bar>rnd (q / ps) - q / ps\<bar> \<le> ulp * max 1 \<bar>q / ps\<bar>" using assms(1) unfolding float64_rounding_def by blast
    also have "\<dots> \<le> ulp * (l / ps)"
    proof -
      have "1 \<le> l / ps" using ps by simp
      moreover have "q / ps \<le> l / ps" "0 \<le> q / ps" using that q q' N ps(1) by (simp_all add: divide_right_mono)
      ultimately show ?thesis using ulp(1) by (intro mult_left_mono) simp_all
    qed
    finally have "q / ps \<le> rnd (q / ps) + ulp * (l / ps)" by simp
    also have "rnd (q / ps) \<le> of_int w" by (simp add: wv)
    finally have "q / ps \<le> of_int w + ulp * (l / ps)" by simp
    from mult_right_mono [OF this, of ps] ps(1) have 2: "q \<le> of_int w * ps + ulp * l" by (simp add: distrib_right)
    from 1 2 show ?thesis by (simp add: k_def ps_def l_def)
  qed
qed

text \<open>Any moment after the announced wait is late enough; at the very second a rounding may still be missing.\<close>

lemma after_wait:
  assumes "float64_rounding rnd" and "bucket rnd L R g" and "1 \<le> N" "N \<le> L"
    and short: "gv_tokens g < of_int N" and w: "w = wait_seconds rnd (of_int N) g"
    and late: "w * 1000000000 < t - gv_last g" "t - gv_last g < 2 ^ 63"
  shows "of_int N \<le> gv_tokens (refill rnd t g)"
proof -
  note R = float64_rounding [OF assms(1)]
  define l :: rat where "l = of_int L"
  define k where "k = gv_tokens g"
  define ps where "ps = gv_per_sec g"
  define e where "e = ulp * l"
  define x where "x = secs (t - gv_last g)"
  define el where "el = Seconds rnd (t - gv_last g)"
  define p where "p = rnd (el * ps)"
  have N: "N \<le> 2 ^ 53" "rnd (of_int N) = of_int N" "(of_int N :: rat) \<le> l" "rnd l = l"
    using assms(2,3,4) rounding_int [OF R, of N] rounding_int [OF R, of L] by (simp_all add: bucket_def l_def)
  note b = bucket_bounds [OF assms(2), folded l_def k_def]
  note near = wait_near [OF assms(1,2,3) _ _ N(1) short w, of 1, folded l_def k_def ps_def e_def]
  have w': "0 \<le> w" "w \<le> 3601" "of_int N - k \<le> of_int w * ps + 2 * e" using near assms(4) by (auto simp: e_def)
  have ps: "0 < ps" "ps \<le> l" "l / 3600 - e \<le> ps"
    using rate_near [OF assms(1) b(1)] assms(2) by (simp_all add: ps_def l_def bucket_def e_def)
  have e: "1000000000000000 * e \<le> l" "0 \<le> e" using ulp_mult [of l] b(1) by (simp_all add: e_def)
  have "of_int (w * 1000000000 + 1) \<le> (of_int (t - gv_last g) :: rat)" using late(1) by (simp only: of_int_le_iff)
  then have x: "of_int w + 1 / 1000000000 \<le> x" by (simp add: x_def field_simps)
  have ts: "time_Sub t (gv_last g) = t - gv_last g" "0 \<le> t - gv_last g" using late w'(1) by (auto simp: time_Sub_def)
  define a where "a = x - (of_int w + 1 / 1000000000)"
  have a: "0 \<le> a" "x = of_int w + 1 / 1000000000 + a" using x by (simp_all add: a_def)
  define c where "c = ulp * (1 + of_int w + 1 / 1000000000)"
  have "c \<le> ulp * 3603" unfolding c_def using w'(2) ulp(1) by (intro mult_left_mono) (simp_all add: field_simps)
  moreover have "x - 3 * (ulp * (1 + x)) = of_int w + 1 / 1000000000 - 3 * c + a * (1 - 3 * ulp)"
    by (simp add: a(2) c_def field_simps)
  moreover have "0 \<le> a * (1 - 3 * ulp)" using a(1) ulp(2) by (intro mult_nonneg_nonneg) simp_all
  moreover have "x - 3 * (ulp * (1 + x)) \<le> el" using Seconds_near(2) [OF assms(1) ts(2) late(2)] by (simp add: x_def el_def)
  ultimately have "of_int w + 1 / 1000000000 - 11000 * ulp \<le> el" using ulp(1) by simp
  then have el: "of_int w + 9 / 10000000000 \<le> el" "0 < el" using ulp(2) w'(1) by simp_all
  have "of_int w * ps + 9 / 10000000000 * ps \<le> el * ps"
    using mult_right_mono [OF el(1), of ps] ps(1) by (simp add: distrib_right)
  then have prod: "of_int N - k + e \<le> el * ps" using w'(3) ps(3) e b(1) by linarith
  have "of_int N - k \<le> p"
  proof (cases "l \<le> el * ps")
    case True
    from rounding_mono [OF R this] N(3,4) b(2) show ?thesis by (simp add: p_def)
  next
    case False
    with float64_near(2) [OF assms(1), of "el * ps" l] el(2) ps(1) b(1) prod show ?thesis by (simp add: p_def e_def)
  qed
  then have "of_int N \<le> rnd (k + p)" using rounding_mono [OF R, of "of_int N" "k + p"] N(2) by simp
  moreover have "gv_tokens (refill rnd t g) = min l (rnd (k + p))"
    using el(2) assms(2) by (simp add: refill_def Let_def ts(1) el_def p_def k_def ps_def l_def bucket_def)
  ultimately show ?thesis using N(3) by simp
qed

text \<open>
  C13: a refusal's wait is honest, unless the whole bucket is reserved. Whatever was asked before, a
  request refused with "next ... in \<open>w\<close>" gets through at any moment later than \<open>w\<close> from then (the very
  moment may miss a rounding of a \<open>float64\<close>), if nothing else was sent; and \<open>w\<close> is at most an hour and
  a second. But with the reserve as large as the capacity every read is refused for ever.
\<close>

theorem governor_wait:
  assumes "float64_rounding rnd" and "limit < 2 ^ 53"
    and "Take rnd t write (snd (run_takes rnd calls (NewGovernor rnd limit reserve now))) = (Some e, g1)"
  shows "\<exists>w \<ge> 0. err_msg e = budget_text @ '': next '' @ kind write @ '' in '' @ duration_String (w * 1000000000) \<and>
    (if write \<or> reserve < limit_of limit
     then w \<le> 3601 \<and> (\<forall>t'. w * 1000000000 < t' - t \<and> t' - t < 2 ^ 63 \<longrightarrow> fst (Take rnd t' write g1) = None)
     else \<forall>t'. fst (Take rnd t' write g1) \<noteq> None)"
proof -
  note R = float64_rounding [OF assms(1)]
  define g where "g = snd (run_takes rnd calls (NewGovernor rnd limit reserve now))"
  define L where "L = limit_of limit"
  define N where "N = (if write then 0 else reserve_of limit reserve) + 1"
  have g: "bucket rnd L (reserve_of limit reserve) g"
    unfolding g_def L_def by (intro bucket_run NewGovernor_bucket R assms(2))
  have tk: "Take rnd t write g = (Some e, g1)" using assms(3) by (simp add: g_def)
  note g1 = bucket_Take [OF R g tk]
  note b = bucket_bounds [OF g]
  have N: "1 \<le> N" "N \<le> L + 1" "N \<le> 2 ^ 53" using b(1,4,5) g by (auto simp: N_def bucket_def)
  have open_: "N \<le> L \<longleftrightarrow> write \<or> reserve < limit_of limit"
    by (auto simp: N_def L_def limit_of_def reserve_of_def)
  have need: "rnd (gov_floor g' write + 1) = of_int N" if "bucket rnd L (reserve_of limit reserve) g'" for g'
    using that rounding_int [OF R, of N] N by (cases "write") (simp_all add: gov_floor_def N_def bucket_def)
  from tk have e: "g1 = refill rnd t g" by (cases rule: Take_cases) simp_all
  have short: "gv_tokens g1 < of_int N"
    and msg: "err_msg e = budget_text @ '': next '' @ kind write @ '' in '' @
      duration_String (wait_seconds rnd (of_int N) g1 * 1000000000)"
    using tk need [OF g1(1)] unfolding Take_def Let_def e [symmetric] by (auto split: if_splits)
  define w where "w = wait_seconds rnd (of_int N) g1"
  have w: "0 \<le> w" using wait_near(1) [OF assms(1) g1(1) N(1) _ _ N(3) short w_def, of 2] N(2) b(1) by simp
  have served: "fst (Take rnd t' write g1) = None \<longleftrightarrow> of_int N \<le> gv_tokens (refill rnd t' g1)" for t'
    using need [OF bucket_refill [OF R g1(1)]] by (auto simp: Take_def Let_def)
  show ?thesis
  proof (cases "N \<le> L")
    case True
    have "w \<le> 3601" using wait_near(2) [OF assms(1) g1(1) N(1) _ _ N(3) short w_def, of 1] True by simp
    with True after_wait [OF assms(1) g1(1) N(1) True short w_def] g1(2) msg w show ?thesis
      by (intro exI [of _ w]) (simp add: served w_def flip: open_)
  next
    case False
    then have "(of_int L :: rat) < of_int N" by simp
    with bucket_bounds(3) [OF bucket_refill [OF R g1(1)]] have "\<not> of_int N \<le> gv_tokens (refill rnd t' g1)" for t'
      by (meson le_less_trans not_le)
    with False msg w show ?thesis by (intro exI [of _ w]) (simp add: served w_def flip: open_)
  qed
qed

text \<open>A rounding: to multiples of \<open>2 ^ -60\<close>, downwards.\<close>

definition grid :: "rat \<Rightarrow> rat" where
  "grid x = of_int \<lfloor>x * 2 ^ 60\<rfloor> / 2 ^ 60"

lemma grid_rounding: "float64_rounding grid"
proof -
  have "mono grid" by (intro monoI) (simp add: grid_def divide_right_mono floor_mono)
  moreover have "grid (of_int n) = of_int n" for n
  proof -
    have "\<lfloor>(of_int n :: rat) * 2 ^ 60\<rfloor> = n * 2 ^ 60"
      using floor_of_int [of "n * 2 ^ 60"] by (simp only: of_int_mult of_int_power of_int_numeral)
    then show ?thesis by (simp add: grid_def)
  qed
  moreover have "\<bar>grid x - x\<bar> \<le> ulp * max 1 \<bar>x\<bar>" for x
  proof -
    have "of_int \<lfloor>x * 2 ^ 60\<rfloor> \<le> x * 2 ^ 60" "x * 2 ^ 60 < of_int \<lfloor>x * 2 ^ 60\<rfloor> + 1" by linarith+
    then have "\<bar>grid x - x\<bar> \<le> ulp" by (simp add: grid_def ulp_def field_simps abs_le_iff)
    also have "\<dots> \<le> ulp * max 1 \<bar>x\<bar>" using mult_left_mono [of 1 "max 1 \<bar>x\<bar>" ulp] ulp(1) by simp
    finally show ?thesis .
  qed
  ultimately show ?thesis by (simp add: float64_rounding_def rounding_def)
qed

theorem governor_invariant_witness:
  "0 \<le> gv_tokens (snd (Take (\<lambda>x. x) 5 False (NewGovernor (\<lambda>x. x) 200 20 0)))"
  using governor_invariant [of "\<lambda>x. x" 200 20 0, rule_format, of 5 False "[]"] rounding_exact
  by (cases "Take (\<lambda>x. x) 5 False (NewGovernor (\<lambda>x. x) 200 20 0)") simp

theorem governor_rate_witness:
  "fst (run_takes grid [(5, False), (5, True), (3600000000005, True)]
     (snd (run_takes grid [(9, False)] (NewGovernor grid 1 0 0)))) \<le> 2"
proof -
  obtain n g' where r: "run_takes grid [(5, False), (5, True), (3600000000005, True)]
      (snd (run_takes grid [(9, False)] (NewGovernor grid 1 0 0))) = (n, g')" by fastforce
  have "of_nat n \<le> (1 + 1 * 3600 / 3600 + 1 * (3 + 3600) / 2 ^ 50 :: rat)"
    using governor_rate [OF grid_rounding _ r _ _ refl refl] by (simp add: limit_of_def)
  also have "\<dots> < of_nat 3" by simp
  finally show ?thesis unfolding r by (simp only: of_nat_less_iff fst_conv)
qed

theorem governor_wait_witness:
  "\<exists>w \<ge> 0. w \<le> 3601 \<and> fst (Take grid (w * 1000000000 + 1) True (snd (Take grid 0 True (snd (Take grid 0 True (NewGovernor grid 1 0 0)))))) = None"
proof -
  have 1: "Take grid 0 True (NewGovernor grid 1 0 0) = (None, \<lparr>gv_capacity = 1, gv_reserve = 0,
      gv_per_sec = grid (1 / 3600), gv_tokens = 0, gv_last = 0\<rparr>)"
    by (simp add: Take_def refill_def Seconds_def Let_def quot_def time_Sub_def gov_floor_def NewGovernor_def grid_def)
  then have 2: "snd (run_takes grid [(0, True)] (NewGovernor grid 1 0 0)) = snd (Take grid 0 True (NewGovernor grid 1 0 0))"
    by simp
  obtain e g1 where t: "Take grid 0 True (snd (run_takes grid [(0, True)] (NewGovernor grid 1 0 0))) = (Some e, g1)"
    unfolding 2 1 by (simp add: Take_def refill_def Seconds_def Let_def quot_def time_Sub_def gov_floor_def grid_def)
  from governor_wait [OF grid_rounding _ this] obtain w where "0 \<le> w" "w \<le> 3601"
    "\<forall>t'. w * 1000000000 < t' - 0 \<and> t' - 0 < 2 ^ 63 \<longrightarrow> fst (Take grid t' True g1) = None"
    by (auto split: if_splits)
  with t show ?thesis unfolding 2 by (intro exI [of _ w]) simp
qed

end
