(* ===== verification/YnabTransport.thy ===== *)
theory YnabTransport
  imports GoText
begin

text \<open>
  \<open>ynab/transport.go\<close>: zone-less timestamps of a JSON response get a "Z" before the client library
  decodes it. \<open>normalizeTimestamps\<close> is the code's loop over byte indices; \<open>norm_ref\<close> is what it
  means, a walk over the text; the two are equal.
\<close>

subsection \<open>The pattern\<close>

definition is_digit :: "char \<Rightarrow> bool" where
  "is_digit c = (digit_val c \<noteq> None)"

text \<open>The fixed part \<open>dddd-dd-ddTdd:dd:dd\<close>; \<open>None\<close> is a digit.\<close>

definition stamp_shape :: "char option list" where
  "stamp_shape = [None, None, None, None, Some CHR ''-'', None, None, Some CHR ''-'', None, None, Some CHR ''T'',
     None, None, Some CHR '':'', None, None, Some CHR '':'', None, None]"

definition naiveTimestamp :: "string \<Rightarrow> bool" where
  "naiveTimestamp s =
     (list_all2 (\<lambda>p c. case p of None \<Rightarrow> is_digit c | Some x \<Rightarrow> c = x) stamp_shape (take 19 s) \<and>
      (drop 19 s = [] \<or> (hd (drop 19 s) = CHR ''.'' \<and> tl (drop 19 s) \<noteq> [] \<and> list_all is_digit (tl (drop 19 s)))))"

subsection \<open>The loop\<close>

abbreviation "quote \<equiv> char_of (34 :: nat) :: char"
abbreviation "backslash \<equiv> char_of (92 :: nat) :: char"

text \<open>The inner loop: from \<open>end\<close> to the closing quote, over escaped bytes; past the end when there is none.\<close>

function string_end :: "string \<Rightarrow> nat \<Rightarrow> nat" where
  "string_end body j =
     (if j < length body \<and> body ! j \<noteq> quote
      then string_end body (if body ! j = backslash then Suc (Suc j) else Suc j) else j)"
  by pat_completeness auto
termination
  by (relation "measure (\<lambda>(body, j). length body - j)") auto

declare string_end.simps [simp del]

function isKey :: "string \<Rightarrow> nat \<Rightarrow> bool" where
  "isKey body i =
     (if i < length body then
        (if of_char (body ! i) \<in> {32, 9, 10, 13 :: nat} then isKey body (Suc i)
         else body ! i = CHR '':'')
      else False)"
  by pat_completeness auto
termination
  by (relation "measure (\<lambda>(body, j). length body - j)") auto

declare isKey.simps [simp del]

definition slice :: "string \<Rightarrow> nat \<Rightarrow> nat \<Rightarrow> string" where
  "slice s a b = take (b - a) (drop a s)"

lemma string_end_ge: "j \<le> string_end body j"
proof (induction body j rule: string_end.induct)
  case (1 body j)
  then show ?case by (subst string_end.simps) (force split: if_splits)
qed

text \<open>The outer loop: \<open>out\<close> is what has been written (\<open>None\<close> before the first rewrite), up to \<open>copied\<close>.\<close>

function norm_loop :: "string \<Rightarrow> nat \<Rightarrow> string option \<Rightarrow> nat \<Rightarrow> string option \<times> nat" where
  "norm_loop body i out copied =
     (if \<not> i < length body then (out, copied)
      else if body ! i \<noteq> quote then norm_loop body (Suc i) out copied
      else (let start = Suc i; j = string_end body start
            in if length body \<le> j then (out, copied)
               else if \<not> naiveTimestamp (slice body start j) \<or> isKey body (Suc j)
               then norm_loop body (Suc j) out copied
               else norm_loop body (Suc j)
                      (Some ((case out of None \<Rightarrow> [] | Some w \<Rightarrow> w) @ slice body copied j @ ''Z'')) j))"
  by pat_completeness auto
termination
proof (relation "measure (\<lambda>(body, i, _, _). length body - i)", goal_cases)
  case (3 body i out copied start j)
  then show ?case using string_end_ge [of "Suc i" body] by simp
next
  case (4 body i out copied start j)
  then show ?case using string_end_ge [of "Suc i" body] by simp
qed auto

declare norm_loop.simps [simp del]

definition normalizeTimestamps :: "string \<Rightarrow> string" where
  "normalizeTimestamps body =
     (case norm_loop body 0 None 0 of
        (None, _) \<Rightarrow> body
      | (Some out, copied) \<Rightarrow> out @ drop copied body)"

subsection \<open>What it means\<close>

text \<open>The contents of a string that has just been opened, and what follows its closing quote.\<close>

fun scan :: "string \<Rightarrow> (string \<times> string) option" where
  "scan [] = None"
| "scan (c # cs) =
     (if c = quote then Some ([], cs)
      else if c = backslash then
        (case cs of [] \<Rightarrow> None | e # ds \<Rightarrow> map_option (apfst (\<lambda>s. c # e # s)) (scan ds))
      else map_option (apfst (\<lambda>s. c # s)) (scan cs))"

lemma scan_length: "scan s = Some (a, r) \<Longrightarrow> length r < length s"
proof (induction s arbitrary: a rule: scan.induct)
  case (2 c cs)
  then show ?case by (fastforce split: if_splits list.splits)
qed simp

fun key_follows :: "string \<Rightarrow> bool" where
  "key_follows [] = False"
| "key_follows (c # cs) =
     (if of_char c \<in> {32, 9, 10, 13 :: nat} then key_follows cs else c = CHR '':'')"

function norm_ref :: "string \<Rightarrow> string" where
  "norm_ref [] = []"
| "norm_ref (c # cs) =
     (if c \<noteq> quote then c # norm_ref cs
      else (case scan cs of
              None \<Rightarrow> c # cs
            | Some (s, rest) \<Rightarrow>
                c # s @ (if naiveTimestamp s \<and> \<not> key_follows rest then ''Z'' else []) @ quote # norm_ref rest))"
  by pat_completeness auto
termination
  by (relation "measure length") (auto dest: scan_length)

subsection \<open>The loop computes it\<close>

lemma isKey_key_follows: "isKey body i = key_follows (drop i body)"
proof (induction body i rule: isKey.induct)
  case (1 body i)
  show ?case
  proof (cases "i < length body")
    case True
    then have "drop i body = body ! i # drop (Suc i) body" by (simp add: Cons_nth_drop_Suc)
    with 1 True show ?thesis by (subst isKey.simps) simp
  next
    case False
    then show ?thesis by (subst isKey.simps) simp
  qed
qed

lemma slice_Suc:
  assumes "j < k" and "k \<le> length body"
  shows "slice body j k = body ! j # slice body (Suc j) k"
proof -
  have "drop j body = body ! j # drop (Suc j) body" "k - j = Suc (k - Suc j)"
    using assms by (simp_all add: Cons_nth_drop_Suc)
  then show ?thesis by (simp add: slice_def)
qed

lemma string_end_scan:
  "scan (drop j body) =
     (if string_end body j < length body
      then Some (slice body j (string_end body j), drop (Suc (string_end body j)) body) else None)"
proof (induction body j rule: string_end.induct)
  case (1 body j)
  show ?case
  proof (cases "j < length body")
    case False
    then show ?thesis by (subst string_end.simps) simp
  next
    case True
    note d = Cons_nth_drop_Suc [OF True, symmetric]
    show ?thesis
    proof (cases "body ! j = quote")
      case True
      then have "string_end body j = j" by (subst string_end.simps) simp
      with True \<open>j < length body\<close> show ?thesis by (subst d) (simp add: slice_def)
    next
      case nq: False
      show ?thesis
      proof (cases "body ! j = backslash")
        case False
        with nq True have e: "string_end body j = string_end body (Suc j)" by (subst string_end.simps) simp
        from 1 [of] True nq False have IH: "scan (drop (Suc j) body) = (if string_end body (Suc j) < length body
            then Some (slice body (Suc j) (string_end body (Suc j)), drop (Suc (string_end body (Suc j))) body) else None)" by simp
        show ?thesis unfolding e using nq False string_end_ge [of "Suc j" body] slice_Suc [of j "string_end body (Suc j)" body]
          by (subst d) (auto simp: IH)
      next
        case bs: True
        with nq True have e: "string_end body j = string_end body (Suc (Suc j))" by (subst string_end.simps) simp
        from 1 True nq bs have IH: "scan (drop (Suc (Suc j)) body) = (if string_end body (Suc (Suc j)) < length body
            then Some (slice body (Suc (Suc j)) (string_end body (Suc (Suc j))), drop (Suc (string_end body (Suc (Suc j)))) body) else None)"
          by simp
        show ?thesis
        proof (cases "Suc j < length body")
          case False
          then have "drop (Suc j) body = []" "\<not> string_end body (Suc (Suc j)) < length body"
            using string_end_ge [of "Suc (Suc j)" body] by auto
          with bs nq show ?thesis unfolding e by (subst d) simp
        next
          case True
          note d2 = Cons_nth_drop_Suc [OF True, symmetric]
          show ?thesis unfolding e using bs nq string_end_ge [of "Suc (Suc j)" body]
              slice_Suc [of j "string_end body (Suc (Suc j))" body] slice_Suc [of "Suc j" "string_end body (Suc (Suc j))" body]
            by (subst d, subst d2) (auto simp: IH)
        qed
      qed
    qed
  qed
qed

text \<open>What has been written so far: the body up to \<open>copied\<close>, rewritten.\<close>

definition written :: "string \<Rightarrow> string option \<times> nat \<Rightarrow> string" where
  "written body oc = (case oc of (None, _) \<Rightarrow> body | (Some w, copied) \<Rightarrow> w @ drop copied body)"

lemma slice_drop: "a \<le> b \<Longrightarrow> drop a s = slice s a b @ drop b s"
  using append_take_drop_id [of "b - a" "drop a s"] by (simp add: slice_def)

lemma slice_append:
  assumes "a \<le> b" and "b \<le> c"
  shows "slice s a b @ slice s b c = slice s a c"
proof -
  obtain m n where "b = a + m" "c = a + (m + n)" using assms by (metis add.assoc le_Suc_ex)
  then show ?thesis by (simp add: slice_def take_add add.commute)
qed

lemma slice_one: "j < length s \<Longrightarrow> slice s j (Suc j) = [s ! j]"
  using slice_Suc [of j "Suc j" s] by (simp add: slice_def)

lemma string_end_quote: "string_end body j < length body \<Longrightarrow> body ! string_end body j = quote"
proof (induction body j rule: string_end.induct)
  case (1 body j)
  show ?case
  proof (cases "j < length body \<and> body ! j \<noteq> quote")
    case True
    then have "string_end body j = string_end body (if body ! j = backslash then Suc (Suc j) else Suc j)"
      by (subst string_end.simps) simp
    with 1 True show ?thesis by simp
  next
    case False
    then have "string_end body j = j" by (subst string_end.simps) auto
    with 1 False show ?thesis by simp
  qed
qed

lemma norm_loop_ref:
  assumes "copied \<le> i" and "out = None \<Longrightarrow> copied = 0"
  shows "written body (norm_loop body i out copied) =
    (case out of None \<Rightarrow> [] | Some w \<Rightarrow> w) @ slice body copied i @ norm_ref (drop i body)"
  using assms
proof (induction body i out copied rule: norm_loop.induct)
  case (1 body i out copied)
  let ?w = "case out of None \<Rightarrow> [] | Some w \<Rightarrow> w"
  have stop: "written body (out, copied) = ?w @ drop copied body"
    using "1.prems" by (auto simp: written_def split: option.splits)
  show ?case
  proof (cases "i < length body")
    case False
    then have "norm_loop body i out copied = (out, copied)" by (subst norm_loop.simps) simp
    with stop False "1.prems" show ?thesis by (simp add: slice_def)
  next
    case True
    note d = Cons_nth_drop_Suc [OF True, symmetric]
    have sl: "slice body copied (Suc i) = slice body copied i @ [body ! i]"
      using True "1.prems" slice_append [of copied i "Suc i" body] slice_Suc [of i "Suc i" body] by (simp add: slice_def)
    show ?thesis
    proof (cases "body ! i = quote")
      case False
      then have "norm_loop body i out copied = norm_loop body (Suc i) out copied"
        using True by (subst norm_loop.simps) simp
      with "1.IH"(1) True False "1.prems" sl show ?thesis by (subst d) simp
    next
      case q: True
      let ?j = "string_end body (Suc i)"
      note sc = string_end_scan [of "Suc i" body]
      show ?thesis
      proof (cases "length body \<le> ?j")
        case True
        then have "norm_loop body i out copied = (out, copied)"
          using \<open>i < length body\<close> q by (subst norm_loop.simps) (simp add: Let_def)
        with stop True q sc "1.prems" show ?thesis
          by (subst d) (simp add: slice_drop [of copied i body] \<open>i < length body\<close> less_imp_le d)
      next
        case False
        have ge: "Suc i \<le> ?j" by (rule string_end_ge)
        from False sc have sc: "scan (drop (Suc i) body) = Some (slice body (Suc i) ?j, drop (Suc ?j) body)" by simp
        let ?str = "slice body (Suc i) ?j"
        have jq: "slice body ?j (Suc ?j) = [quote]" using False string_end_quote [of body "Suc i"] by (simp add: slice_one)
        have upto: "slice body copied ?j = slice body copied i @ quote # ?str"
          using slice_append [of copied i ?j body] slice_Suc [of i ?j body] "1.prems" False ge q by simp
        have all: "slice body copied (Suc ?j) = slice body copied i @ quote # ?str @ [quote]"
          using slice_append [of copied ?j "Suc ?j" body] "1.prems" ge upto jq by simp
        have ref: "norm_ref (drop i body) = quote # ?str @
            (if naiveTimestamp ?str \<and> \<not> isKey body (Suc ?j) then ''Z'' else []) @ quote # norm_ref (drop (Suc ?j) body)"
          using q by (subst d) (simp add: sc isKey_key_follows)
        show ?thesis
        proof (cases "\<not> naiveTimestamp ?str \<or> isKey body (Suc ?j)")
          case True
          then have "norm_loop body i out copied = norm_loop body (Suc ?j) out copied"
            using \<open>i < length body\<close> q False by (subst norm_loop.simps) (simp add: Let_def)
          with "1.IH"(2) [OF _ _ refl refl _ True] \<open>i < length body\<close> q False "1.prems" ge all True show ?thesis
            unfolding ref by simp
        next
          case rw: False
          then have "norm_loop body i out copied = norm_loop body (Suc ?j) (Some (?w @ slice body copied ?j @ ''Z'')) ?j"
            using \<open>i < length body\<close> q False by (subst norm_loop.simps) (simp add: Let_def)
          with "1.IH"(3) [OF _ _ refl refl _ rw] \<open>i < length body\<close> q False jq upto rw show ?thesis
            unfolding ref by simp
        qed
      qed
    qed
  qed
qed

lemma normalizeTimestamps_ref: "normalizeTimestamps body = norm_ref body"
  using norm_loop_ref [of 0 0 None body] by (simp add: normalizeTimestamps_def written_def slice_def)

subsection \<open>What a rewrite does\<close>

lemma digit_not: "\<not> is_digit CHR ''Z''" "\<not> is_digit CHR ''.''" by code_simp+

lemma Z_plain: "CHR ''Z'' \<noteq> quote" "CHR ''Z'' \<noteq> backslash"
  by code_simp+

lemma naive_Z:
  assumes "naiveTimestamp s"
  shows "\<not> naiveTimestamp (s @ ''Z'')"
proof -
  from assms have "length (take 19 s) = 19"
    by (auto simp: naiveTimestamp_def stamp_shape_def dest!: list_all2_lengthD)
  then have l: "19 \<le> length s" by simp
  have "drop 19 (s @ ''Z'') = drop 19 s @ ''Z''" using l by simp
  then show ?thesis
  proof (cases "drop 19 s")
    case Nil
    with l show ?thesis by (simp add: naiveTimestamp_def)
  next
    case (Cons c cs)
    with l show ?thesis by (simp add: naiveTimestamp_def digit_not)
  qed
qed

text \<open>A string of the output reads as it was written: its closing quote is where it was.\<close>

lemma scan_append: "scan t = Some (s, rest) \<Longrightarrow> scan (s @ quote # r) = Some (s, r)"
proof (induction t arbitrary: s rule: scan.induct)
  case (2 c cs)
  show ?case
  proof (cases "c = backslash")
    case True
    with 2 show ?thesis by (cases cs) (auto split: if_splits)
  next
    case False
    with 2 show ?thesis by (auto split: if_splits)
  qed
qed simp

lemma scan_append_Z: "scan t = Some (s, rest) \<Longrightarrow> scan (s @ ''Z'' @ quote # r) = Some (s @ ''Z'', r)"
proof (induction t arbitrary: s rule: scan.induct)
  case (2 c cs)
  show ?case
  proof (cases "c = backslash")
    case True
    with 2 show ?thesis by (cases cs) (auto simp: Z_plain split: if_splits)
  next
    case False
    with 2 show ?thesis by (auto simp: Z_plain split: if_splits)
  qed
qed simp

lemma key_follows_norm: "key_follows (norm_ref s) = key_follows s"
proof (induction s rule: norm_ref.induct)
  case (2 c cs)
  then show ?case by (auto split: option.splits)
qed simp

lemma norm_ref_idem: "norm_ref (norm_ref s) = norm_ref s"
proof (induction s rule: norm_ref.induct)
  case (2 c cs)
  show ?case
  proof (cases "c = quote")
    case False
    with 2 show ?thesis by simp
  next
    case True
    show ?thesis
    proof (cases "scan cs")
      case None
      with True show ?thesis by simp
    next
      case (Some sr)
      obtain s rest where sr: "sr = (s, rest)" by fastforce
      note IH = 2(2) [OF _ Some sr [symmetric]]
      from True Some sr scan_append [of cs s rest "norm_ref rest"] scan_append_Z [of cs s rest "norm_ref rest"] naive_Z [of s]
      show ?thesis using IH by (auto simp: key_follows_norm)
    qed
  qed
qed simp

text \<open>
  C14: \<open>normalizeTimestamps\<close>, the loop over byte indices with its lazily allocated output, computes the
  walk over the text: every string value that is exactly a zone-less timestamp gets a "Z" before its
  closing quote, and nothing else changes (keys, longer strings, escapes, an unterminated string).
  It is idempotent: what it has rewritten it leaves alone.
\<close>

theorem normalizeTimestamps_walk:
  "normalizeTimestamps body = norm_ref body \<and> normalizeTimestamps (normalizeTimestamps body) = normalizeTimestamps body"
  by (simp add: normalizeTimestamps_ref norm_ref_idem)

subsection \<open>The transport\<close>

text \<open>
  A response body is the bytes that arrive and the error that may end them; \<open>read_limited\<close> is
  \<open>io.ReadAll(io.LimitReader(body, n))\<close>.
\<close>

type_synonym stream = "string \<times> error option"

definition read_limited :: "nat \<Rightarrow> stream \<Rightarrow> string result" where
  "read_limited n s =
     (case s of (bytes, err) \<Rightarrow>
        if n \<le> length bytes then Inr (take n bytes)
        else (case err of Some e \<Rightarrow> Inl e | None \<Rightarrow> Inr bytes))"

record http_response =
  hr_status :: nat
  hr_body :: stream
  hr_length :: int
  hr_headers :: "(string \<times> string) list"

definition maxResponseBytes :: nat where
  "maxResponseBytes = 134217728"

definition RoundTrip :: "nat \<Rightarrow> http_response result \<Rightarrow> http_response result" where
  "RoundTrip limit answer =
     (case answer of
        Inl e \<Rightarrow> Inl e
      | Inr resp \<Rightarrow>
          (case read_limited (limit + 1) (hr_body resp) of
             Inl e \<Rightarrow> Inl e
           | Inr body \<Rightarrow>
               if length body > limit then Inl (newError (''ynab: response body exceeds '' @ dec limit @ '' bytes''))
               else let body' = normalizeTimestamps body
                    in Inr (resp\<lparr>hr_body := (body', None), hr_length := int (length body'),
                              hr_headers := filter (\<lambda>(k, _). \<not> EqualFold k ''Content-Length'') (hr_headers resp)\<rparr>)))"

text \<open>A response that gets through was read to its end and is within the limit, with its own length.\<close>

lemma RoundTrip_Inr:
  assumes "RoundTrip limit (Inr resp) = Inr resp'"
  shows "length (fst (hr_body resp)) \<le> limit \<and> snd (hr_body resp) = None \<and>
    hr_body resp' = (norm_ref (fst (hr_body resp)), None) \<and> hr_length resp' = int (length (fst (hr_body resp')))"
  using assms
  by (auto simp: RoundTrip_def read_limited_def normalizeTimestamps_ref Let_def split: sum.splits prod.splits if_splits option.splits)

end
