(* ===== verification/YnabClient.thy ===== *)
theory YnabClient
  imports Governor GoRegexp
begin

text \<open>
  \<open>ynab/errors.go\<close> and \<open>ynab/client.go\<close>: every call asks the governor first, lets the client library
  run (which takes a token per attempt through the limiter), and wraps the library's error so that
  its text shows no secret while \<open>errors.Is\<close> still matches. The library call is a parameter.
\<close>

subsection \<open>Redaction\<close>

record redactor =
  rd_plan_id :: string
  rd_token :: string

definition redact :: "redactor \<Rightarrow> string \<Rightarrow> string" where
  "redact r s =
     (let s1 = (if rd_token r \<noteq> [] then ReplaceAll (rd_token r) ''{token}'' s else s);
          s2 = (if rd_plan_id r \<noteq> [] then ReplaceAll (rd_plan_id r) ''{plan}'' s1 else s1)
      in replace_uuids ''{id}'' s2)"

definition rate_limited_text :: string where
  "rate_limited_text = ''ynab: rate limited (429)''"

text \<open>\<open>RateLimitError\<close>: a zero \<open>RetryAfter\<close> means unknown. It matches both rate-limit sentinels.\<close>

definition RateLimitError :: "string \<Rightarrow> duration \<Rightarrow> error" where
  "RateLimitError op retry =
     Error (op @ '': '' @ rate_limited_text @ (if retry > 0 then '' (retry after '' @ duration_String retry @ '')'' else []))
       [ErrRateLimited, LibErrRateLimited] None"

definition wrap :: "redactor \<Rightarrow> string \<Rightarrow> error option \<Rightarrow> error option" where
  "wrap r op err =
     (case err of
        None \<Rightarrow> None
      | Some e \<Rightarrow>
          if errors_Is e LibErrRateLimited
          then Some (RateLimitError (redact r op) (case err_retry e of None \<Rightarrow> 0 | Some d \<Rightarrow> d))
          else Some (Error (redact r (op @ '': '' @ err_msg e)) (err_is e) None))"

subsection \<open>Calls\<close>

record client =
  cl_gov :: governor
  cl_red :: redactor

text \<open>\<open>NewClient\<close> with or without a shared governor; its transport and the library take what else it is given.\<close>

definition NewClient :: "(rat \<Rightarrow> rat) \<Rightarrow> time \<Rightarrow> string \<Rightarrow> string \<Rightarrow> governor option \<Rightarrow> client" where
  "NewClient rnd now accessToken budgetID gov =
     \<lparr>cl_gov = (case gov of Some g \<Rightarrow> g | None \<Rightarrow> NewGovernor rnd DefaultHourlyLimit DefaultWriteReserve now),
      cl_red = \<lparr>rd_plan_id = budgetID, rd_token = accessToken\<rparr>\<rparr>"

definition preflight :: "(rat \<Rightarrow> rat) \<Rightarrow> time \<Rightarrow> client \<Rightarrow> string \<Rightarrow> bool \<Rightarrow> error option \<times> client" where
  "preflight rnd now c op write =
     (case Allow rnd now write (cl_gov c) of (e, g) \<Rightarrow> (wrap (cl_red c) op e, c\<lparr>cl_gov := g\<rparr>))"

text \<open>
  A library call gets the limiter it must ask before each attempt (\<open>governorLimiter.Wait\<close>, a read or
  a write as the context says) and ends with a value or an error.
\<close>

definition limiter_wait :: "(rat \<Rightarrow> rat) \<Rightarrow> bool \<Rightarrow> time \<Rightarrow> governor \<Rightarrow> error option \<times> governor" where
  "limiter_wait rnd write t g = Take rnd t write g"

type_synonym 'a lib_call = "(time \<Rightarrow> governor \<Rightarrow> error option \<times> governor) \<Rightarrow> governor \<Rightarrow> 'a result \<times> governor"

definition client_call :: "(rat \<Rightarrow> rat) \<Rightarrow> time \<Rightarrow> string \<Rightarrow> bool \<Rightarrow> 'a lib_call \<Rightarrow> client \<Rightarrow> 'a result \<times> client" where
  "client_call rnd now op write lib c =
     (case preflight rnd now c op write of
        (Some e, c1) \<Rightarrow> (Inl e, c1)
      | (None, c1) \<Rightarrow>
          (case lib (limiter_wait rnd write) (cl_gov c1) of
             (Inl e, g) \<Rightarrow> (Inl (the (wrap (cl_red c1) op (Some e))), c1\<lparr>cl_gov := g\<rparr>)
           | (Inr v, g) \<Rightarrow> (Inr v, c1\<lparr>cl_gov := g\<rparr>)))"

definition Export :: "(rat \<Rightarrow> rat) \<Rightarrow> time \<Rightarrow> ('d \<times> int64) lib_call \<Rightarrow> client \<Rightarrow> ('d \<times> int64) result \<times> client" where
  "Export rnd now lib c = client_call rnd now ''export plan'' False lib c"

definition Delta :: "(rat \<Rightarrow> rat) \<Rightarrow> time \<Rightarrow> (int64 \<Rightarrow> ('d \<times> int64) lib_call) \<Rightarrow> int64 \<Rightarrow> client \<Rightarrow> ('d \<times> int64) result \<times> client" where
  "Delta rnd now lib since c = client_call rnd now ''plan delta'' False (lib since) c"

definition Plans :: "(rat \<Rightarrow> rat) \<Rightarrow> time \<Rightarrow> 'p list lib_call \<Rightarrow> client \<Rightarrow> 'p list result \<times> client" where
  "Plans rnd now lib c = client_call rnd now ''list plans'' False lib c"

definition GetUncategorizedTransactions :: "(rat \<Rightarrow> rat) \<Rightarrow> time \<Rightarrow> 't list lib_call \<Rightarrow> client \<Rightarrow> 't list result \<times> client" where
  "GetUncategorizedTransactions rnd now lib c = client_call rnd now ''fetch uncategorized transactions'' False lib c"

definition GetCategories :: "(rat \<Rightarrow> rat) \<Rightarrow> time \<Rightarrow> 'g list lib_call \<Rightarrow> client \<Rightarrow> 'g list result \<times> client" where
  "GetCategories rnd now lib c = client_call rnd now ''fetch categories'' False lib c"

definition ImportTransactions :: "(rat \<Rightarrow> rat) \<Rightarrow> time \<Rightarrow> string list lib_call \<Rightarrow> client \<Rightarrow> string list result \<times> client" where
  "ImportTransactions rnd now lib c = client_call rnd now ''import transactions'' True lib c"

subsection \<open>No secret survives\<close>

text \<open>A token that is longer than the placeholders and has no braces, as YNAB's are.\<close>

definition plain_token :: "string \<Rightarrow> bool" where
  "plain_token tok \<longleftrightarrow> 7 < length tok \<and> CHR ''{'' \<notin> set tok \<and> CHR ''}'' \<notin> set tok"

lemma plain_token_barrier:
  assumes "plain_token tok" and "rep = CHR ''{'' # mid @ ''}''" and "length rep \<le> 7"
  shows "barrier rep tok"
proof -
  have "\<not> Contains rep tok"
  proof
    assume "Contains rep tok"
    then have "length tok \<le> length rep" by (auto simp: Contains_iff)
    with assms show False by (simp add: plain_token_def)
  qed
  with assms show ?thesis by (auto simp: barrier_def plain_token_def)
qed

lemma redact_no_uuid: "\<not> has_uuid (redact r s)"
  unfolding redact_def Let_def
  by (rule replace_uuids_clean [where b = "CHR ''{''" and mid = "''id''" and e = "CHR ''}''"])
    (simp_all add: uuid_char_def is_hex_def)

lemma redact_no_token:
  assumes "plain_token (rd_token r)"
  shows "\<not> Contains (redact r s) (rd_token r)"
proof -
  let ?tok = "rd_token r"
  have ne: "?tok \<noteq> []" using assms by (auto simp: plain_token_def)
  have b: "barrier ''{token}'' ?tok" "barrier ''{plan}'' ?tok" "barrier ''{id}'' ?tok"
    by (rule plain_token_barrier [OF assms, of _ "''token''"] plain_token_barrier [OF assms, of _ "''plan''"]
        plain_token_barrier [OF assms, of _ "''id''"]; simp)+
  have 1: "\<not> Contains (ReplaceAll ?tok ''{token}'' s) ?tok" using ReplaceAll_clean [OF b(1) ne] ne by blast
  have 2: "rd_plan_id r \<noteq> [] \<Longrightarrow> \<not> Contains (ReplaceAll (rd_plan_id r) ''{plan}'' (ReplaceAll ?tok ''{token}'' s)) ?tok"
    using ReplaceAll_clean [OF b(2) ne] 1 by blast
  show ?thesis
    unfolding redact_def Let_def using replaced_keeps_clean [OF replaced_uuids b(3) ne] 1 2 ne by simp
qed

subsection \<open>What a call returns\<close>

definition shows_no_secret :: "redactor \<Rightarrow> error \<Rightarrow> bool" where
  "shows_no_secret r e \<longleftrightarrow> \<not> has_uuid (err_msg e) \<and> \<not> Contains (err_msg e) (rd_token r)"

lemma wrap_other:
  assumes "\<not> errors_Is orig LibErrRateLimited" and "plain_token (rd_token r)"
  shows "\<exists>e. wrap r op (Some orig) = Some e \<and> (\<forall>s. errors_Is e s = errors_Is orig s) \<and> shows_no_secret r e"
  using assms redact_no_uuid redact_no_token by (simp add: wrap_def errors_Is_def shows_no_secret_def)

lemma wrap_rate_limited:
  assumes "errors_Is orig LibErrRateLimited"
  shows "wrap r op (Some orig) = Some (RateLimitError (redact r op) (case err_retry orig of None \<Rightarrow> 0 | Some d \<Rightarrow> d))"
  using assms by (simp add: wrap_def)

lemma Allow_refused: "Allow rnd t write g = (Some e, g') \<Longrightarrow> g' = refill rnd t g \<and> err_is e = [ErrBudgetExhausted]"
  by (auto simp: Allow_def Let_def split: if_splits)

text \<open>
  C15: what a YNAB call returns. With no budget the library is not called at all and the error is
  \<open>ErrBudgetExhausted\<close>; a value passes through. The library's error comes back as one that every
  \<open>errors.Is\<close> test answers alike and whose text has neither a UUID nor the token, or, for a 429,
  as a \<open>RateLimitError\<close> that depends on nothing of the library's text but the wait.
\<close>

theorem client_call_outcome:
  assumes "plain_token (rd_token (cl_red c))" and "client_call rnd now op write lib c = (r, c')"
  shows "case Allow rnd now write (cl_gov c) of
      (Some _, g) \<Rightarrow> (\<exists>e. r = Inl e \<and> errors_Is e ErrBudgetExhausted \<and> shows_no_secret (cl_red c) e) \<and> c' = c\<lparr>cl_gov := g\<rparr>
    | (None, g) \<Rightarrow>
        (case lib (limiter_wait rnd write) g of
           (Inr v, g') \<Rightarrow> r = Inr v \<and> c' = c\<lparr>cl_gov := g'\<rparr>
         | (Inl orig, g') \<Rightarrow> c' = c\<lparr>cl_gov := g'\<rparr> \<and>
             (if errors_Is orig LibErrRateLimited
              then r = Inl (RateLimitError (redact (cl_red c) op) (case err_retry orig of None \<Rightarrow> 0 | Some d \<Rightarrow> d))
              else \<exists>e. r = Inl e \<and> (\<forall>s. errors_Is e s = errors_Is orig s) \<and> shows_no_secret (cl_red c) e))"
proof -
  obtain a g where al: "Allow rnd now write (cl_gov c) = (a, g)" by fastforce
  show ?thesis
  proof (cases a)
    case (Some e0)
    from Allow_refused [OF al [unfolded Some]] have sents: "err_is e0 = [ErrBudgetExhausted]" by simp
    then have "\<not> errors_Is e0 LibErrRateLimited" "errors_Is e0 ErrBudgetExhausted" by (simp_all add: errors_Is_def)
    with wrap_other [OF _ assms(1), of e0 op] obtain e where
      "wrap (cl_red c) op (Some e0) = Some e" "errors_Is e ErrBudgetExhausted" "shows_no_secret (cl_red c) e" by blast
    with assms(2) al Some show ?thesis by (auto simp: client_call_def preflight_def)
  next
    case None
    obtain lr g' where lib: "lib (limiter_wait rnd write) g = (lr, g')" by fastforce
    have w: "wrap (cl_red c) op None = None" by (simp add: wrap_def)
    show ?thesis
    proof (cases lr)
      case (Inr v)
      with assms(2) al None lib w show ?thesis by (auto simp: client_call_def preflight_def)
    next
      case (Inl orig)
      show ?thesis
      proof (cases "errors_Is orig LibErrRateLimited")
        case True
        with assms(2) al None lib Inl w wrap_rate_limited [OF True] show ?thesis
          by (auto simp: client_call_def preflight_def)
      next
        case False
        from wrap_other [OF False assms(1), of op] obtain e where
          "wrap (cl_red c) op (Some orig) = Some e" "\<forall>s. errors_Is e s = errors_Is orig s" "shows_no_secret (cl_red c) e" by blast
        with assms(2) al None lib Inl w False show ?thesis by (auto simp: client_call_def preflight_def)
      qed
    qed
  qed
qed

definition ex_red :: redactor where
  "ex_red = \<lparr>rd_plan_id = ''p'', rd_token = ''secret-token''\<rparr>"

definition ex_cl :: client where
  "ex_cl = \<lparr>cl_gov = NewGovernor (\<lambda>x. x) 200 20 0, cl_red = ex_red\<rparr>"

theorem client_call_outcome_witness:
  "\<exists>e. fst (Export (\<lambda>x. x) 0 (\<lambda>w g. (Inl (newError ''secret-token refused''), g)) ex_cl :: (unit \<times> int64) result \<times> client) = Inl e \<and>
     \<not> Contains (err_msg e) ''secret-token''"
proof -
  let ?lib = "\<lambda>(w :: time \<Rightarrow> governor \<Rightarrow> error option \<times> governor) g :: governor. (Inl (newError ''secret-token refused'') :: (unit \<times> int64) result, g)"
  obtain r c' where r: "client_call (\<lambda>x. x) 0 ''export plan'' False ?lib ex_cl = (r, c')" by fastforce
  have "plain_token (rd_token (cl_red ex_cl))" by (simp add: plain_token_def ex_cl_def ex_red_def)
  note client_call_outcome [OF this r]
  moreover obtain a g where al: "Allow (\<lambda>x. x) 0 False (cl_gov ex_cl) = (a, g)" by fastforce
  ultimately have "\<exists>e. r = Inl e \<and> shows_no_secret ex_red e"
    by (cases a) (auto simp: ex_cl_def)
  then show ?thesis using r by (auto simp: Export_def shows_no_secret_def ex_red_def)
qed

end
