(* ===== verification/AuthJson.thy ===== *)
theory AuthJson
  imports Complex_Main GoTime GoRunes "HOL-Library.Log_Nat" "HOL-Library.Monad_Syntax"
begin

text \<open>
  \<open>auth/storage.go\<close>: fosite's sessions, clients and requests, and \<open>storedRequest\<close>, the JSON in which a
  request is stored.
\<close>

subsection \<open>JSON\<close>

text \<open>
  A JSON text as the value it holds. Its texts are as \<open>json.Marshal\<close> writes them and \<open>json.Unmarshal\<close> reads
  them back: every byte that is no UTF-8 becomes U+FFFD (\<open>utf8\<close>). \<open>JsInt\<close> is a number written without
  fraction and exponent, \<open>JsTime\<close> a text written by \<open>time.Time\<close>.
\<close>

datatype json_value =
    JsNull | JsBool bool | JsInt int | JsFloat rat | JsText string | JsTime time
  | JsList "json_value list" | JsObject "(string \<times> json_value) list"

text \<open>The member under a path, as SQLite's \<open>json_extract\<close> finds it.\<close>

fun json_extract :: "string list \<Rightarrow> json_value \<Rightarrow> json_value option" where
  "json_extract [] j = Some j"
| "json_extract (k # ks) (JsObject ms) = (case map_of ms k of None \<Rightarrow> None | Some j \<Rightarrow> json_extract ks j)"
| "json_extract (k # ks) j = None"

subsection \<open>Sessions and requests\<close>

datatype token_kind = AuthorizeCode | AccessToken | RefreshToken

definition kind_text :: "token_kind \<Rightarrow> string" where
  "kind_text k = (case k of AuthorizeCode \<Rightarrow> ''authorize_code'' | AccessToken \<Rightarrow> ''access_token'' | RefreshToken \<Rightarrow> ''refresh_token'')"

text \<open>The value under \<open>gen\<close> in a session's \<open>Extra\<close>; \<open>GenNested\<close> is an object or an array.\<close>

datatype extra_gen =
    GenInt int | GenFloat rat | GenText string | GenBool bool | GenNested json_value | GenNull | GenMissing

record session =
  se_subject :: string
  se_username :: string
  se_gen :: extra_gen
  se_expires :: "(token_kind \<times> time) list"

definition GetExpiresAt :: "session \<Rightarrow> token_kind \<Rightarrow> time" where
  "GetExpiresAt s k = (case map_of (se_expires s) k of None \<Rightarrow> 0 | Some t \<Rightarrow> t)"

definition NewSession :: "string \<Rightarrow> string \<Rightarrow> int \<Rightarrow> session" where
  "NewSession user name gen = \<lparr>se_subject = user, se_username = name, se_gen = GenInt gen, se_expires = []\<rparr>"

text \<open>\<open>fosite.DefaultClient\<close>; a nil list and an empty one are not told apart.\<close>

record oauth_client =
  cl_id :: string
  cl_secret :: string
  cl_redirect_uris :: "string list"
  cl_grant_types :: "string list"
  cl_response_types :: "string list"
  cl_scopes :: "string list"
  cl_public :: bool

text \<open>A fosite request; the session is \<open>None\<close> when it is not a \<open>*fosite.DefaultSession\<close> or nil.\<close>

record requester =
  rq_id :: string
  rq_requested_at :: time
  rq_client :: "oauth_client option"
  rq_requested_scope :: "string list"
  rq_granted_scope :: "string list"
  rq_requested_audience :: "string list"
  rq_granted_audience :: "string list"
  rq_form :: "(string \<times> string list) list"
  rq_session :: "session option"

definition storedForm :: "string list" where
  "storedForm = [''client_id'', ''code_challenge'', ''code_challenge_method'', ''grant_type'', ''redirect_uri'',
     ''response_type'', ''scope'']"

record stored_request =
  sq_id :: string
  sq_requested_at :: time
  sq_client_id :: string
  sq_requested_scope :: "string list"
  sq_granted_scope :: "string list"
  sq_requested_audience :: "string list"
  sq_granted_audience :: "string list"
  sq_form :: "(string \<times> string list) list"
  sq_session :: "session option"

subsection \<open>Encoding\<close>

text \<open>
  A whole \<open>float64\<close> below \<open>10^21\<close> is written like an integer. A nil list or map, written as \<open>null\<close>, is
  read as an empty one.
\<close>

definition marshal_text :: "string \<Rightarrow> json_value" where
  "marshal_text s = JsText (utf8 s)"

definition marshal_texts :: "string list \<Rightarrow> json_value" where
  "marshal_texts ss = JsList (map marshal_text ss)"

definition marshal_gen :: "extra_gen \<Rightarrow> json_value option" where
  "marshal_gen g =
     (case g of
        GenInt n \<Rightarrow> Some (JsInt n)
      | GenFloat v \<Rightarrow> Some (if v = of_int \<lfloor>v\<rfloor> \<and> \<bar>v\<bar> < 10 ^ 21 then JsInt \<lfloor>v\<rfloor> else JsFloat v)
      | GenText s \<Rightarrow> Some (marshal_text s)
      | GenBool b \<Rightarrow> Some (JsBool b)
      | GenNested j \<Rightarrow> Some j
      | GenNull \<Rightarrow> Some JsNull
      | GenMissing \<Rightarrow> None)"

definition marshal_extra :: "extra_gen \<Rightarrow> json_value" where
  "marshal_extra g = JsObject (case marshal_gen g of None \<Rightarrow> [] | Some j \<Rightarrow> [(''gen'', j)])"

text \<open>\<open>fosite.DefaultSession\<close>; the query of \<open>countActive\<close> names its \<open>subject\<close> and \<open>extra\<close>.\<close>

definition marshal_session :: "session \<Rightarrow> json_value" where
  "marshal_session s = JsObject
     [(''expires_at'', JsObject (map (\<lambda>(k, t). (kind_text k, JsTime t)) (se_expires s))),
      (''username'', marshal_text (se_username s)), (''subject'', marshal_text (se_subject s)),
      (''extra'', marshal_extra (se_gen s))]"

definition marshal_form :: "(string \<times> string list) list \<Rightarrow> json_value" where
  "marshal_form form = JsObject (map (\<lambda>(k, vs). (utf8 k, marshal_texts vs)) form)"

definition marshal_request :: "stored_request \<Rightarrow> json_value" where
  "marshal_request sq = JsObject
     [(''id'', marshal_text (sq_id sq)), (''requested_at'', JsTime (sq_requested_at sq)),
      (''client_id'', marshal_text (sq_client_id sq)),
      (''requested_scope'', marshal_texts (sq_requested_scope sq)), (''granted_scope'', marshal_texts (sq_granted_scope sq)),
      (''requested_audience'', marshal_texts (sq_requested_audience sq)),
      (''granted_audience'', marshal_texts (sq_granted_audience sq)), (''form'', marshal_form (sq_form sq)),
      (''session'', case sq_session sq of None \<Rightarrow> JsNull | Some s \<Rightarrow> marshal_session s)]"

subsection \<open>Decoding\<close>

text \<open>
  \<open>json.Unmarshal\<close> of a member into a field: a missing or null one leaves the zero value, one of another
  type is an error (\<open>None\<close>). The names of members are as \<open>json.Marshal\<close> writes them, each once.
\<close>

definition unmarshal_text :: "json_value option \<Rightarrow> string option" where
  "unmarshal_text j =
     (case j of None \<Rightarrow> Some [] | Some JsNull \<Rightarrow> Some [] | Some (JsText s) \<Rightarrow> Some s | Some (JsTime t) \<Rightarrow> Some (formatTime t)
      | _ \<Rightarrow> None)"

definition unmarshal_time :: "json_value option \<Rightarrow> time option" where
  "unmarshal_time j = (case j of None \<Rightarrow> Some 0 | Some JsNull \<Rightarrow> Some 0 | Some (JsTime t) \<Rightarrow> Some t | _ \<Rightarrow> None)"

text \<open>The elements of a list or the members of an object, all decoded or none.\<close>

definition unmarshal_list :: "(json_value option \<Rightarrow> 'a option) \<Rightarrow> json_value option \<Rightarrow> 'a list option" where
  "unmarshal_list f j =
     (case j of None \<Rightarrow> Some [] | Some JsNull \<Rightarrow> Some [] | Some (JsList js) \<Rightarrow> those (map (\<lambda>x. f (Some x)) js) | _ \<Rightarrow> None)"

definition unmarshal_map :: "(json_value option \<Rightarrow> 'a option) \<Rightarrow> json_value option \<Rightarrow> (string \<times> 'a) list option" where
  "unmarshal_map f j =
     (case j of None \<Rightarrow> Some [] | Some JsNull \<Rightarrow> Some []
      | Some (JsObject ms) \<Rightarrow> those (map (\<lambda>(k, x). map_option (Pair k) (f (Some x))) ms) | _ \<Rightarrow> None)"

text \<open>Into \<open>any\<close>, every number is read as the nearest \<open>float64\<close> (ties to even).\<close>

definition float64_of :: "int \<Rightarrow> int" where
  "float64_of n =
     (let k = nat (bitlen \<bar>n\<bar> - 53); q = \<bar>n\<bar> div 2 ^ k; r = \<bar>n\<bar> mod 2 ^ k;
          up = (2 * r > 2 ^ k \<or> (2 * r = 2 ^ k \<and> odd q))
      in sgn n * ((if up then q + 1 else q) * 2 ^ k))"

definition unmarshal_gen :: "json_value option \<Rightarrow> extra_gen" where
  "unmarshal_gen j =
     (case j of
        None \<Rightarrow> GenMissing
      | Some JsNull \<Rightarrow> GenNull
      | Some (JsBool b) \<Rightarrow> GenBool b
      | Some (JsInt n) \<Rightarrow> GenFloat (of_int (float64_of n))
      | Some (JsFloat v) \<Rightarrow> GenFloat v
      | Some (JsText s) \<Rightarrow> GenText s
      | Some (JsTime t) \<Rightarrow> GenText (formatTime t)
      | Some x \<Rightarrow> GenNested x)"

definition unmarshal_extra :: "json_value option \<Rightarrow> extra_gen option" where
  "unmarshal_extra j =
     (case j of None \<Rightarrow> Some GenMissing | Some JsNull \<Rightarrow> Some GenMissing
      | Some (JsObject ms) \<Rightarrow> Some (unmarshal_gen (map_of ms ''gen'')) | _ \<Rightarrow> None)"

definition kind_of :: "string \<Rightarrow> token_kind option" where
  "kind_of s = find (\<lambda>k. kind_text k = s) [AuthorizeCode, AccessToken, RefreshToken]"

definition unmarshal_session :: "json_value option \<Rightarrow> session option option" where
  "unmarshal_session j =
     (case j of
        None \<Rightarrow> Some None
      | Some JsNull \<Rightarrow> Some None
      | Some (JsObject ms) \<Rightarrow>
          do { expires \<leftarrow> unmarshal_map unmarshal_time (map_of ms ''expires_at'');
               username \<leftarrow> unmarshal_text (map_of ms ''username'');
               subject \<leftarrow> unmarshal_text (map_of ms ''subject'');
               gen \<leftarrow> unmarshal_extra (map_of ms ''extra'');
               Some (Some \<lparr>se_subject = subject, se_username = username, se_gen = gen,
                 se_expires = List.map_filter (\<lambda>(s, t). map_option (\<lambda>k. (k, t)) (kind_of s)) expires\<rparr>) }
      | _ \<Rightarrow> None)"

definition unmarshal_request :: "json_value \<Rightarrow> stored_request option" where
  "unmarshal_request j =
     (case j of
        JsObject ms \<Rightarrow>
          do { rid \<leftarrow> unmarshal_text (map_of ms ''id'');
               requested \<leftarrow> unmarshal_time (map_of ms ''requested_at'');
               client \<leftarrow> unmarshal_text (map_of ms ''client_id'');
               rscope \<leftarrow> unmarshal_list unmarshal_text (map_of ms ''requested_scope'');
               gscope \<leftarrow> unmarshal_list unmarshal_text (map_of ms ''granted_scope'');
               raud \<leftarrow> unmarshal_list unmarshal_text (map_of ms ''requested_audience'');
               gaud \<leftarrow> unmarshal_list unmarshal_text (map_of ms ''granted_audience'');
               form \<leftarrow> unmarshal_map (unmarshal_list unmarshal_text) (map_of ms ''form'');
               sess \<leftarrow> unmarshal_session (map_of ms ''session'');
               Some \<lparr>sq_id = rid, sq_requested_at = requested, sq_client_id = client, sq_requested_scope = rscope,
                 sq_granted_scope = gscope, sq_requested_audience = raud, sq_granted_audience = gaud, sq_form = form,
                 sq_session = sess\<rparr> }
      | JsNull \<Rightarrow>
          Some \<lparr>sq_id = [], sq_requested_at = 0, sq_client_id = [], sq_requested_scope = [], sq_granted_scope = [],
            sq_requested_audience = [], sq_granted_audience = [], sq_form = [], sq_session = None\<rparr>
      | _ \<Rightarrow> None)"

subsection \<open>The round trip\<close>

lemma float64_of_exact: "\<bar>n\<bar> < 2 ^ 53 \<Longrightarrow> float64_of n = n"
proof -
  assume "\<bar>n\<bar> < 2 ^ 53"
  then have "bitlen \<bar>n\<bar> \<le> 53" by (simp add: bitlen_le_iff_power)
  then have "nat (bitlen \<bar>n\<bar> - 53) = 0" by simp
  then show ?thesis by (simp add: float64_of_def Let_def mult_sgn_abs)
qed

definition json_session :: "session \<Rightarrow> session" where
  "json_session s = s\<lparr>se_subject := utf8 (se_subject s), se_username := utf8 (se_username s),
     se_gen := unmarshal_gen (marshal_gen (se_gen s))\<rparr>"

definition json_form :: "(string \<times> string list) list \<Rightarrow> (string \<times> string list) list" where
  "json_form = map (\<lambda>(k, vs). (utf8 k, map utf8 vs))"

text \<open>What is read back of a stored request.\<close>

definition json_request :: "stored_request \<Rightarrow> stored_request" where
  "json_request sq =
     \<lparr>sq_id = utf8 (sq_id sq), sq_requested_at = sq_requested_at sq, sq_client_id = utf8 (sq_client_id sq),
      sq_requested_scope = map utf8 (sq_requested_scope sq), sq_granted_scope = map utf8 (sq_granted_scope sq),
      sq_requested_audience = map utf8 (sq_requested_audience sq), sq_granted_audience = map utf8 (sq_granted_audience sq),
      sq_form = json_form (sq_form sq), sq_session = map_option json_session (sq_session sq)\<rparr>"

lemma those_map_Some: "those (map (\<lambda>x. Some (f x)) xs) = Some (map f xs)"
  by (induction xs) simp_all

lemma unmarshal_marshal_text: "unmarshal_text (Some (marshal_text s)) = Some (utf8 s)"
  by (simp add: unmarshal_text_def marshal_text_def)

lemma unmarshal_marshal_texts: "unmarshal_list unmarshal_text (Some (marshal_texts ss)) = Some (map utf8 ss)"
  by (simp add: unmarshal_list_def marshal_texts_def comp_def unmarshal_marshal_text those_map_Some)

lemma unmarshal_marshal_form:
  "unmarshal_map (unmarshal_list unmarshal_text) (Some (marshal_form form)) = Some (json_form form)"
  by (simp add: unmarshal_map_def marshal_form_def comp_def case_prod_unfold unmarshal_marshal_texts those_map_Some
      json_form_def)

lemma unmarshal_marshal_extra: "unmarshal_extra (Some (marshal_extra g)) = Some (unmarshal_gen (marshal_gen g))"
  by (simp add: unmarshal_extra_def marshal_extra_def split: option.split)

lemma kind_of_text: "kind_of (kind_text k) = Some k"
  by (cases k) (simp_all add: kind_of_def kind_text_def)

lemma unmarshal_marshal_session: "unmarshal_session (Some (marshal_session s)) = Some (Some (json_session s))"
proof -
  have "unmarshal_map unmarshal_time (Some (JsObject (map (\<lambda>(k, t). (kind_text k, JsTime t)) es))) =
      Some (map (\<lambda>(k, t). (kind_text k, t)) es)" for es
    by (simp add: unmarshal_map_def comp_def case_prod_unfold unmarshal_time_def those_map_Some)
  moreover have "List.map_filter (\<lambda>(s, t). map_option (\<lambda>k. (k, t)) (kind_of s)) (map (\<lambda>(k, t). (kind_text k, t)) es) = es" for es
    by (induction es) (auto simp: List.map_filter_def kind_of_text)
  ultimately show ?thesis
    by (cases s) (simp add: unmarshal_session_def marshal_session_def unmarshal_marshal_text unmarshal_marshal_extra json_session_def)
qed

lemma unmarshal_session_null: "unmarshal_session (Some JsNull) = Some None"
  by (simp add: unmarshal_session_def)

lemma unmarshal_marshal: "unmarshal_request (marshal_request sq) = Some (json_request sq)"
  by (cases "sq_session sq")
    (simp_all add: unmarshal_request_def marshal_request_def unmarshal_marshal_text unmarshal_marshal_texts
      unmarshal_marshal_form unmarshal_marshal_session unmarshal_time_def json_request_def unmarshal_session_null)

end
