(* ===== verification/AuthStorage.thy ===== *)
theory AuthStorage
  imports Complex_Main SqlTx AuthJson
begin

text \<open>
  \<open>auth/storage.go\<close>, \<open>auth/generations.go\<close>, \<open>auth/clients.go\<close>: the tables behind the OAuth server.
  Every function runs its statements on the context's transaction or, without one, each on its own.
  A stored request is the value its JSON holds (\<open>None\<close> when the text is no JSON).
  Foreign keys of these tables are checked by the statement; \<open>RowsAffected\<close> of the SQLite driver
  does not fail.
\<close>

subsection \<open>Tables\<close>

datatype token_table = Codes | Access | Refresh | PKCE

definition table_name :: "token_table \<Rightarrow> string" where
  "table_name t = (case t of Codes \<Rightarrow> ''oauth_auth_codes'' | Access \<Rightarrow> ''oauth_access_tokens''
     | Refresh \<Rightarrow> ''oauth_refresh_tokens'' | PKCE \<Rightarrow> ''oauth_pkce_sessions'')"

record token_row =
  tk_request_id :: string
  tk_client_id :: string
  tk_expires_at :: string
  tk_active :: bool
  tk_request :: "json_value option"

record client_row =
  oc_name :: string
  oc_redirect_uris :: "string list option"
  oc_grant_types :: "string list option"
  oc_response_types :: "string list option"
  oc_scopes :: "string list option"
  oc_created_at :: string

record auth_db =
  oa_clients :: "(string, client_row) tbl"
  oa_codes :: "(string, token_row) tbl"
  oa_access :: "(string, token_row) tbl"
  oa_refresh :: "(string, token_row) tbl"
  oa_pkce :: "(string, token_row) tbl"
  oa_generations :: "(string, int) tbl"
  oa_secret :: "string option"

definition empty_auth :: auth_db where
  "empty_auth = \<lparr>oa_clients = [], oa_codes = [], oa_access = [], oa_refresh = [], oa_pkce = [], oa_generations = [],
     oa_secret = None\<rparr>"

definition tokens :: "token_table \<Rightarrow> auth_db \<Rightarrow> (string, token_row) tbl" where
  "tokens t d = (case t of Codes \<Rightarrow> oa_codes d | Access \<Rightarrow> oa_access d | Refresh \<Rightarrow> oa_refresh d | PKCE \<Rightarrow> oa_pkce d)"

definition set_tokens :: "token_table \<Rightarrow> (string, token_row) tbl \<Rightarrow> auth_db \<Rightarrow> auth_db" where
  "set_tokens t x d =
     (case t of Codes \<Rightarrow> d\<lparr>oa_codes := x\<rparr> | Access \<Rightarrow> d\<lparr>oa_access := x\<rparr> | Refresh \<Rightarrow> d\<lparr>oa_refresh := x\<rparr> | PKCE \<Rightarrow> d\<lparr>oa_pkce := x\<rparr>)"

lemma tokens_set_tokens [simp]:
  "tokens t' (set_tokens t x d) = (if t' = t then x else tokens t' d)"
  "oa_clients (set_tokens t x d) = oa_clients d" "oa_generations (set_tokens t x d) = oa_generations d"
  "oa_secret (set_tokens t x d) = oa_secret d"
  by (cases t; cases t'; simp add: tokens_def set_tokens_def)+

subsection \<open>Contexts and transactions\<close>

text \<open>
  A context has no transaction, or one that is open or done (\<open>txn.done\<close>). \<open>inTx\<close> and the write pool
  share the one writer connection.
\<close>

record auth_ctx =
  ax_conn :: "auth_db conn"
  ax_tx :: "bool option"

definition pool_ctx :: "auth_db conn \<Rightarrow> auth_ctx" where
  "pool_ctx c = \<lparr>ax_conn = c, ax_tx = None\<rparr>"

definition closed_error :: error where
  "closed_error = newError ''sql: connection is already closed''"

text \<open>A query through \<open>reader(ctx)\<close>.\<close>

definition query :: "error option \<Rightarrow> (auth_db \<Rightarrow> 'a) \<Rightarrow> auth_ctx \<Rightarrow> 'a result" where
  "query flt f x =
     (case flt of
        Some e \<Rightarrow> Inl e
      | None \<Rightarrow>
          (case ax_tx x of
             None \<Rightarrow> Inr (f (committed (ax_conn x)))
           | Some True \<Rightarrow> Inl closed_error
           | Some False \<Rightarrow> (case working (ax_conn x) of None \<Rightarrow> Inl closed_error | Some d \<Rightarrow> Inr (f d))))"

text \<open>
  A statement through \<open>writer(ctx)\<close>. Without a transaction it waits for the writer connection; a wait
  for one held by another transaction ends with the context.
\<close>

type_synonym 'a stmt = "auth_db \<Rightarrow> ('a \<times> auth_db) result"

definition exec :: "error option \<Rightarrow> 'a stmt \<Rightarrow> auth_ctx \<Rightarrow> 'a result \<times> auth_ctx" where
  "exec flt f x =
     (case flt of
        Some e \<Rightarrow> (Inl e, x)
      | None \<Rightarrow>
          (case ax_tx x of
             None \<Rightarrow>
               if working (ax_conn x) \<noteq> None then (Inl (newError ''context deadline exceeded''), x)
               else (case f (committed (ax_conn x)) of
                       Inl e \<Rightarrow> (Inl e, x)
                     | Inr (v, d) \<Rightarrow> (Inr v, x\<lparr>ax_conn := (ax_conn x)\<lparr>committed := d\<rparr>\<rparr>))
           | Some True \<Rightarrow> (Inl closed_error, x)
           | Some False \<Rightarrow>
               (case working (ax_conn x) of
                  None \<Rightarrow> (Inl closed_error, x)
                | Some d0 \<Rightarrow>
                    (case f d0 of
                       Inl e \<Rightarrow> (Inl e, x)
                     | Inr (v, d) \<Rightarrow> (Inr v, x\<lparr>ax_conn := (ax_conn x)\<lparr>working := Some d\<rparr>\<rparr>)))))"

definition BeginTX :: "tx_faults \<Rightarrow> auth_ctx \<Rightarrow> error option \<times> auth_ctx" where
  "BeginTX flt x =
     (if ax_tx x \<noteq> None then (Some (newError ''auth: nested transaction''), x)
      else (case acquire_fault flt of
              Some e \<Rightarrow> (Some (wrapError ''auth: acquire writer'' e), x)
            | None \<Rightarrow>
                (case sql_begin flt (ax_conn x) of
                   (Some e, c) \<Rightarrow> (Some (wrapError ''auth: begin'' e), x\<lparr>ax_conn := c\<rparr>)
                 | (None, c) \<Rightarrow> (None, \<lparr>ax_conn = c, ax_tx = Some False\<rparr>))))"

definition txn_rollback :: "tx_faults \<Rightarrow> auth_ctx \<Rightarrow> error option \<times> auth_ctx" where
  "txn_rollback flt x =
     (case sql_rollback flt (ax_conn x) of
        (Some e, c) \<Rightarrow> (Some (wrapError ''auth: rollback'' e), \<lparr>ax_conn = drop_conn c, ax_tx = Some True\<rparr>)
      | (None, c) \<Rightarrow> (None, \<lparr>ax_conn = c, ax_tx = Some True\<rparr>))"

definition Commit :: "tx_faults \<Rightarrow> auth_ctx \<Rightarrow> error option \<times> auth_ctx" where
  "Commit flt x =
     (if ax_tx x = None \<or> ax_tx x = Some True then (Some (newError ''auth: commit without a transaction''), x)
      else (case sql_commit flt (\<lambda>_. True) (ax_conn x) of
              (Some e, c) \<Rightarrow> (Some (wrapError ''auth: commit'' e), snd (txn_rollback flt (x\<lparr>ax_conn := c\<rparr>)))
            | (None, c) \<Rightarrow> (None, \<lparr>ax_conn = c, ax_tx = Some True\<rparr>)))"

definition Rollback :: "tx_faults \<Rightarrow> auth_ctx \<Rightarrow> error option \<times> auth_ctx" where
  "Rollback flt x =
     (case ax_tx x of
        None \<Rightarrow> (Some (newError ''auth: rollback without a transaction''), x)
      | Some True \<Rightarrow> (None, x)
      | Some False \<Rightarrow> txn_rollback flt x)"

text \<open>\<open>inTx\<close>: the deferred \<open>Rollback\<close> does nothing after a commit. The caller's context is its own again.\<close>

definition inTx :: "tx_faults \<Rightarrow> (auth_ctx \<Rightarrow> 'a result \<times> auth_ctx) \<Rightarrow> auth_ctx \<Rightarrow> 'a result \<times> auth_ctx" where
  "inTx flt fn x =
     (if ax_tx x \<noteq> None then fn x
      else (case BeginTX flt x of
              (Some e, x1) \<Rightarrow> (Inl e, x1)
            | (None, x1) \<Rightarrow>
                (case fn x1 of
                   (Inl e, x2) \<Rightarrow> (Inl e, (snd (Rollback flt x2))\<lparr>ax_tx := None\<rparr>)
                 | (Inr v, x2) \<Rightarrow>
                     (case Commit flt x2 of
                        (Some e, x3) \<Rightarrow> (Inl e, (snd (Rollback flt x3))\<lparr>ax_tx := None\<rparr>)
                      | (None, x3) \<Rightarrow> (Inr v, (snd (Rollback flt x3))\<lparr>ax_tx := None\<rparr>)))))"

subsection \<open>Generations\<close>

definition AllUsers :: string where
  "AllUsers = ''*''"

text \<open>\<open>SELECT COALESCE(SUM(generation), 0) ... WHERE user IN (?, ?)\<close>.\<close>

definition generation_sum :: "string \<Rightarrow> auth_db \<Rightarrow> int" where
  "generation_sum user d = sum_list (map snd (filter (\<lambda>(u, _). u = user \<or> u = AllUsers) (oa_generations d)))"

definition CurrentGeneration :: "error option \<Rightarrow> string \<Rightarrow> auth_ctx \<Rightarrow> int result" where
  "CurrentGeneration flt user x =
     (case query flt (generation_sum user) x of
        Inl e \<Rightarrow> Inl (wrapError ''auth: read generation'' e) | Inr g \<Rightarrow> Inr g)"

definition bump :: "string \<Rightarrow> auth_db \<Rightarrow> auth_db" where
  "bump user d = d\<lparr>oa_generations := tbl_upsert user 1 (\<lambda>g. g + 1) (oa_generations d)\<rparr>"

definition BumpGeneration :: "error option \<Rightarrow> string \<Rightarrow> auth_ctx \<Rightarrow> int result \<times> auth_ctx" where
  "BumpGeneration flt user x =
     (if user = [] then (Inl (newError ''auth: bump generation: empty user''), x)
      else (case exec flt (\<lambda>d. Inr (the (tbl_get (oa_generations (bump user d)) user), bump user d)) x of
              (Inl e, x') \<Rightarrow> (Inl (wrapError ''auth: bump generation'' e), x')
            | (Inr g, x') \<Rightarrow> (Inr g, x')))"

definition revoked_error :: error where
  "revoked_error = sentinelError ''auth: token revoked'' ErrRevoked"

definition float_int :: "rat \<Rightarrow> int" where
  "float_int v = (if 0 \<le> v then \<lfloor>v\<rfloor> else \<lceil>v\<rceil>)"

text \<open>The generation a session says it was issued at.\<close>

definition issued_gen :: "session \<Rightarrow> int option" where
  "issued_gen s =
     (case se_gen s of
        GenInt n \<Rightarrow> Some n
      | GenFloat v \<Rightarrow> if v \<noteq> of_int (float_int v) then None else Some (float_int v)
      | _ \<Rightarrow> None)"

definition CheckSession :: "error option \<Rightarrow> session option \<Rightarrow> auth_ctx \<Rightarrow> error option" where
  "CheckSession flt sess x =
     (case sess of
        None \<Rightarrow> Some revoked_error
      | Some s \<Rightarrow>
          if se_subject s = [] then Some revoked_error
          else (case issued_gen s of
                  None \<Rightarrow> Some revoked_error
                | Some issued \<Rightarrow>
                    (case CurrentGeneration flt (se_subject s) x of
                       Inl e \<Rightarrow> Some e
                     | Inr cur \<Rightarrow> if issued \<noteq> cur then Some revoked_error else None)))"

definition readSecret :: "error option \<Rightarrow> auth_ctx \<Rightarrow> string option result" where
  "readSecret flt x =
     (case query flt oa_secret x of Inl e \<Rightarrow> Inl (wrapError ''auth: read secret'' e) | Inr s \<Rightarrow> Inr s)"

text \<open>\<open>fresh\<close> is what \<open>rand.Read\<close> fills; \<open>f1\<close>, \<open>f2\<close> and \<open>f3\<close> the failures of the three statements.\<close>

definition HMACSecret ::
    "error option \<Rightarrow> error option \<Rightarrow> error option \<Rightarrow> string result \<Rightarrow> auth_ctx \<Rightarrow> string result \<times> auth_ctx" where
  "HMACSecret f1 f2 f3 fresh x =
     (case readSecret f1 x of
        Inl e \<Rightarrow> (Inl e, x)
      | Inr (Some s) \<Rightarrow> (Inr s, x)
      | Inr None \<Rightarrow>
          (case fresh of
             Inl e \<Rightarrow> (Inl (wrapError ''auth: generate secret'' e), x)
           | Inr bytes \<Rightarrow>
               (case exec f2 (\<lambda>d. Inr ((), d\<lparr>oa_secret := (case oa_secret d of None \<Rightarrow> Some bytes | s \<Rightarrow> s)\<rparr>)) x of
                  (Inl e, x') \<Rightarrow> (Inl (wrapError ''auth: store secret'' e), x')
                | (Inr _, x') \<Rightarrow>
                    (case readSecret f3 x' of
                       Inl e \<Rightarrow> (Inl e, x')
                     | Inr None \<Rightarrow> (Inl (newError ''sql: no rows in result set''), x')
                     | Inr (Some s) \<Rightarrow> (Inr s, x')))))"

end
