(* ===== verification/AuthClients.thy ===== *)
theory AuthClients
  imports AuthStorage
begin

text \<open>
  \<open>auth/clients.go\<close>: the dynamically registered clients and their cap. A statement is a function
  from the database to its result and the database after it; a function's failures are numbered
  in the order of its statements.
\<close>

type_synonym faults = "nat \<Rightarrow> error option"

definition MaxClients :: nat where
  "MaxClients = 500"

subsection \<open>The cascade\<close>

text \<open>\<open>DELETE FROM oauth_clients WHERE client_id IN (...)\<close> with \<open>ON DELETE CASCADE\<close> in the token tables.\<close>

definition drop_clients :: "string list \<Rightarrow> auth_db \<Rightarrow> auth_db" where
  "drop_clients cs d =
     d\<lparr>oa_clients := tbl_delete (\<lambda>k _. k \<in> set cs) (oa_clients d),
       oa_codes := tbl_delete (\<lambda>_ r. tk_client_id r \<in> set cs) (oa_codes d),
       oa_access := tbl_delete (\<lambda>_ r. tk_client_id r \<in> set cs) (oa_access d),
       oa_refresh := tbl_delete (\<lambda>_ r. tk_client_id r \<in> set cs) (oa_refresh d),
       oa_pkce := tbl_delete (\<lambda>_ r. tk_client_id r \<in> set cs) (oa_pkce d)\<rparr>"

text \<open>A client with a live code, access token or refresh token at the time text \<open>now\<close>.\<close>

definition has_live_grant :: "string \<Rightarrow> auth_db \<Rightarrow> string \<Rightarrow> bool" where
  "has_live_grant now d c \<longleftrightarrow>
     (\<exists>(_, x)\<in>set (oa_codes d). tk_client_id x = c \<and> tk_active x \<and> now < tk_expires_at x) \<or>
     (\<exists>(_, x)\<in>set (oa_access d). tk_client_id x = c \<and> now < tk_expires_at x) \<or>
     (\<exists>(_, x)\<in>set (oa_refresh d). tk_client_id x = c \<and> tk_active x \<and> now < tk_expires_at x)"

text \<open>The ids the eviction's \<open>SELECT\<close> names: oldest first, then by rowid, at most \<open>n\<close>.\<close>

definition evictable :: "string \<Rightarrow> nat \<Rightarrow> auth_db \<Rightarrow> string list" where
  "evictable now n d =
     take n (map fst (sort_key (\<lambda>(_, r). oc_created_at r)
       (filter (\<lambda>(c, _). \<not> has_live_grant now d c) (oa_clients d))))"

subsection \<open>Operations\<close>

definition too_many_clients :: error where
  "too_many_clients = sentinelError ''auth: too many registered clients'' ErrTooManyClients"

definition makeRoom :: "faults \<Rightarrow> time \<Rightarrow> auth_ctx \<Rightarrow> unit result \<times> auth_ctx" where
  "makeRoom flt now x =
     (case query (flt 0) (\<lambda>d. length (oa_clients d)) x of
        Inl e \<Rightarrow> (Inl (wrapError ''auth: count clients'' e), x)
      | Inr count \<Rightarrow>
          (let excess = count + 1 - MaxClients
           in if excess = 0 then (Inr (), x)
              else (case exec (flt 1) (\<lambda>d. let cs = evictable (formatTime now) excess d
                                       in Inr (length cs, drop_clients cs d)) x of
                      (Inl e, x1) \<Rightarrow> (Inl (wrapError ''auth: evict clients'' e), x1)
                    | (Inr n, x1) \<Rightarrow> if n < excess then (Inl too_many_clients, x1) else (Inr (), x1))))"

text \<open>The lists are stored as JSON, as their texts are read back from it.\<close>

definition client_row_of :: "oauth_client \<Rightarrow> string \<Rightarrow> time \<Rightarrow> client_row" where
  "client_row_of c name now =
     \<lparr>oc_name = name, oc_redirect_uris = Some (map utf8 (cl_redirect_uris c)), oc_grant_types = Some (map utf8 (cl_grant_types c)),
      oc_response_types = Some (map utf8 (cl_response_types c)), oc_scopes = Some (map utf8 (cl_scopes c)),
      oc_created_at = formatTime now\<rparr>"

text \<open>\<open>c.Public || len(c.Secret) != 0\<close>: only public clients without a secret are stored.\<close>

definition RegisterClient ::
    "tx_faults \<Rightarrow> faults \<Rightarrow> time \<Rightarrow> oauth_client \<Rightarrow> string \<Rightarrow> auth_ctx \<Rightarrow> unit result \<times> auth_ctx" where
  "RegisterClient tf flt now c name x =
     (if cl_id c = [] then (Inl (newError ''auth: register client: empty id''), x)
      else if \<not> cl_public c \<or> cl_secret c \<noteq> []
      then (Inl (newError ''auth: register client: only public clients are supported''), x)
      else inTx tf (\<lambda>x1.
        (case makeRoom flt now x1 of
           (Inl e, x2) \<Rightarrow> (Inl e, x2)
         | (Inr _, x2) \<Rightarrow>
             (case exec (flt 2) (\<lambda>d.
                      if tbl_get (oa_clients d) (cl_id c) \<noteq> None
                      then Inl (newError ''UNIQUE constraint failed: oauth_clients.client_id'')
                      else Inr ((), d\<lparr>oa_clients := oa_clients d @ [(cl_id c, client_row_of c name now)]\<rparr>)) x2 of
                (Inl e, x3) \<Rightarrow> (Inl (wrapError ''auth: register client'' e), x3)
              | (Inr u, x3) \<Rightarrow> (Inr u, x3)))) x)"

definition not_found :: error where
  "not_found = sentinelError ''not_found'' FositeErrNotFound"

definition GetClient :: "error option \<Rightarrow> string \<Rightarrow> auth_ctx \<Rightarrow> oauth_client result" where
  "GetClient flt c x =
     (case query flt (\<lambda>d. tbl_get (oa_clients d) c) x of
        Inl e \<Rightarrow> Inl (wrapError ''auth: get client'' e)
      | Inr None \<Rightarrow> Inl not_found
      | Inr (Some r) \<Rightarrow>
          (case (oc_redirect_uris r, oc_grant_types r, oc_response_types r, oc_scopes r) of
             (Some us, Some gs, Some rs, Some ss) \<Rightarrow>
               Inr \<lparr>cl_id = c, cl_secret = [], cl_redirect_uris = us, cl_grant_types = gs, cl_response_types = rs,
                    cl_scopes = ss, cl_public = True\<rparr>
           | _ \<Rightarrow> Inl (newError ''auth: decode client: bad stored list'')))"

definition ClientName :: "error option \<Rightarrow> string \<Rightarrow> auth_ctx \<Rightarrow> string result" where
  "ClientName flt c x =
     (case query flt (\<lambda>d. tbl_get (oa_clients d) c) x of
        Inl e \<Rightarrow> Inl (wrapError ''auth: get client name'' e)
      | Inr None \<Rightarrow> Inl not_found
      | Inr (Some r) \<Rightarrow> Inr (oc_name r))"

definition ClientAssertionJWTValid :: "string \<Rightarrow> error option" where
  "ClientAssertionJWTValid _ = Some (sentinelError ''jti_known'' FositeErrJTIKnown)"

definition SetClientAssertionJWT :: "string \<Rightarrow> time \<Rightarrow> error option" where
  "SetClientAssertionJWT _ _ = Some (sentinelError ''jti_known'' FositeErrJTIKnown)"

end
