(* ===== verification/AuthTokens.thy ===== *)
theory AuthTokens
  imports AuthClients
begin

text \<open>
  \<open>auth/storage.go\<close>: the rows of codes, PKCE challenges, access and refresh tokens, keyed by the
  signature; rotation, revocation, the count of live tokens and the pruning of expired rows.
\<close>

subsection \<open>Creating and loading\<close>

definition keep_form :: "(string \<times> string list) list \<Rightarrow> (string \<times> string list) list" where
  "keep_form form =
     List.map_filter (\<lambda>k. map_option (Pair k) (map_of form k)) storedForm"

definition to_stored :: "requester \<Rightarrow> oauth_client \<Rightarrow> session \<Rightarrow> stored_request" where
  "to_stored req client sess =
     \<lparr>sq_id = rq_id req, sq_requested_at = rq_requested_at req, sq_client_id = cl_id client,
      sq_requested_scope = rq_requested_scope req, sq_granted_scope = rq_granted_scope req,
      sq_requested_audience = rq_requested_audience req, sq_granted_audience = rq_granted_audience req,
      sq_form = keep_form (rq_form req), sq_session = Some sess\<rparr>"

definition store_error :: "token_table \<Rightarrow> string \<Rightarrow> error" where
  "store_error t m = newError (''auth: store '' @ table_name t @ '': '' @ m)"

definition insert_token :: "token_table \<Rightarrow> string \<Rightarrow> token_row \<Rightarrow> unit stmt" where
  "insert_token t sig row d =
     (if tbl_get (tokens t d) sig \<noteq> None
      then Inl (newError (''UNIQUE constraint failed: '' @ table_name t @ ''.signature''))
      else if tbl_get (oa_clients d) (tk_client_id row) = None then Inl (newError ''FOREIGN KEY constraint failed'')
      else Inr ((), set_tokens t (tokens t d @ [(sig, row)]) d))"

text \<open>\<open>flt 0\<close> is a failure of \<open>json.Marshal\<close> (a time out of its years), \<open>flt 1\<close> one of the insert.\<close>

definition create :: "faults \<Rightarrow> token_table \<Rightarrow> token_kind \<Rightarrow> string \<Rightarrow> requester \<Rightarrow> auth_ctx \<Rightarrow> unit result \<times> auth_ctx" where
  "create flt t k sig req x =
     (case rq_session req of
        None \<Rightarrow> (Inl (store_error t ''session must be a *fosite.DefaultSession''), x)
      | Some sess \<Rightarrow>
          (case rq_client req of
             None \<Rightarrow> (Inl (store_error t ''request has no client''), x)
           | Some client \<Rightarrow>
               if IsZero (GetExpiresAt sess k)
               then (Inl (store_error t (''session has no '' @ kind_text k @ '' expiry'')), x)
               else (case flt 0 of
                       Some e \<Rightarrow> (Inl (wrapError (''auth: encode '' @ table_name t) e), x)
                     | None \<Rightarrow>
                         (case exec (flt 1) (insert_token t sig
                                  \<lparr>tk_request_id = rq_id req, tk_client_id = cl_id client,
                                   tk_expires_at = formatTime (GetExpiresAt sess k), tk_active = True,
                                   tk_request = Some (marshal_request (to_stored req client sess))\<rparr>) x of
                            (Inl e, x') \<Rightarrow> (Inl (wrapError (''auth: store '' @ table_name t) e), x')
                          | (Inr u, x') \<Rightarrow> (Inr u, x')))))"

text \<open>\<open>activeExpr\<close>: the column where the table has one, otherwise \<open>1\<close>.\<close>

definition active_expr :: "token_table \<Rightarrow> token_row \<Rightarrow> bool" where
  "active_expr t r = (case t of Codes \<Rightarrow> tk_active r | Refresh \<Rightarrow> tk_active r | Access \<Rightarrow> True | PKCE \<Rightarrow> True)"

text \<open>The stored text decoded (\<open>None\<close> when it is no JSON or not a stored request), and the \<open>fosite.Request\<close> built from it.\<close>

definition row_request :: "token_row \<Rightarrow> stored_request option" where
  "row_request r = Option.bind (tk_request r) unmarshal_request"

definition from_stored :: "stored_request \<Rightarrow> oauth_client \<Rightarrow> requester" where
  "from_stored sq client =
     \<lparr>rq_id = sq_id sq, rq_requested_at = sq_requested_at sq, rq_client = Some client,
      rq_requested_scope = sq_requested_scope sq, rq_granted_scope = sq_granted_scope sq,
      rq_requested_audience = sq_requested_audience sq, rq_granted_audience = sq_granted_audience sq,
      rq_form = sq_form sq, rq_session = sq_session sq\<rparr>"

definition load_request :: "faults \<Rightarrow> token_table \<Rightarrow> string \<Rightarrow> auth_ctx \<Rightarrow> (requester \<times> bool) result" where
  "load_request flt t sig x =
     (case query (flt 0) (\<lambda>d. tbl_get (tokens t d) sig) x of
        Inl e \<Rightarrow> Inl (wrapError (''auth: load '' @ table_name t) e)
      | Inr None \<Rightarrow> Inl not_found
      | Inr (Some row) \<Rightarrow>
          (case row_request row of
             None \<Rightarrow> Inl (newError (''auth: decode '' @ table_name t @ '': bad stored request''))
           | Some sq \<Rightarrow>
               (case CheckSession (flt 1) (sq_session sq) x of
                  Some e \<Rightarrow> if errors_Is e ErrRevoked then Inl not_found else Inl e
                | None \<Rightarrow>
                    (case GetClient (flt 2) (sq_client_id sq) x of
                       Inl e \<Rightarrow> Inl e
                     | Inr client \<Rightarrow> Inr (from_stored sq client, active_expr t row)))))"

text \<open>\<open>DELETE FROM t WHERE p\<close> and \<open>UPDATE t SET active = 0 WHERE p\<close>, with \<open>RowsAffected\<close>.\<close>

definition delete_tokens :: "token_table \<Rightarrow> (string \<Rightarrow> token_row \<Rightarrow> bool) \<Rightarrow> nat stmt" where
  "delete_tokens t p d = Inr (tbl_count p (tokens t d), set_tokens t (tbl_delete p (tokens t d)) d)"

definition deactivate :: "token_table \<Rightarrow> (string \<Rightarrow> token_row \<Rightarrow> bool) \<Rightarrow> nat stmt" where
  "deactivate t p d =
     Inr (tbl_count p (tokens t d), set_tokens t (tbl_update p (\<lambda>r. r\<lparr>tk_active := False\<rparr>) (tokens t d)) d)"

definition delete :: "error option \<Rightarrow> token_table \<Rightarrow> string \<Rightarrow> auth_ctx \<Rightarrow> unit result \<times> auth_ctx" where
  "delete flt t sig x =
     (case exec flt (delete_tokens t (\<lambda>k _. k = sig)) x of
        (Inl e, x') \<Rightarrow> (Inl (wrapError (''auth: delete '' @ table_name t) e), x')
      | (Inr _, x') \<Rightarrow> (Inr (), x'))"

subsection \<open>Authorization codes and PKCE\<close>

text \<open>A getter that hands out the request together with an error returns both.\<close>

type_synonym got = "requester option \<times> error option"

definition CreateAuthorizeCodeSession :: "faults \<Rightarrow> string \<Rightarrow> requester \<Rightarrow> auth_ctx \<Rightarrow> unit result \<times> auth_ctx" where
  "CreateAuthorizeCodeSession flt = create flt Codes AuthorizeCode"

definition GetAuthorizeCodeSession :: "faults \<Rightarrow> string \<Rightarrow> auth_ctx \<Rightarrow> got" where
  "GetAuthorizeCodeSession flt sig x =
     (case load_request flt Codes sig x of
        Inl e \<Rightarrow> (None, Some e)
      | Inr (req, active) \<Rightarrow>
          if \<not> active then (Some req, Some (sentinelError ''invalidated code'' FositeErrInvalidatedAuthorizeCode))
          else (Some req, None))"

definition InvalidateAuthorizeCodeSession :: "error option \<Rightarrow> string \<Rightarrow> auth_ctx \<Rightarrow> unit result \<times> auth_ctx" where
  "InvalidateAuthorizeCodeSession flt sig x =
     (case exec flt (deactivate Codes (\<lambda>k r. k = sig \<and> tk_active r)) x of
        (Inl e, x') \<Rightarrow> (Inl (wrapError ''auth: invalidate code'' e), x')
      | (Inr n, x') \<Rightarrow> if n = 0 then (Inl not_found, x') else (Inr (), x'))"

definition CreatePKCERequestSession :: "faults \<Rightarrow> string \<Rightarrow> requester \<Rightarrow> auth_ctx \<Rightarrow> unit result \<times> auth_ctx" where
  "CreatePKCERequestSession flt = create flt PKCE AuthorizeCode"

definition GetPKCERequestSession :: "faults \<Rightarrow> string \<Rightarrow> auth_ctx \<Rightarrow> requester result" where
  "GetPKCERequestSession flt sig x = (case load_request flt PKCE sig x of Inl e \<Rightarrow> Inl e | Inr (req, _) \<Rightarrow> Inr req)"

definition DeletePKCERequestSession :: "error option \<Rightarrow> string \<Rightarrow> auth_ctx \<Rightarrow> unit result \<times> auth_ctx" where
  "DeletePKCERequestSession flt = delete flt PKCE"

subsection \<open>Access and refresh tokens\<close>

definition CreateAccessTokenSession :: "faults \<Rightarrow> string \<Rightarrow> requester \<Rightarrow> auth_ctx \<Rightarrow> unit result \<times> auth_ctx" where
  "CreateAccessTokenSession flt = create flt Access AccessToken"

definition GetAccessTokenSession :: "faults \<Rightarrow> string \<Rightarrow> auth_ctx \<Rightarrow> requester result" where
  "GetAccessTokenSession flt sig x = (case load_request flt Access sig x of Inl e \<Rightarrow> Inl e | Inr (req, _) \<Rightarrow> Inr req)"

definition DeleteAccessTokenSession :: "error option \<Rightarrow> string \<Rightarrow> auth_ctx \<Rightarrow> unit result \<times> auth_ctx" where
  "DeleteAccessTokenSession flt = delete flt Access"

text \<open>The second argument, the access token's signature, is not kept.\<close>

definition CreateRefreshTokenSession ::
    "faults \<Rightarrow> string \<Rightarrow> string \<Rightarrow> requester \<Rightarrow> auth_ctx \<Rightarrow> unit result \<times> auth_ctx" where
  "CreateRefreshTokenSession flt sig _ = create flt Refresh RefreshToken sig"

definition GetRefreshTokenSession :: "faults \<Rightarrow> string \<Rightarrow> auth_ctx \<Rightarrow> got" where
  "GetRefreshTokenSession flt sig x =
     (case load_request flt Refresh sig x of
        Inl e \<Rightarrow> (None, Some e)
      | Inr (req, active) \<Rightarrow>
          if \<not> active then (Some req, Some (sentinelError ''inactive token'' FositeErrInactiveToken))
          else (Some req, None))"

definition DeleteRefreshTokenSession :: "error option \<Rightarrow> string \<Rightarrow> auth_ctx \<Rightarrow> unit result \<times> auth_ctx" where
  "DeleteRefreshTokenSession flt = delete flt Refresh"

definition RevokeRefreshToken :: "error option \<Rightarrow> string \<Rightarrow> auth_ctx \<Rightarrow> unit result \<times> auth_ctx" where
  "RevokeRefreshToken flt requestID x =
     (case exec flt (deactivate Refresh (\<lambda>_ r. tk_request_id r = requestID)) x of
        (Inl e, x') \<Rightarrow> (Inl (wrapError ''auth: revoke refresh tokens'' e), x')
      | (Inr _, x') \<Rightarrow> (Inr (), x'))"

definition RevokeAccessToken :: "error option \<Rightarrow> string \<Rightarrow> auth_ctx \<Rightarrow> unit result \<times> auth_ctx" where
  "RevokeAccessToken flt requestID x =
     (case exec flt (delete_tokens Access (\<lambda>_ r. tk_request_id r = requestID)) x of
        (Inl e, x') \<Rightarrow> (Inl (wrapError ''auth: revoke access tokens'' e), x')
      | (Inr _, x') \<Rightarrow> (Inr (), x'))"

definition RotateRefreshToken ::
    "tx_faults \<Rightarrow> faults \<Rightarrow> string \<Rightarrow> string \<Rightarrow> auth_ctx \<Rightarrow> unit result \<times> auth_ctx" where
  "RotateRefreshToken tf flt requestID sig =
     inTx tf (\<lambda>x.
       (case exec (flt 0) (deactivate Refresh (\<lambda>k r. k = sig \<and> tk_request_id r = requestID \<and> tk_active r)) x of
          (Inl e, x1) \<Rightarrow> (Inl (wrapError ''auth: rotate refresh token'' e), x1)
        | (Inr n, x1) \<Rightarrow>
            if n = 0 then (Inl (sentinelError ''serialization failure'' FositeErrSerializationFailure), x1)
            else (case RevokeRefreshToken (flt 1) requestID x1 of
                    (Inl e, x2) \<Rightarrow> (Inl e, x2)
                  | (Inr _, x2) \<Rightarrow> RevokeAccessToken (flt 2) requestID x2)))"

subsection \<open>Counting and pruning\<close>

text \<open>Scanning \<open>json_extract(request, '$.session.extra.gen')\<close> into an \<open>sql.NullInt64\<close>: a float is first written as text.\<close>

definition parse_int64 :: "string \<Rightarrow> int option" where
  "parse_int64 s =
     (let (neg, ds) = (case s of CHR ''-'' # r \<Rightarrow> (True, r) | CHR ''+'' # r \<Rightarrow> (False, r) | _ \<Rightarrow> (False, s))
      in if ds = [] then None
         else (case read_dec 0 ds of
                 None \<Rightarrow> None
               | Some n \<Rightarrow>
                   (let v = (if neg then - int n else int n)
                    in if - (2 ^ 63) \<le> v \<and> v < 2 ^ 63 then Some v else None)))"

definition scan_gen :: "json_value option \<Rightarrow> int option result" where
  "scan_gen j =
     (case j of
        None \<Rightarrow> Inr None
      | Some JsNull \<Rightarrow> Inr None
      | Some (JsInt n) \<Rightarrow> if - (2 ^ 63) \<le> n \<and> n < 2 ^ 63 then Inr (Some n) else Inl (newError ''sql: Scan error'')
      | Some (JsBool b) \<Rightarrow> Inr (Some (if b then 1 else 0))
      | Some (JsText t) \<Rightarrow> (case parse_int64 t of None \<Rightarrow> Inl (newError ''sql: Scan error'') | v \<Rightarrow> Inr v)
      | Some (JsFloat v) \<Rightarrow>
          if v = of_int \<lfloor>v\<rfloor> \<and> \<bar>v\<bar> < 10 ^ 6 then Inr (Some \<lfloor>v\<rfloor>) else Inl (newError ''sql: Scan error'')
      | Some (JsTime _) \<Rightarrow> Inl (newError ''sql: Scan error'')
      | Some (JsList _) \<Rightarrow> Inl (newError ''sql: Scan error'')
      | Some (JsObject _) \<Rightarrow> Inl (newError ''sql: Scan error''))"

text \<open>The subject as an \<open>sql.NullString\<close>. A subject that is no text, which \<open>create\<close> never writes, is passed over.\<close>

definition scan_subject :: "json_value option \<Rightarrow> string" where
  "scan_subject j = (case j of Some (JsText s) \<Rightarrow> s | _ \<Rightarrow> [])"

definition scan_session :: "string \<times> token_row \<Rightarrow> (string \<times> int option) result" where
  "scan_session kr =
     (case tk_request (snd kr) of
        None \<Rightarrow> Inl (newError ''malformed JSON'')
      | Some j \<Rightarrow>
          (case scan_gen (json_extract [''session'', ''extra'', ''gen''] j) of
             Inl e \<Rightarrow> Inl e
           | Inr g \<Rightarrow> Inr (scan_subject (json_extract [''session'', ''subject''] j), g)))"

definition wanted :: "string \<Rightarrow> string \<times> int option \<Rightarrow> (string \<times> int) option" where
  "wanted user sg =
     (if fst sg \<noteq> [] \<and> snd sg \<noteq> None \<and> (user = AllUsers \<or> fst sg = user) then Some (fst sg, the (snd sg)) else None)"

text \<open>The loop over the sessions, with its cache of generations; \<open>gf\<close> says which reads fail.\<close>

fun count_current ::
    "(string \<Rightarrow> error option) \<Rightarrow> (string \<times> int) list \<Rightarrow> (string \<times> int) list \<Rightarrow> nat \<Rightarrow> auth_ctx
      \<Rightarrow> (nat \<times> (string \<times> int) list) result" where
  "count_current gf [] gens n x = Inr (n, gens)"
| "count_current gf ((subj, g) # ss) gens n x =
     (case map_of gens subj of
        Some cur \<Rightarrow> count_current gf ss gens (if g = cur then Suc n else n) x
      | None \<Rightarrow>
          (case CurrentGeneration (gf subj) subj x of
             Inl e \<Rightarrow> Inl e
           | Inr cur \<Rightarrow> count_current gf ss ((subj, cur) # gens) (if g = cur then Suc n else n) x))"

text \<open>Which rows a table's clause selects: unexpired, and active where the table has the column.\<close>

definition countActive ::
    "error option \<Rightarrow> (string \<Rightarrow> error option) \<Rightarrow> token_table \<Rightarrow> string \<Rightarrow> string \<Rightarrow> (string \<times> int) list \<Rightarrow> auth_ctx
      \<Rightarrow> (nat \<times> (string \<times> int) list) result" where
  "countActive qf gf t now user gens x =
     (case query qf (\<lambda>d. filter (\<lambda>(_, r). now < tk_expires_at r \<and> active_expr t r) (tokens t d)) x of
        Inl e \<Rightarrow> Inl e
      | Inr rows \<Rightarrow>
          (case collect scan_session rows of
             Inl e \<Rightarrow> Inl e
           | Inr found \<Rightarrow> count_current gf (List.map_filter (wanted user) found) gens 0 x))"

fun sum_tables ::
    "(token_table \<Rightarrow> error option) \<Rightarrow> (string \<Rightarrow> error option) \<Rightarrow> token_table list \<Rightarrow> string \<Rightarrow> string
      \<Rightarrow> (string \<times> int) list \<Rightarrow> nat \<Rightarrow> auth_ctx \<Rightarrow> nat result" where
  "sum_tables qf gf [] now user gens acc x = Inr acc"
| "sum_tables qf gf (t # ts) now user gens acc x =
     (case countActive (qf t) gf t now user gens x of
        Inl e \<Rightarrow> Inl (wrapError ''auth: count tokens'' e)
      | Inr (n, gens') \<Rightarrow> sum_tables qf gf ts now user gens' (acc + n) x)"

definition ActiveTokens ::
    "(token_table \<Rightarrow> error option) \<Rightarrow> (string \<Rightarrow> error option) \<Rightarrow> time \<Rightarrow> string \<Rightarrow> auth_ctx \<Rightarrow> nat result" where
  "ActiveTokens qf gf now user = sum_tables qf gf [Access, Refresh, Codes] (formatTime now) user [] 0"

text \<open>The loop of \<open>Prune\<close>'s transaction, with the running total.\<close>

fun prune_tables ::
    "(token_table \<Rightarrow> error option) \<Rightarrow> string \<Rightarrow> token_table list \<Rightarrow> nat \<Rightarrow> auth_ctx \<Rightarrow> nat result \<times> auth_ctx" where
  "prune_tables flt now [] acc x = (Inr acc, x)"
| "prune_tables flt now (t # ts) acc x =
     (case exec (flt t) (delete_tokens t (\<lambda>_ r. tk_expires_at r \<le> now)) x of
        (Inl e, x') \<Rightarrow> (Inl (wrapError (''auth: prune '' @ table_name t) e), x')
      | (Inr n, x') \<Rightarrow> prune_tables flt now ts (acc + n) x')"

definition Prune :: "tx_faults \<Rightarrow> (token_table \<Rightarrow> error option) \<Rightarrow> time \<Rightarrow> auth_ctx \<Rightarrow> nat result \<times> auth_ctx" where
  "Prune tf flt now = inTx tf (prune_tables flt (formatTime now) [Codes, Access, Refresh, PKCE] 0)"

end
