(* ===== verification/AuthServer.thy ===== *)
theory AuthServer
  imports AuthTokens GoRunes
begin

text \<open>
  \<open>auth/server.go\<close>, \<open>auth/allowlist.go\<close>, \<open>auth/consent.go\<close>: the OAuth endpoints over the storage.
  What is not finbot's own is a field of \<open>server_env\<close>: fosite's provider, the identity provider,
  \<open>url.Parse\<close>, \<open>net.ParseIP\<close>, the \<open>%q\<close> verb and SHA-256. The random texts and the time a handler draws are
  arguments; the clock is read once per critical section. A response is what the browser or client
  sees: status, body, and where it is sent.
\<close>

subsection \<open>The allowlist\<close>

definition normalizeEmail :: "string \<Rightarrow> string" where
  "normalizeEmail e = ToLower (TrimSpace e)"

definition ParseAllowlist :: "string \<Rightarrow> string list" where
  "ParseAllowlist s = filter (\<lambda>e. e \<noteq> []) (map normalizeEmail (Split CHR '','' s))"

definition Allowlist_Check :: "string list \<Rightarrow> string \<Rightarrow> bool \<Rightarrow> error option" where
  "Allowlist_Check a email verified =
     (if \<not> verified then Some (sentinelError ''google account email is not verified'' ErrEmailUnverified)
      else if normalizeEmail email \<notin> set a
      then Some (sentinelError ''google account is not allowed to use this server'' ErrNotAllowlisted)
      else None)"

definition UserID :: "(string \<Rightarrow> string) \<Rightarrow> string \<Rightarrow> string" where
  "UserID sha256 email = ''u_'' @ EncodeToString (take 6 (sha256 (normalizeEmail email)))"

subsection \<open>Client names\<close>

definition maxClientNameRunes :: nat where
  "maxClientNameRunes = 100"

definition ToValidUTF8 :: "string \<Rightarrow> string" where
  "ToValidUTF8 s = concat (runes s)"

definition clampName :: "string \<Rightarrow> string" where
  "clampName name =
     (let valid = ToValidUTF8 name
      in if length (runes valid) \<le> maxClientNameRunes then valid
         else concat (take maxClientNameRunes (runes valid)))"

subsection \<open>URLs\<close>

text \<open>\<open>path.Clean\<close> of a rooted path.\<close>

fun clean_parts :: "string list \<Rightarrow> string list \<Rightarrow> string list" where
  "clean_parts acc [] = rev acc"
| "clean_parts acc (p # ps) =
     (if p = [] \<or> p = ''.'' then clean_parts acc ps
      else if p = ''..'' then clean_parts (drop 1 acc) ps
      else clean_parts (p # acc) ps)"

definition path_Clean :: "string \<Rightarrow> string" where
  "path_Clean p = CHR ''/'' # Join ''/'' (clean_parts [] (Split CHR ''/'' p))"

subsection \<open>What the server works with\<close>

record http_request =
  hr_query :: "(string \<times> string) list"
  hr_form :: "(string \<times> string) list"
  hr_cookie :: "string option"
  hr_raw :: string

text \<open>\<open>url.Values.Get\<close> and \<open>PostFormValue\<close>: a missing key reads as the empty text.\<close>

definition Get :: "(string \<times> string) list \<Rightarrow> string \<Rightarrow> string" where
  "Get form k = (case map_of form k of None \<Rightarrow> [] | Some v \<Rightarrow> v)"

record authorize_request =
  ar_client_id :: string
  ar_redirect_uri :: url
  ar_scopes :: "string list"
  ar_granted :: "string list"
  ar_form :: "(string \<times> string) list"

record identity =
  id_email :: string
  id_email_verified :: bool
  id_name :: string

text \<open>fosite's provider, over the storage; what it answers to a bad request is its own text.\<close>

record provider =
  NewAuthorizeRequest :: "http_request \<Rightarrow> auth_db conn \<Rightarrow> string + authorize_request"
  NewAuthorizeResponse :: "authorize_request \<Rightarrow> session \<Rightarrow> auth_db conn \<Rightarrow> (string + string) \<times> auth_db conn"
  NewAccessRequest :: "http_request \<Rightarrow> auth_db conn \<Rightarrow> (string + session option) \<times> auth_db conn"
  NewAccessResponse :: "http_request \<Rightarrow> auth_db conn \<Rightarrow> (string + string) \<times> auth_db conn"
  NewRevocationRequest :: "http_request \<Rightarrow> auth_db conn \<Rightarrow> string option \<times> auth_db conn"
  SetRequestedScopes :: "string list \<Rightarrow> authorize_request \<Rightarrow> authorize_request"
  GrantScope :: "string \<Rightarrow> authorize_request \<Rightarrow> authorize_request"
  IntrospectToken :: "string \<Rightarrow> auth_db conn \<Rightarrow> string + token_kind \<times> string list \<times> session option"

record server_env =
  ev_issuer :: string
  ev_mcp_path :: string
  ev_allow :: "string list"
  ev_provider :: provider
  ev_auth_code_url :: "string \<Rightarrow> string \<Rightarrow> string \<Rightarrow> string"
  ev_exchange :: "string \<Rightarrow> string \<Rightarrow> string \<Rightarrow> identity result"
  ev_parse_url :: "string \<Rightarrow> url option"
  ev_loopback_ip :: "string \<Rightarrow> bool"
  ev_sha256 :: "string \<Rightarrow> string"
  ev_quote :: "string \<Rightarrow> string"

record pending_login =
  pl_ar :: authorize_request
  pl_verifier :: string
  pl_nonce :: string
  pl_created :: time

record pending_consent =
  pc_ar :: authorize_request
  pc_session :: session
  pc_csrf :: string
  pc_created :: time

record server_state =
  sv_pending :: "(string, pending_login) tbl"
  sv_consents :: "(string, pending_consent) tbl"
  sv_db :: "auth_db conn"

datatype json = JText string | JNumber int | JTexts "string list"

datatype response =
    Plain nat bool string
  | RedirectTo string
  | ConsentPage url string string string string
  | AuthorizeResponse authorize_request string
  | AccessError string
  | AccessResponse string
  | RevocationResponse "string option"
  | Json nat "(string \<times> json) list"

definition pendingLoginTTL :: duration where
  "pendingLoginTTL = 10 * 60 * 1000000000"

definition MaxPending :: nat where
  "MaxPending = 100"

definition ScopeMCP :: string where
  "ScopeMCP = ''mcp''"

definition scopeOffline :: string where
  "scopeOffline = ''offline_access''"

subsection \<open>Checks\<close>

definition isLoopback :: "server_env \<Rightarrow> string \<Rightarrow> bool" where
  "isLoopback env host \<longleftrightarrow> host = ''localhost'' \<or> ev_loopback_ip env host"

definition validIssuer :: "server_env \<Rightarrow> string \<Rightarrow> error option" where
  "validIssuer env raw =
     (case ev_parse_url env raw of
        None \<Rightarrow> Some (newError ''auth: new server: issuer must be a bare origin with no trailing slash'')
      | Some u \<Rightarrow>
          if u_hostname u = [] \<or> u_user u \<or> u_path u \<noteq> [] \<or> u_raw_query u \<noteq> [] \<or> u_fragment u \<noteq> []
          then Some (newError ''auth: new server: issuer must be a bare origin with no trailing slash'')
          else if u_scheme u \<noteq> ''https'' \<and> \<not> (u_scheme u = ''http'' \<and> isLoopback env (u_hostname u))
          then Some (newError ''auth: new server: issuer must be https, or http on loopback'')
          else None)"

definition isOwnOAuthEndpoint :: "server_env \<Rightarrow> url \<Rightarrow> bool" where
  "isOwnOAuthEndpoint env u =
     (case ev_parse_url env (ev_issuer env) of
        None \<Rightarrow> False
      | Some iss \<Rightarrow>
          if \<not> EqualFold (u_hostname u) (u_hostname iss) then False
          else HasPrefix (path_Clean (''/'' @ u_path u) @ ''/'') ''/oauth/'')"

definition validRedirectURI :: "server_env \<Rightarrow> string \<Rightarrow> error option" where
  "validRedirectURI env raw =
     (let bad = (\<lambda>why. Some (newError (''redirect_uri '' @ ev_quote env raw @ why)))
      in case ev_parse_url env raw of
           None \<Rightarrow> bad '' must be an absolute URI with a host and no userinfo or fragment''
         | Some u \<Rightarrow>
             if u_scheme u = [] \<or> u_fragment u \<noteq> [] \<or> u_opaque u \<noteq> [] \<or> u_user u \<or> u_hostname u = []
             then bad '' must be an absolute URI with a host and no userinfo or fragment''
             else if isOwnOAuthEndpoint env u then bad '' points at this server's OAuth endpoints''
             else if u_scheme u = ''https'' \<or> (u_scheme u = ''http'' \<and> isLoopback env (u_hostname u)) then None
             else bad '' must be https or http on loopback'')"

definition withMCPScope :: "string list \<Rightarrow> string list" where
  "withMCPScope scopes = (if ScopeMCP \<in> set scopes then scopes else scopes @ [ScopeMCP])"

definition constantEq :: "string \<Rightarrow> string \<Rightarrow> bool" where
  "constantEq a b \<longleftrightarrow> a \<noteq> [] \<and> a = b"

definition authorizeError :: "nat \<Rightarrow> string \<Rightarrow> response" where
  "authorizeError status msg =
     Plain status True (msg @ CHR 0x0A # ''Close this window and start again from your MCP client.'')"

definition registrationError :: "nat \<Rightarrow> string \<Rightarrow> string \<Rightarrow> response" where
  "registrationError status code desc = Json status [(''error'', JText code), (''error_description'', JText desc)]"


subsection \<open>Parked logins and consents\<close>

definition expired :: "time \<Rightarrow> time \<Rightarrow> bool" where
  "expired now created \<longleftrightarrow> time_Sub now created > pendingLoginTTL"

definition sweep :: "time \<Rightarrow> server_state \<Rightarrow> server_state" where
  "sweep now st = st\<lparr>sv_pending := tbl_delete (\<lambda>_ p. expired now (pl_created p)) (sv_pending st),
     sv_consents := tbl_delete (\<lambda>_ c. expired now (pc_created c)) (sv_consents st)\<rparr>"

definition park :: "time \<Rightarrow> (server_state \<Rightarrow> server_state) \<Rightarrow> server_state \<Rightarrow> bool \<times> server_state" where
  "park now put st =
     (let st1 = sweep now st
      in if length (sv_pending st1) + length (sv_consents st1) \<ge> MaxPending then (False, st1) else (True, put st1))"

definition put_pending :: "string \<Rightarrow> pending_login \<Rightarrow> server_state \<Rightarrow> server_state" where
  "put_pending k p st = st\<lparr>sv_pending := tbl_upsert k p (\<lambda>_. p) (sv_pending st)\<rparr>"

definition put_consent :: "string \<Rightarrow> pending_consent \<Rightarrow> server_state \<Rightarrow> server_state" where
  "put_consent k c st = st\<lparr>sv_consents := tbl_upsert k c (\<lambda>_. c) (sv_consents st)\<rparr>"

text \<open>The critical sections that redeem a state or a consent id: what was parked, and the state without it.\<close>

definition take_pending :: "string \<Rightarrow> server_state \<Rightarrow> pending_login option \<times> server_state" where
  "take_pending k st = (tbl_get (sv_pending st) k, st\<lparr>sv_pending := tbl_delete (\<lambda>k' _. k' = k) (sv_pending st)\<rparr>)"

definition take_consent :: "string \<Rightarrow> server_state \<Rightarrow> pending_consent option \<times> server_state" where
  "take_consent k st = (tbl_get (sv_consents st) k, st\<lparr>sv_consents := tbl_delete (\<lambda>k' _. k' = k) (sv_consents st)\<rparr>)"

subsection \<open>The sign-in handlers\<close>

definition too_many_sign_ins :: response where
  "too_many_sign_ins = Plain 503 False ''too many sign-ins in progress; try again in a few minutes''"

text \<open>The random texts are the state, the PKCE verifier and the nonce.\<close>

definition handleAuthorize ::
    "server_env \<Rightarrow> time \<Rightarrow> string \<times> string \<times> string \<Rightarrow> http_request \<Rightarrow> server_state \<Rightarrow> response \<times> server_state" where
  "handleAuthorize env now rnd r st =
     (case NewAuthorizeRequest (ev_provider env) r (sv_db st) of
        Inl msg \<Rightarrow> (authorizeError 400 (''Invalid authorization request: '' @ msg), st)
      | Inr ar \<Rightarrow>
          if Get (ar_form ar) ''code_challenge'' = [] \<or> Get (ar_form ar) ''code_challenge_method'' \<noteq> ''S256''
          then (authorizeError 400 ''Invalid authorization request: PKCE with code_challenge_method=S256 is required.'', st)
          else (case rnd of (state, verifier, nonce) \<Rightarrow>
            (let ar' = SetRequestedScopes (ev_provider env) (withMCPScope (ar_scopes ar)) ar
             in case park now (put_pending state \<lparr>pl_ar = ar', pl_verifier = verifier, pl_nonce = nonce, pl_created = now\<rparr>) st of
                  (False, st1) \<Rightarrow> (too_many_sign_ins, st1)
                | (True, st1) \<Rightarrow> (RedirectTo (ev_auth_code_url env state verifier nonce), st1))))"

text \<open>
  The random texts are the consent id and the CSRF token; \<open>flt\<close> says which of the two queries fails.
  \<open>callback_finish\<close> is the handler after it has redeemed the state.
  \<open>now1\<close> is the time the parked login is looked at, \<open>now2\<close> the time the consent is parked.
\<close>

definition callback_finish ::
    "server_env \<Rightarrow> time \<Rightarrow> time \<Rightarrow> string \<times> string \<Rightarrow> faults \<Rightarrow> http_request \<Rightarrow> pending_login option \<Rightarrow> server_state
      \<Rightarrow> response \<times> server_state" where
  "callback_finish env now1 now2 rnd flt r found st1 =
          (case found of
             None \<Rightarrow> (Plain 400 False ''unknown or expired sign-in; start again from your MCP client'', st1)
           | Some p \<Rightarrow>
               if expired now1 (pl_created p)
               then (Plain 400 False ''unknown or expired sign-in; start again from your MCP client'', st1)
               else if Get (hr_query r) ''error'' \<noteq> [] then (authorizeError 403 ''Google sign-in failed.'', st1)
               else
                 (case ev_exchange env (Get (hr_query r) ''code'') (pl_verifier p) (pl_nonce p) of
                    Inl e \<Rightarrow> (authorizeError 403 ''Google sign-in could not be verified.'', st1)
                  | Inr i \<Rightarrow>
                      (let uid = UserID (ev_sha256 env) (id_email i)
                       in case Allowlist_Check (ev_allow env) (id_email i) (id_email_verified i) of
                            Some e \<Rightarrow> (authorizeError 403 (''Access denied: '' @ err_msg e @ ''.''), st1)
                          | None \<Rightarrow>
                              (case (ClientName (flt 0) (ar_client_id (pl_ar p)) (pool_ctx (sv_db st1)),
                                     CurrentGeneration (flt 1) uid (pool_ctx (sv_db st1))) of
                                 (Inl e, _) \<Rightarrow>
                                   if errors_Is e FositeErrNotFound
                                   then (authorizeError 400 (''This app'' @ CHR 0x27 # ''s registration has expired.''), st1)
                                   else (authorizeError 500 ''Could not complete sign-in.'', st1)
                               | (Inr _, Inl e) \<Rightarrow> (authorizeError 500 ''Could not complete sign-in.'', st1)
                               | (Inr name, Inr gen) \<Rightarrow>
                                   (case rnd of (consentID, csrf) \<Rightarrow>
                                     (case park now2 (put_consent consentID
                                              \<lparr>pc_ar = pl_ar p, pc_session = NewSession uid (id_name i) gen, pc_csrf = csrf,
                                               pc_created = now2\<rparr>) st1 of
                                        (False, st2) \<Rightarrow> (too_many_sign_ins, st2)
                                      | (True, st2) \<Rightarrow>
                                          (ConsentPage (ar_redirect_uri (pl_ar p)) name consentID csrf
                                             (if id_name i = [] then uid else id_name i), st2)))))))"

definition handleGoogleCallback ::
    "server_env \<Rightarrow> time \<Rightarrow> time \<Rightarrow> string \<times> string \<Rightarrow> faults \<Rightarrow> http_request \<Rightarrow> server_state \<Rightarrow> response \<times> server_state" where
  "handleGoogleCallback env now1 now2 rnd flt r st =
     (case take_pending (Get (hr_query r) ''state'') st of
        (found, st1) \<Rightarrow> callback_finish env now1 now2 rnd flt r found st1)"

definition consent_finish ::
    "server_env \<Rightarrow> time \<Rightarrow> error option \<Rightarrow> http_request \<Rightarrow> pending_consent option \<Rightarrow> server_state \<Rightarrow> response \<times> server_state" where
  "consent_finish env now flt r found st1 =
          (case (found, hr_cookie r) of
             (Some c, Some cookie) \<Rightarrow>
               if expired now (pc_created c) \<or> \<not> constantEq (Get (hr_form r) ''csrf'') (pc_csrf c) \<or> \<not> constantEq cookie (pc_csrf c)
               then (Plain 403 False ''invalid or expired consent; start again from your MCP client'', st1)
               else if Get (hr_form r) ''decision'' \<noteq> ''approve''
               then (authorizeError 403 ''You declined access. Nothing was sent to the app.'', st1)
               else
                 (case CheckSession flt (Some (pc_session c)) (pool_ctx (sv_db st1)) of
                    Some e \<Rightarrow>
                      if errors_Is e ErrRevoked then (authorizeError 403 ''Access was revoked during this sign-in.'', st1)
                      else (authorizeError 500 ''Could not complete sign-in.'', st1)
                  | None \<Rightarrow>
                      (let ar = fold (GrantScope (ev_provider env)) (ar_scopes (pc_ar c)) (pc_ar c)
                       in case NewAuthorizeResponse (ev_provider env) ar (pc_session c) (sv_db st1) of
                            (Inl e, db) \<Rightarrow> (authorizeError 500 ''Could not complete sign-in.'', st1\<lparr>sv_db := db\<rparr>)
                          | (Inr resp, db) \<Rightarrow> (AuthorizeResponse ar resp, st1\<lparr>sv_db := db\<rparr>)))
           | _ \<Rightarrow> (Plain 403 False ''invalid or expired consent; start again from your MCP client'', st1))"

definition handleConsent ::
    "server_env \<Rightarrow> time \<Rightarrow> error option \<Rightarrow> http_request \<Rightarrow> server_state \<Rightarrow> response \<times> server_state" where
  "handleConsent env now flt r st =
     (case take_consent (Get (hr_form r) ''consent_id'') st of (found, st1) \<Rightarrow> consent_finish env now flt r found st1)"

subsection \<open>Tokens\<close>

definition checkRequester :: "error option \<Rightarrow> session option \<Rightarrow> auth_db conn \<Rightarrow> error option" where
  "checkRequester flt sess db = (case sess of None \<Rightarrow> Some revoked_error | Some s \<Rightarrow> CheckSession flt (Some s) (pool_ctx db))"

definition handleToken :: "server_env \<Rightarrow> error option \<Rightarrow> http_request \<Rightarrow> server_state \<Rightarrow> response \<times> server_state" where
  "handleToken env flt r st =
     (case NewAccessRequest (ev_provider env) r (sv_db st) of
        (Inl e, db) \<Rightarrow> (AccessError e, st\<lparr>sv_db := db\<rparr>)
      | (Inr sess, db) \<Rightarrow>
          (case checkRequester flt sess db of
             Some _ \<Rightarrow> (AccessError ''invalid_grant: Access was revoked; sign in again.'', st\<lparr>sv_db := db\<rparr>)
           | None \<Rightarrow>
               (case NewAccessResponse (ev_provider env) r db of
                  (Inl e, db') \<Rightarrow> (AccessError e, st\<lparr>sv_db := db'\<rparr>)
                | (Inr resp, db') \<Rightarrow> (AccessResponse resp, st\<lparr>sv_db := db'\<rparr>))))"

definition handleRevoke :: "server_env \<Rightarrow> http_request \<Rightarrow> server_state \<Rightarrow> response \<times> server_state" where
  "handleRevoke env r st =
     (case NewRevocationRequest (ev_provider env) r (sv_db st) of (e, db) \<Rightarrow> (RevocationResponse e, st\<lparr>sv_db := db\<rparr>))"

record token_info =
  ti_scopes :: "string list"
  ti_expiration :: time
  ti_user_id :: string
  ti_name :: string

definition invalid_token :: "string \<Rightarrow> error" where
  "invalid_token why = newError (''invalid token: '' @ why)"

definition VerifyToken :: "server_env \<Rightarrow> error option \<Rightarrow> string \<Rightarrow> auth_db conn \<Rightarrow> token_info result" where
  "VerifyToken env flt token db =
     (case IntrospectToken (ev_provider env) token db of
        Inl field \<Rightarrow> Inl (invalid_token field)
      | Inr (tu, scopes, sess) \<Rightarrow>
          if tu \<noteq> AccessToken then Inl (invalid_token ''not an access token'')
          else (case sess of
                  None \<Rightarrow> Inl (invalid_token ''unexpected session'')
                | Some s \<Rightarrow>
                    (case CheckSession flt (Some s) (pool_ctx db) of
                       Some _ \<Rightarrow> Inl (invalid_token ''revoked or unreadable session'')
                     | None \<Rightarrow> Inr \<lparr>ti_scopes = scopes, ti_expiration = GetExpiresAt s AccessToken,
                                     ti_user_id = se_subject s, ti_name = se_username s\<rparr>)))"

definition RevokeUser :: "error option \<Rightarrow> string \<Rightarrow> auth_db conn \<Rightarrow> error option \<times> auth_db conn" where
  "RevokeUser flt user db =
     (case BumpGeneration flt user (pool_ctx db) of
        (Inl e, x) \<Rightarrow> (Some e, ax_conn x) | (Inr _, x) \<Rightarrow> (None, ax_conn x))"

subsection \<open>Registration and metadata\<close>

text \<open>
  \<open>decoded\<close> is the JSON body (at most 64 KiB), \<open>None\<close> when it does not decode; \<open>client_id\<close> the random
  text; the time is taken once.
\<close>

definition handleRegister ::
    "server_env \<Rightarrow> tx_faults \<Rightarrow> faults \<Rightarrow> time \<Rightarrow> string \<Rightarrow> (string list \<times> string) option \<Rightarrow> server_state \<Rightarrow> response \<times> server_state" where
  "handleRegister env tf flt now client_id decoded st =
     (case decoded of
        None \<Rightarrow> (registrationError 400 ''invalid_client_metadata'' ''body must be JSON'', st)
      | Some (uris, client_name) \<Rightarrow>
          if uris = [] then (registrationError 400 ''invalid_redirect_uri'' ''redirect_uris is required'', st)
          else (case List.map_filter (validRedirectURI env) uris of
                  e # _ \<Rightarrow> (registrationError 400 ''invalid_redirect_uri'' (err_msg e), st)
                | [] \<Rightarrow>
                    (let name = clampName client_name;
                         client = \<lparr>cl_id = client_id, cl_secret = [], cl_redirect_uris = uris,
                           cl_grant_types = [''authorization_code'', ''refresh_token''], cl_response_types = [''code''],
                           cl_scopes = [ScopeMCP, scopeOffline], cl_public = True\<rparr>
                     in case RegisterClient tf flt now client name (pool_ctx (sv_db st)) of
                          (Inl e, x) \<Rightarrow>
                            (if errors_Is e ErrTooManyClients
                             then registrationError 503 ''temporarily_unavailable'' ''too many registered clients''
                             else registrationError 500 ''server_error'' ''could not register the client'',
                             st\<lparr>sv_db := ax_conn x\<rparr>)
                        | (Inr _, x) \<Rightarrow>
                            (Json 201 [(''client_id'', JText client_id), (''client_id_issued_at'', JNumber (now div ns_second - 62135596800)),
                               (''client_name'', JText name), (''redirect_uris'', JTexts uris),
                               (''grant_types'', JTexts (cl_grant_types client)), (''response_types'', JTexts (cl_response_types client)),
                               (''token_endpoint_auth_method'', JText ''none''), (''scope'', JText (Join '' '' (cl_scopes client)))],
                             st\<lparr>sv_db := ax_conn x\<rparr>))))"

definition handleASMetadata :: "server_env \<Rightarrow> response" where
  "handleASMetadata env =
     (let i = ev_issuer env
      in Json 200 [(''issuer'', JText i), (''authorization_endpoint'', JText (i @ ''/oauth/authorize'')),
        (''token_endpoint'', JText (i @ ''/oauth/token'')), (''registration_endpoint'', JText (i @ ''/oauth/register'')),
        (''revocation_endpoint'', JText (i @ ''/oauth/revoke'')), (''scopes_supported'', JTexts [ScopeMCP, scopeOffline]),
        (''response_types_supported'', JTexts [''code'']),
        (''grant_types_supported'', JTexts [''authorization_code'', ''refresh_token'']),
        (''token_endpoint_auth_methods_supported'', JTexts [''none'']),
        (''revocation_endpoint_auth_methods_supported'', JTexts [''none'']),
        (''code_challenge_methods_supported'', JTexts [''S256''])])"

definition ResourceMetadataURL :: "server_env \<Rightarrow> string" where
  "ResourceMetadataURL env = ev_issuer env @ ''/.well-known/oauth-protected-resource''"

text \<open>\<open>NewServer\<close>'s own checks; the secret goes into fosite's configuration.\<close>

definition NewServer ::
    "server_env \<Rightarrow> faults \<Rightarrow> string result \<Rightarrow> auth_db conn \<Rightarrow> (string \<times> server_state) result" where
  "NewServer env flt fresh db =
     (case validIssuer env (ev_issuer env) of
        Some e \<Rightarrow> Inl e
      | None \<Rightarrow>
          if \<not> HasPrefix (ev_mcp_path env) ''/'' then Inl (newError ''auth: new server: MCP path must start with /'')
          else (case HMACSecret (flt 0) (flt 1) (flt 2) fresh (pool_ctx db) of
                  (Inl e, _) \<Rightarrow> Inl e
                | (Inr secret, x) \<Rightarrow> Inr (secret, \<lparr>sv_pending = [], sv_consents = [], sv_db = ax_conn x\<rparr>)))"

end
