(* ===== verification/AuthSim.thy ===== *)
theory AuthSim
  imports AuthTokens
begin

text \<open>
  How a storage function relates to a pure function on the database: \<open>steps ok fn spec\<close> says that a
  successful \<open>fn\<close> turned the database its context sees into the one \<open>spec\<close> gives, that the
  transaction, if there is one, is still open, and that \<open>fn\<close> fails, when \<open>ok\<close> (no statement fails on
  its own), only where \<open>spec\<close> does; \<open>simulates\<close> adds that outside a transaction a failed \<open>fn\<close> changed
  nothing.
\<close>

definition view :: "auth_ctx \<Rightarrow> auth_db" where
  "view x = (case ax_tx x of
     None \<Rightarrow> committed (ax_conn x)
   | Some _ \<Rightarrow> (case working (ax_conn x) of None \<Rightarrow> committed (ax_conn x) | Some d \<Rightarrow> d))"

definition ctx_ok :: "auth_ctx \<Rightarrow> bool" where
  "ctx_ok x \<longleftrightarrow> (case ax_tx x of
     None \<Rightarrow> working (ax_conn x) = None
   | Some b \<Rightarrow> \<not> b \<and> working (ax_conn x) \<noteq> None)"

definition same_tx :: "auth_ctx \<Rightarrow> auth_ctx \<Rightarrow> bool" where
  "same_tx x x' \<longleftrightarrow> ax_tx x' = ax_tx x \<and> ctx_ok x' \<and> (ax_tx x \<noteq> None \<longrightarrow> committed (ax_conn x') = committed (ax_conn x))"

type_synonym 'a program = "auth_ctx \<Rightarrow> 'a result \<times> auth_ctx"

definition steps :: "bool \<Rightarrow> 'a program \<Rightarrow> 'a stmt \<Rightarrow> bool" where
  "steps ok fn spec \<longleftrightarrow> (\<forall>x. ctx_ok x \<longrightarrow> same_tx x (snd (fn x)) \<and>
     (\<forall>v. fst (fn x) = Inr v \<longrightarrow> spec (view x) = Inr (v, view (snd (fn x)))) \<and>
     (\<forall>e. fst (fn x) = Inl e \<longrightarrow> ok \<longrightarrow> (\<exists>e'. spec (view x) = Inl e')))"

definition simulates :: "bool \<Rightarrow> 'a program \<Rightarrow> 'a stmt \<Rightarrow> bool" where
  "simulates ok fn spec \<longleftrightarrow> steps ok fn spec \<and>
     (\<forall>x e. ctx_ok x \<and> ax_tx x = None \<and> fst (fn x) = Inl e \<longrightarrow> view (snd (fn x)) = view x)"

named_theorems step_intros \<open>how programs built like the code's step\<close>

lemma same_tx_refl [simp]: "ctx_ok x \<Longrightarrow> same_tx x x"
  by (simp add: same_tx_def)

lemma same_tx_trans: "same_tx x y \<Longrightarrow> same_tx y z \<Longrightarrow> same_tx x z"
  by (auto simp: same_tx_def)

lemma simulates_steps [step_intros]: "simulates ok fn spec \<Longrightarrow> steps ok fn spec"
  by (simp add: simulates_def)

lemma steps_same: "steps ok fn spec \<Longrightarrow> ctx_ok x \<Longrightarrow> same_tx x (snd (fn x))"
  by (simp add: steps_def)

lemma steps_error: "steps ok fn spec \<Longrightarrow> ctx_ok x \<Longrightarrow> fn x = (Inl e, x') \<Longrightarrow> ok \<Longrightarrow> \<exists>e'. spec (view x) = Inl e'"
  by (fastforce simp: steps_def)

lemma steps_value: "steps ok fn spec \<Longrightarrow> ctx_ok x \<Longrightarrow> fn x = (Inr v, x') \<Longrightarrow> spec (view x) = Inr (v, view x')"
  by (fastforce simp: steps_def)

lemma simulates_error:
  "simulates ok fn spec \<Longrightarrow> ctx_ok x \<Longrightarrow> ax_tx x = None \<Longrightarrow> fn x = (Inl e, x') \<Longrightarrow> view x' = view x"
  unfolding simulates_def by (metis fst_conv snd_conv)

subsection \<open>Statements\<close>

lemma exec_unfold:
  assumes "ctx_ok x" and "flt = None"
  shows "exec flt f x = (case f (view x) of
       Inl e \<Rightarrow> (Inl e, x)
     | Inr (v, d) \<Rightarrow> (Inr v, (case ax_tx x of
           None \<Rightarrow> x\<lparr>ax_conn := (ax_conn x)\<lparr>committed := d\<rparr>\<rparr>
         | Some _ \<Rightarrow> x\<lparr>ax_conn := (ax_conn x)\<lparr>working := Some d\<rparr>\<rparr>)))"
  using assms by (auto simp: exec_def ctx_ok_def view_def split: option.splits bool.splits sum.splits)

lemma query_unfold: "ctx_ok x \<Longrightarrow> query flt f x = (case flt of Some e \<Rightarrow> Inl e | None \<Rightarrow> Inr (f (view x)))"
  by (auto simp: query_def ctx_ok_def view_def split: option.splits bool.splits)

lemma simulates_exec [step_intros]: "(ok \<Longrightarrow> flt = None) \<Longrightarrow> simulates ok (exec flt f) f"
proof (cases flt)
  case None
  show ?thesis
    by (auto simp: simulates_def steps_def exec_unfold None same_tx_def ctx_ok_def view_def split: sum.splits option.splits)
next
  case (Some e)
  assume "ok \<Longrightarrow> flt = None"
  then show ?thesis by (auto simp: simulates_def steps_def exec_def Some)
qed

subsection \<open>Composition\<close>

lemma steps_fail [step_intros]: "(\<And>d. ok \<Longrightarrow> \<exists>e'. spec d = Inl e') \<Longrightarrow> steps ok (\<lambda>x. (Inl e, x)) spec"
  by (simp add: steps_def)

lemma steps_return [step_intros]: "steps ok (\<lambda>x. (Inr v, x)) (\<lambda>d. Inr (v, d))"
  by (simp add: steps_def)

lemma steps_if [step_intros]:
  "steps ok f sf \<Longrightarrow> steps ok g sg \<Longrightarrow> steps ok (\<lambda>x. if b then f x else g x) (\<lambda>d. if b then sf d else sg d)"
  by (cases b) simp_all

lemma steps_query:
  assumes "\<And>v. steps ok (k v) (sk v)" and "ok \<Longrightarrow> flt = None"
  shows "steps ok (\<lambda>x. case query flt f x of Inl e \<Rightarrow> (Inl (g e), x) | Inr v \<Rightarrow> k v x) (\<lambda>d. sk (f d) d)"
  using assms unfolding steps_def
  by (auto simp: query_unfold split: sum.splits option.splits)

definition bind_stmt :: "'a stmt \<Rightarrow> ('a \<Rightarrow> 'b stmt) \<Rightarrow> 'b stmt" where
  "bind_stmt m k d = (case m d of Inl e \<Rightarrow> Inl e | Inr (v, d') \<Rightarrow> k v d')"

lemma steps_bind:
  assumes m: "steps ok m sm" and k: "\<And>v. steps ok (k v) (sk v)"
  shows "steps ok (\<lambda>x. case m x of (Inl e, x') \<Rightarrow> (Inl (g e), x') | (Inr v, x') \<Rightarrow> k v x') (bind_stmt sm sk)"
  unfolding steps_def
proof (intro allI impI)
  fix x assume x: "ctx_ok x"
  obtain r x' where mx: "m x = (r, x')" by fastforce
  have s1: "same_tx x x'" using steps_same [OF m x] by (simp add: mx)
  have okx: "ctx_ok x'" using s1 by (simp add: same_tx_def)
  let ?f = "\<lambda>x. case m x of (Inl e, x') \<Rightarrow> (Inl (g e), x') | (Inr v, x') \<Rightarrow> k v x'"
  show "same_tx x (snd (?f x)) \<and> (\<forall>w. fst (?f x) = Inr w \<longrightarrow> bind_stmt sm sk (view x) = Inr (w, view (snd (?f x)))) \<and>
      (\<forall>e. fst (?f x) = Inl e \<longrightarrow> ok \<longrightarrow> (\<exists>e'. bind_stmt sm sk (view x) = Inl e'))"
  proof (cases r)
    case (Inl e)
    then have "ok \<Longrightarrow> \<exists>e'. sm (view x) = Inl e'" using steps_error [OF m x] mx by simp
    with s1 Inl show ?thesis by (auto simp: mx bind_stmt_def)
  next
    case (Inr v)
    have v: "sm (view x) = Inr (v, view x')" using steps_value [OF m x] mx Inr by simp
    show ?thesis
      using k [of v] okx same_tx_trans [OF s1] by (auto simp: steps_def mx Inr bind_stmt_def v)
  qed
qed

lemma steps_bind_id:
  assumes "steps ok m sm" and "\<And>v. steps ok (k v) (sk v)"
  shows "steps ok (\<lambda>x. case m x of (Inl e, x') \<Rightarrow> (Inl e, x') | (Inr v, x') \<Rightarrow> k v x') (bind_stmt sm sk)"
  using steps_bind [OF assms, of "\<lambda>e. e"] .

text \<open>A single statement whose result is then examined stays atomic when the examination only fails on no effect.\<close>

lemma simulates_wrap:
  assumes m: "simulates ok m sm"
    and k: "\<And>d d' v e. sm d = Inr (v, d') \<Longrightarrow> k v = Inl e \<Longrightarrow> d' = d"
  shows "simulates ok (\<lambda>x. case m x of (Inl e, x') \<Rightarrow> (Inl (g e), x') | (Inr v, x') \<Rightarrow> (k v, x'))
    (bind_stmt sm (\<lambda>v d. case k v of Inl e \<Rightarrow> Inl e | Inr w \<Rightarrow> Inr (w, d)))"
proof -
  have st: "steps ok (\<lambda>x. case m x of (Inl e, x') \<Rightarrow> (Inl (g e), x') | (Inr v, x') \<Rightarrow> (k v, x'))
      (bind_stmt sm (\<lambda>v d. case k v of Inl e \<Rightarrow> Inl e | Inr w \<Rightarrow> Inr (w, d)))"
    by (rule steps_bind [OF simulates_steps [OF m]]) (auto simp: steps_def)
  show ?thesis
    unfolding simulates_def
  proof (intro conjI st allI impI, elim conjE)
    fix x e assume x: "ctx_ok x" "ax_tx x = None"
      and f: "fst (case m x of (Inl e, x') \<Rightarrow> (Inl (g e), x') | (Inr v, x') \<Rightarrow> (k v, x')) = Inl e"
    obtain r x' where mx: "m x = (r, x')" by fastforce
    have "view x' = view x"
    proof (cases r)
      case (Inl e')
      with m x mx show ?thesis by (fastforce simp: simulates_def)
    next
      case (Inr v)
      then have "sm (view x) = Inr (v, view x')" using steps_value [OF simulates_steps [OF m] x(1)] mx by simp
      moreover have "k v = Inl e" using f by (simp add: mx Inr)
      ultimately show ?thesis by (rule k)
    qed
    then show "view (snd (case m x of (Inl e, x') \<Rightarrow> (Inl (g e), x') | (Inr v, x') \<Rightarrow> (k v, x'))) = view x"
      by (simp add: mx split: sum.splits)
  qed
qed

subsection \<open>Transactions\<close>

lemma BeginTX_cases:
  assumes "ctx_ok x" and "ax_tx x = None" and "BeginTX flt x = (r, x')"
  shows "(r \<noteq> None \<and> x' = x) \<or> (r = None \<and> ctx_ok x' \<and> ax_tx x' = Some False \<and> view x' = view x \<and>
     committed (ax_conn x') = committed (ax_conn x))"
  using assms
  by (auto simp: BeginTX_def sql_begin_def ctx_ok_def view_def split: option.splits prod.splits)

lemma Rollback_ends:
  assumes "ctx_ok x" and "ax_tx x = Some False"
  shows "working (ax_conn (snd (Rollback flt x))) = None"
    and "committed (ax_conn (snd (Rollback flt x))) = committed (ax_conn x)"
  using assms
  by (auto simp: Rollback_def txn_rollback_def sql_rollback_def drop_conn_def ctx_ok_def split: option.splits prod.splits)

lemma Commit_cases:
  assumes "ctx_ok x" and "ax_tx x = Some False" and "Commit flt x = (r, x')"
  shows "ax_tx x' = Some True \<and> working (ax_conn x') = None \<and>
    committed (ax_conn x') = (if r = None then view x else committed (ax_conn x))"
  using assms
  by (auto simp: Commit_def sql_commit_def txn_rollback_def sql_rollback_def drop_conn_def ctx_ok_def view_def
        split: option.splits prod.splits)

lemma Rollback_done: "ax_tx x = Some True \<Longrightarrow> Rollback flt x = (None, x)"
  by (simp add: Rollback_def)

lemma BeginTX_no_faults: "ctx_ok x \<Longrightarrow> ax_tx x = None \<Longrightarrow> fst (BeginTX no_faults x) = None"
  by (simp add: BeginTX_def sql_begin_def no_faults_def ctx_ok_def)

lemma Commit_no_faults: "ctx_ok x \<Longrightarrow> ax_tx x = Some False \<Longrightarrow> fst (Commit no_faults x) = None"
  by (auto simp: Commit_def sql_commit_def no_faults_def ctx_ok_def)

text \<open>Outside a transaction, \<open>inTx\<close> is all or nothing.\<close>

lemma inTx_exit:
  assumes "steps ok fn spec" and x: "ctx_ok x" "ax_tx x = None" and tf: "ok \<Longrightarrow> tf = no_faults" and r: "inTx tf fn x = (r, x')"
  shows "ax_tx x' = None \<and> ctx_ok x' \<and>
    (case r of Inl _ \<Rightarrow> view x' = view x \<and> (ok \<longrightarrow> (\<exists>e. spec (view x) = Inl e)) | Inr v \<Rightarrow> spec (view x) = Inr (v, view x'))"
proof -
  obtain b x1 where b: "BeginTX tf x = (b, x1)" by fastforce
  show ?thesis
  proof (cases b)
    case (Some e)
    have "\<not> ok" using BeginTX_no_faults [OF x] tf b Some by auto
    with r x b BeginTX_cases [OF x b] Some show ?thesis by (auto simp: inTx_def)
  next
    case None
    have opened: "ctx_ok x1" "ax_tx x1 = Some False" "view x1 = view x" "committed (ax_conn x1) = committed (ax_conn x)"
      using BeginTX_cases [OF x b] None by auto
    obtain q x2 where q: "fn x1 = (q, x2)" by fastforce
    have s: "same_tx x1 x2" using steps_same [OF assms(1) opened(1)] by (simp add: q)
    have x2: "ctx_ok x2" "ax_tx x2 = Some False" "committed (ax_conn x2) = committed (ax_conn x)"
      using s opened by (auto simp: same_tx_def)
    show ?thesis
    proof (cases q)
      case (Inl e)
      have "ok \<Longrightarrow> \<exists>e'. spec (view x) = Inl e'" using steps_error [OF assms(1) opened(1)] q Inl opened(3) by simp
      moreover have "r = Inl e" "x' = (snd (Rollback tf x2))\<lparr>ax_tx := None\<rparr>"
        using r x b q by (simp_all add: inTx_def None Inl)
      ultimately show ?thesis using Rollback_ends [OF x2(1,2), of tf] x by (simp add: ctx_ok_def view_def x2(3))
    next
      case (Inr v)
      have v: "spec (view x) = Inr (v, view x2)" using steps_value [OF assms(1) opened(1)] q Inr opened(3) by simp
      obtain c x3 where c: "Commit tf x2 = (c, x3)" by fastforce
      have "ok \<Longrightarrow> c = None" using Commit_no_faults [OF x2(1,2)] tf c by auto
      note cc = Commit_cases [OF x2(1,2) c]
      have "r = (case c of None \<Rightarrow> Inr v | Some e \<Rightarrow> Inl e)" "x' = x3\<lparr>ax_tx := None\<rparr>"
        using r x b q c cc by (auto simp: inTx_def None Inr Rollback_done split: option.splits)
      then show ?thesis using cc v x \<open>ok \<Longrightarrow> c = None\<close> by (cases c) (auto simp: ctx_ok_def view_def x2(3))
    qed
  qed
qed

lemma simulates_inTx [step_intros]:
  assumes "steps ok fn spec" and tf: "ok \<Longrightarrow> tf = no_faults"
  shows "simulates ok (inTx tf fn) spec"
proof -
  have "same_tx x (snd (inTx tf fn x)) \<and>
      (\<forall>v. fst (inTx tf fn x) = Inr v \<longrightarrow> spec (view x) = Inr (v, view (snd (inTx tf fn x)))) \<and>
      (\<forall>e. fst (inTx tf fn x) = Inl e \<longrightarrow> ok \<longrightarrow> (\<exists>e'. spec (view x) = Inl e')) \<and>
      (\<forall>e. ax_tx x = None \<and> fst (inTx tf fn x) = Inl e \<longrightarrow> view (snd (inTx tf fn x)) = view x)"
    if x: "ctx_ok x" for x
  proof (cases "ax_tx x")
    case None
    obtain r x' where r: "inTx tf fn x = (r, x')" by fastforce
    show ?thesis using inTx_exit [OF assms(1) x None tf r] by (auto simp: r same_tx_def None split: sum.splits)
  next
    case (Some b)
    then show ?thesis using assms x by (simp add: inTx_def steps_def)
  qed
  then show ?thesis by (auto simp: simulates_def steps_def)
qed

end
