(* ===== verification/AuthSpec.thy ===== *)
theory AuthSpec
  imports AuthSim
begin

text \<open>
  The abstract specification of the OAuth storage: each operation as one partial function on the
  database (\<open>effect\<close>), and the proof that the operations of \<open>auth/storage.go\<close>, \<open>auth/clients.go\<close> and
  \<open>auth/generations.go\<close> implement it atomically whatever statement fails.
\<close>

datatype storage_op =
    CreateCode string requester
  | InvalidateCode string
  | CreatePKCE string requester
  | DeletePKCE string
  | CreateAccess string requester
  | DeleteAccess string
  | CreateRefresh string string requester
  | DeleteRefresh string
  | RevokeRefresh string
  | RevokeAccess string
  | Rotate string string
  | PruneAt time
  | Register time oauth_client string
  | Bump string

definition table_index :: "token_table \<Rightarrow> nat" where
  "table_index t = (case t of Codes \<Rightarrow> 0 | Access \<Rightarrow> 1 | Refresh \<Rightarrow> 2 | PKCE \<Rightarrow> 3)"

definition ignore_value :: "'a program \<Rightarrow> unit program" where
  "ignore_value m x = (case m x of (Inl e, x') \<Rightarrow> (Inl e, x') | (Inr _, x') \<Rightarrow> (Inr (), x'))"

fun perform :: "tx_faults \<Rightarrow> faults \<Rightarrow> storage_op \<Rightarrow> unit program" where
  "perform tf flt (CreateCode sig r) = CreateAuthorizeCodeSession flt sig r"
| "perform tf flt (InvalidateCode sig) = InvalidateAuthorizeCodeSession (flt 0) sig"
| "perform tf flt (CreatePKCE sig r) = CreatePKCERequestSession flt sig r"
| "perform tf flt (DeletePKCE sig) = DeletePKCERequestSession (flt 0) sig"
| "perform tf flt (CreateAccess sig r) = CreateAccessTokenSession flt sig r"
| "perform tf flt (DeleteAccess sig) = DeleteAccessTokenSession (flt 0) sig"
| "perform tf flt (CreateRefresh sig acc r) = CreateRefreshTokenSession flt sig acc r"
| "perform tf flt (DeleteRefresh sig) = DeleteRefreshTokenSession (flt 0) sig"
| "perform tf flt (RevokeRefresh q) = RevokeRefreshToken (flt 0) q"
| "perform tf flt (RevokeAccess q) = RevokeAccessToken (flt 0) q"
| "perform tf flt (Rotate q sig) = RotateRefreshToken tf flt q sig"
| "perform tf flt (PruneAt now) = ignore_value (Prune tf (\<lambda>t. flt (table_index t)) now)"
| "perform tf flt (Register now c name) = RegisterClient tf flt now c name"
| "perform tf flt (Bump user) = ignore_value (BumpGeneration (flt 0) user)"

subsection \<open>The specification\<close>

definition create_effect :: "token_table \<Rightarrow> token_kind \<Rightarrow> string \<Rightarrow> requester \<Rightarrow> auth_db \<Rightarrow> auth_db option" where
  "create_effect t k sig req d =
     (case (rq_session req, rq_client req) of
        (Some s, Some c) \<Rightarrow>
          if GetExpiresAt s k \<noteq> 0 \<and> tbl_get (tokens t d) sig = None \<and> tbl_get (oa_clients d) (cl_id c) \<noteq> None
          then Some (set_tokens t (tokens t d @
                 [(sig, \<lparr>tk_request_id = rq_id req, tk_client_id = cl_id c, tk_expires_at = formatTime (GetExpiresAt s k),
                         tk_active = True, tk_request = Some (marshal_request (to_stored req c s))\<rparr>)]) d)
          else None
      | _ \<Rightarrow> None)"

definition drop_tokens :: "token_table \<Rightarrow> (string \<Rightarrow> token_row \<Rightarrow> bool) \<Rightarrow> auth_db \<Rightarrow> auth_db" where
  "drop_tokens t p d = set_tokens t (tbl_delete p (tokens t d)) d"

definition retire :: "token_table \<Rightarrow> (string \<Rightarrow> token_row \<Rightarrow> bool) \<Rightarrow> auth_db \<Rightarrow> auth_db" where
  "retire t p d = set_tokens t (tbl_update p (\<lambda>r. r\<lparr>tk_active := False\<rparr>) (tokens t d)) d"

definition drop_expired :: "string \<Rightarrow> auth_db \<Rightarrow> auth_db" where
  "drop_expired now d =
     fold (\<lambda>t. drop_tokens t (\<lambda>_ r. tk_expires_at r \<le> now)) [Codes, Access, Refresh, PKCE] d"

text \<open>The grant that a rotation retires: its refresh tokens become inactive, its access tokens go.\<close>

definition end_grant :: "string \<Rightarrow> auth_db \<Rightarrow> auth_db" where
  "end_grant q d = drop_tokens Access (\<lambda>_ r. tk_request_id r = q) (retire Refresh (\<lambda>_ r. tk_request_id r = q) d)"

definition register_effect :: "time \<Rightarrow> oauth_client \<Rightarrow> string \<Rightarrow> auth_db \<Rightarrow> auth_db option" where
  "register_effect now c name d =
     (let excess = length (oa_clients d) + 1 - MaxClients;
          cs = evictable (formatTime now) excess d;
          d' = (if excess = 0 then d else drop_clients cs d)
      in if cl_id c = [] \<or> \<not> cl_public c \<or> cl_secret c \<noteq> [] \<or> length cs < excess \<or> tbl_get (oa_clients d') (cl_id c) \<noteq> None
         then None
         else Some (d'\<lparr>oa_clients := oa_clients d' @ [(cl_id c, client_row_of c name now)]\<rparr>))"

fun effect :: "storage_op \<Rightarrow> auth_db \<Rightarrow> auth_db option" where
  "effect (CreateCode sig r) d = create_effect Codes AuthorizeCode sig r d"
| "effect (InvalidateCode sig) d =
     (if \<exists>(k, r)\<in>set (oa_codes d). k = sig \<and> tk_active r then Some (retire Codes (\<lambda>k r. k = sig \<and> tk_active r) d) else None)"
| "effect (CreatePKCE sig r) d = create_effect PKCE AuthorizeCode sig r d"
| "effect (DeletePKCE sig) d = Some (drop_tokens PKCE (\<lambda>k _. k = sig) d)"
| "effect (CreateAccess sig r) d = create_effect Access AccessToken sig r d"
| "effect (DeleteAccess sig) d = Some (drop_tokens Access (\<lambda>k _. k = sig) d)"
| "effect (CreateRefresh sig acc r) d = create_effect Refresh RefreshToken sig r d"
| "effect (DeleteRefresh sig) d = Some (drop_tokens Refresh (\<lambda>k _. k = sig) d)"
| "effect (RevokeRefresh q) d = Some (retire Refresh (\<lambda>_ r. tk_request_id r = q) d)"
| "effect (RevokeAccess q) d = Some (drop_tokens Access (\<lambda>_ r. tk_request_id r = q) d)"
| "effect (Rotate q sig) d =
     (if \<exists>(k, r)\<in>set (oa_refresh d). k = sig \<and> tk_request_id r = q \<and> tk_active r then Some (end_grant q d) else None)"
| "effect (PruneAt now) d = Some (drop_expired (formatTime now) d)"
| "effect (Register now c name) d = register_effect now c name d"
| "effect (Bump user) d = (if user = [] then None else Some (bump user d))"

lemma effect_abs:
  "effect (PruneAt now) = (\<lambda>d. Some (drop_expired (formatTime now) d))"
  "user \<noteq> [] \<Longrightarrow> effect (Bump user) = (\<lambda>d. Some (bump user d))"
  "effect (CreateCode sig r) = create_effect Codes AuthorizeCode sig r"
  "effect (CreatePKCE sig r) = create_effect PKCE AuthorizeCode sig r"
  "effect (CreateAccess sig r) = create_effect Access AccessToken sig r"
  "effect (CreateRefresh sig acc r) = create_effect Refresh RefreshToken sig r"
  "effect (DeletePKCE sig) = (\<lambda>d. Some (drop_tokens PKCE (\<lambda>k _. k = sig) d))"
  "effect (DeleteAccess sig) = (\<lambda>d. Some (drop_tokens Access (\<lambda>k _. k = sig) d))"
  "effect (DeleteRefresh sig) = (\<lambda>d. Some (drop_tokens Refresh (\<lambda>k _. k = sig) d))"
  "effect (RevokeRefresh q) = (\<lambda>d. Some (retire Refresh (\<lambda>_ r. tk_request_id r = q) d))"
  "effect (RevokeAccess q) = (\<lambda>d. Some (drop_tokens Access (\<lambda>_ r. tk_request_id r = q) d))"
  by (simp_all add: fun_eq_iff)

text \<open>What \<open>steps\<close> asks of a program whose value is not used.\<close>

definition meets :: "auth_db option \<Rightarrow> (unit \<times> auth_db) result \<Rightarrow> bool" where
  "meets e r \<longleftrightarrow> (case r of Inl _ \<Rightarrow> e = None | Inr (_, d) \<Rightarrow> e = Some d)"

lemma meets_simps [simp]: "meets e (Inl x) \<longleftrightarrow> e = None" "meets e (Inr (u, d)) \<longleftrightarrow> e = Some d"
  by (simp_all add: meets_def)

definition implements :: "bool \<Rightarrow> unit program \<Rightarrow> (auth_db \<Rightarrow> auth_db option) \<Rightarrow> bool" where
  "implements ok fn eff \<longleftrightarrow> (\<exists>spec. simulates ok fn spec \<and> (\<forall>d. meets (eff d) (spec d)))"

lemma implementsI: "simulates ok fn spec \<Longrightarrow> (\<And>d. meets (eff d) (spec d)) \<Longrightarrow> implements ok fn eff"
  by (auto simp: implements_def)

subsection \<open>Each operation\<close>

lemma simulates_fail: "(\<And>d. ok \<Longrightarrow> \<exists>e'. spec d = Inl e') \<Longrightarrow> simulates ok (\<lambda>x. (Inl e, x)) spec"
  by (simp add: simulates_def steps_def)

lemma implements_fail: "(\<And>d. eff d = None) \<Longrightarrow> implements ok (\<lambda>x. (Inl e, x)) eff"
  by (rule implementsI [where spec = "\<lambda>d. Inl e", OF simulates_fail]) auto

text \<open>A program that runs one statement and turns its row count into the result.\<close>

lemma implements_statement:
  assumes "ok \<Longrightarrow> flt = None" and "\<And>d d' v e. f d = Inr (v, d') \<Longrightarrow> k v = Inl e \<Longrightarrow> d' = d"
    and "\<And>d. meets (eff d) (bind_stmt f (\<lambda>v d. case k v of Inl e \<Rightarrow> Inl e | Inr w \<Rightarrow> Inr (w, d)) d)"
  shows "implements ok (\<lambda>x. case exec flt f x of (Inl e, x') \<Rightarrow> (Inl (g e), x') | (Inr v, x') \<Rightarrow> (k v, x')) eff"
  by (rule implementsI [OF simulates_wrap [OF simulates_exec [OF assms(1)] assms(2)] assms(3)])

lemma implements_update:
  assumes "ok \<Longrightarrow> flt = None" and "\<And>d. \<exists>n. f d = Inr (n, h d)"
  shows "implements ok (\<lambda>x. case exec flt f x of (Inl e, x') \<Rightarrow> (Inl (g e), x') | (Inr _, x') \<Rightarrow> (Inr (), x')) (\<lambda>d. Some (h d))"
proof (rule implements_statement [OF assms(1)])
  fix d
  obtain n where "f d = Inr (n, h d)" using assms(2) by blast
  then show "meets (Some (h d)) (bind_stmt f (\<lambda>v d. case Inr () of Inl e \<Rightarrow> Inl e | Inr w \<Rightarrow> Inr (w, d)) d)"
    by (simp add: bind_stmt_def)
qed auto

lemma implements_delete:
  assumes "ok \<Longrightarrow> flt = None"
  shows "implements ok (delete flt t sig) (\<lambda>d. Some (drop_tokens t (\<lambda>k _. k = sig) d))"
  unfolding delete_def [abs_def]
  by (rule implements_update [OF assms]) (simp_all add: delete_tokens_def drop_tokens_def)

lemma implements_revoke_refresh:
  assumes "ok \<Longrightarrow> flt = None"
  shows "implements ok (RevokeRefreshToken flt q) (\<lambda>d. Some (retire Refresh (\<lambda>_ r. tk_request_id r = q) d))"
  unfolding RevokeRefreshToken_def [abs_def]
  by (rule implements_update [OF assms]) (simp_all add: deactivate_def retire_def)

lemma implements_revoke_access:
  assumes "ok \<Longrightarrow> flt = None"
  shows "implements ok (RevokeAccessToken flt q) (\<lambda>d. Some (drop_tokens Access (\<lambda>_ r. tk_request_id r = q) d))"
  unfolding RevokeAccessToken_def [abs_def]
  by (rule implements_update [OF assms]) (simp_all add: delete_tokens_def drop_tokens_def)

lemma tbl_update_none: "tbl_count p t = 0 \<Longrightarrow> tbl_update p f t = t"
  by (induction t) (auto simp: tbl_count_def tbl_update_def split: if_splits)

lemma tbl_count_0_iff: "tbl_count p t = 0 \<longleftrightarrow> \<not> (\<exists>(k, r)\<in>set t. p k r)"
  using tbl_count_pos [of p t] by auto

lemma set_tokens_same [simp]: "set_tokens t (tokens t d) d = d"
  by (cases t) (simp_all add: set_tokens_def tokens_def)

lemma tokens_sel: "tokens Codes d = oa_codes d" "tokens Access d = oa_access d" "tokens Refresh d = oa_refresh d"
  "tokens PKCE d = oa_pkce d"
  by (simp_all add: tokens_def)

lemma implements_invalidate:
  assumes "ok \<Longrightarrow> flt = None"
  shows "implements ok (InvalidateAuthorizeCodeSession flt sig) (effect (InvalidateCode sig))"
proof -
  let ?p = "\<lambda>k r. k = sig \<and> tk_active r"
  have unf: "InvalidateAuthorizeCodeSession flt sig = (\<lambda>x. case exec flt (deactivate Codes ?p) x of
      (Inl e, x') \<Rightarrow> (Inl (wrapError ''auth: invalidate code'' e), x')
    | (Inr n, x') \<Rightarrow> (if n = 0 then Inl not_found else Inr (), x'))"
    by (rule ext) (simp add: InvalidateAuthorizeCodeSession_def cong: if_cong split: sum.splits prod.splits)
  show ?thesis
    unfolding unf
  proof (rule implements_statement [OF assms])
    show "deactivate Codes ?p d = Inr (v, d') \<Longrightarrow> (if v = 0 then Inl not_found else Inr ()) = Inl e \<Longrightarrow> d' = d" for d d' v e
      by (auto simp: deactivate_def tbl_update_none split: if_splits)
  next
    fix d
    show "meets (effect (InvalidateCode sig) d)
      (bind_stmt (deactivate Codes ?p) (\<lambda>v d. case if v = 0 then Inl not_found else Inr () of Inl e \<Rightarrow> Inl e | Inr w \<Rightarrow> Inr (w, d)) d)"
      using tbl_count_0_iff [of ?p "oa_codes d"]
      by (auto simp: bind_stmt_def deactivate_def retire_def tokens_sel)
  qed
qed

lemma implements_create:
  assumes "ok \<Longrightarrow> flt 0 = None" "ok \<Longrightarrow> flt 1 = None"
  shows "implements ok (create flt t k sig req) (create_effect t k sig req)"
proof (cases "\<exists>s c. rq_session req = Some s \<and> rq_client req = Some c \<and> GetExpiresAt s k \<noteq> 0")
  case False
  have "\<exists>e. \<forall>x. create flt t k sig req x = (Inl e, x)"
  proof (cases "rq_session req")
    case None
    then show ?thesis by (simp add: create_def)
  next
    case (Some s)
    with False show ?thesis by (cases "rq_client req") (simp_all add: create_def IsZero_def)
  qed
  then have "\<exists>e. create flt t k sig req = (\<lambda>x. (Inl e, x))" by (simp add: fun_eq_iff)
  moreover have "create_effect t k sig req d = None" for d
    using False by (auto simp: create_effect_def split: option.splits)
  ultimately show ?thesis using implements_fail by metis
next
  case True
  then obtain s c where s: "rq_session req = Some s" "rq_client req = Some c" "GetExpiresAt s k \<noteq> 0" by blast
  let ?row = "\<lparr>tk_request_id = rq_id req, tk_client_id = cl_id c, tk_expires_at = formatTime (GetExpiresAt s k),
                         tk_active = True, tk_request = Some (marshal_request (to_stored req c s))\<rparr>"
  show ?thesis
  proof (cases "flt 0")
    case None
    then have unf: "create flt t k sig req = (\<lambda>x. case exec (flt 1) (insert_token t sig ?row) x of
        (Inl e, x') \<Rightarrow> (Inl (wrapError (''auth: store '' @ table_name t) e), x') | (Inr u, x') \<Rightarrow> (Inr u, x'))"
      by (rule_tac ext) (simp add: create_def s IsZero_def)
    show ?thesis
      unfolding unf
      by (rule implements_statement [OF assms(2)])
        (auto simp: bind_stmt_def insert_token_def create_effect_def s split: option.splits)
  next
    case (Some e)
    then have no: "\<not> ok" using assms(1) by auto
    have "create flt t k sig req = (\<lambda>x. (Inl (wrapError (''auth: encode '' @ table_name t) e), x))"
      by (rule ext) (simp add: create_def s IsZero_def Some)
    then show ?thesis
      using no by (auto intro!: implementsI [where spec = "\<lambda>d. case create_effect t k sig req d of None \<Rightarrow> Inl e | Some d' \<Rightarrow> Inr ((), d')"]
          simulates_fail split: option.splits)
  qed
qed


lemma steps_spec: "steps ok fn spec \<Longrightarrow> (\<And>d. spec d = spec' d) \<Longrightarrow> steps ok fn spec'"
  by (simp add: steps_def)

lemma implements_Some:
  assumes "implements ok fn (\<lambda>d. Some (h d))"
  shows "steps ok fn (\<lambda>d. Inr ((), h d))"
proof -
  obtain spec where s: "simulates ok fn spec" "\<And>d. meets (Some (h d)) (spec d)"
    using assms by (auto simp: implements_def)
  have "spec d = Inr ((), h d)" for d
    using s(2) [of d] by (cases "spec d") auto
  with s(1) show ?thesis by (auto intro: steps_spec simulates_steps)
qed

lemma tbl_update_twice:
  assumes "\<And>k v. p k v \<Longrightarrow> q k v" and "\<And>k v. q k (f v) = q k v" and "\<And>v. f (f v) = f v"
  shows "tbl_update q f (tbl_update p f t) = tbl_update q f t"
  using assms by (induction t) (auto simp: tbl_update_def)

lemma set_tokens_twice [simp]: "set_tokens t x (set_tokens t y d) = set_tokens t x d"
  by (cases t) (simp_all add: set_tokens_def)

lemma implements_rotate:
  assumes tf: "ok \<Longrightarrow> tf = no_faults" and flt: "\<And>i. ok \<Longrightarrow> flt i = None"
  shows "implements ok (RotateRefreshToken tf flt q sig) (effect (Rotate q sig))"
proof -
  let ?p = "\<lambda>k r. k = sig \<and> tk_request_id r = q \<and> tk_active r"
  let ?body = "\<lambda>x. case exec (flt 0) (deactivate Refresh ?p) x of
      (Inl e, x1) \<Rightarrow> (Inl (wrapError ''auth: rotate refresh token'' e), x1)
    | (Inr n, x1) \<Rightarrow>
        if n = 0 then (Inl (sentinelError ''serialization failure'' FositeErrSerializationFailure), x1)
        else (case RevokeRefreshToken (flt 1) q x1 of
                (Inl e, x2) \<Rightarrow> (Inl e, x2) | (Inr _, x2) \<Rightarrow> RevokeAccessToken (flt 2) q x2)"
  let ?spec = "\<lambda>d. if tbl_count ?p (oa_refresh d) = 0 then Inl (newError []) else Inr ((), end_grant q d)"
  let ?k = "\<lambda>n d. if n = 0 then Inl (newError []) else Inr ((), end_grant q d)"
  have "steps ok ?body (bind_stmt (deactivate Refresh ?p) (\<lambda>n d. if n = 0 then Inl (newError []) else Inr ((), end_grant q d)))"
  proof (rule steps_bind)
    show "steps ok (exec (flt 0) (deactivate Refresh ?p)) (deactivate Refresh ?p)"
      by (intro step_intros) (rule flt)
  next
    fix n
    have r1: "steps ok (RevokeRefreshToken (flt 1) q) (\<lambda>d. Inr ((), retire Refresh (\<lambda>_ r. tk_request_id r = q) d))"
      by (rule implements_Some, rule implements_revoke_refresh, rule flt)
    have r2: "steps ok (RevokeAccessToken (flt 2) q) (\<lambda>d. Inr ((), drop_tokens Access (\<lambda>_ r. tk_request_id r = q) d))"
      by (rule implements_Some, rule implements_revoke_access, rule flt)
    have "steps ok (\<lambda>x1. case RevokeRefreshToken (flt 1) q x1 of
          (Inl e, x2) \<Rightarrow> (Inl e, x2) | (Inr _, x2) \<Rightarrow> RevokeAccessToken (flt 2) q x2)
        (\<lambda>d. Inr ((), end_grant q d))"
      by (rule steps_spec [OF steps_bind_id [OF r1 r2]]) (simp add: bind_stmt_def end_grant_def)
    then show "steps ok (\<lambda>x1. if n = 0
          then (Inl (sentinelError ''serialization failure'' FositeErrSerializationFailure), x1)
          else (case RevokeRefreshToken (flt 1) q x1 of
                (Inl e, x2) \<Rightarrow> (Inl e, x2) | (Inr _, x2) \<Rightarrow> RevokeAccessToken (flt 2) q x2))
        (?k n)"
      by (cases "n = 0") (auto intro: steps_fail)
  qed
  then have "simulates ok (inTx tf ?body) (bind_stmt (deactivate Refresh ?p) ?k)"
    by (rule simulates_inTx) (rule tf)
  then show ?thesis
    unfolding RotateRefreshToken_def
  proof (rule implementsI)
    fix d
    have u: "tbl_update (\<lambda>_ r. tk_request_id r = q) (tk_active_update (\<lambda>_. False)) (tbl_update ?p (tk_active_update (\<lambda>_. False)) t)
        = tbl_update (\<lambda>_ r. tk_request_id r = q) (tk_active_update (\<lambda>_. False)) t" for t
      by (rule tbl_update_twice) auto
    have "end_grant q (set_tokens Refresh (tbl_update ?p (\<lambda>r. r\<lparr>tk_active := False\<rparr>) (oa_refresh d)) d) = end_grant q d"
      by (simp add: end_grant_def retire_def drop_tokens_def) (simp add: tokens_sel u)
    then show "meets (effect (Rotate q sig) d) (bind_stmt (deactivate Refresh ?p) ?k d)"
      using tbl_count_0_iff [of ?p "oa_refresh d"]
      by (auto simp: bind_stmt_def deactivate_def tokens_sel)
  qed
qed

subsection \<open>Pruning, registering, bumping\<close>

fun prune_stmt :: "string \<Rightarrow> token_table list \<Rightarrow> nat \<Rightarrow> nat stmt" where
  "prune_stmt now [] acc d = Inr (acc, d)"
| "prune_stmt now (t # ts) acc d =
     prune_stmt now ts (acc + tbl_count (\<lambda>_ r. tk_expires_at r \<le> now) (tokens t d)) (drop_tokens t (\<lambda>_ r. tk_expires_at r \<le> now) d)"

lemma steps_prune_tables: "(\<And>t. ok \<Longrightarrow> flt t = None) \<Longrightarrow> steps ok (prune_tables flt now ts acc) (prune_stmt now ts acc)"
proof (induction ts arbitrary: acc)
  case Nil
  have "prune_tables flt now [] acc = (\<lambda>x. (Inr acc, x))" by (rule ext) simp
  moreover have "prune_stmt now [] acc = (\<lambda>d. Inr (acc, d))" by (rule ext) simp
  ultimately show ?case by (simp add: steps_return)
next
  case (Cons t ts)
  have unf: "prune_tables flt now (t # ts) acc =
      (\<lambda>x. case exec (flt t) (delete_tokens t (\<lambda>_ r. tk_expires_at r \<le> now)) x of
         (Inl e, x') \<Rightarrow> (Inl (wrapError (''auth: prune '' @ table_name t) e), x')
       | (Inr n, x') \<Rightarrow> prune_tables flt now ts (acc + n) x')"
    by (rule ext) simp
  show ?case
    unfolding unf
    by (rule steps_spec [OF steps_bind [OF simulates_steps [OF simulates_exec] Cons.IH]])
      (simp_all add: Cons.prems bind_stmt_def delete_tokens_def drop_tokens_def)
qed

lemma tokens_drop [simp]: "tokens t' (drop_tokens t p d) = (if t' = t then tbl_delete p (tokens t d) else tokens t' d)"
  by (simp add: drop_tokens_def)

lemma fold_drop_other: "t \<notin> set ts \<Longrightarrow> tokens t (fold (\<lambda>t. drop_tokens t p) ts d) = tokens t d"
  by (induction ts arbitrary: d) auto

lemma fold_drop_tokens: "distinct ts \<Longrightarrow> t \<in> set ts \<Longrightarrow> tokens t (fold (\<lambda>t. drop_tokens t p) ts d) = tbl_delete p (tokens t d)"
proof (induction ts arbitrary: d)
  case (Cons t' ts)
  then show ?case using fold_drop_other [of t' ts p] by (cases "t = t'") auto
qed simp

lemma prune_stmt_fold:
  "distinct ts \<Longrightarrow> prune_stmt now ts acc d =
     Inr (acc + (\<Sum>t\<leftarrow>ts. tbl_count (\<lambda>_ r. tk_expires_at r \<le> now) (tokens t d)),
       fold (\<lambda>t. drop_tokens t (\<lambda>_ r. tk_expires_at r \<le> now)) ts d)"
proof (induction ts arbitrary: acc d)
  case (Cons t ts)
  have "map (\<lambda>u. tbl_count (\<lambda>_ r. tk_expires_at r \<le> now) (tokens u (drop_tokens t (\<lambda>_ r. tk_expires_at r \<le> now) d))) ts =
      map (\<lambda>u. tbl_count (\<lambda>_ r. tk_expires_at r \<le> now) (tokens u d)) ts"
    using Cons.prems by auto
  from arg_cong [OF this, of sum_list] Cons show ?case by simp
qed simp

lemma simulates_Prune:
  assumes "ok \<Longrightarrow> tf = no_faults" "\<And>t. ok \<Longrightarrow> flt t = None"
  shows "simulates ok (Prune tf flt now) (\<lambda>d. Inr (\<Sum>t\<leftarrow>[Codes, Access, Refresh, PKCE].
      tbl_count (\<lambda>_ r. tk_expires_at r \<le> formatTime now) (tokens t d), drop_expired (formatTime now) d))"
  unfolding Prune_def
  by (rule simulates_inTx [OF steps_spec [OF steps_prune_tables]])
    (use assms in \<open>simp_all add: prune_stmt_fold drop_expired_def del: prune_stmt.simps\<close>)

lemma implements_ignore:
  assumes "simulates ok m (\<lambda>d. case eff d of None \<Rightarrow> Inl e | Some (v, d') \<Rightarrow> Inr (v, d'))"
  shows "implements ok (ignore_value m) (\<lambda>d. map_option snd (eff d))"
proof -
  have "simulates ok (\<lambda>x. case m x of (Inl e, x') \<Rightarrow> (Inl ((\<lambda>e. e) e), x') | (Inr v, x') \<Rightarrow> (Inr (), x'))
      (bind_stmt (\<lambda>d. case eff d of None \<Rightarrow> Inl e | Some (v, d') \<Rightarrow> Inr (v, d'))
         (\<lambda>v d. case Inr () of Inl e \<Rightarrow> Inl e | Inr w \<Rightarrow> Inr (w, d)))"
    by (rule simulates_wrap [OF assms]) simp
  moreover have "ignore_value m = (\<lambda>x. case m x of (Inl e, x') \<Rightarrow> (Inl ((\<lambda>e. e) e), x') | (Inr v, x') \<Rightarrow> (Inr (), x'))"
    by (rule ext) (simp add: ignore_value_def)
  ultimately show ?thesis
    by (auto intro!: implementsI simp: bind_stmt_def split: option.splits)
qed


lemma implements_prune:
  assumes "ok \<Longrightarrow> tf = no_faults" "\<And>t. ok \<Longrightarrow> flt t = None"
  shows "implements ok (ignore_value (Prune tf flt now)) (effect (PruneAt now))"
proof -
  let ?eff = "\<lambda>d. Some (\<Sum>t\<leftarrow>[Codes, Access, Refresh, PKCE].
      tbl_count (\<lambda>_ r. tk_expires_at r \<le> formatTime now) (tokens t d), drop_expired (formatTime now) d)"
  have "implements ok (ignore_value (Prune tf flt now)) (\<lambda>d. map_option snd (?eff d))"
    by (rule implements_ignore [where e = "newError []"]) (use simulates_Prune [OF assms] in simp)
  then show ?thesis by (simp add: effect_abs)
qed

lemma tbl_get_upsert_Some: "tbl_get (tbl_upsert k new upd t) k = Some (case tbl_get t k of None \<Rightarrow> new | Some v \<Rightarrow> upd v)"
  by (simp add: table_simps)

lemma implements_bump:
  assumes "ok \<Longrightarrow> flt = None"
  shows "implements ok (ignore_value (BumpGeneration flt user)) (effect (Bump user))"
proof (cases "user = []")
  case True
  then show ?thesis
    by (intro implementsI [where spec = "\<lambda>d. Inl (newError [])"])
      (auto simp: simulates_def steps_def ignore_value_def BumpGeneration_def)
next
  case False
  let ?f = "\<lambda>d. Inr (the (tbl_get (oa_generations (bump user d)) user), bump user d)"
  have "ignore_value (BumpGeneration flt user) = (\<lambda>x. case exec flt ?f x of
      (Inl e, x') \<Rightarrow> (Inl (wrapError ''auth: bump generation'' e), x') | (Inr _, x') \<Rightarrow> (Inr (), x'))"
    by (rule ext) (auto simp: ignore_value_def BumpGeneration_def False split: prod.splits sum.splits)
  moreover have "implements ok \<dots> (\<lambda>d. Some (bump user d))"
    by (rule implements_update [OF assms]) auto
  ultimately show ?thesis using False by (simp add: effect_abs)
qed

definition makeRoom_stmt :: "time \<Rightarrow> unit stmt" where
  "makeRoom_stmt now d =
     (let excess = length (oa_clients d) + 1 - MaxClients; cs = evictable (formatTime now) excess d
      in if excess = 0 then Inr ((), d)
         else if length cs < excess then Inl too_many_clients else Inr ((), drop_clients cs d))"

lemma steps_makeRoom:
  assumes "\<And>i. ok \<Longrightarrow> flt i = None"
  shows "steps ok (makeRoom flt now) (makeRoom_stmt now)"
proof -
  let ?ev = "\<lambda>n d. let cs = evictable (formatTime now) n d in Inr (length cs, drop_clients cs d)"
  let ?ex = "\<lambda>count. count + 1 - MaxClients"
  have k: "steps ok (\<lambda>x. if ?ex count = 0 then (Inr (), x)
        else (case exec (flt 1) (?ev (?ex count)) x of
               (Inl e, x1) \<Rightarrow> (Inl (wrapError ''auth: evict clients'' e), x1)
             | (Inr n, x1) \<Rightarrow> if n < ?ex count then (Inl too_many_clients, x1) else (Inr (), x1)))
      (\<lambda>d. if ?ex count = 0 then Inr ((), d)
         else bind_stmt (?ev (?ex count)) (\<lambda>n d. if n < ?ex count then Inl too_many_clients else Inr ((), d)) d)" for count
  proof (rule steps_if)
    show "steps ok (\<lambda>x. (Inr (), x)) (\<lambda>d. Inr ((), d))" by (rule steps_return)
  next
    have st: "steps ok (exec (flt 1) (?ev (?ex count))) (?ev (?ex count))"
      by (intro step_intros) (rule assms)
    have kk: "steps ok (\<lambda>x1. if n < ?ex count then (Inl too_many_clients, x1) else (Inr (), x1))
        (\<lambda>d. if n < ?ex count then Inl too_many_clients else Inr ((), d))" for n
      by (cases "n < ?ex count") (simp_all add: steps_fail steps_return)
    show "steps ok (\<lambda>x. case exec (flt 1) (?ev (?ex count)) x of
               (Inl e, x1) \<Rightarrow> (Inl (wrapError ''auth: evict clients'' e), x1)
             | (Inr n, x1) \<Rightarrow> if n < ?ex count then (Inl too_many_clients, x1) else (Inr (), x1))
       (bind_stmt (?ev (?ex count)) (\<lambda>n d. if n < ?ex count then Inl too_many_clients else Inr ((), d)))"
      by (rule steps_bind [OF st kk])
  qed
  have "makeRoom flt now = (\<lambda>x. case query (flt 0) (\<lambda>d. length (oa_clients d)) x of
       Inl e \<Rightarrow> (Inl (wrapError ''auth: count clients'' e), x)
     | Inr count \<Rightarrow> (if ?ex count = 0 then (Inr (), x)
        else (case exec (flt 1) (?ev (?ex count)) x of
               (Inl e, x1) \<Rightarrow> (Inl (wrapError ''auth: evict clients'' e), x1)
             | (Inr n, x1) \<Rightarrow> if n < ?ex count then (Inl too_many_clients, x1) else (Inr (), x1))))"
    by (rule ext) (simp only: makeRoom_def Let_def)
  then show ?thesis
    by (simp only:) (rule steps_spec [OF steps_query [OF k]],
      auto simp: assms makeRoom_stmt_def bind_stmt_def Let_def)
qed

lemma implements_register:
  assumes tf: "ok \<Longrightarrow> tf = no_faults" and flt: "\<And>i. ok \<Longrightarrow> flt i = None"
  shows "implements ok (RegisterClient tf flt now c name) (effect (Register now c name))"
proof (cases "cl_id c = [] \<or> \<not> cl_public c \<or> cl_secret c \<noteq> []")
  case True
  then have "\<exists>e. RegisterClient tf flt now c name = (\<lambda>x. (Inl e, x))"
    by (auto simp: RegisterClient_def fun_eq_iff)
  moreover have "effect (Register now c name) d = None" for d
    using True by (auto simp: register_effect_def Let_def)
  ultimately show ?thesis using implements_fail by metis
next
  case False
  let ?ins = "\<lambda>d. if tbl_get (oa_clients d) (cl_id c) \<noteq> None
      then Inl (newError ''UNIQUE constraint failed: oauth_clients.client_id'')
      else Inr ((), d\<lparr>oa_clients := oa_clients d @ [(cl_id c, client_row_of c name now)]\<rparr>)"
  have i: "steps ok (\<lambda>x2. case exec (flt 2) ?ins x2 of
        (Inl e, x3) \<Rightarrow> (Inl (wrapError ''auth: register client'' e), x3) | (Inr u, x3) \<Rightarrow> (Inr u, x3)) (bind_stmt ?ins (\<lambda>u d. Inr (u, d)))"
    by (rule steps_bind [OF simulates_steps [OF simulates_exec] steps_return]) (rule flt)
  have "simulates ok (RegisterClient tf flt now c name) (bind_stmt (makeRoom_stmt now) (\<lambda>_. bind_stmt ?ins (\<lambda>u d. Inr (u, d))))"
  proof -
    have "RegisterClient tf flt now c name = inTx tf (\<lambda>x1. case makeRoom flt now x1 of
           (Inl e, x2) \<Rightarrow> (Inl e, x2)
         | (Inr _, x2) \<Rightarrow> (case exec (flt 2) ?ins x2 of
             (Inl e, x3) \<Rightarrow> (Inl (wrapError ''auth: register client'' e), x3) | (Inr u, x3) \<Rightarrow> (Inr u, x3)))"
      by (rule ext) (use False in \<open>simp add: RegisterClient_def\<close>)
    then show ?thesis
      by (simp only:) (rule simulates_inTx [OF steps_bind_id [OF steps_makeRoom [OF flt] i] tf])
  qed
  then show ?thesis
    by (rule implementsI)
      (use False in \<open>auto simp: bind_stmt_def makeRoom_stmt_def register_effect_def Let_def\<close>)
qed

lemmas implements_intros = implements_create implements_invalidate implements_delete implements_revoke_refresh
  implements_revoke_access implements_rotate implements_prune implements_register implements_bump

lemma perform_implements:
  assumes "ok \<Longrightarrow> tf = no_faults" "\<And>i. ok \<Longrightarrow> flt i = None"
  shows "implements ok (perform tf flt op) (effect op)"
  using assms
  by (cases op)
    (auto simp: effect_abs(3-) CreateAuthorizeCodeSession_def CreatePKCERequestSession_def CreateAccessTokenSession_def
      CreateRefreshTokenSession_def DeletePKCERequestSession_def DeleteAccessTokenSession_def DeleteRefreshTokenSession_def
      simp del: effect.simps intro!: implements_intros)

end
