(* ===== verification/AuthFacts.thy ===== *)
theory AuthFacts
  imports AuthSpec
begin

text \<open>
  What the OAuth storage promises over a run of its operations, any of whose statements may fail:
  the invariant of its tables, single use of codes and refresh tokens, revocation that lasts.
\<close>

subsection \<open>One operation on the pool\<close>

lemma pool_ctx_simps [simp]: "ax_conn (pool_ctx c) = c" "ax_tx (pool_ctx c) = None" "view (pool_ctx c) = committed c"
  by (simp_all add: pool_ctx_def view_def)

lemma ctx_ok_pool [simp]: "ctx_ok (pool_ctx c) \<longleftrightarrow> conn_idle c"
  by (simp add: ctx_ok_def conn_idle_def)

definition quiet :: "tx_faults \<Rightarrow> faults \<Rightarrow> bool" where
  "quiet tf flt \<longleftrightarrow> tf = no_faults \<and> flt = (\<lambda>_. None)"

lemma perform_exit:
  assumes c: "conn_idle c" and r: "perform tf flt op (pool_ctx c) = (r, x)"
  shows "ax_tx x = None \<and> conn_idle (ax_conn x) \<and>
    (case r of
       Inr _ \<Rightarrow> effect op (committed c) = Some (committed (ax_conn x))
     | Inl _ \<Rightarrow> committed (ax_conn x) = committed c \<and> (quiet tf flt \<longrightarrow> effect op (committed c) = None))"
proof -
  have "implements (quiet tf flt) (perform tf flt op) (effect op)"
    by (rule perform_implements) (auto simp: quiet_def)
  then obtain spec where s: "simulates (quiet tf flt) (perform tf flt op) spec" "\<And>d. meets (effect op d) (spec d)"
    by (auto simp: implements_def)
  have ok: "ctx_ok (pool_ctx c)" using c by simp
  have st: "same_tx (pool_ctx c) x"
    using steps_same [OF simulates_steps [OF s(1)] ok] by (simp add: r)
  then have x: "ax_tx x = None" "ctx_ok x" by (simp_all add: same_tx_def)
  then have v: "view x = committed (ax_conn x)" "conn_idle (ax_conn x)"
    by (simp_all add: view_def ctx_ok_def conn_idle_def)
  show ?thesis
  proof (cases r)
    case (Inl e)
    have "view x = committed c" using simulates_error [OF s(1) ok] r Inl by simp
    moreover have "quiet tf flt \<Longrightarrow> effect op (committed c) = None"
      using steps_error [OF simulates_steps [OF s(1)] ok] s(2) [of "committed c"] r Inl by fastforce
    ultimately show ?thesis using x v Inl by simp
  next
    case (Inr u)
    have "spec (committed c) = Inr (u, view x)" using steps_value [OF simulates_steps [OF s(1)] ok] r Inr by simp
    then show ?thesis using s(2) [of "committed c"] x v Inr by simp
  qed
qed

lemma perform_quiet:
  assumes "conn_idle c" and "effect op (committed c) = Some d"
  shows "\<exists>x. perform no_faults (\<lambda>_. None) op (pool_ctx c) = (Inr (), x) \<and> committed (ax_conn x) = d \<and> conn_idle (ax_conn x)"
proof -
  obtain r x where r: "perform no_faults (\<lambda>_. None) op (pool_ctx c) = (r, x)" by fastforce
  show ?thesis using perform_exit [OF assms(1) r] assms(2) by (cases r) (auto simp: r quiet_def)
qed

text \<open>
  C16: Each operation of the OAuth storage refines its specification. Started outside a transaction
  on an idle connection, whatever statement, begin, commit or rollback fails, the operation either
  returns no error and the committed database is exactly what \<open>effect\<close> says, or returns an error and
  the database is unchanged; the connection is idle again. If nothing failed on its own, an error
  means that the specification refuses the operation.
\<close>

theorem storage_refines:
  assumes "conn_idle c" and "perform tf flt op (pool_ctx c) = (r, x)"
  shows "ax_tx x = None \<and> conn_idle (ax_conn x) \<and>
    (case r of
       Inr _ \<Rightarrow> effect op (committed c) = Some (committed (ax_conn x))
     | Inl _ \<Rightarrow> committed (ax_conn x) = committed c \<and> (quiet tf flt \<longrightarrow> effect op (committed c) = None))"
  by (rule perform_exit [OF assms])

subsection \<open>Runs\<close>

type_synonym call = "tx_faults \<times> faults \<times> storage_op"

text \<open>A run of calls, with a trace of which succeeded.\<close>

fun run_ops :: "call list \<Rightarrow> auth_db conn \<Rightarrow> (storage_op \<times> bool) list \<times> auth_db conn" where
  "run_ops [] c = ([], c)"
| "run_ops ((tf, flt, op) # calls) c =
     (case perform tf flt op (pool_ctx c) of
        (r, x) \<Rightarrow> (case run_ops calls (ax_conn x) of (tr, c') \<Rightarrow> ((op, r = Inr ()) # tr, c')))"

lemma run_ops_induct [consumes 2, case_names Nil Refused Done]:
  assumes run: "run_ops calls c = (tr, c')" and c: "conn_idle c"
    and "\<And>c. conn_idle c \<Longrightarrow> P [] c c"
    and "\<And>op tr c c'. conn_idle c \<Longrightarrow> conn_idle c' \<Longrightarrow> P tr c c' \<Longrightarrow> \<forall>c0. conn_idle c0 \<and> committed c0 = committed c \<longrightarrow> P ((op, False) # tr) c0 c'"
    and "\<And>op tr c c' d. conn_idle c \<Longrightarrow> conn_idle c' \<Longrightarrow> P tr c c' \<Longrightarrow> effect op d = Some (committed c) \<Longrightarrow>
       \<forall>c0. conn_idle c0 \<and> committed c0 = d \<longrightarrow> P ((op, True) # tr) c0 c'"
  shows "conn_idle c' \<and> P tr c c'"
  using run c
proof (induction calls arbitrary: c tr)
  case Nil
  with assms(3) show ?case by simp
next
  case (Cons a calls)
  obtain tf flt op where a: "a = (tf, flt, op)" by (cases a) auto
  obtain r x where r: "perform tf flt op (pool_ctx c) = (r, x)" by fastforce
  obtain tr1 where l: "run_ops calls (ax_conn x) = (tr1, c')" "tr = (op, r = Inr ()) # tr1"
    using Cons.prems(1) by (auto simp: a r split: prod.splits)
  note e = perform_exit [OF Cons.prems(2) r]
  have i: "conn_idle c' \<and> P tr1 (ax_conn x) c'" by (rule Cons.IH [OF l(1)]) (use e in blast)
  show ?case
  proof (cases r)
    case (Inl e')
    with e i l(2) Cons.prems(2) show ?thesis
      using assms(4) [of "ax_conn x" c' tr1 op] by auto
  next
    case (Inr u)
    with e i l(2) Cons.prems(2) show ?thesis
      using assms(5) [of "ax_conn x" c' tr1 op "committed c"] by auto
  qed
qed

lemma run_ops_idle:
  assumes "run_ops calls c = (tr, c')" and "conn_idle c"
  shows "conn_idle c'"
proof -
  have "conn_idle c' \<and> True" using assms by (induction rule: run_ops_induct) auto
  then show ?thesis by simp
qed

lemma run_ops_invariant:
  assumes run: "run_ops calls c = (tr, c')" and c: "conn_idle c" and "P (committed c)"
    and step: "\<And>op d d'. effect op d = Some d' \<Longrightarrow> P d \<Longrightarrow> P d'"
  shows "P (committed c')"
proof -
  have "conn_idle c' \<and> (P (committed c) \<longrightarrow> P (committed c'))"
    using run c by (induction rule: run_ops_induct) (use step in auto)
  with assms(3) show ?thesis by simp
qed

subsection \<open>The invariant\<close>

text \<open>
  A row is stored as it was made: it holds the JSON of a request, its columns agree with that request,
  the request has a session, and of the form only the allowed parameters are kept.
\<close>

definition row_ok :: "auth_db \<Rightarrow> token_row \<Rightarrow> bool" where
  "row_ok d r \<longleftrightarrow> tbl_get (oa_clients d) (tk_client_id r) \<noteq> None \<and>
     (\<exists>sq. tk_request r = Some (marshal_request sq) \<and> sq_id sq = tk_request_id r \<and> sq_client_id sq = tk_client_id r \<and>
        sq_session sq \<noteq> None \<and> set (map fst (sq_form sq)) \<subseteq> set storedForm)"

definition client_decodes :: "client_row \<Rightarrow> bool" where
  "client_decodes r \<longleftrightarrow> oc_redirect_uris r \<noteq> None \<and> oc_grant_types r \<noteq> None \<and> oc_response_types r \<noteq> None \<and> oc_scopes r \<noteq> None"

definition auth_ok :: "auth_db \<Rightarrow> bool" where
  "auth_ok d \<longleftrightarrow> tbl_ok (oa_clients d) \<and> tbl_ok (oa_generations d) \<and> (\<forall>t. tbl_ok (tokens t d)) \<and>
     (\<forall>t. \<forall>(k, r)\<in>set (tokens t d). row_ok d r) \<and> (\<forall>(u, g)\<in>set (oa_generations d). u \<noteq> [] \<and> 0 < g) \<and>
     length (oa_clients d) \<le> MaxClients \<and> (\<forall>(k, r)\<in>set (oa_clients d). client_decodes r)"

lemma auth_okD:
  assumes "auth_ok d"
  shows "tbl_ok (oa_clients d)" "tbl_ok (tokens t d)" "tbl_ok (oa_generations d)" "(k, r) \<in> set (tokens t d) \<Longrightarrow> row_ok d r"
  using assms by (auto simp: auth_ok_def)

lemma set_tbl_delete: "set (tbl_delete p t) = {(k, r) \<in> set t. \<not> p k r}"
  by (auto simp: tbl_delete_def)

lemma set_tbl_update: "(k, r) \<in> set (tbl_update p f t) \<longleftrightarrow> (\<exists>r0. (k, r0) \<in> set t \<and> r = (if p k r0 then f r0 else r0))"
  by (induction t) (auto simp: tbl_update_def)

lemma row_ok_tokens [simp]: "row_ok (set_tokens t x d) r \<longleftrightarrow> row_ok d r"
  by (simp add: row_ok_def)

lemma row_ok_inactive [simp]: "row_ok d (r\<lparr>tk_active := b\<rparr>) \<longleftrightarrow> row_ok d r"
  by (simp add: row_ok_def)

lemma auth_ok_drop [intro]: "auth_ok d \<Longrightarrow> auth_ok (drop_tokens t p d)"
  by (auto simp: auth_ok_def drop_tokens_def set_tbl_delete)

lemma auth_ok_retire [intro]: "auth_ok d \<Longrightarrow> auth_ok (retire t p d)"
  by (fastforce simp: auth_ok_def retire_def set_tbl_update)

lemma keep_form_keys: "set (map fst (keep_form form)) \<subseteq> set storedForm"
  by (auto simp: keep_form_def List.map_filter_def split: option.splits)

lemma tbl_ok_append: "tbl_ok t \<Longrightarrow> tbl_get t k = None \<Longrightarrow> tbl_ok (t @ [(k, v)])"
  by (auto simp: tbl_ok_def tbl_keys_def tbl_get_None_iff)

lemma tbl_get_snoc: "tbl_get (t @ [(k, v)]) k' =
    (case tbl_get t k' of None \<Rightarrow> if k' = k then Some v else None | Some w \<Rightarrow> Some w)"
  by (simp add: tbl_get_append eq_commute split: option.split)

lemma auth_ok_create:
  assumes "auth_ok d" and "create_effect t k sig req d = Some d'"
  shows "auth_ok d'"
proof -
  obtain s c where s: "rq_session req = Some s" "rq_client req = Some c"
    using assms(2) by (auto simp: create_effect_def split: option.splits)
  let ?row = "\<lparr>tk_request_id = rq_id req, tk_client_id = cl_id c, tk_expires_at = formatTime (GetExpiresAt s k),
                         tk_active = True, tk_request = Some (marshal_request (to_stored req c s))\<rparr>"
  have e: "tbl_get (tokens t d) sig = None" "tbl_get (oa_clients d) (cl_id c) \<noteq> None"
    "d' = set_tokens t (tokens t d @ [(sig, ?row)]) d"
    using assms(2) by (auto simp: create_effect_def s split: if_splits)
  have "row_ok d ?row" using e(2) keep_form_keys [of "rq_form req"]
    unfolding row_ok_def by (intro conjI exI [of _ "to_stored req c s"]) (simp_all add: to_stored_def)
  then show ?thesis
    using assms(1) e(1) by (auto simp: auth_ok_def e(3) tbl_ok_append)
qed


lemma tbl_count_keys:
  assumes "tbl_ok t" and "distinct cs" and "set cs \<subseteq> set (tbl_keys t)"
  shows "tbl_count (\<lambda>k _. k \<in> set cs) t = length cs"
proof -
  have "tbl_count (\<lambda>k _. k \<in> set cs) t = length (filter (\<lambda>k. k \<in> set cs) (tbl_keys t))"
    by (induction t) (auto simp: tbl_count_def)
  moreover have "set (filter (\<lambda>k. k \<in> set cs) (tbl_keys t)) = set cs" using assms(3) by auto
  moreover have "distinct (filter (\<lambda>k. k \<in> set cs) (tbl_keys t))" using assms(1) by (simp add: tbl_ok_def)
  ultimately show ?thesis using assms(2) by (metis distinct_card)
qed

lemma evictable_keys:
  assumes "tbl_ok (oa_clients d)"
  shows "distinct (evictable now n d)" and "length (evictable now n d) \<le> n"
    and "c \<in> set (evictable now n d) \<Longrightarrow> c \<in> set (tbl_keys (oa_clients d)) \<and> \<not> has_live_grant now d c"
proof -
  let ?l = "filter (\<lambda>(c, _). \<not> has_live_grant now d c) (oa_clients d)"
  have "distinct (map fst ?l)" using assms by (auto simp: tbl_ok_def tbl_keys_def distinct_map_filter)
  then have "distinct (map fst (sort_key (\<lambda>(_, r). oc_created_at r) ?l))"
    by (simp add: distinct_map)
  then show "distinct (evictable now n d)" by (simp add: evictable_def distinct_take)
  show "length (evictable now n d) \<le> n" by (simp add: evictable_def)
  show "c \<in> set (evictable now n d) \<Longrightarrow> c \<in> set (tbl_keys (oa_clients d)) \<and> \<not> has_live_grant now d c"
    by (auto simp: evictable_def tbl_keys_def dest!: in_set_takeD)
qed

lemma drop_clients_sel:
  "oa_clients (drop_clients cs d) = tbl_delete (\<lambda>k _. k \<in> set cs) (oa_clients d)"
  "tokens t (drop_clients cs d) = tbl_delete (\<lambda>_ r. tk_client_id r \<in> set cs) (tokens t d)"
  "oa_generations (drop_clients cs d) = oa_generations d"
  by (simp_all add: drop_clients_def tokens_def split: token_table.split)

lemma auth_ok_drop_clients: "auth_ok d \<Longrightarrow> auth_ok (drop_clients cs d)"
proof -
  assume d: "auth_ok d"
  have "row_ok (drop_clients cs d) r" if "row_ok d r" "tk_client_id r \<notin> set cs" for r
    using that auth_okD(1) [OF d]
    by (auto simp: row_ok_def drop_clients_sel table_simps split: option.splits)
  moreover have "length (tbl_delete (\<lambda>k _. k \<in> set cs) (oa_clients d)) \<le> length (oa_clients d)"
    by (simp add: tbl_delete_def)
  ultimately show ?thesis
    using d by (fastforce simp: auth_ok_def drop_clients_sel set_tbl_delete)
qed

definition add_client :: "oauth_client \<Rightarrow> string \<Rightarrow> time \<Rightarrow> auth_db \<Rightarrow> auth_db" where
  "add_client c name now d = d\<lparr>oa_clients := oa_clients d @ [(cl_id c, client_row_of c name now)]\<rparr>"

lemma add_client_sel:
  "oa_clients (add_client c name now d) = oa_clients d @ [(cl_id c, client_row_of c name now)]"
  "tokens t (add_client c name now d) = tokens t d"
  "oa_generations (add_client c name now d) = oa_generations d"
  by (simp_all add: add_client_def tokens_def split: token_table.split)

text \<open>What a registration did: it evicted the oldest clients without a live grant, only as many as needed.\<close>

lemma register_effectD:
  assumes "register_effect now c name d = Some d'" and d: "auth_ok d"
  defines "cs \<equiv> evictable (formatTime now) (length (oa_clients d) + 1 - MaxClients) d"
  shows "d' = add_client c name now (drop_clients cs d)" and "length (oa_clients d') = min (length (oa_clients d) + 1) MaxClients"
    and "tbl_get (oa_clients (drop_clients cs d)) (cl_id c) = None" and "cl_id c \<noteq> []"
proof -
  let ?n = "length (oa_clients d) + 1 - MaxClients"
  have nodrop: "drop_clients [] d = d" by (simp add: drop_clients_def tbl_delete_def)
  have "?n = 0 \<Longrightarrow> cs = []" by (simp add: cs_def evictable_def)
  with assms(1) have h: "d' = add_client c name now (drop_clients cs d)" "?n \<le> length cs"
      "tbl_get (oa_clients (drop_clients cs d)) (cl_id c) = None" "cl_id c \<noteq> []"
    by (auto simp: register_effect_def Let_def add_client_def nodrop cs_def split: if_splits)
  then show "d' = add_client c name now (drop_clients cs d)" "tbl_get (oa_clients (drop_clients cs d)) (cl_id c) = None" "cl_id c \<noteq> []"
    by simp_all
  have ev: "distinct cs" "length cs \<le> ?n" "set cs \<subseteq> set (tbl_keys (oa_clients d))"
    using evictable_keys [OF auth_okD(1) [OF d]] by (auto simp: cs_def)
  have "length (tbl_delete (\<lambda>k _. k \<in> set cs) (oa_clients d)) + length cs = length (oa_clients d)"
    using length_tbl_delete [of "\<lambda>k _. k \<in> set cs" "oa_clients d"] tbl_count_keys [OF auth_okD(1) [OF d] ev(1,3)] by simp
  with ev(2) h(1,2) show "length (oa_clients d') = min (length (oa_clients d) + 1) MaxClients"
    using d by (auto simp: add_client_sel drop_clients_sel auth_ok_def MaxClients_def)
qed

lemma auth_ok_register:
  assumes "auth_ok d" and "register_effect now c name d = Some d'"
  shows "auth_ok d'"
proof -
  let ?e = "drop_clients (evictable (formatTime now) (length (oa_clients d) + 1 - MaxClients) d) d"
  note r = register_effectD [OF assms(2,1)]
  have e: "auth_ok ?e" by (rule auth_ok_drop_clients [OF assms(1)])
  have "row_ok d' w" if "row_ok ?e w" for w
    using that by (auto simp: r(1) row_ok_def add_client_sel tbl_get_snoc split: option.splits)
  moreover have "length (oa_clients d') \<le> MaxClients" using r(2) by simp
  ultimately show ?thesis
    using e r(3)
    by (fastforce simp: r(1) auth_ok_def add_client_sel client_decodes_def client_row_of_def intro!: tbl_ok_append)
qed

lemma in_tbl_upsert: "(k', v') \<in> set (tbl_upsert k new upd t) \<Longrightarrow>
    (k', v') \<in> set t \<or> (k' = k \<and> (v' = new \<or> (\<exists>v. (k, v) \<in> set t \<and> v' = upd v)))"
  by (induction t) (auto split: if_splits)

lemma bump_sel [simp]: "oa_clients (bump u d) = oa_clients d" "tokens t (bump u d) = tokens t d"
  by (simp_all add: bump_def tokens_def split: token_table.split)

lemma auth_ok_bump: "auth_ok d \<Longrightarrow> u \<noteq> [] \<Longrightarrow> auth_ok (bump u d)"
proof -
  assume d: "auth_ok d" and u: "u \<noteq> []"
  have "w \<noteq> [] \<and> 0 < g" if "(w, g) \<in> set (oa_generations (bump u d))" for w g
    using in_tbl_upsert [of w g u] that d u by (fastforce simp: bump_def auth_ok_def)
  moreover have "row_ok (bump u d) r = row_ok d r" for r by (simp add: row_ok_def)
  ultimately show ?thesis
    using d by (fastforce simp: auth_ok_def bump_def [of u d, THEN arg_cong, of oa_generations] tbl_ok_upsert)
qed

lemma drop_expired_sel:
  "tokens t (drop_expired now d) = tbl_delete (\<lambda>_ r. tk_expires_at r \<le> now) (tokens t d)"
  "oa_clients (drop_expired now d) = oa_clients d" "oa_generations (drop_expired now d) = oa_generations d"
  by (cases t; simp add: drop_expired_def drop_tokens_def)+

lemma effect_auth_ok: "effect op d = Some d' \<Longrightarrow> auth_ok d \<Longrightarrow> auth_ok d'"
proof (cases op)
  case (PruneAt now)
  assume "effect op d = Some d'" "auth_ok d"
  then show ?thesis by (auto simp: PruneAt drop_expired_def)
next
  case (Rotate q sig)
  assume "effect op d = Some d'" "auth_ok d"
  then show ?thesis by (auto simp: Rotate end_grant_def split: if_splits)
qed (auto intro: auth_ok_create auth_ok_register auth_ok_bump split: if_splits)

text \<open>
  C17: The tables of the OAuth storage stay well formed over every run of operations, whatever
  fails: keys are unique, every row belongs to a registered client and agrees with the request it
  holds, a stored request has a session and no form parameter outside the allowlist (so no raw code,
  token or verifier), generations are positive, and there are never more than \<open>MaxClients\<close> clients, whose lists decode.
\<close>

theorem storage_invariant:
  assumes "run_ops calls c = (tr, c')" and "conn_idle c" and "auth_ok (committed c)"
  shows "auth_ok (committed c')"
  using assms effect_auth_ok by (rule run_ops_invariant)

end
