(* ===== verification/AuthProps.thy ===== *)
theory AuthProps
  imports AuthFacts
begin

text \<open>
  Single use of codes and refresh tokens, revocation, pruning, the client cap and the round trip of
  a stored request.
\<close>

definition succeeded :: "(storage_op \<Rightarrow> bool) \<Rightarrow> (storage_op \<times> bool) list \<Rightarrow> nat" where
  "succeeded P tr = length (filter (\<lambda>(op, ok). ok \<and> P op) tr)"

lemma succeeded_simps [simp]: "succeeded P [] = 0"
  "succeeded P ((op, ok) # tr) = (if ok \<and> P op then 1 else 0) + succeeded P tr"
  by (simp_all add: succeeded_def)

subsection \<open>What can be used only once\<close>

text \<open>
  Something a use needs and takes away, and only a creation brings back, is used at most as often as
  it was created.
\<close>

locale single_use =
  fixes live :: "auth_db \<Rightarrow> bool"
    and uses_it :: "storage_op \<Rightarrow> bool"
    and creates_it :: "storage_op \<Rightarrow> bool"
  assumes use_once: "effect op d = Some d' \<Longrightarrow> auth_ok d \<Longrightarrow> uses_it op \<Longrightarrow> live d \<and> \<not> live d'"
    and only_created: "effect op d = Some d' \<Longrightarrow> auth_ok d \<Longrightarrow> live d' \<Longrightarrow> \<not> creates_it op \<Longrightarrow> live d"
    and use_is_not_create: "uses_it op \<Longrightarrow> \<not> creates_it op"
begin

lemma uses_bounded:
  assumes "run_ops calls c = (tr, c')" and "conn_idle c" and "auth_ok (committed c)"
  shows "succeeded uses_it tr + of_bool (live (committed c')) \<le> succeeded creates_it tr + of_bool (live (committed c))"
proof -
  have "conn_idle c' \<and> (auth_ok (committed c) \<longrightarrow>
      succeeded uses_it tr + of_bool (live (committed c')) \<le> succeeded creates_it tr + of_bool (live (committed c)))"
    using assms(1,2)
  proof (induction rule: run_ops_induct)
    case (Done op tr c c' d)
    have "succeeded uses_it ((op, True) # tr) + of_bool (live (committed c')) \<le>
        succeeded creates_it ((op, True) # tr) + of_bool (live d)" if d: "auth_ok d"
    proof -
      have "auth_ok (committed c)" by (rule effect_auth_ok [OF Done.hyps(3) d])
      with Done.IH have i: "succeeded uses_it tr + of_bool (live (committed c')) \<le>
          succeeded creates_it tr + of_bool (live (committed c))" by simp
      show ?thesis
        using i use_once [OF Done.hyps(3) d] only_created [OF Done.hyps(3) d] use_is_not_create [of op]
        by (auto simp: of_bool_def split: if_splits)
    qed
    then show ?case by auto
  qed auto
  with assms(3) show ?thesis by simp
qed

end

definition live_in :: "token_table \<Rightarrow> string \<Rightarrow> auth_db \<Rightarrow> bool" where
  "live_in t sig d \<longleftrightarrow> (\<exists>(k, r)\<in>set (tokens t d). k = sig \<and> tk_active r)"

lemma live_in_drop: "live_in t sig (drop_tokens t' p d) \<Longrightarrow> live_in t sig d"
  by (auto simp: live_in_def set_tbl_delete split: if_splits)

lemma active_update:
  "((k, r) \<in> set (tbl_update p (\<lambda>r. r\<lparr>tk_active := False\<rparr>) t) \<and> tk_active r) \<longleftrightarrow> ((k, r) \<in> set t \<and> tk_active r \<and> \<not> p k r)"
  by (induction t) (auto simp: tbl_update_def split: if_splits)

lemma live_in_retire_iff:
  "live_in t sig (retire t' p d) \<longleftrightarrow> (\<exists>r. (sig, r) \<in> set (tokens t d) \<and> tk_active r \<and> \<not> (t' = t \<and> p sig r))"
  using active_update [of sig _ p "tokens t d"] by (auto simp: live_in_def retire_def)

lemma live_in_retire: "live_in t sig (retire t' p d) \<Longrightarrow> live_in t sig d"
  by (auto simp: live_in_retire_iff) (auto simp: live_in_def)

lemma live_in_create:
  "create_effect t' k s req d = Some d' \<Longrightarrow> live_in t sig d' \<Longrightarrow> t' \<noteq> t \<or> s \<noteq> sig \<Longrightarrow> live_in t sig d"
  by (auto simp: create_effect_def live_in_def split: option.splits if_splits)

lemma live_in_register:
  assumes "auth_ok d" "register_effect now c name d = Some d'" "live_in t sig d'"
  shows "live_in t sig d"
  using assms(3) by (auto simp: register_effectD(1) [OF assms(2,1)] live_in_def add_client_sel drop_clients_sel set_tbl_delete)

lemma live_in_bump [simp]: "live_in t sig (bump u d) = live_in t sig d"
  by (simp add: live_in_def)

lemma live_in_expired: "live_in t sig (drop_expired now d) \<Longrightarrow> live_in t sig d"
  by (auto simp: live_in_def drop_expired_sel set_tbl_delete)

lemma live_in_only_created:
  assumes "effect op d = Some d'" "auth_ok d" "live_in t sig d'"
    and "\<not> ((t = Codes \<and> (\<exists>r. op = CreateCode sig r)) \<or> (t = PKCE \<and> (\<exists>r. op = CreatePKCE sig r)) \<or>
       (t = Access \<and> (\<exists>r. op = CreateAccess sig r)) \<or> (t = Refresh \<and> (\<exists>a r. op = CreateRefresh sig a r)))"
  shows "live_in t sig d"
  using assms
  by (cases op)
    (auto simp: end_grant_def split: if_splits
      dest: live_in_drop live_in_retire live_in_create live_in_register live_in_expired)

interpretation code_use: single_use "live_in Codes sig" "\<lambda>op. op = InvalidateCode sig" "\<lambda>op. \<exists>r. op = CreateCode sig r" for sig
proof unfold_locales
  fix op d d'
  assume e: "effect op d = Some d'" "auth_ok d"
  show "op = InvalidateCode sig \<Longrightarrow> live_in Codes sig d \<and> \<not> live_in Codes sig d'"
    using e by (auto simp: live_in_retire_iff split: if_splits) (auto simp: live_in_def tokens_sel)
  show "live_in Codes sig d' \<Longrightarrow> \<nexists>r. op = CreateCode sig r \<Longrightarrow> live_in Codes sig d"
    using live_in_only_created [OF e] by auto
qed auto


interpretation refresh_use: single_use "live_in Refresh sig" "\<lambda>op. \<exists>q. op = Rotate q sig" "\<lambda>op. \<exists>a r. op = CreateRefresh sig a r"
  for sig
proof unfold_locales
  fix op d d'
  assume e: "effect op d = Some d'" "auth_ok d"
  show "\<exists>q. op = Rotate q sig \<Longrightarrow> live_in Refresh sig d \<and> \<not> live_in Refresh sig d'"
  proof (elim exE)
    fix q assume op: "op = Rotate q sig"
    obtain r where r: "(sig, r) \<in> set (tokens Refresh d)" "tk_request_id r = q" "tk_active r" and d': "d' = end_grant q d"
      using e(1) by (auto simp: op tokens_sel split: if_splits)
    have "\<not> live_in Refresh sig d'"
    proof
      assume "live_in Refresh sig d'"
      then obtain r' where "(sig, r') \<in> set (tokens Refresh d)" "tk_request_id r' \<noteq> q"
        by (auto simp: d' end_grant_def live_in_retire_iff dest!: live_in_drop)
      with r tbl_in_get [OF auth_okD(2) [OF e(2)]] show False by (metis option.inject)
    qed
    with r show "live_in Refresh sig d \<and> \<not> live_in Refresh sig d'" by (auto simp: live_in_def)
  qed
  show "live_in Refresh sig d' \<Longrightarrow> \<nexists>a r. op = CreateRefresh sig a r \<Longrightarrow> live_in Refresh sig d"
    using live_in_only_created [OF e] by auto
qed auto


text \<open>
  C18: Codes and refresh tokens are single use. Over any run of storage operations, with any failures,
  the code under a signature is successfully invalidated at most as often as it was successfully
  created (plus once if it was live at the start), and likewise a refresh token is rotated at most
  as often as it was created: of two racing exchanges or refreshes at most one succeeds.
\<close>

theorem single_use_of_grants:
  assumes "run_ops calls c = (tr, c')" and "conn_idle c" and "auth_ok (committed c)"
  shows "succeeded (\<lambda>op. op = InvalidateCode sig) tr
      \<le> succeeded (\<lambda>op. \<exists>r. op = CreateCode sig r) tr + of_bool (live_in Codes sig (committed c)) \<and>
    succeeded (\<lambda>op. \<exists>q. op = Rotate q sig) tr
      \<le> succeeded (\<lambda>op. \<exists>a r. op = CreateRefresh sig a r) tr + of_bool (live_in Refresh sig (committed c))"
  using code_use.uses_bounded [OF assms, of sig] refresh_use.uses_bounded [OF assms, of sig] by linarith

subsection \<open>Rotation\<close>

lemma perform_done:
  assumes "conn_idle c" and "perform tf flt op (pool_ctx c) = (Inr u, x)"
  shows "effect op (committed c) = Some (committed (ax_conn x))" and "conn_idle (ax_conn x)"
  using perform_exit [OF assms] by simp_all

lemma tbl_update_in_other: "\<not> p k r \<Longrightarrow> (\<And>k v. p k (f v) = p k v) \<Longrightarrow> (k, r) \<in> set (tbl_update p f t) \<longleftrightarrow> (k, r) \<in> set t"
  by (induction t) (auto simp: tbl_update_def)

text \<open>
  C19: A successful rotation retires the whole grant and nothing else: no refresh token of the
  request is active any more, no access token of it is left, the rows of every other grant are
  untouched, and the retired refresh tokens are still stored, so a replay is recognised. A second
  rotation of the same token then fails, whatever the circumstances.
\<close>

theorem rotation_ends_grant:
  assumes "conn_idle c" and "auth_ok (committed c)" and "perform tf flt (Rotate q sig) (pool_ctx c) = (Inr (), x)"
  shows "(\<forall>(k, r)\<in>set (oa_refresh (committed (ax_conn x))). tk_request_id r = q \<longrightarrow> \<not> tk_active r) \<and>
    (\<forall>(k, r)\<in>set (oa_access (committed (ax_conn x))). tk_request_id r \<noteq> q) \<and>
    (\<forall>k r. tk_request_id r \<noteq> q \<longrightarrow>
       ((k, r) \<in> set (oa_refresh (committed (ax_conn x))) \<longleftrightarrow> (k, r) \<in> set (oa_refresh (committed c))) \<and>
       ((k, r) \<in> set (oa_access (committed (ax_conn x))) \<longleftrightarrow> (k, r) \<in> set (oa_access (committed c)))) \<and>
    tbl_keys (oa_refresh (committed (ax_conn x))) = tbl_keys (oa_refresh (committed c)) \<and>
    fst (perform tf' flt' (Rotate q' sig) (pool_ctx (ax_conn x))) \<noteq> Inr ()"
proof -
  let ?d = "committed c" and ?d' = "committed (ax_conn x)"
  note e = perform_done [OF assms(1,3)]
  have d': "?d' = end_grant q ?d" using e(1) by (auto split: if_splits)
  have r: "oa_refresh ?d' = tbl_update (\<lambda>_ r. tk_request_id r = q) (\<lambda>r. r\<lparr>tk_active := False\<rparr>) (oa_refresh ?d)"
    using tokens_set_tokens(1) [of Refresh Access] by (simp add: d' end_grant_def drop_tokens_def retire_def flip: tokens_sel)
  have a: "oa_access ?d' = tbl_delete (\<lambda>_ r. tk_request_id r = q) (oa_access ?d)"
    by (simp add: d' end_grant_def drop_tokens_def retire_def flip: tokens_sel)
  have ok': "auth_ok ?d'" by (rule effect_auth_ok [OF e(1) assms(2)])
  have gone: "\<not> live_in Refresh sig ?d'" using refresh_use.use_once [OF e(1) assms(2)] by blast
  have "fst (perform tf' flt' (Rotate q' sig) (pool_ctx (ax_conn x))) \<noteq> Inr ()"
  proof
    assume f: "fst (perform tf' flt' (Rotate q' sig) (pool_ctx (ax_conn x))) = Inr ()"
    obtain x2 where "perform tf' flt' (Rotate q' sig) (pool_ctx (ax_conn x)) = (Inr (), x2)"
      using f by (cases "perform tf' flt' (Rotate q' sig) (pool_ctx (ax_conn x))") auto
    from refresh_use.use_once [OF perform_done(1) [OF e(2) this] ok'] gone show False by blast
  qed
  moreover have "\<not> tk_active w" if "(k, w) \<in> set (oa_refresh ?d')" "tk_request_id w = q" for k w
    using that active_update [of k w "\<lambda>_ r. tk_request_id r = q" "oa_refresh ?d"] by (auto simp: r)
  ultimately show ?thesis
    by (auto simp: r a set_tbl_delete table_simps tbl_update_in_other)
qed


subsection \<open>Revocation\<close>

text \<open>A counter that no step lowers and that certain steps raise; what carried an older value stays behind.\<close>

locale revocation_counter =
  fixes current :: "auth_db \<Rightarrow> int" and raises :: "storage_op \<Rightarrow> bool"
  assumes never_lower: "effect op d = Some d' \<Longrightarrow> current d \<le> current d'"
    and raised: "effect op d = Some d' \<Longrightarrow> raises op \<Longrightarrow> current d < current d'"
begin

lemma run_monotone:
  assumes "run_ops calls c = (tr, c')" and "conn_idle c"
  shows "current (committed c) \<le> current (committed c') \<and>
    (0 < succeeded raises tr \<longrightarrow> current (committed c) < current (committed c'))"
proof -
  have "conn_idle c' \<and> current (committed c) \<le> current (committed c') \<and>
      (0 < succeeded raises tr \<longrightarrow> current (committed c) < current (committed c'))"
    using assms
  proof (induction rule: run_ops_induct)
    case (Done op tr c c' d)
    then show ?case using never_lower [OF Done.hyps(3)] raised [OF Done.hyps(3)] by (auto split: if_splits)
  qed auto
  then show ?thesis by blast
qed

end

lemma generation_sum_bump:
  "generation_sum user (bump u d) = generation_sum user d + (if u = user \<or> u = AllUsers then 1 else 0)"
proof -
  have "sum_list (map snd (filter (\<lambda>(w, _). w = user \<or> w = AllUsers) (tbl_upsert u 1 (\<lambda>g. g + 1) t))) =
      sum_list (map snd (filter (\<lambda>(w, _). w = user \<or> w = AllUsers) t)) + (if u = user \<or> u = AllUsers then 1 else 0)"
    for t :: "(string \<times> int) list"
    by (induction t) auto
  then show ?thesis by (simp add: generation_sum_def bump_def)
qed

lemma effect_generations:
  "effect op d = Some d' \<Longrightarrow> (\<exists>u. op = Bump u \<and> u \<noteq> [] \<and> d' = bump u d) \<or> oa_generations d' = oa_generations d"
  by (cases op)
    (auto simp: create_effect_def register_effect_def Let_def drop_clients_def drop_expired_sel end_grant_def drop_tokens_def retire_def
      split: option.splits if_splits)

interpretation generations: revocation_counter "generation_sum user" "\<lambda>op. op = Bump user \<or> op = Bump AllUsers" for user
proof unfold_locales
  fix op d d'
  assume e: "effect op d = Some d'"
  consider u where "op = Bump u" "d' = bump u d" | "oa_generations d' = oa_generations d" "\<not> (\<exists>u. op = Bump u)"
    using effect_generations [OF e] e by (cases op) (auto split: if_splits)
  then show "generation_sum user d \<le> generation_sum user d'"
    by cases (auto simp: generation_sum_bump, simp add: generation_sum_def)
  show "op = Bump user \<or> op = Bump AllUsers \<Longrightarrow> generation_sum user d < generation_sum user d'"
    using e by (auto simp: generation_sum_bump split: if_splits)
qed

lemma CheckSession_old:
  assumes "conn_idle c" and "issued_gen s = Some n" and "n < generation_sum (se_subject s) (committed c)"
  shows "CheckSession flt (Some s) (pool_ctx c) \<noteq> None"
  using assms by (auto simp: CheckSession_def CurrentGeneration_def query_unfold split: sum.splits option.splits)

text \<open>
  C20: A revocation lasts. A session issued at a generation no later than the current one is refused
  ever after, once a \<open>BumpGeneration\<close> of its user or of everyone has succeeded, whatever else runs
  before or after it and whatever fails: no later operation makes it valid again. Loading a stored
  request that carries the session fails too.
\<close>

theorem revocation_lasts:
  assumes "run_ops calls c = (tr, c')" and "conn_idle c"
    and "issued_gen s = Some n" and "n \<le> generation_sum (se_subject s) (committed c)"
    and "0 < succeeded (\<lambda>op. op = Bump (se_subject s) \<or> op = Bump AllUsers) tr"
  shows "CheckSession flt (Some s) (pool_ctx c') \<noteq> None \<and>
    (\<forall>t sig r sq fs. tbl_get (tokens t (committed c')) sig = Some r \<and> row_request r = Some sq \<and> sq_session sq = Some s \<longrightarrow>
       (\<exists>e. load_request fs t sig (pool_ctx c') = Inl e))"
proof -
  have c': "conn_idle c'" by (rule run_ops_idle [OF assms(1,2)])
  have "n < generation_sum (se_subject s) (committed c')"
    using generations.run_monotone [OF assms(1,2), of "se_subject s"] assms(4,5) by linarith
  note no = CheckSession_old [OF c' assms(3) this]
  have "\<exists>e. load_request fs t sig (pool_ctx c') = Inl e"
    if "tbl_get (tokens t (committed c')) sig = Some r" "row_request r = Some sq" "sq_session sq = Some s" for t sig r sq fs
    using that no [of "fs 1"] c' by (auto simp: load_request_def query_unfold split: option.splits)
  with no show ?thesis by blast
qed

end
