(* ===== verification/AuthLive.thy ===== *)
theory AuthLive
  imports AuthProps
begin

text \<open>
  Reading the OAuth storage back: what a created row loads as, what \<open>ActiveTokens\<close> counts, what
  \<open>Prune\<close> removes, whom a registration may evict.
\<close>

subsection \<open>Loading\<close>

definition plain_session :: "session \<Rightarrow> bool" where
  "plain_session s \<longleftrightarrow> (\<exists>n. se_gen s = GenInt n \<and> \<bar>n\<bar> < 2 ^ 53)"

lemma issued_json:
  assumes "marshal_gen (se_gen s) = Some (JsInt n)" and "\<bar>n\<bar> < 2 ^ 53"
  shows "issued_gen (json_session s) = Some n"
  using assms by (simp add: json_session_def issued_gen_def unmarshal_gen_def float64_of_exact float_int_def)

lemma plain_json: "plain_session s \<Longrightarrow> issued_gen (json_session s) = issued_gen s"
  using issued_json [of s] by (auto simp: plain_session_def issued_gen_def marshal_gen_def)

lemma row_request_marshal: "tk_request r = Some (marshal_request sq) \<Longrightarrow> row_request r = Some (json_request sq)"
  by (simp add: row_request_def unmarshal_marshal)

lemma GetClient_known:
  assumes "conn_idle c" and "tbl_get (oa_clients (committed c)) k = Some r" and "client_decodes r"
  shows "GetClient None k (pool_ctx c) =
    Inr \<lparr>cl_id = k, cl_secret = [], cl_redirect_uris = the (oc_redirect_uris r), cl_grant_types = the (oc_grant_types r),
         cl_response_types = the (oc_response_types r), cl_scopes = the (oc_scopes r), cl_public = True\<rparr>"
  using assms by (auto simp: GetClient_def query_unfold client_decodes_def)

lemma client_decodes_get: "auth_ok d \<Longrightarrow> tbl_get (oa_clients d) k = Some r \<Longrightarrow> client_decodes r"
  by (auto simp: auth_ok_def dest: tbl_get_in)

text \<open>\<open>load_request\<close> without a failing statement, on a row that decodes.\<close>

lemma load_row:
  assumes c: "conn_idle c" "auth_ok (committed c)" and r: "tbl_get (tokens t (committed c)) sig = Some r"
    and sq: "row_request r = Some sq" "sq_session sq = Some s"
  shows "load_request (\<lambda>_. None) t sig (pool_ctx c) =
    (if se_subject s \<noteq> [] \<and> issued_gen s = Some (generation_sum (se_subject s) (committed c))
     then (case GetClient None (sq_client_id sq) (pool_ctx c) of Inl e \<Rightarrow> Inl e | Inr cl \<Rightarrow> Inr (from_stored sq cl, active_expr t r))
     else Inl not_found)"
proof -
  have ok: "ctx_ok (pool_ctx c)" using c by simp
  show ?thesis
    by (auto simp: load_request_def query_unfold [OF ok] r sq CheckSession_def CurrentGeneration_def revoked_error_def
        split: option.splits sum.splits)
qed

lemma utf8_storedForm: "k \<in> set storedForm \<Longrightarrow> utf8 k = k"
proof -
  have "list_all ascii storedForm" by code_simp
  then show "k \<in> set storedForm \<Longrightarrow> utf8 k = k" by (simp add: list_all_iff utf8_ascii)
qed

lemma json_form_keep: "json_form (keep_form form) = map (\<lambda>(k, vs). (k, map utf8 vs)) (keep_form form)"
  using keep_form_keys [of form] utf8_storedForm by (fastforce simp: json_form_def)

lemma map_of_keep_form: "map_of (keep_form form) k = (if k \<in> set storedForm then map_of form k else None)"
proof -
  have "map_of (List.map_filter (\<lambda>k. map_option (Pair k) (f k)) ks) k = (if k \<in> set ks then f k else None)"
    for f :: "string \<Rightarrow> string list option" and ks
    by (induction ks) (auto simp: List.map_filter_def split: option.splits)
  then show ?thesis by (simp add: keep_form_def)
qed

lemma json_form_kept:
  "map_of (json_form (keep_form form)) k = (if k \<in> set storedForm then map_option (map utf8) (map_of form k) else None)"
  by (simp add: json_form_keep map_of_map map_of_keep_form)

text \<open>
  C21: A stored request reads back, as JSON keeps it. After a successful create of any kind, for a
  session of the user's current generation (as \<open>NewSession\<close> makes it) whose subject and client id are
  UTF-8, a lookup under the same signature on a pool without failures gives back the request: same
  id, time, scopes and audiences, the client as it is registered, the session with the same subject,
  name, expiries and generation, the form restricted to the stored parameters, all with U+FFFD for
  each byte that is no UTF-8; and the row is active.
\<close>

theorem create_load:
  assumes "conn_idle c" and "auth_ok (committed c)"
    and "create flt t k sig req (pool_ctx c) = (Inr u, x)" and "rq_session req = Some s" and "rq_client req = Some cl"
    and "plain_session s" and "se_subject s \<noteq> []" and "issued_gen s = Some (generation_sum (se_subject s) (committed c))"
    and "utf8 (se_subject s) = se_subject s" and "utf8 (cl_id cl) = cl_id cl"
  shows "\<exists>req' cl'. load_request (\<lambda>_. None) t sig (pool_ctx (ax_conn x)) = Inr (req', True) \<and>
    GetClient None (cl_id cl) (pool_ctx c) = Inr cl' \<and> rq_client req' = Some cl' \<and>
    (rq_id req', rq_requested_at req') = (utf8 (rq_id req), rq_requested_at req) \<and>
    (rq_requested_scope req', rq_granted_scope req', rq_requested_audience req', rq_granted_audience req') =
      (map utf8 (rq_requested_scope req), map utf8 (rq_granted_scope req),
       map utf8 (rq_requested_audience req), map utf8 (rq_granted_audience req)) \<and>
    (\<forall>p. map_of (rq_form req') p = (if p \<in> set storedForm then map_option (map utf8) (map_of (rq_form req) p) else None)) \<and>
    (\<exists>s'. rq_session req' = Some s' \<and> issued_gen s' = issued_gen s \<and>
      (se_subject s', se_username s', se_expires s') = (se_subject s, utf8 (se_username s), se_expires s))"
proof -
  have "implements False (create flt t k sig req) (create_effect t k sig req)" by (rule implements_create) simp_all
  then obtain spec where sp: "simulates False (create flt t k sig req) spec" "\<And>d. meets (create_effect t k sig req d) (spec d)"
    by (auto simp: implements_def)
  have ok: "ctx_ok (pool_ctx c)" using assms(1) by simp
  have "same_tx (pool_ctx c) x" using steps_same [OF simulates_steps [OF sp(1)] ok] by (simp add: assms(3))
  then have x: "conn_idle (ax_conn x)" "view x = committed (ax_conn x)"
    by (auto simp: same_tx_def ctx_ok_def conn_idle_def view_def split: option.splits)
  have e: "create_effect t k sig req (committed c) = Some (committed (ax_conn x))"
    using steps_value [OF simulates_steps [OF sp(1)] ok assms(3)] sp(2) [of "committed c"] x by simp
  let ?d' = "committed (ax_conn x)" and ?sq = "to_stored req cl s"
  let ?row = "\<lparr>tk_request_id = rq_id req, tk_client_id = cl_id cl, tk_expires_at = formatTime (GetExpiresAt s k),
                         tk_active = True, tk_request = Some (marshal_request ?sq)\<rparr>"
  have c1: "tbl_get (tokens t (committed c)) sig = None" "tbl_get (oa_clients (committed c)) (cl_id cl) \<noteq> None"
    "?d' = set_tokens t (tokens t (committed c) @ [(sig, ?row)]) (committed c)"
    using e by (auto simp: create_effect_def assms(4,5) split: if_splits)
  have ok': "auth_ok ?d'" by (rule auth_ok_create [OF assms(2) e])
  obtain cr where cr: "tbl_get (oa_clients (committed c)) (cl_id cl) = Some cr" using c1(2) by blast
  have get: "tbl_get (tokens t ?d') sig = Some ?row" by (simp add: c1(1,3) tbl_get_append)
  have cl1: "GetClient None (cl_id cl) (pool_ctx (ax_conn x)) = GetClient None (cl_id cl) (pool_ctx c)"
    using assms(1) x(1) by (simp add: GetClient_def query_unfold c1(3))
  have gen: "generation_sum u ?d' = generation_sum u (committed c)" for u by (simp add: generation_sum_def c1(3))
  obtain cl' where cl': "GetClient None (cl_id cl) (pool_ctx c) = Inr cl'"
    using GetClient_known [OF assms(1) cr client_decodes_get [OF assms(2) cr]] by blast
  have sq: "sq_session (json_request ?sq) = Some (json_session s)" "sq_client_id (json_request ?sq) = cl_id cl"
    by (simp_all add: json_request_def to_stored_def assms(10))
  have subj: "se_subject (json_session s) = se_subject s" by (simp add: json_session_def assms(9))
  have "load_request (\<lambda>_. None) t sig (pool_ctx (ax_conn x)) = Inr (from_stored (json_request ?sq) cl', True)"
    using load_row [OF x(1) ok' get row_request_marshal sq(1)] plain_json [OF assms(6)] assms(7,8)
    by (simp add: sq(2) subj gen cl1 cl' active_expr_def split: token_table.split)
  then show ?thesis
    using plain_json [OF assms(6)] cl' subj
    by (auto simp: from_stored_def sq json_request_def to_stored_def json_form_kept json_session_def)
qed

subsection \<open>Counting what would work\<close>

text \<open>
  The token under \<open>sig\<close> would work for \<open>user\<close> right now: it has not expired, \<open>load_request\<close> returns it, it is
  active, and its session is the user's.
\<close>

definition usable :: "string \<Rightarrow> string \<Rightarrow> token_table \<Rightarrow> auth_ctx \<Rightarrow> string \<times> token_row \<Rightarrow> bool" where
  "usable now user t x kr \<longleftrightarrow> now < tk_expires_at (snd kr) \<and>
     (case load_request (\<lambda>_. None) t (fst kr) x of
        Inl _ \<Rightarrow> False
      | Inr (req, active) \<Rightarrow> active \<and>
          (case rq_session req of None \<Rightarrow> False | Some s \<Rightarrow> user = AllUsers \<or> se_subject s = user))"

text \<open>Rows whose generation is a whole number a float holds, of clients whose id is UTF-8.\<close>

definition rows_plain :: "auth_db \<Rightarrow> bool" where
  "rows_plain d \<longleftrightarrow> (\<forall>t. \<forall>(k, r)\<in>set (tokens t d). utf8 (tk_client_id r) = tk_client_id r \<and>
     (\<exists>j n. tk_request r = Some j \<and> json_extract [''session'', ''extra'', ''gen''] j = Some (JsInt n) \<and> \<bar>n\<bar> < 2 ^ 53))"

lemma count_current_run:
  assumes c: "conn_idle c" and g: "\<forall>(s, g)\<in>set gens. g = generation_sum s (committed c)"
  shows "\<exists>gens'. count_current (\<lambda>_. None) ss gens n (pool_ctx c) =
      Inr (n + length (filter (\<lambda>(s, g). g = generation_sum s (committed c)) ss), gens') \<and>
    (\<forall>(s, g)\<in>set gens'. g = generation_sum s (committed c))"
  using g
proof (induction ss arbitrary: gens n)
  case Nil
  then show ?case by simp
next
  case (Cons a ss)
  obtain s g where a: "a = (s, g)" by fastforce
  show ?case
  proof (cases "map_of gens s")
    case None
    have "CurrentGeneration None s (pool_ctx c) = Inr (generation_sum s (committed c))"
      using c by (simp add: CurrentGeneration_def query_unfold)
    with Cons.IH [of "(s, generation_sum s (committed c)) # gens" "if g = generation_sum s (committed c) then Suc n else n"] Cons.prems
    show ?thesis by (auto simp: a None split: if_splits)
  next
    case (Some cur)
    then have "cur = generation_sum s (committed c)" using Cons.prems by (auto dest: map_of_SomeD)
    with Cons.IH [OF Cons.prems, of "if g = generation_sum s (committed c) then Suc n else n"]
    show ?thesis by (auto simp: a Some split: if_splits)
  qed
qed

text \<open>A row as the count sees it: its subject and its generation.\<close>

definition row_gen :: "string \<times> token_row \<Rightarrow> string \<times> int option" where
  "row_gen kr = (let s = the (sq_session (the (row_request (snd kr)))) in (se_subject s, issued_gen s))"

lemma extract_session:
  assumes "sq_session sq = Some s"
  shows "json_extract [''session'', ''extra'', ''gen''] (marshal_request sq) = marshal_gen (se_gen s)"
    "json_extract [''session'', ''subject''] (marshal_request sq) = Some (JsText (utf8 (se_subject s)))"
  by (simp_all add: marshal_request_def assms marshal_session_def marshal_extra_def marshal_text_def split: option.split)

lemma row_parts:
  assumes "auth_ok d" "rows_plain d" "(k, r) \<in> set (tokens t d)"
  obtains sq s n cr where "tk_request r = Some (marshal_request sq)" "sq_session sq = Some s"
    "marshal_gen (se_gen s) = Some (JsInt n)" "issued_gen (json_session s) = Some n" "- (2 ^ 63) \<le> n" "n < 2 ^ 63"
    "sq_client_id (json_request sq) = tk_client_id r" "tbl_get (oa_clients d) (tk_client_id r) = Some cr" "client_decodes cr"
proof -
  have r: "row_ok d r" by (rule auth_okD(4) [OF assms(1,3)])
  then obtain sq s where sq: "tk_request r = Some (marshal_request sq)" "sq_session sq = Some s" "sq_client_id sq = tk_client_id r"
    by (auto simp: row_ok_def)
  obtain cr where cr: "tbl_get (oa_clients d) (tk_client_id r) = Some cr" using r by (auto simp: row_ok_def)
  from assms(2,3) obtain n where n: "marshal_gen (se_gen s) = Some (JsInt n)" "\<bar>n\<bar> < 2 ^ 53" "utf8 (tk_client_id r) = tk_client_id r"
    by (fastforce simp: rows_plain_def sq(1) extract_session [OF sq(2)])
  have "- (2 ^ 63) \<le> n" "n < 2 ^ 63" using n(2) by auto
  moreover have "sq_client_id (json_request sq) = tk_client_id r" by (simp add: json_request_def sq(3) n(3))
  ultimately show thesis
    using that sq(1,2) n(1) issued_json [OF n(1,2)] cr client_decodes_get [OF assms(1) cr] by blast
qed

lemma row_gen_row:
  assumes "tk_request r = Some (marshal_request sq)" "sq_session sq = Some s"
  shows "row_gen (k, r) = (utf8 (se_subject s), issued_gen (json_session s))"
  by (simp add: row_gen_def row_request_marshal [OF assms(1)] json_request_def assms(2) json_session_def Let_def)

lemma scan_session_row:
  assumes "auth_ok d" "rows_plain d" "kr \<in> set (tokens t d)"
  shows "scan_session kr = Inr (row_gen kr)"
proof -
  obtain k r where kr: "kr = (k, r)" by fastforce
  show ?thesis
  proof (rule row_parts [OF assms(1,2) assms(3) [unfolded kr]])
    fix sq s n cr
    assume r: "tk_request r = Some (marshal_request sq)" "sq_session sq = Some s" "marshal_gen (se_gen s) = Some (JsInt n)"
      "issued_gen (json_session s) = Some n" "- (2 ^ 63) \<le> n" "n < 2 ^ 63"
    then show ?thesis
      by (simp add: kr scan_session_def scan_gen_def scan_subject_def extract_session [OF r(2)] row_gen_row [OF r(1,2)])
  qed
qed

lemma usable_row:
  assumes c: "conn_idle c" "auth_ok (committed c)" "rows_plain (committed c)" and kr: "kr \<in> set (tokens t (committed c))"
  shows "usable now user t (pool_ctx c) kr \<longleftrightarrow> now < tk_expires_at (snd kr) \<and> active_expr t (snd kr) \<and>
    (case wanted user (row_gen kr) of None \<Rightarrow> False | Some (s, g) \<Rightarrow> g = generation_sum s (committed c))"
proof -
  obtain k r where k: "kr = (k, r)" by fastforce
  have get: "tbl_get (tokens t (committed c)) k = Some r"
    using tbl_in_get [OF auth_okD(2) [OF c(2)]] kr by (simp add: k)
  show ?thesis
  proof (rule row_parts [OF c(2,3) kr [unfolded k]])
    fix sq s n cr
    assume r: "tk_request r = Some (marshal_request sq)" "sq_session sq = Some s" "issued_gen (json_session s) = Some n"
      "sq_client_id (json_request sq) = tk_client_id r" "tbl_get (oa_clients (committed c)) (tk_client_id r) = Some cr"
      "client_decodes cr"
    have s: "sq_session (json_request sq) = Some (json_session s)" by (simp add: json_request_def r(2))
    have subj: "se_subject (json_session s) = utf8 (se_subject s)" by (simp add: json_session_def)
    show ?thesis
      using load_row [OF c(1,2) get row_request_marshal [OF r(1)] s] GetClient_known [OF c(1) r(5,6)]
      by (auto simp: usable_def k r(3,4) s subj row_gen_row [OF r(1,2)] wanted_def from_stored_def)
  qed
qed

lemma length_filter_map_filter:
  "length (filter Q (List.map_filter f xs)) = length (filter (\<lambda>x. case f x of None \<Rightarrow> False | Some y \<Rightarrow> Q y) xs)"
  by (induction xs) (auto simp: List.map_filter_def split: option.splits)

lemma countActive_usable:
  assumes c: "conn_idle c" "auth_ok (committed c)" "rows_plain (committed c)"
    and g: "\<forall>(s, g)\<in>set gens. g = generation_sum s (committed c)"
  shows "\<exists>gens'. countActive None (\<lambda>_. None) t now user gens (pool_ctx c) =
      Inr (length (filter (usable now user t (pool_ctx c)) (tokens t (committed c))), gens') \<and>
    (\<forall>(s, g)\<in>set gens'. g = generation_sum s (committed c))"
proof -
  let ?rows = "filter (\<lambda>(_, r). now < tk_expires_at r \<and> active_expr t r) (tokens t (committed c))"
  have col: "collect scan_session ?rows = Inr (map row_gen ?rows)"
    by (rule collect_map) (use scan_session_row [OF c(2,3)] in auto)
  let ?Q = "\<lambda>(s, g). g = generation_sum s (committed c)"
  have "length (filter ?Q (List.map_filter (wanted user) (map row_gen ?rows))) =
      length (filter (usable now user t (pool_ctx c)) (tokens t (committed c)))"
  proof -
    have "filter (\<lambda>kr. case wanted user (row_gen kr) of None \<Rightarrow> False | Some y \<Rightarrow> ?Q y) ?rows =
        filter (usable now user t (pool_ctx c)) (tokens t (committed c))"
      unfolding filter_filter
      by (rule filter_cong [OF refl]) (use usable_row [OF c] in \<open>auto split: prod.splits\<close>)
    then show ?thesis
      by (simp add: length_filter_map_filter filter_map comp_def)
  qed
  then show ?thesis
    using count_current_run [OF c(1) g, of "List.map_filter (wanted user) (map row_gen ?rows)" 0] c(1)
    by (auto simp: countActive_def query_unfold col)
qed

lemma sum_tables_usable:
  assumes c: "conn_idle c" "auth_ok (committed c)" "rows_plain (committed c)"
    and g: "\<forall>(s, g)\<in>set gens. g = generation_sum s (committed c)"
  shows "sum_tables (\<lambda>_. None) (\<lambda>_. None) ts now user gens acc (pool_ctx c) =
    Inr (acc + (\<Sum>t\<leftarrow>ts. length (filter (usable now user t (pool_ctx c)) (tokens t (committed c)))))"
  using g
proof (induction ts arbitrary: gens acc)
  case (Cons t ts)
  obtain gens' where "countActive None (\<lambda>_. None) t now user gens (pool_ctx c) =
      Inr (length (filter (usable now user t (pool_ctx c)) (tokens t (committed c))), gens')"
    "\<forall>(s, g)\<in>set gens'. g = generation_sum s (committed c)"
    using countActive_usable [OF c Cons.prems] by blast
  with Cons.IH show ?case by simp
qed simp

text \<open>
  What \<open>ActiveTokens\<close> reports (read by \<open>finbot revoke\<close>) is exact: on a pool without failures
  it is the number of stored access tokens, refresh tokens and codes that a lookup would hand out
  right now for that user (everyone for \<open>AllUsers\<close>): unexpired, active, of the user's current
  generation.
\<close>

theorem ActiveTokens_exact:
  assumes "conn_idle c" and "auth_ok (committed c)" and "rows_plain (committed c)"
  shows "ActiveTokens (\<lambda>_. None) (\<lambda>_. None) now user (pool_ctx c) =
    Inr (\<Sum>t\<leftarrow>[Access, Refresh, Codes]. length (filter (usable (formatTime now) user t (pool_ctx c)) (tokens t (committed c))))"
  unfolding ActiveTokens_def using sum_tables_usable [OF assms, of "[]"] by simp


subsection \<open>Pruning\<close>

lemma Prune_done:
  assumes c: "conn_idle c" and r: "Prune tf flt now (pool_ctx c) = (Inr n, x)"
  shows "conn_idle (ax_conn x) \<and> committed (ax_conn x) = drop_expired (formatTime now) (committed c) \<and>
    n = (\<Sum>t\<leftarrow>[Codes, Access, Refresh, PKCE]. tbl_count (\<lambda>_ r. tk_expires_at r \<le> formatTime now) (tokens t (committed c)))"
proof -
  have sp: "simulates False (Prune tf flt now) (\<lambda>d. Inr (\<Sum>t\<leftarrow>[Codes, Access, Refresh, PKCE].
      tbl_count (\<lambda>_ r. tk_expires_at r \<le> formatTime now) (tokens t d), drop_expired (formatTime now) d))"
    by (rule simulates_Prune) simp_all
  have ok: "ctx_ok (pool_ctx c)" using c by simp
  have "same_tx (pool_ctx c) x" using steps_same [OF simulates_steps [OF sp] ok] by (simp add: r)
  then have x: "conn_idle (ax_conn x)" "view x = committed (ax_conn x)"
    by (auto simp: same_tx_def ctx_ok_def conn_idle_def view_def split: option.splits)
  show ?thesis using steps_value [OF simulates_steps [OF sp] ok r] x by auto
qed

lemma countActive_pruned:
  assumes "conn_idle c" "conn_idle c'" and d: "committed c' = drop_expired now (committed c)" and "now \<le> later"
  shows "countActive qf gf t later user gens (pool_ctx c') = countActive qf gf t later user gens (pool_ctx c)"
proof -
  have "filter (\<lambda>(_, r). later < tk_expires_at r \<and> active_expr t r) (tokens t (committed c')) =
      filter (\<lambda>(_, r). later < tk_expires_at r \<and> active_expr t r) (tokens t (committed c))"
    using assms(4) by (auto simp: d drop_expired_sel tbl_delete_def intro!: filter_cong)
  moreover have "count_current gf ss gens n (pool_ctx c') = count_current gf ss gens n (pool_ctx c)" for ss gens n
  proof -
    have "CurrentGeneration f s (pool_ctx c') = CurrentGeneration f s (pool_ctx c)" for f s
      using assms(1,2) by (cases f) (simp_all add: CurrentGeneration_def query_unfold generation_sum_def d drop_expired_sel)
    then show ?thesis by (induction gf ss gens n "pool_ctx c" rule: count_current.induct) (auto split: option.splits sum.splits)
  qed
  ultimately show ?thesis
    using assms(1,2) by (simp add: countActive_def query_unfold split: option.splits sum.splits)
qed

text \<open>
  \<open>Prune\<close> removes exactly the rows past their expiry, of every token table, in place: it returns
  their number, the rows that are left are the unexpired ones in the same order, clients and
  generations stay, and no count of live tokens at any later time changes.
\<close>

theorem Prune_exact:
  assumes "conn_idle c" and "Prune tf flt now (pool_ctx c) = (Inr n, x)"
    and "storable now" and "storable later" and "now \<le> later"
  shows "(\<forall>t. tokens t (committed (ax_conn x)) = filter (\<lambda>(_, r). formatTime now < tk_expires_at r) (tokens t (committed c))) \<and>
    n + (\<Sum>t\<leftarrow>[Codes, Access, Refresh, PKCE]. length (tokens t (committed (ax_conn x)))) =
      (\<Sum>t\<leftarrow>[Codes, Access, Refresh, PKCE]. length (tokens t (committed c))) \<and>
    oa_clients (committed (ax_conn x)) = oa_clients (committed c) \<and>
    oa_generations (committed (ax_conn x)) = oa_generations (committed c) \<and>
    ActiveTokens qf gf later user (pool_ctx (ax_conn x)) = ActiveTokens qf gf later user (pool_ctx c)"
proof -
  let ?p = "\<lambda>_ r. tk_expires_at r \<le> formatTime now"
  from Prune_done [OF assms(1,2)] have x: "conn_idle (ax_conn x)"
    and d: "committed (ax_conn x) = drop_expired (formatTime now) (committed c)"
    and n: "n = (\<Sum>t\<leftarrow>[Codes, Access, Refresh, PKCE]. tbl_count ?p (tokens t (committed c)))" by simp_all
  have le: "formatTime now \<le> formatTime later" using assms(3-5) by (simp add: formatTime_le)
  have "sum_tables qf gf ts (formatTime later) user gens acc (pool_ctx (ax_conn x)) =
      sum_tables qf gf ts (formatTime later) user gens acc (pool_ctx c)" for ts gens acc
    by (induction ts arbitrary: gens acc)
      (auto simp: countActive_pruned [OF assms(1) x d le] split: sum.splits)
  then have "ActiveTokens qf gf later user (pool_ctx (ax_conn x)) = ActiveTokens qf gf later user (pool_ctx c)"
    by (simp only: ActiveTokens_def)
  moreover have each: "tbl_count ?p (tokens t (committed c)) + length (tokens t (committed (ax_conn x))) = length (tokens t (committed c))" for t
    using length_tbl_delete [of ?p "tokens t (committed c)"] by (simp add: d drop_expired_sel)
  have "n + (\<Sum>t\<leftarrow>[Codes, Access, Refresh, PKCE]. length (tokens t (committed (ax_conn x)))) =
      (\<Sum>t\<leftarrow>[Codes, Access, Refresh, PKCE]. length (tokens t (committed c)))"
    using each [of Codes] each [of Access] each [of Refresh] each [of PKCE] by (simp add: n)
  moreover have "tokens t (committed (ax_conn x)) = filter (\<lambda>(_, r). formatTime now < tk_expires_at r) (tokens t (committed c))" for t
    by (simp add: d drop_expired_sel tbl_delete_def not_le)
  ultimately show ?thesis by (simp add: d drop_expired_sel)
qed

subsection \<open>Registering\<close>

lemma sorted_take_drop:
  assumes "a \<in> set (take n (sort_key f xs))" "b \<in> set (drop n (sort_key f xs))"
  shows "f a \<le> f b"
proof -
  have "sorted (map f (take n (sort_key f xs) @ drop n (sort_key f xs)))" by simp
  then show ?thesis using assms by (simp only: map_append sorted_append) auto
qed

lemma evicted_oldest:
  assumes "tbl_ok (oa_clients d)" and "(k, r) \<in> set (oa_clients d)" "k \<in> set (evictable now n d)"
    and "(k', r') \<in> set (oa_clients d)" "k' \<notin> set (evictable now n d)" "\<not> has_live_grant now d k'"
  shows "oc_created_at r \<le> oc_created_at r'"
proof -
  let ?xs = "filter (\<lambda>(c, _). \<not> has_live_grant now d c) (oa_clients d)" and ?f = "\<lambda>(_, r). oc_created_at r"
  have ev: "evictable now n d = map fst (take n (sort_key ?f ?xs))" by (simp add: evictable_def take_map)
  obtain r1 where r1: "(k, r1) \<in> set (take n (sort_key ?f ?xs))" using assms(3) by (auto simp: ev)
  then have "(k, r1) \<in> set (oa_clients d)" by (auto dest: in_set_takeD)
  with assms(1,2) have "r1 = r" by (metis option.inject tbl_in_get)
  have "(k', r') \<in> set (take n (sort_key ?f ?xs) @ drop n (sort_key ?f ?xs))" using assms(4,6) by simp
  then have "(k', r') \<in> set (drop n (sort_key ?f ?xs))" using assms(5) by (force simp: ev simp del: append_take_drop_id)
  from sorted_take_drop [OF r1 this] \<open>r1 = r\<close> show ?thesis by simp
qed

text \<open>
  C24: A registration under a new id keeps the cap without touching a live grant, and evicts no client
  more than it must. After a successful \<open>RegisterClient\<close> the new client is the last row and reads back
  with the lists it was given (with U+FFFD for bytes that are no UTF-8); the clients are one more than
  before, or \<open>MaxClients\<close> when that is less, so at the cap exactly one made room; every client with a live code, access token or refresh
  token is still there with all its rows; every client that was evicted was no younger than any
  client without a live grant that stayed; and below the cap nothing is evicted.
\<close>

theorem RegisterClient_cap:
  assumes "conn_idle c" and "auth_ok (committed c)" and "perform tf flt (Register now cl name) (pool_ctx c) = (Inr (), x)"
    and "tbl_get (oa_clients (committed c)) (cl_id cl) = None"
  shows "length (oa_clients (committed (ax_conn x))) = min (length (oa_clients (committed c)) + 1) MaxClients \<and>
    last (oa_clients (committed (ax_conn x))) = (cl_id cl, client_row_of cl name now) \<and>
    GetClient None (cl_id cl) (pool_ctx (ax_conn x)) = Inr (cl\<lparr>cl_secret := [], cl_public := True,
      cl_redirect_uris := map utf8 (cl_redirect_uris cl), cl_grant_types := map utf8 (cl_grant_types cl),
      cl_response_types := map utf8 (cl_response_types cl), cl_scopes := map utf8 (cl_scopes cl)\<rparr>) \<and>
    (\<forall>k r. (k, r) \<in> set (oa_clients (committed c)) \<and> has_live_grant (formatTime now) (committed c) k \<longrightarrow>
       (k, r) \<in> set (oa_clients (committed (ax_conn x))) \<and>
       (\<forall>t. filter (\<lambda>(_, w). tk_client_id w = k) (tokens t (committed (ax_conn x))) =
            filter (\<lambda>(_, w). tk_client_id w = k) (tokens t (committed c)))) \<and>
    (\<forall>k r k' r'. (k, r) \<in> set (oa_clients (committed c)) \<and> (k, r) \<notin> set (oa_clients (committed (ax_conn x))) \<and>
       (k', r') \<in> set (oa_clients (committed c)) \<and> (k', r') \<in> set (oa_clients (committed (ax_conn x))) \<and>
       \<not> has_live_grant (formatTime now) (committed c) k' \<longrightarrow> oc_created_at r \<le> oc_created_at r') \<and>
    (length (oa_clients (committed c)) < MaxClients \<longrightarrow> set (oa_clients (committed c)) \<subseteq> set (oa_clients (committed (ax_conn x))))"
proof -
  let ?d = "committed c" and ?d' = "committed (ax_conn x)"
  let ?cs = "evictable (formatTime now) (length (oa_clients ?d) + 1 - MaxClients) ?d"
  note e = perform_done [OF assms(1,3)]
  have reg: "register_effect now cl name ?d = Some ?d'" using e(1) by simp
  have pub: "cl_public cl" "cl_secret cl = []"
    using reg by (auto simp: register_effect_def Let_def split: if_splits)
  note r = register_effectD [OF reg assms(2)]
  have tok: "tbl_ok (oa_clients ?d)" by (rule auth_okD(1) [OF assms(2)])
  have cl': "oa_clients ?d' = tbl_delete (\<lambda>k _. k \<in> set ?cs) (oa_clients ?d) @ [(cl_id cl, client_row_of cl name now)]"
    by (simp add: r(1) add_client_sel drop_clients_sel)
  have stay: "(k, w) \<in> set (oa_clients ?d') \<longleftrightarrow> k \<notin> set ?cs" if "(k, w) \<in> set (oa_clients ?d)" for k w
    using that assms(4) tbl_in_get [OF tok that] by (auto simp: cl' set_tbl_delete)
  have "GetClient None (cl_id cl) (pool_ctx (ax_conn x)) = Inr (cl\<lparr>cl_secret := [], cl_public := True,
      cl_redirect_uris := map utf8 (cl_redirect_uris cl), cl_grant_types := map utf8 (cl_grant_types cl),
      cl_response_types := map utf8 (cl_response_types cl), cl_scopes := map utf8 (cl_scopes cl)\<rparr>)"
    by (subst GetClient_known [OF e(2), of _ "client_row_of cl name now"])
      (use r(3) in \<open>simp_all add: cl' drop_clients_sel tbl_get_append client_decodes_def client_row_of_def\<close>)
  moreover have "(k, w) \<in> set (oa_clients ?d') \<and>
      filter (\<lambda>(_, w). tk_client_id w = k) (tokens t ?d') = filter (\<lambda>(_, w). tk_client_id w = k) (tokens t ?d)"
    if "(k, w) \<in> set (oa_clients ?d)" "has_live_grant (formatTime now) ?d k" for k w t
  proof -
    have k: "k \<notin> set ?cs" using evictable_keys(3) [OF tok] that(2) by blast
    have "tokens t ?d' = tbl_delete (\<lambda>_ r. tk_client_id r \<in> set ?cs) (tokens t ?d)"
      by (simp add: r(1) add_client_sel drop_clients_sel)
    then have "filter (\<lambda>(_, w). tk_client_id w = k) (tokens t ?d') = filter (\<lambda>(_, w). tk_client_id w = k) (tokens t ?d)"
      using k by (auto simp: tbl_delete_def intro!: filter_cong)
    then show ?thesis using stay [OF that(1)] k by simp
  qed
  moreover have "oc_created_at w \<le> oc_created_at w'"
    if "(k, w) \<in> set (oa_clients ?d)" "(k, w) \<notin> set (oa_clients ?d')" "(k', w') \<in> set (oa_clients ?d)"
      "(k', w') \<in> set (oa_clients ?d')" "\<not> has_live_grant (formatTime now) ?d k'" for k w k' w'
    using evicted_oldest [OF tok that(1) _ that(3) _ that(5)] stay [OF that(1)] stay [OF that(3)] that(2,4) by blast
  moreover have "set (oa_clients ?d) \<subseteq> set (oa_clients ?d')" if "length (oa_clients ?d) < MaxClients"
  proof -
    have "?cs = []" using that by (simp add: evictable_def)
    then show ?thesis using stay by auto
  qed
  moreover have "length (oa_clients ?d') = min (length (oa_clients ?d) + 1) MaxClients" by (rule r(2))
  moreover have "last (oa_clients ?d') = (cl_id cl, client_row_of cl name now)" by (simp add: cl')
  ultimately show ?thesis by blast
qed


subsection \<open>Witnesses\<close>

definition ex_app :: oauth_client where
  "ex_app = \<lparr>cl_id = ''app'', cl_secret = [], cl_redirect_uris = [''https://app.example/cb''],
     cl_grant_types = [''authorization_code'', ''refresh_token''], cl_response_types = [''code''], cl_scopes = [''mcp''], cl_public = True\<rparr>"

definition ex_session :: session where
  "ex_session = (NewSession ''u_1'' ''Ann'' 0)\<lparr>se_expires := [(AuthorizeCode, 5), (RefreshToken, 9)]\<rparr>"

definition ex_request :: requester where
  "ex_request = \<lparr>rq_id = ''r1'', rq_requested_at = 1, rq_client = Some ex_app, rq_requested_scope = [''mcp''],
     rq_granted_scope = [''mcp''], rq_requested_audience = [], rq_granted_audience = [],
     rq_form = [(''code'', [''secret'']), (''code_challenge'', [[CHR 0xFF]]), (''scope'', [''mcp''])], rq_session = Some ex_session\<rparr>"

definition ex_row :: token_row where
  "ex_row = \<lparr>tk_request_id = ''r1'', tk_client_id = ''app'', tk_expires_at = ''2030'', tk_active = True,
     tk_request = Some (marshal_request (to_stored ex_request ex_app ex_session))\<rparr>"

definition ex_auth :: auth_db where
  "ex_auth = empty_auth\<lparr>oa_clients := [(''app'', client_row_of ex_app ''App'' 0)], oa_refresh := [(''tok'', ex_row)]\<rparr>"

lemmas ex_auth_defs = ex_auth_def ex_row_def ex_request_def ex_session_def ex_app_def empty_auth_def NewSession_def

lemma ex_auth_tokens: "tokens t ex_auth = (if t = Refresh then [(''tok'', ex_row)] else [])"
  "oa_clients ex_auth = [(''app'', client_row_of ex_app ''App'' 0)]" "oa_generations ex_auth = []"
  by (cases t; simp add: ex_auth_def empty_auth_def tokens_def)+

lemma ascii_text: "ascii [] = True" "ascii (c # cs) \<longleftrightarrow> of_char c < (128 :: nat) \<and> ascii cs"
  by (simp_all add: ascii_def)

lemma ex_texts [simp]: "utf8 ''app'' = ''app''" "utf8 ''u_1'' = ''u_1''" "utf8 ''r1'' = ''r1''"
  by (rule utf8_ascii, simp add: ascii_text)+

lemma ex_row_request: "sq_session (to_stored ex_request ex_app ex_session) = Some ex_session"
  by (simp add: to_stored_def)

lemma ex_auth_ok: "auth_ok ex_auth" "rows_plain ex_auth"
proof -
  have "row_ok ex_auth ex_row"
    unfolding row_ok_def using keep_form_keys [of "rq_form ex_request"]
    by (intro conjI exI [of _ "to_stored ex_request ex_app ex_session"])
      (simp_all add: ex_auth_tokens ex_row_def to_stored_def ex_request_def ex_app_def)
  then show "auth_ok ex_auth"
    by (auto simp: auth_ok_def ex_auth_tokens client_decodes_def client_row_of_def MaxClients_def tbl_ok_def tbl_keys_def)
  show "rows_plain ex_auth"
    using extract_session(1) [OF ex_row_request]
    by (auto simp: rows_plain_def ex_auth_tokens ex_row_def ex_session_def NewSession_def marshal_gen_def)
qed

theorem storage_refines_witness:
  "\<exists>x. perform no_faults (\<lambda>_. None) (Rotate ''r1'' ''tok'') (pool_ctx (fresh_conn ex_auth)) = (Inr (), x) \<and>
     committed (ax_conn x) = end_grant ''r1'' ex_auth"
proof -
  obtain r x where r: "perform no_faults (\<lambda>_. None) (Rotate ''r1'' ''tok'') (pool_ctx (fresh_conn ex_auth)) = (r, x)" by fastforce
  have eff: "effect (Rotate ''r1'' ''tok'') ex_auth = Some (end_grant ''r1'' ex_auth)"
    by (simp add: ex_auth_def ex_row_def ex_request_def)
  show ?thesis
    using storage_refines [OF _ r] eff by (cases r) (simp_all add: r quiet_def del: perform.simps effect.simps)
qed

definition ex_calls :: "call list" where
  "ex_calls = [(no_faults, \<lambda>_. None, CreateCode ''code'' ex_request), (no_faults, \<lambda>_. None, InvalidateCode ''code''),
     (no_faults, \<lambda>_. None, InvalidateCode ''code'')]"

theorem storage_invariant_witness: "auth_ok (committed (snd (run_ops ex_calls (fresh_conn ex_auth))))"
  by (rule storage_invariant [OF prod.collapse [symmetric]]) (simp_all add: ex_auth_ok)

theorem single_use_of_grants_witness:
  "succeeded (\<lambda>op. op = InvalidateCode ''code'') (fst (run_ops ex_calls (fresh_conn ex_auth)))
     \<le> succeeded (\<lambda>op. \<exists>r. op = CreateCode ''code'' r) (fst (run_ops ex_calls (fresh_conn ex_auth)))"
  using single_use_of_grants [OF prod.collapse [symmetric], where calls = ex_calls and c = "fresh_conn ex_auth" and sig = "''code''"]
  by (simp add: ex_auth_ok live_in_def ex_auth_tokens)

theorem rotation_ends_grant_witness:
  "\<exists>x. perform no_faults (\<lambda>_. None) (Rotate ''r1'' ''tok'') (pool_ctx (fresh_conn ex_auth)) = (Inr (), x) \<and>
     fst (perform no_faults (\<lambda>_. None) (Rotate ''r1'' ''tok'') (pool_ctx (ax_conn x))) \<noteq> Inr ()"
proof -
  obtain x where x: "perform no_faults (\<lambda>_. None) (Rotate ''r1'' ''tok'') (pool_ctx (fresh_conn ex_auth)) = (Inr (), x)"
    using perform_quiet [of "fresh_conn ex_auth" "Rotate ''r1'' ''tok''" "end_grant ''r1'' ex_auth"]
    by (auto simp: ex_auth_def ex_row_def ex_request_def simp del: perform.simps)
  show ?thesis using x rotation_ends_grant [OF _ _ x] ex_auth_ok(1) by (auto simp del: perform.simps)
qed

theorem revocation_lasts_witness:
  "CheckSession None (Some ex_session) (pool_ctx (fresh_conn ex_auth)) = None \<and>
   CheckSession None (Some ex_session) (pool_ctx (snd (run_ops [(no_faults, \<lambda>_. None, Bump ''u_1'')] (fresh_conn ex_auth)))) \<noteq> None"
proof -
  obtain x where x: "perform no_faults (\<lambda>_. None) (Bump ''u_1'') (pool_ctx (fresh_conn ex_auth)) = (Inr (), x)"
    using perform_quiet [of "fresh_conn ex_auth" "Bump ''u_1''"] by (auto simp del: perform.simps)
  have run: "run_ops [(no_faults, \<lambda>_. None, Bump ''u_1'')] (fresh_conn ex_auth) = ([(Bump ''u_1'', True)], ax_conn x)"
    by (simp add: x del: perform.simps)
  have "CheckSession None (Some ex_session) (pool_ctx (ax_conn x)) \<noteq> None"
    using revocation_lasts [OF run, of ex_session 0 None]
    by (simp add: issued_gen_def ex_session_def NewSession_def generation_sum_def ex_auth_tokens)
  then show ?thesis
    by (simp add: run CheckSession_def CurrentGeneration_def query_unfold issued_gen_def ex_session_def NewSession_def
        generation_sum_def ex_auth_tokens del: perform.simps run_ops.simps)
qed

theorem create_load_witness:
  "\<exists>x req. create (\<lambda>_. None) Codes AuthorizeCode ''code'' ex_request (pool_ctx (fresh_conn ex_auth)) = (Inr (), x) \<and>
     load_request (\<lambda>_. None) Codes ''code'' (pool_ctx (ax_conn x)) = Inr (req, True) \<and> rq_id req = ''r1'' \<and>
     map_of (rq_form req) ''code_challenge'' = Some [byte_text [239, 191, 189]] \<and> map_of (rq_form req) ''code'' = None"
proof -
  obtain x where x: "create (\<lambda>_. None) Codes AuthorizeCode ''code'' ex_request (pool_ctx (fresh_conn ex_auth)) = (Inr (), x)"
    using perform_quiet [of "fresh_conn ex_auth" "CreateCode ''code'' ex_request"]
    by (auto simp: create_effect_def ex_auth_tokens ex_request_def ex_session_def ex_app_def GetExpiresAt_def
        CreateAuthorizeCodeSession_def)
  have form: "(if ''code_challenge'' \<in> set storedForm then map_option (map utf8) (map_of (rq_form ex_request) ''code_challenge'') else None) =
      Some [byte_text [239, 191, 189]]" "''code'' \<notin> set storedForm" by code_simp+
  have "rq_session ex_request = Some ex_session" "rq_client ex_request = Some ex_app" "rq_id ex_request = ''r1''"
    "plain_session ex_session" "se_subject ex_session = ''u_1''" "issued_gen ex_session = Some 0" "cl_id ex_app = ''app''"
    by (simp_all add: ex_request_def plain_session_def ex_session_def NewSession_def issued_gen_def ex_app_def)
  with create_load [OF _ _ x, of ex_session ex_app] ex_auth_ok(1) x show ?thesis
    by (fastforce simp: generation_sum_def ex_auth_tokens form simp del: map_of.simps)
qed

theorem ActiveTokens_exact_witness:
  "ActiveTokens (\<lambda>_. None) (\<lambda>_. None) 0 ''u_1'' (pool_ctx (fresh_conn ex_auth)) =
     Inr (\<Sum>t\<leftarrow>[Access, Refresh, Codes].
       length (filter (usable (formatTime 0) ''u_1'' t (pool_ctx (fresh_conn ex_auth))) (tokens t ex_auth)))"
  using ActiveTokens_exact [of "fresh_conn ex_auth"] by (simp add: ex_auth_ok)

theorem Prune_exact_witness:
  "\<exists>n x. Prune no_faults (\<lambda>_. None) 0 (pool_ctx (fresh_conn ex_auth)) = (Inr n, x) \<and>
     n + (\<Sum>t\<leftarrow>[Codes, Access, Refresh, PKCE]. length (tokens t (committed (ax_conn x)))) = 1"
proof -
  obtain x where x: "perform no_faults (\<lambda>_. None) (PruneAt 0) (pool_ctx (fresh_conn ex_auth)) = (Inr (), x)"
    using perform_quiet [of "fresh_conn ex_auth" "PruneAt 0"] by auto
  then obtain n where n: "Prune no_faults (\<lambda>_. None) 0 (pool_ctx (fresh_conn ex_auth)) = (Inr n, x)"
    by (auto simp: ignore_value_def split: prod.splits sum.splits)
  show ?thesis using n Prune_exact [OF _ n storable_0 storable_0, THEN conjunct2, THEN conjunct1] by (simp add: ex_auth_tokens)
qed

theorem RegisterClient_cap_witness:
  "\<exists>x. perform no_faults (\<lambda>_. None) (Register 0 (ex_app\<lparr>cl_id := ''new''\<rparr>) ''New'') (pool_ctx (fresh_conn ex_auth)) = (Inr (), x) \<and>
     set (oa_clients ex_auth) \<subseteq> set (oa_clients (committed (ax_conn x)))"
proof -
  obtain x where x: "perform no_faults (\<lambda>_. None) (Register 0 (ex_app\<lparr>cl_id := ''new''\<rparr>) ''New'') (pool_ctx (fresh_conn ex_auth)) = (Inr (), x)"
    using perform_quiet [of "fresh_conn ex_auth" "Register 0 (ex_app\<lparr>cl_id := ''new''\<rparr>) ''New''"]
    by (auto simp: register_effect_def ex_auth_tokens MaxClients_def ex_app_def evictable_def simp del: perform.simps)
  show ?thesis
    using x RegisterClient_cap [OF _ _ x] ex_auth_ok(1) by (simp add: ex_auth_tokens MaxClients_def del: perform.simps)
qed

end
