(* ===== verification/AuthSignIn.thy ===== *)
theory AuthSignIn
  imports AuthServer AuthLive
begin

text \<open>
  The sign-in protocol as a step relation: the handlers run at once, interleaved at their critical
  sections, while other requests and processes change the database. What every run guarantees:
  the cap on parked entries, single use, and that only an allowlisted sign-in ever gets a code.
\<close>

subsection \<open>Runs\<close>

text \<open>A handler that has redeemed its state or consent id is in flight until it answers.\<close>

record signin_state =
  si_server :: server_state
  si_logins :: "(http_request \<times> pending_login option) list"
  si_consents :: "(http_request \<times> pending_consent option) list"

datatype signin_event = Shown string | Issued string session

definition shown :: "response \<Rightarrow> signin_event list" where
  "shown resp = (case resp of ConsentPage _ _ k _ _ \<Rightarrow> [Shown k] | _ \<Rightarrow> [])"

definition issued :: "http_request \<Rightarrow> pending_consent option \<Rightarrow> response \<Rightarrow> signin_event list" where
  "issued r found resp = (case (found, resp) of
     (Some c, AuthorizeResponse _ _) \<Rightarrow> [Issued (Get (hr_form r) ''consent_id'') (pc_session c)] | _ \<Rightarrow> [])"

inductive signin_run :: "server_env \<Rightarrow> signin_event list \<Rightarrow> signin_state \<Rightarrow> bool" for env where
  start: "signin_run env [] \<lparr>si_server = \<lparr>sv_pending = [], sv_consents = [], sv_db = db\<rparr>, si_logins = [], si_consents = []\<rparr>"
| authorize: "signin_run env tr s \<Longrightarrow> handleAuthorize env now rnd r (si_server s) = (resp, st) \<Longrightarrow>
    signin_run env tr (s\<lparr>si_server := st\<rparr>)"
| redeem_state: "signin_run env tr s \<Longrightarrow> take_pending (Get (hr_query r) ''state'') (si_server s) = (found, st) \<Longrightarrow>
    signin_run env tr (s\<lparr>si_server := st, si_logins := (r, found) # si_logins s\<rparr>)"
| callback: "signin_run env tr s \<Longrightarrow> (r, found) \<in> set (si_logins s) \<Longrightarrow>
    callback_finish env now1 now2 rnd flt r found (si_server s) = (resp, st) \<Longrightarrow>
    signin_run env (shown resp @ tr) (s\<lparr>si_server := st, si_logins := remove1 (r, found) (si_logins s)\<rparr>)"
| redeem_consent: "signin_run env tr s \<Longrightarrow> take_consent (Get (hr_form r) ''consent_id'') (si_server s) = (found, st) \<Longrightarrow>
    signin_run env tr (s\<lparr>si_server := st, si_consents := (r, found) # si_consents s\<rparr>)"
| consent: "signin_run env tr s \<Longrightarrow> (r, found) \<in> set (si_consents s) \<Longrightarrow>
    consent_finish env now flt2 r found (si_server s) = (resp, st) \<Longrightarrow>
    signin_run env (issued r found resp @ tr) (s\<lparr>si_server := st, si_consents := remove1 (r, found) (si_consents s)\<rparr>)"
| elsewhere: "signin_run env tr s \<Longrightarrow> signin_run env tr (s\<lparr>si_server := (si_server s)\<lparr>sv_db := db\<rparr>\<rparr>)"

inductive_cases signin_runE: "signin_run env tr s"

subsection \<open>What the handlers do to the parked entries\<close>

lemma in_set_tbl_upsert: "(k', v') \<in> set (tbl_upsert k v (\<lambda>_. v) t) \<Longrightarrow> (k', v') \<in> set t \<or> (k' = k \<and> v' = v)"
  using in_tbl_upsert by fastforce

lemma length_tbl_upsert: "length (tbl_upsert k new upd t) \<le> length t + 1"
  by (induction t) auto

lemma park_cases:
  assumes "park now put st = (b, st')"
  shows "st' = (if b then put (sweep now st) else sweep now st)"
    and "b \<Longrightarrow> length (sv_pending (sweep now st)) + length (sv_consents (sweep now st)) < MaxPending"
  using assms by (auto simp: park_def Let_def split: if_splits)

lemma parkD:
  "park now put st = (True, st') \<Longrightarrow> st' = put (sweep now st) \<and> length (sv_pending (sweep now st)) + length (sv_consents (sweep now st)) < MaxPending"
  "park now put st = (False, st') \<Longrightarrow> st' = sweep now st"
  by (auto simp: park_def Let_def split: if_splits)

lemma sweep_sel: "sv_db (sweep now st) = sv_db st"
  "length (sv_pending (sweep now st)) \<le> length (sv_pending st)"
  "length (sv_consents (sweep now st)) \<le> length (sv_consents st)"
  "set (sv_consents (sweep now st)) \<subseteq> set (sv_consents st)"
  by (auto simp: sweep_def tbl_delete_def)

definition parked :: "server_state \<Rightarrow> nat" where
  "parked st = length (sv_pending st) + length (sv_consents st)"

lemma parked_sweep: "parked (sweep now st) \<le> parked st"
  using sweep_sel(2,3) [of now st] by (simp add: parked_def)

lemma handleAuthorize_state:
  assumes "handleAuthorize env now rnd r st = (resp, st')"
  shows "(sv_consents st' = sv_consents st \<or> sv_consents st' = sv_consents (sweep now st)) \<and>
    (parked st \<le> MaxPending \<longrightarrow> parked st' \<le> MaxPending)"
proof -
  consider "st' = st" | "st' = sweep now st"
    | k p where "st' = put_pending k p (sweep now st)" "parked (sweep now st) < MaxPending"
    using assms
    by (auto simp: handleAuthorize_def Let_def parked_def split: sum.splits if_splits prod.splits bool.splits
        dest!: parkD)
  then show ?thesis
  proof cases
    case 3
    then show ?thesis using length_tbl_upsert [of k p "\<lambda>_. p" "sv_pending (sweep now st)"]
      by (simp add: put_pending_def parked_def)
  qed (use parked_sweep [of now st] in auto)
qed

text \<open>The session a callback parks: an allowlisted identity's.\<close>

definition allowed_session :: "server_env \<Rightarrow> session \<Rightarrow> bool" where
  "allowed_session env s \<longleftrightarrow> (\<exists>code verifier nonce i. ev_exchange env code verifier nonce = Inr i \<and>
     Allowlist_Check (ev_allow env) (id_email i) (id_email_verified i) = None \<and>
     se_subject s = UserID (ev_sha256 env) (id_email i))"

lemma callback_state:
  assumes "callback_finish env now1 now2 rnd flt r found st = (resp, st')"
  shows "(st' = st \<and> shown resp = []) \<or> (st' = sweep now2 st \<and> shown resp = []) \<or>
    (\<exists>c k. st' = put_consent k c (sweep now2 st) \<and> shown resp = [Shown k] \<and> parked (sweep now2 st) < MaxPending \<and>
       allowed_session env (pc_session c))"
proof (cases found)
  case None
  with assms show ?thesis by (auto simp: callback_finish_def shown_def)
next
  case (Some p)
  let ?early = "st' = st \<and> shown resp = []"
  show ?thesis
  proof (cases "expired now1 (pl_created p) \<or> Get (hr_query r) ''error'' \<noteq> []")
    case True
    with assms Some show ?thesis by (auto simp: callback_finish_def shown_def authorizeError_def split: if_splits)
  next
    case False
    then have f: "\<not> expired now1 (pl_created p)" "Get (hr_query r) ''error'' = []" by simp_all
    show ?thesis
    proof (cases "ev_exchange env (Get (hr_query r) ''code'') (pl_verifier p) (pl_nonce p)")
      case (Inl e)
      with assms Some f show ?thesis by (auto simp: callback_finish_def shown_def authorizeError_def)
    next
      case (Inr i)
      let ?uid = "UserID (ev_sha256 env) (id_email i)"
      show ?thesis
      proof (cases "Allowlist_Check (ev_allow env) (id_email i) (id_email_verified i)")
        case (Some e)
        with assms \<open>found = Some p\<close> f Inr show ?thesis
          by (auto simp: callback_finish_def shown_def authorizeError_def Let_def)
      next
        case None
        have al: "allowed_session env (NewSession ?uid (id_name i) gen)" for gen
          using Inr None by (auto simp: allowed_session_def NewSession_def)
        obtain k csrf where rnd: "rnd = (k, csrf)" by fastforce
        show ?thesis
        proof (cases "ClientName (flt 0) (ar_client_id (pl_ar p)) (pool_ctx (sv_db st))")
          case (Inl e)
          with assms \<open>found = Some p\<close> f Inr None show ?thesis
            by (auto simp: callback_finish_def shown_def authorizeError_def Let_def split: if_splits)
        next
          case (Inr name)
          show ?thesis
          proof (cases "CurrentGeneration (flt 1) ?uid (pool_ctx (sv_db st))")
            case (Inl e)
            with assms \<open>found = Some p\<close> f Inr None \<open>ev_exchange env _ _ _ = Inr i\<close> show ?thesis
              by (auto simp: callback_finish_def shown_def authorizeError_def Let_def)
          next
            case g: (Inr gen)
            let ?c = "\<lparr>pc_ar = pl_ar p, pc_session = NewSession ?uid (id_name i) gen, pc_csrf = csrf, pc_created = now2\<rparr>"
            obtain b st2 where pk: "park now2 (put_consent k ?c) st = (b, st2)" by fastforce
            have "(resp, st') = (case (b, st2) of (False, st2) \<Rightarrow> (too_many_sign_ins, st2)
                | (True, st2) \<Rightarrow> (ConsentPage (ar_redirect_uri (pl_ar p)) name k csrf (if id_name i = [] then ?uid else id_name i), st2))"
              using assms \<open>found = Some p\<close> f Inr None \<open>ev_exchange env _ _ _ = Inr i\<close> g pk
              by (simp add: callback_finish_def Let_def rnd)
            then show ?thesis
              using park_cases [OF pk] al [of gen]
              by (cases b) (auto simp: shown_def too_many_sign_ins_def parked_def)
          qed
        qed
      qed
    qed
  qed
qed

lemma consent_state:
  assumes "consent_finish env now flt r found st = (resp, st')"
  shows "sv_pending st' = sv_pending st \<and> sv_consents st' = sv_consents st"
  using assms
  by (auto simp: consent_finish_def Let_def split: option.splits if_splits prod.splits sum.splits)


subsection \<open>The invariant\<close>

definition shows_of :: "string \<Rightarrow> signin_event list \<Rightarrow> nat" where
  "shows_of k tr = length (filter (\<lambda>e. e = Shown k) tr)"

definition issues_of :: "string \<Rightarrow> signin_event list \<Rightarrow> nat" where
  "issues_of k tr = length (filter (\<lambda>e. \<exists>s. e = Issued k s) tr)"

lemma event_counts [simp]:
  "shows_of k [] = 0" "issues_of k [] = 0"
  "shows_of k (e # tr) = of_bool (e = Shown k) + shows_of k tr"
  "issues_of k (e # tr) = of_bool (\<exists>s. e = Issued k s) + issues_of k tr"
  by (simp_all add: shows_of_def issues_of_def)

text \<open>How many times the consent \<open>k\<close> can still be approved: once while parked, once per handler that holds it.\<close>

definition holds :: "string \<Rightarrow> http_request \<times> pending_consent option \<Rightarrow> bool" where
  "holds k x \<longleftrightarrow> Get (hr_form (fst x)) ''consent_id'' = k \<and> snd x \<noteq> None"

definition open_for :: "string \<Rightarrow> signin_state \<Rightarrow> nat" where
  "open_for k s = of_bool (k \<in> set (tbl_keys (sv_consents (si_server s)))) + length (filter (holds k) (si_consents s))"

definition signin_ok :: "server_env \<Rightarrow> signin_event list \<Rightarrow> signin_state \<Rightarrow> bool" where
  "signin_ok env tr s \<longleftrightarrow> parked (si_server s) \<le> MaxPending \<and>
     (\<forall>(k, c)\<in>set (sv_consents (si_server s)). allowed_session env (pc_session c)) \<and>
     (\<forall>(r, found)\<in>set (si_consents s). case found of None \<Rightarrow> True | Some c \<Rightarrow> allowed_session env (pc_session c)) \<and>
     (\<forall>k x. Issued k x \<in> set tr \<longrightarrow> allowed_session env x) \<and>
     tbl_ok (sv_consents (si_server s)) \<and>
     (\<forall>k. issues_of k tr + open_for k s \<le> shows_of k tr)"

lemma sweep_ok: "tbl_ok (sv_consents st) \<Longrightarrow> tbl_ok (sv_consents (sweep now st))"
  by (auto simp: sweep_def)

lemma sweep_keys: "k \<in> set (tbl_keys (sv_consents (sweep now st))) \<Longrightarrow> k \<in> set (tbl_keys (sv_consents st))"
  using sweep_sel(4) [of now st] by (auto simp: tbl_keys_def)

lemma open_for_less:
  assumes "\<And>k. k \<in> set (tbl_keys (sv_consents st')) \<Longrightarrow> k \<in> set (tbl_keys (sv_consents (si_server s)))"
  shows "open_for k (s\<lparr>si_server := st'\<rparr>) \<le> open_for k s"
  using assms by (auto simp: open_for_def of_bool_def)

text \<open>A step that only drops parked entries keeps the invariant.\<close>

lemma signin_ok_shrink:
  assumes "signin_ok env tr s" and "parked st' \<le> MaxPending" and "set (sv_consents st') \<subseteq> set (sv_consents (si_server s))"
    and "tbl_ok (sv_consents st')"
  shows "signin_ok env tr (s\<lparr>si_server := st'\<rparr>)"
proof -
  have "open_for k (s\<lparr>si_server := st'\<rparr>) \<le> open_for k s" for k
    by (rule open_for_less) (use assms(3) in \<open>auto simp: tbl_keys_def\<close>)
  moreover have "issues_of k tr + open_for k s \<le> shows_of k tr" for k using assms(1) by (simp add: signin_ok_def)
  ultimately have "issues_of k tr + open_for k (s\<lparr>si_server := st'\<rparr>) \<le> shows_of k tr" for k
    by (meson add_left_mono order_trans)
  with assms show ?thesis by (auto simp: signin_ok_def)
qed

lemma signin_ok_logins [simp]: "signin_ok env tr (s\<lparr>si_logins := l\<rparr>) \<longleftrightarrow> signin_ok env tr s"
  by (simp add: signin_ok_def open_for_def)

lemma signin_ok_put:
  assumes i: "signin_ok env tr s" and "allowed_session env (pc_session c)" and "parked (sweep now (si_server s)) < MaxPending"
  shows "signin_ok env (Shown k # tr) (s\<lparr>si_server := put_consent k c (sweep now (si_server s))\<rparr>)"
proof -
  let ?w = "sweep now (si_server s)"
  have w: "signin_ok env tr (s\<lparr>si_server := ?w\<rparr>)"
    by (rule signin_ok_shrink [OF i]) (use i sweep_sel(4) parked_sweep [of now "si_server s"] sweep_ok in \<open>auto simp: signin_ok_def\<close>)
  have keys: "set (tbl_keys (sv_consents (put_consent k c ?w))) = insert k (set (tbl_keys (sv_consents ?w)))"
    by (simp add: put_consent_def tbl_keys_upsert)
  have le: "issues_of k' tr + open_for k' (s\<lparr>si_server := ?w\<rparr>) \<le> shows_of k' tr" for k' using w by (simp add: signin_ok_def)
  have "issues_of k' (Shown k # tr) + open_for k' (s\<lparr>si_server := put_consent k c ?w\<rparr>) \<le> shows_of k' (Shown k # tr)" for k'
    using le [of k'] by (auto simp: open_for_def keys of_bool_def)
  moreover have "parked (put_consent k c ?w) \<le> MaxPending"
    using assms(3) length_tbl_upsert [of k c "\<lambda>_. c" "sv_consents ?w"] by (simp add: parked_def put_consent_def)
  ultimately show ?thesis
    using w assms(2) by (fastforce simp: signin_ok_def put_consent_def dest: in_set_tbl_upsert)
qed


lemma signin_ok_redeem:
  assumes i: "signin_ok env tr s" and "take_consent (Get (hr_form r) ''consent_id'') (si_server s) = (found, st)"
  shows "signin_ok env tr (s\<lparr>si_server := st, si_consents := (r, found) # si_consents s\<rparr>)"
proof -
  let ?k = "Get (hr_form r) ''consent_id''"
  have f: "found = tbl_get (sv_consents (si_server s)) ?k"
    and st: "st = (si_server s)\<lparr>sv_consents := tbl_delete (\<lambda>k' _. k' = ?k) (sv_consents (si_server s))\<rparr>"
    using assms(2) by (auto simp: take_consent_def)
  have keys: "set (tbl_keys (sv_consents st)) = set (tbl_keys (sv_consents (si_server s))) - {?k}"
    by (auto simp: st tbl_keys_def set_tbl_delete image_iff)
  have le: "issues_of k tr + open_for k s \<le> shows_of k tr" for k using i by (simp add: signin_ok_def)
  have "open_for k (s\<lparr>si_server := st, si_consents := (r, found) # si_consents s\<rparr>) \<le> open_for k s" for k
    by (auto simp: open_for_def keys holds_def f of_bool_def tbl_get_Some_iff)
  then have "issues_of k tr + open_for k (s\<lparr>si_server := st, si_consents := (r, found) # si_consents s\<rparr>) \<le> shows_of k tr" for k
    using le [of k] by (meson add_left_mono order_trans)
  moreover have "parked st \<le> MaxPending"
  proof -
    have "length (sv_consents st) \<le> length (sv_consents (si_server s))" by (simp add: st tbl_delete_def)
    moreover have "sv_pending st = sv_pending (si_server s)" by (simp add: st)
    ultimately show ?thesis using i by (simp add: signin_ok_def parked_def)
  qed
  moreover have "case found of None \<Rightarrow> True | Some c \<Rightarrow> allowed_session env (pc_session c)"
    using i by (fastforce simp: f signin_ok_def dest: tbl_get_in split: option.splits)
  ultimately show ?thesis
    using i by (auto simp: signin_ok_def st set_tbl_delete)
qed

lemma filter_remove1_length: "x \<in> set xs \<Longrightarrow> length (filter P (remove1 x xs)) + of_bool (P x) = length (filter P xs)"
  by (induction xs) auto

lemma signin_ok_consent:
  assumes i: "signin_ok env tr s" and rf: "(r, found) \<in> set (si_consents s)"
    and c: "consent_finish env now flt r found (si_server s) = (resp, st)"
  shows "signin_ok env (issued r found resp @ tr) (s\<lparr>si_server := st, si_consents := remove1 (r, found) (si_consents s)\<rparr>)"
proof -
  let ?k = "Get (hr_form r) ''consent_id''"
  note same = consent_state [OF c]
  have le: "issues_of k tr + open_for k s \<le> shows_of k tr" for k using i by (simp add: signin_ok_def)
  have o: "open_for k (s\<lparr>si_server := st, si_consents := remove1 (r, found) (si_consents s)\<rparr>) + of_bool (?k = k \<and> found \<noteq> None) = open_for k s" for k
    using filter_remove1_length [OF rf, of "holds k"] same by (simp add: open_for_def holds_def)
  have e1: "issues_of k (issued r found resp @ tr) \<le> issues_of k tr + of_bool (?k = k \<and> found \<noteq> None)" for k
    by (auto simp: issued_def split: option.splits response.splits)
  have e2: "shows_of k (issued r found resp @ tr) = shows_of k tr" for k
    by (auto simp: issued_def split: option.splits response.splits)
  have "issues_of k (issued r found resp @ tr) +
      open_for k (s\<lparr>si_server := st, si_consents := remove1 (r, found) (si_consents s)\<rparr>) \<le> shows_of k (issued r found resp @ tr)" for k
    using le [of k] o [of k] e1 [of k] e2 [of k] by linarith
  moreover have "\<forall>k x. Issued k x \<in> set (issued r found resp @ tr) \<longrightarrow> allowed_session env x"
    using i rf by (fastforce simp: signin_ok_def issued_def split: option.splits response.splits)
  moreover have "\<forall>x\<in>set (remove1 (r, found) (si_consents s)). x \<in> set (si_consents s)" by (meson notin_set_remove1)
  ultimately show ?thesis
    using i same by (fastforce simp: signin_ok_def parked_def)
qed

lemma signin_run_ok: "signin_run env tr s \<Longrightarrow> signin_ok env tr s"
proof (induction rule: signin_run.induct)
  case (start db)
  show ?case by (simp add: signin_ok_def parked_def open_for_def)
next
  case (authorize tr s now rnd r resp st)
  note a = handleAuthorize_state [OF authorize.hyps(2)]
  have "set (sv_consents st) \<subseteq> set (sv_consents (si_server s))" "tbl_ok (sv_consents st)"
    using a sweep_sel(4) [of now "si_server s"] sweep_ok authorize.IH by (auto simp: signin_ok_def)
  moreover have "parked st \<le> MaxPending" using a authorize.IH by (simp add: signin_ok_def)
  ultimately show ?case by (intro signin_ok_shrink [OF authorize.IH])
next
  case (redeem_state tr s r found st)
  then have st: "sv_consents st = sv_consents (si_server s)" "parked st \<le> parked (si_server s)"
    by (auto simp: take_pending_def parked_def tbl_delete_def)
  have "signin_ok env tr (s\<lparr>si_server := st\<rparr>)"
    by (rule signin_ok_shrink [OF redeem_state.IH]) (use st redeem_state.IH in \<open>auto simp: signin_ok_def\<close>)
  then show ?case by (metis signin_ok_logins)
next
  case (callback tr s r found now1 now2 rnd flt resp st)
  have w: "signin_ok env tr (s\<lparr>si_server := sweep now2 (si_server s)\<rparr>)"
    by (rule signin_ok_shrink [OF callback.IH])
      (use callback.IH sweep_sel(4) parked_sweep [of now2 "si_server s"] sweep_ok in \<open>auto simp: signin_ok_def\<close>)
  have "signin_ok env (shown resp @ tr) (s\<lparr>si_server := st\<rparr>)"
    using callback_state [OF callback.hyps(3)]
  proof (elim disjE exE conjE)
    fix c k
    assume "st = put_consent k c (sweep now2 (si_server s))" "shown resp = [Shown k]"
      "parked (sweep now2 (si_server s)) < MaxPending" "allowed_session env (pc_session c)"
    with signin_ok_put [OF callback.IH] show ?thesis by simp
  qed (use callback.IH w in simp_all)
  then show ?case by (metis signin_ok_logins)
next
  case (redeem_consent tr s r found st)
  then show ?case by (intro signin_ok_redeem)
next
  case (consent tr s r found now flt2 resp st)
  then show ?case by (intro signin_ok_consent)
next
  case (elsewhere tr s db)
  show ?case
    by (rule signin_ok_shrink [OF elsewhere.IH]) (use elsewhere.IH in \<open>simp_all add: signin_ok_def parked_def\<close>)
qed

text \<open>
  C25: Sign-in safety, in every interleaving of the handlers' critical sections with each other and
  with any change of the database: at most \<open>MaxPending\<close> logins and consents are ever parked; the
  consent page under an id leads to at most one issued code, however often it is posted; and a code
  is only ever issued for the subject of a verified email that is on the allowlist.
\<close>

theorem sign_in_safety:
  assumes "signin_run env tr s"
  shows "length (sv_pending (si_server s)) + length (sv_consents (si_server s)) \<le> MaxPending \<and>
    issues_of k tr \<le> shows_of k tr \<and>
    (\<forall>k x. Issued k x \<in> set tr \<longrightarrow>
       (\<exists>i :: identity. Allowlist_Check (ev_allow env) (id_email i) (id_email_verified i) = None \<and>
            se_subject x = UserID (ev_sha256 env) (id_email i)))"
proof -
  have i: "signin_ok env tr s" using assms by (rule signin_run_ok)
  then have "issues_of k tr + open_for k s \<le> shows_of k tr" by (simp add: signin_ok_def)
  then have "issues_of k tr \<le> shows_of k tr" by simp
  moreover have "length (sv_pending (si_server s)) + length (sv_consents (si_server s)) \<le> MaxPending"
    using i by (simp add: signin_ok_def parked_def)
  moreover have "\<exists>i :: identity. Allowlist_Check (ev_allow env) (id_email i) (id_email_verified i) = None \<and>
      se_subject x = UserID (ev_sha256 env) (id_email i)" if "Issued k x \<in> set tr" for k x
  proof -
    have "allowed_session env x" using i that unfolding signin_ok_def by blast
    then show ?thesis by (auto simp: allowed_session_def)
  qed
  ultimately show ?thesis by simp
qed


text \<open>
  C26: The consent POST. \<open>handleConsent\<close> issues a code only if a consent is parked under the posted id,
  not expired, the posted CSRF value and the cookie both equal its non-empty token, the user approved,
  and the session is still of the user's current generation (so a revocation during the sign-in
  applies); and whatever it answers, the consent is gone.
\<close>

theorem consent_guard:
  assumes "handleConsent env now flt r st = (resp, st')" and "tbl_ok (sv_consents st)"
  shows "tbl_get (sv_consents st') (Get (hr_form r) ''consent_id'') = None \<and>
    ((\<exists>ar code. resp = AuthorizeResponse ar code) \<longrightarrow>
      (\<exists>c. tbl_get (sv_consents st) (Get (hr_form r) ''consent_id'') = Some c \<and> \<not> expired now (pc_created c) \<and>
        pc_csrf c \<noteq> [] \<and> Get (hr_form r) ''csrf'' = pc_csrf c \<and> hr_cookie r = Some (pc_csrf c) \<and>
        Get (hr_form r) ''decision'' = ''approve'' \<and>
        CheckSession flt (Some (pc_session c)) (pool_ctx (sv_db st)) = None))"
proof -
  obtain found st1 where t: "take_consent (Get (hr_form r) ''consent_id'') st = (found, st1)" by fastforce
  then have f: "found = tbl_get (sv_consents st) (Get (hr_form r) ''consent_id'')"
    "sv_consents st1 = tbl_delete (\<lambda>k' _. k' = Get (hr_form r) ''consent_id'') (sv_consents st)" "sv_db st1 = sv_db st"
    by (auto simp: take_consent_def)
  have c: "consent_finish env now flt r found st1 = (resp, st')" using assms(1) by (simp add: handleConsent_def t)
  have "tbl_get (sv_consents st') (Get (hr_form r) ''consent_id'') = None"
    using consent_state [OF c] assms(2) by (simp add: f(2) table_simps split: option.splits)
  moreover have "\<exists>c. found = Some c \<and> \<not> expired now (pc_created c) \<and> pc_csrf c \<noteq> [] \<and> Get (hr_form r) ''csrf'' = pc_csrf c \<and>
      hr_cookie r = Some (pc_csrf c) \<and> Get (hr_form r) ''decision'' = ''approve'' \<and>
      CheckSession flt (Some (pc_session c)) (pool_ctx (sv_db st)) = None"
    if "resp = AuthorizeResponse ar code" for ar code
    using c that
    by (auto simp: consent_finish_def authorizeError_def constantEq_def f(3) Let_def split: option.splits if_splits)
  ultimately show ?thesis by (auto simp: f(1))
qed

subsection \<open>Tokens\<close>

text \<open>
  C27: Revoking a user cuts off every token issued before. Once \<open>RevokeUser\<close> has succeeded for the
  user (or for \<open>AllUsers\<close>), then after any further run of storage operations \<open>VerifyToken\<close> refuses
  every bearer token whose session is the user's and of a generation up to the one before the
  revocation, whatever fosite's introspection says about the token; and the token endpoint answers
  such a session with an access error.
\<close>

theorem revoke_cuts_off:
  assumes "conn_idle db" and "RevokeUser f1 user db = (None, db1)" and "run_ops calls db1 = (tr, db2)"
    and "issued_gen s = Some n" and "n \<le> generation_sum (se_subject s) (committed db)"
    and "user = se_subject s \<or> user = AllUsers"
    and "IntrospectToken (ev_provider env) token db2 = Inr (kind, scopes, Some s)"
    and "NewAccessRequest (ev_provider env) r db2 = (Inr (Some s), db2)"
  shows "(\<exists>e. VerifyToken env f2 token db2 = Inl e) \<and>
    (\<exists>e st. handleToken env f3 r \<lparr>sv_pending = p, sv_consents = c, sv_db = db2\<rparr> = (AccessError e, st))"
proof -
  obtain x where x: "perform no_faults (\<lambda>_. f1) (Bump user) (pool_ctx db) = (Inr (), x)" "db1 = ax_conn x"
    using assms(2) by (auto simp: RevokeUser_def ignore_value_def split: prod.splits sum.splits)
  note d = perform_done [OF assms(1) x(1), folded x(2)]
  have "generation_sum (se_subject s) (committed db) < generation_sum (se_subject s) (committed db1)"
    by (rule generations.raised [OF d(1)]) (use assms(6) in auto)
  also have "\<dots> \<le> generation_sum (se_subject s) (committed db2)"
    using generations.run_monotone [OF assms(3) d(2)] by blast
  finally have "n < generation_sum (se_subject s) (committed db2)" using assms(5) by linarith
  note no = CheckSession_old [OF run_ops_idle [OF assms(3) d(2)] assms(4) this]
  show ?thesis
    using no [of f2] no [of f3]
    by (auto simp: VerifyToken_def handleToken_def checkRequester_def assms(7,8) split: option.splits)
qed

subsection \<open>Client names\<close>

text \<open>
  A registered client name is bounded and well formed: \<open>clampName\<close> returns at most
  \<open>maxClientNameRunes\<close> runes, they are the first runes of the given name, the result is valid UTF-8
  (dropping invalid bytes changes nothing), and a second clamp changes nothing.
\<close>

theorem clampName_bounds:
  "runes (clampName name) = take maxClientNameRunes (runes name) \<and> length (runes (clampName name)) \<le> maxClientNameRunes \<and>
   ToValidUTF8 (clampName name) = clampName name \<and> clampName (clampName name) = clampName name"
proof -
  have v: "runes (ToValidUTF8 s) = runes s" for s
    by (simp add: ToValidUTF8_def runes_concat runes_are_runes)
  have c: "clampName s = concat (take maxClientNameRunes (runes s))" for s
    by (simp add: clampName_def v) (simp add: ToValidUTF8_def Let_def v [unfolded ToValidUTF8_def])
  have r: "runes (clampName s) = take maxClientNameRunes (runes s)" for s
    unfolding c by (rule runes_concat) (auto dest: in_set_takeD runes_are_runes)
  show ?thesis by (simp add: r c ToValidUTF8_def) (simp add: r flip: c)
qed


subsection \<open>Witnesses\<close>

definition ex_identity :: identity where
  "ex_identity = \<lparr>id_email = ''Ann@Example.com '', id_email_verified = True, id_name = ''Ann''\<rparr>"

definition ex_ar :: authorize_request where
  "ex_ar = \<lparr>ar_client_id = ''app'', ar_redirect_uri = \<lparr>u_scheme = ''https'', u_opaque = [], u_user = False, u_host = ''app.example'',
       u_hostname = ''app.example'', u_path = ''/cb'', u_raw_query = [], u_fragment = []\<rparr>,
     ar_scopes = [''mcp''], ar_granted = [],
     ar_form = [(''code_challenge'', ''abc''), (''code_challenge_method'', ''S256'')]\<rparr>"

definition ex_provider :: provider where
  "ex_provider = \<lparr>NewAuthorizeRequest = (\<lambda>_ _. Inr ex_ar), NewAuthorizeResponse = (\<lambda>_ _ db. (Inr ''code'', db)),
     NewAccessRequest = (\<lambda>_ db. (Inr (Some ex_session), db)), NewAccessResponse = (\<lambda>_ db. (Inr ''token'', db)),
     NewRevocationRequest = (\<lambda>_ db. (None, db)), SetRequestedScopes = (\<lambda>ss ar. ar\<lparr>ar_scopes := ss\<rparr>),
     GrantScope = (\<lambda>sc ar. ar\<lparr>ar_granted := ar_granted ar @ [sc]\<rparr>),
     IntrospectToken = (\<lambda>_ _. Inr (AccessToken, [''mcp''], Some ex_session))\<rparr>"

definition ex_server :: server_env where
  "ex_server = \<lparr>ev_issuer = ''https://finance.example'', ev_mcp_path = ''/mcp'', ev_allow = ParseAllowlist ''ann@example.com'',
     ev_provider = ex_provider, ev_auth_code_url = (\<lambda>_ _ _. ''https://google.example''), ev_exchange = (\<lambda>_ _ _. Inr ex_identity),
     ev_parse_url = (\<lambda>_. None), ev_loopback_ip = (\<lambda>_. False), ev_sha256 = (\<lambda>s. ''abcdef''), ev_quote = (\<lambda>s. s)\<rparr>"

definition ex_http :: http_request where
  "ex_http = \<lparr>hr_query = [(''state'', ''st''), (''code'', ''x'')],
     hr_form = [(''consent_id'', ''cid''), (''csrf'', ''tok''), (''decision'', ''approve'')], hr_cookie = Some ''tok'', hr_raw = []\<rparr>"

definition ex_login :: pending_login where
  "ex_login = \<lparr>pl_ar = ex_ar, pl_verifier = ''v'', pl_nonce = ''n'', pl_created = 0\<rparr>"

definition ex_consent :: pending_consent where
  "ex_consent = \<lparr>pc_ar = ex_ar, pc_session = NewSession ''u_616263646566'' ''Ann'' 0, pc_csrf = ''tok'', pc_created = 0\<rparr>"

lemmas ex_server_defs = ex_server_def ex_provider_def ex_http_def ex_ar_def ex_identity_def ex_login_def ex_consent_def

lemma ex_check: "CheckSession None (Some (pc_session ex_consent)) (pool_ctx (fresh_conn ex_auth)) = None"
  by (simp add: CheckSession_def CurrentGeneration_def query_unfold issued_gen_def ex_consent_def NewSession_def generation_sum_def ex_auth_tokens)

lemma ex_authorize:
  "handleAuthorize ex_server 0 (''st'', ''v'', ''n'') ex_http \<lparr>sv_pending = [], sv_consents = [], sv_db = fresh_conn ex_auth\<rparr> =
     (RedirectTo ''https://google.example'', \<lparr>sv_pending = [(''st'', ex_login)], sv_consents = [], sv_db = fresh_conn ex_auth\<rparr>)"
  by (simp add: handleAuthorize_def ex_server_defs Get_def withMCPScope_def ScopeMCP_def park_def sweep_def tbl_delete_def MaxPending_def put_pending_def)

lemma ex_callback:
  "callback_finish ex_server 0 0 (''cid'', ''tok'') (\<lambda>_. None) ex_http (Some ex_login)
      \<lparr>sv_pending = [], sv_consents = [], sv_db = fresh_conn ex_auth\<rparr> =
     (ConsentPage (ar_redirect_uri ex_ar) ''App'' ''cid'' ''tok'' ''Ann'',
      \<lparr>sv_pending = [], sv_consents = [(''cid'', ex_consent)], sv_db = fresh_conn ex_auth\<rparr>)"
proof -
  have 1: "UserID (\<lambda>s. ''abcdef'') e = ''u_616263646566''" for e by (simp add: UserID_def) code_simp
  have 2: "Allowlist_Check (ParseAllowlist ''ann@example.com'') ''Ann@Example.com '' True = None" by code_simp
  show ?thesis
    by (simp add: callback_finish_def ex_server_defs Get_def expired_def time_Sub_def pendingLoginTTL_def 1 2 ClientName_def
        CurrentGeneration_def query_unfold ex_auth_tokens client_row_of_def generation_sum_def park_def sweep_def tbl_delete_def
        MaxPending_def put_consent_def Let_def)
qed

lemma ex_consent_finish:
  "consent_finish ex_server 0 None ex_http (Some ex_consent) \<lparr>sv_pending = [], sv_consents = [], sv_db = fresh_conn ex_auth\<rparr> =
     (AuthorizeResponse (ex_ar\<lparr>ar_granted := [''mcp'']\<rparr>) ''code'',
      \<lparr>sv_pending = [], sv_consents = [], sv_db = fresh_conn ex_auth\<rparr>)"
  using ex_check
  by (simp add: consent_finish_def ex_server_defs Get_def expired_def time_Sub_def pendingLoginTTL_def constantEq_def Let_def)

theorem sign_in_safety_witness:
  "\<exists>s. signin_run ex_server [Issued ''cid'' (pc_session ex_consent), Shown ''cid''] s \<and>
     (\<exists>i :: identity. Allowlist_Check (ev_allow ex_server) (id_email i) (id_email_verified i) = None \<and>
        se_subject (pc_session ex_consent) = UserID (ev_sha256 ex_server) (id_email i))"
proof -
  let ?st = "\<lambda>p c. \<lparr>sv_pending = p, sv_consents = c, sv_db = fresh_conn ex_auth\<rparr>"
  let ?si = "\<lambda>p c l m. \<lparr>si_server = ?st p c, si_logins = l, si_consents = m\<rparr>"
  have "signin_run ex_server [] (?si [] [] [] [])" by (rule signin_run.start)
  from signin_run.authorize [OF this, of 0 "(''st'', ''v'', ''n'')" ex_http, simplified, OF ex_authorize]
  have "signin_run ex_server [] (?si [(''st'', ex_login)] [] [] [])" by simp
  from signin_run.redeem_state [OF this, of ex_http "Some ex_login" "?st [] []"]
  have "signin_run ex_server [] (?si [] [] [(ex_http, Some ex_login)] [])"
    by (simp add: take_pending_def tbl_delete_def ex_http_def Get_def)
  from signin_run.callback [OF this, of ex_http "Some ex_login" 0 0 "(''cid'', ''tok'')" "\<lambda>_. None"] ex_callback
  have "signin_run ex_server [Shown ''cid''] (?si [] [(''cid'', ex_consent)] [] [])"
    by (simp add: shown_def)
  from signin_run.redeem_consent [OF this, of ex_http "Some ex_consent" "?st [] []"]
  have "signin_run ex_server [Shown ''cid''] (?si [] [] [] [(ex_http, Some ex_consent)])"
    by (simp add: take_consent_def tbl_delete_def ex_http_def Get_def)
  from signin_run.consent [OF this, of ex_http "Some ex_consent" 0 None] ex_consent_finish
  have r: "signin_run ex_server [Issued ''cid'' (pc_session ex_consent), Shown ''cid''] (?si [] [] [] [])"
    by (simp add: issued_def ex_http_def Get_def)
  show ?thesis using r sign_in_safety [OF r, of "''cid''"] by auto
qed

theorem consent_guard_witness:
  "\<exists>resp st'. handleConsent ex_server 0 None ex_http
       \<lparr>sv_pending = [], sv_consents = [(''cid'', ex_consent)], sv_db = fresh_conn ex_auth\<rparr> = (resp, st') \<and>
     (\<exists>ar code. resp = AuthorizeResponse ar code) \<and> tbl_get (sv_consents st') ''cid'' = None"
proof -
  let ?st = "\<lparr>sv_pending = [], sv_consents = [(''cid'', ex_consent)], sv_db = fresh_conn ex_auth\<rparr>"
  have h: "handleConsent ex_server 0 None ex_http ?st =
      (AuthorizeResponse (ex_ar\<lparr>ar_granted := [''mcp'']\<rparr>) ''code'', \<lparr>sv_pending = [], sv_consents = [], sv_db = fresh_conn ex_auth\<rparr>)"
    using ex_consent_finish by (simp add: handleConsent_def take_consent_def tbl_delete_def) (simp add: ex_http_def Get_def)
  from consent_guard [OF h] h show ?thesis by (auto simp: ex_http_def Get_def tbl_ok_def)
qed

theorem revoke_cuts_off_witness:
  "\<exists>db1 e. RevokeUser None ''u_1'' (fresh_conn ex_auth) = (None, db1) \<and> VerifyToken ex_server None ''t'' db1 = Inl e"
proof -
  obtain x where x: "perform no_faults (\<lambda>_. None) (Bump ''u_1'') (pool_ctx (fresh_conn ex_auth)) = (Inr (), x)"
    using perform_quiet [of "fresh_conn ex_auth" "Bump ''u_1''"] by (auto simp del: perform.simps)
  then have r: "RevokeUser None ''u_1'' (fresh_conn ex_auth) = (None, ax_conn x)"
    by (auto simp: RevokeUser_def ignore_value_def split: prod.splits sum.splits)
  have "issued_gen ex_session = Some 0" "se_subject ex_session = ''u_1''"
    by (simp_all add: issued_gen_def ex_session_def NewSession_def)
  with r revoke_cuts_off [OF _ r run_ops.simps(1), of ex_session 0 ex_server "''t''" AccessToken "[''mcp'']" ex_http]
  show ?thesis by (auto simp: generation_sum_def ex_auth_tokens ex_server_def ex_provider_def)
qed

end
