(* ===== verification/McpMoney.thy ===== *)
theory McpMoney
  imports GoText GoTime
begin

text \<open>
  Amounts as exact decimal text (\<open>mcp/tools_transactions.go\<close>: \<open>formatMoney\<close>, \<open>parseMoney\<close>), in
  64-bit milliunits: every amount has one text, even the smallest \<open>int64\<close>, and reading it back
  gives the amount when it is within the accepted range.
\<close>

text \<open>\<open>strings.TrimSuffix(s, "0")\<close>: at most one zero goes.\<close>

definition TrimSuffix0 :: "string \<Rightarrow> string" where
  "TrimSuffix0 s = (if s \<noteq> [] \<and> last s = CHR ''0'' then butlast s else s)"

definition formatMoney :: "int64 \<Rightarrow> string" where
  "formatMoney m =
     (let (sign, u) = (if m <s 0 then (''-'', unat (- m)) else ([], unat m))
      in TrimSuffix0 (sign @ dec (u div 1000) @ ''.'' @ pad_dec 3 (u mod 1000)))"

text \<open>\<open>strconv.ParseInt(s, 10, 64)\<close> on a text without a sign.\<close>

definition ParseInt :: "string \<Rightarrow> int64 option" where
  "ParseInt s =
     (if s = [] then None
      else (case read_dec 0 s of None \<Rightarrow> None | Some n \<Rightarrow> if n < 2 ^ 63 then Some (of_nat n) else None))"

definition parseMoney :: "string \<Rightarrow> int64 option" where
  "parseMoney s =
     (let neg = HasPrefix s ''-''; (whole, frac, _) = Cut CHR ''.'' (TrimPrefix s ''-'')
      in if whole = [] \<or> 3 < length frac \<or> (\<exists>c \<in> set (whole @ frac). c = CHR ''+'' \<or> c = CHR ''-'') then None
         else (case ParseInt whole of
                 None \<Rightarrow> None
               | Some w \<Rightarrow>
                   if 1000000000000 <s w then None
                   else (case (if frac = [] then Some 0 else ParseInt (take 3 (frac @ ''00''))) of
                           None \<Rightarrow> None
                         | Some f \<Rightarrow> (let m = w * 1000 + f in Some (if neg then - m else m)))))"

subsection \<open>Reading an amount\<close>

definition digits :: "string \<Rightarrow> bool" where
  "digits s = list_all (\<lambda>c. digit_val c \<noteq> None) s"

definition number :: "string \<Rightarrow> nat" where
  "number s = (case read_dec 0 s of None \<Rightarrow> 0 | Some n \<Rightarrow> n)"

lemma read_dec_digits: "(\<exists>n. read_dec acc s = Some n) \<longleftrightarrow> digits s"
  by (induction s arbitrary: acc) (auto simp: digits_def split: option.split)

lemma read_dec_number: "read_dec 0 s = Some n \<longleftrightarrow> digits s \<and> n = number s"
  using read_dec_digits [of 0 s] by (auto simp: number_def split: option.split)

lemma ParseInt_Some: "ParseInt s = Some w \<longleftrightarrow> s \<noteq> [] \<and> digits s \<and> number s < 2 ^ 63 \<and> w = of_nat (number s)"
proof (cases "read_dec 0 s")
  case None
  then show ?thesis using read_dec_number [of s "number s"] by (auto simp: ParseInt_def)
next
  case (Some n)
  then have "digits s" "n = number s" using read_dec_number [of s n] by auto
  with Some show ?thesis by (auto simp: ParseInt_def)
qed

lemma digits_no_sign: "digits s \<Longrightarrow> c \<in> set s \<Longrightarrow> c \<noteq> CHR ''+'' \<and> c \<noteq> CHR ''-'' \<and> c \<noteq> CHR ''.''"
  by (auto simp: digits_def list_all_iff digit_val_def Let_def)

lemma number_bound: "digits s \<Longrightarrow> number s < 10 ^ length s"
  using read_dec_bound [of 0 s "number s"] read_dec_number by simp

lemma Cut_iff:
  "Cut sep s = (a, b, f) \<longleftrightarrow> sep \<notin> set a \<and> s = a @ (if f then sep # b else []) \<and> (\<not> f \<longrightarrow> b = [])"
proof (induction s arbitrary: a)
  case Nil
  show ?case by auto
next
  case (Cons c s)
  show ?case
  proof (cases "c = sep")
    case True
    then show ?thesis by (cases a) auto
  next
    case False
    obtain a' b' f' where e: "Cut sep s = (a', b', f')" by (cases "Cut sep s") auto
    show ?thesis
    proof (cases a)
      case Nil
      with False e show ?thesis by auto
    next
      case a: (Cons x xs)
      have "Cut sep (c # s) = (a, b, f) \<longleftrightarrow> x = c \<and> Cut sep s = (xs, b, f)" using False e by (auto simp: a)
      with Cons.IH [of xs] False show ?thesis by (auto simp: a)
    qed
  qed
qed

definition padded :: "string \<Rightarrow> string" where
  "padded frac = take 3 (frac @ ''000'')"

text \<open>The texts of an amount: a sign, digits, and at most three decimals.\<close>

definition money_text :: "bool \<Rightarrow> string \<Rightarrow> string \<Rightarrow> bool \<Rightarrow> string" where
  "money_text neg whole frac point =
     (if neg then ''-'' else []) @ whole @ (if point then CHR ''.'' # frac else [])"

definition money_value :: "bool \<Rightarrow> string \<Rightarrow> string \<Rightarrow> int" where
  "money_value neg whole frac = (if neg then - 1 else 1) * int (number whole * 1000 + number (padded frac))"

lemma padded_cases:
  assumes "length frac \<le> 3"
  shows "length (padded frac) = 3" "frac \<noteq> [] \<Longrightarrow> take 3 (frac @ ''00'') = padded frac" "digits (padded frac) = digits frac"
proof -
  have "length frac = 0 \<or> length frac = 1 \<or> length frac = 2 \<or> length frac = 3" using assms by linarith
  moreover have "digit_val CHR ''0'' = Some 0" by code_simp
  ultimately show "length (padded frac) = 3" "frac \<noteq> [] \<Longrightarrow> take 3 (frac @ ''00'') = padded frac" "digits (padded frac) = digits frac"
    by (auto simp: padded_def digits_def length_Suc_conv numeral_eq_Suc)
qed

lemma read_frac:
  assumes "length frac \<le> 3"
  shows "(if frac = [] then Some 0 else ParseInt (take 3 (frac @ ''00''))) =
    (if digits frac then Some (of_nat (number (padded frac))) else None)"
proof (cases "frac = []")
  case True
  have "number (padded []) = 0" by code_simp
  with True show ?thesis by (simp add: digits_def)
next
  case False
  note p = padded_cases [OF assms]
  have "digits (padded frac) \<Longrightarrow> number (padded frac) < 2 ^ 63"
    using number_bound [of "padded frac"] by (simp add: p(1))
  moreover have "padded frac \<noteq> []" using p(1) by auto
  ultimately show ?thesis
    using p(2) [OF False] ParseInt_Some [of "padded frac"] False by (cases "ParseInt (padded frac)") (auto simp: p(3))
qed

lemma parseMoney_eq:
  assumes "Cut CHR ''.'' (TrimPrefix s ''-'') = (whole, frac, point)"
  shows "parseMoney s =
    (if whole \<noteq> [] \<and> length frac \<le> 3 \<and> digits whole \<and> digits frac \<and> number whole \<le> 1000000000000
     then Some (let m = of_nat (number whole * 1000 + number (padded frac)) in if HasPrefix s ''-'' then - m else m) else None)"
proof (cases "whole \<noteq> [] \<and> length frac \<le> 3 \<and> digits whole \<and> digits frac")
  case True
  then have nosign: "\<not> (\<exists>c \<in> set (whole @ frac). c = CHR ''+'' \<or> c = CHR ''-'')" using digits_no_sign by auto
  show ?thesis
  proof (cases "number whole < 2 ^ 63")
    case small: True
    have "1000000000000 <s (of_nat (number whole) :: int64) \<longleftrightarrow> 1000000000000 < number whole"
      using sint_of_nat_small [OF small] by (simp add: word_sless_alt)
    moreover have "ParseInt whole = Some (of_nat (number whole))" using True small by (simp add: ParseInt_Some)
    ultimately show ?thesis
      using assms True nosign read_frac [of frac] by (simp add: parseMoney_def not_less Let_def)
  next
    case False
    then have "ParseInt whole = None" using ParseInt_Some [of whole] by (cases "ParseInt whole") auto
    with False assms show ?thesis by (auto simp: parseMoney_def)
  qed
next
  case False
  then have none: "parseMoney s = None"
  proof (cases "whole = [] \<or> 3 < length frac \<or> (\<exists>c \<in> set (whole @ frac). c = CHR ''+'' \<or> c = CHR ''-'')")
    case True
    then show ?thesis by (simp add: parseMoney_def assms)
  next
    case ok: False
    have "ParseInt whole = None" if "\<not> digits whole"
      using ParseInt_Some [of whole] that by (cases "ParseInt whole") auto
    moreover have "(if frac = [] then Some 0 else ParseInt (take 3 (frac @ ''00''))) = None" if "digits whole"
      using that False ok read_frac [of frac] by (auto simp: not_less)
    ultimately show ?thesis
      using ok unfolding parseMoney_def assms Let_def prod.case
      by (cases "digits whole"; cases "frac = []") (auto simp del: take_append split: option.split)
  qed
  with False show ?thesis by (simp only: if_not_P de_Morgan_conj) auto
qed

lemma sint_signed:
  "n < 2 ^ 63 \<Longrightarrow> sint (if neg then - of_nat n else of_nat n :: int64) = (if neg then - 1 else 1) * int n"
  using sint_word_of_int_eq [of "- int n"] sint_of_nat_small [of n] by auto

lemma sint_inject: "sint a = sint b \<longleftrightarrow> a = (b :: int64)"
  using signed_word_eqI by auto

text \<open>
  Reading an amount accepts exactly the decimal texts: an optional minus, a whole part of at
  most a million million, and at most three decimals; and the amount read is the text's value in
  milliunits, without wrap-around. Everything else (a plus, an exponent, a comma, a fourth decimal,
  an empty whole part, a number out of range) is refused.
\<close>

theorem parseMoney_accepts:
  "parseMoney s = Some m \<longleftrightarrow>
     (\<exists>neg whole frac point. s = money_text neg whole frac point \<and> (point \<or> frac = []) \<and> whole \<noteq> [] \<and>
        digits whole \<and> digits frac \<and> length frac \<le> 3 \<and> number whole \<le> 1000000000000 \<and>
        sint m = money_value neg whole frac)"
proof -
  obtain whole frac point where cut: "Cut CHR ''.'' (TrimPrefix s ''-'') = (whole, frac, point)"
    by (cases "Cut CHR ''.'' (TrimPrefix s ''-'')") auto
  let ?neg = "HasPrefix s ''-''"
  let ?ok = "whole \<noteq> [] \<and> length frac \<le> 3 \<and> digits whole \<and> digits frac \<and> number whole \<le> 1000000000000"
  have s: "s = money_text ?neg whole frac point" "point \<or> frac = []"
    using cut by (auto simp: Cut_iff TrimPrefix_def money_text_def HasPrefix_iff split: if_splits)
  have same: "neg = ?neg \<and> w = whole \<and> f = frac"
    if t: "s = money_text neg w f p" "p \<or> f = []" "w \<noteq> []" "digits w" for neg w f p
  proof -
    have "neg = ?neg" using t digits_no_sign [OF t(4), of "hd w"] by (cases w) (auto simp: money_text_def HasPrefix_def)
    moreover from this have "TrimPrefix s ''-'' = w @ (if p then CHR ''.'' # f else [])"
      using t(1) by (cases neg) (auto simp: money_text_def TrimPrefix_def)
    then have "Cut CHR ''.'' (TrimPrefix s ''-'') = (w, f, p)"
      using t(2) digits_no_sign [OF t(4)] by (auto simp: Cut_iff)
    ultimately show ?thesis using cut by simp
  qed
  have bound: "number whole * 1000 + number (padded frac) < 2 ^ 63" if ?ok
  proof -
    have "number (padded frac) < 10 ^ 3"
      using number_bound [of "padded frac"] padded_cases [of frac] that by (simp only: simp_thms)
    moreover have "number whole \<le> 1000000000000" using that by blast
    ultimately show ?thesis by simp
  qed
  have "parseMoney s = Some m \<longleftrightarrow> ?ok \<and> sint m = money_value ?neg whole frac"
  proof (cases ?ok)
    case True
    define v :: int64 where "v = of_nat (number whole * 1000 + number (padded frac))"
    have "sint (if ?neg then - v else v) = money_value ?neg whole frac"
      using sint_signed [OF bound [OF True], of ?neg] by (simp only: v_def money_value_def)
    moreover have "parseMoney s = Some (if ?neg then - v else v)"
      using True by (simp add: parseMoney_eq [OF cut] Let_def v_def)
    ultimately show ?thesis using True sint_inject [of m] by (metis option.inject)
  next
    case False
    then have "parseMoney s = None" unfolding parseMoney_eq [OF cut] by (rule if_not_P)
    with False show ?thesis by auto
  qed
  moreover have "?ok \<and> sint m = money_value ?neg whole frac \<longleftrightarrow>
     (\<exists>neg whole frac point. s = money_text neg whole frac point \<and> (point \<or> frac = []) \<and> whole \<noteq> [] \<and>
        digits whole \<and> digits frac \<and> length frac \<le> 3 \<and> number whole \<le> 1000000000000 \<and>
        sint m = money_value neg whole frac)" (is "_ = ?rhs")
  proof
    assume "?ok \<and> sint m = money_value ?neg whole frac"
    with s show ?rhs by (intro exI [of _ ?neg] exI [of _ whole] exI [of _ frac] exI [of _ point] conjI) simp_all
  next
    assume ?rhs
    then obtain neg w f p where r: "s = money_text neg w f p" "p \<or> f = []" "w \<noteq> []" "digits w" "digits f" "length f \<le> 3"
      "number w \<le> 1000000000000" "sint m = money_value neg w f" by blast
    have e: "neg = ?neg" "w = whole" "f = frac" using same [OF r(1-4)] by simp_all
    show "?ok \<and> sint m = money_value ?neg whole frac" using r(3-8) unfolding e by simp
  qed
  ultimately show ?thesis by (rule trans)
qed

subsection \<open>Writing an amount\<close>

lemma digits_dec: "digits (dec n)" "number (dec n) = n"
  using read_dec_number [of "dec n" n] by (simp_all add: read_dec_dec)

lemma digits_fixdec3: "n < 1000 \<Longrightarrow> digits (fixdec 3 n) \<and> number (fixdec 3 n) = n"
  using read_dec_number [of "fixdec 3 n" n] read_dec_fixdec [of n 3] by simp

lemma TrimSuffix0_append: "b \<noteq> [] \<Longrightarrow> TrimSuffix0 (a @ b) = a @ TrimSuffix0 b"
  by (simp add: TrimSuffix0_def butlast_append)

definition decimals :: "nat \<Rightarrow> string" where
  "decimals n = TrimSuffix0 (fixdec 3 n)"

lemma length_three: "length xs = 3 \<Longrightarrow> \<exists>a b c. xs = [a, b, c]"
  by (auto simp: numeral_3_eq_3 length_Suc_conv)

lemma decimals_padded:
  assumes "n < 1000"
  shows "length (decimals n) \<le> 3 \<and> padded (decimals n) = fixdec 3 n \<and> digits (decimals n)"
proof -
  obtain a b c where f: "fixdec 3 n = [a, b, c]" using length_three [OF length_fixdec] by blast
  have "digits [a, b, c]" using digits_fixdec3 [OF assms] by (simp add: f)
  then show ?thesis by (auto simp: decimals_def f TrimSuffix0_def padded_def digits_def)
qed

lemma unat_abs: "(if m <s 0 then unat (- m) else unat m) = nat \<bar>sint (m :: int64)\<bar>"
proof -
  have b: "- (2 ^ 63) \<le> sint m" "sint m < 2 ^ 63" using sint_ge [of m] sint_lt [of m] by simp_all
  have "unat (word_of_int i :: int64) = nat i" if "0 \<le> i" "i < 2 ^ 64" for i
    using that by (simp add: unsigned_of_int take_bit_int_eq_self)
  from this [of "sint m"] this [of "- sint m"] b show ?thesis
    by (auto simp: word_sless_alt)
qed

lemma formatMoney_text:
  "formatMoney m = money_text (m <s 0) (dec (nat \<bar>sint m\<bar> div 1000)) (decimals (nat \<bar>sint m\<bar> mod 1000)) True"
proof -
  let ?u = "nat \<bar>sint m\<bar>"
  have f: "formatMoney m = TrimSuffix0 (((if m <s 0 then ''-'' else []) @ dec (?u div 1000) @ ''.'') @ fixdec 3 (?u mod 1000))"
    unfolding formatMoney_def unat_abs [symmetric] by (simp add: pad_dec_def del: fixdec.simps)
  have "fixdec 3 (?u mod 1000) \<noteq> []" by (metis length_fixdec list.size(3) zero_neq_numeral)
  then have "TrimSuffix0 (((if m <s 0 then ''-'' else []) @ dec (?u div 1000) @ ''.'') @ fixdec 3 (?u mod 1000)) =
      money_text (m <s 0) (dec (?u div 1000)) (decimals (?u mod 1000)) True"
    by (subst TrimSuffix0_append) (simp_all add: decimals_def money_text_def del: fixdec.simps)
  with f show ?thesis by (rule trans)
qed

lemma money_text_parts:
  assumes "digits whole" "whole \<noteq> []"
  shows "HasPrefix (money_text neg whole frac True) ''-'' = neg"
    and "Cut CHR ''.'' (TrimPrefix (money_text neg whole frac True) ''-'') = (whole, frac, True)"
proof -
  show p: "HasPrefix (money_text neg whole frac True) ''-'' = neg"
    using assms digits_no_sign [OF assms(1), of "hd whole"] by (cases whole) (auto simp: money_text_def HasPrefix_def)
  then have "TrimPrefix (money_text neg whole frac True) ''-'' = whole @ CHR ''.'' # frac"
    by (cases neg) (auto simp: money_text_def TrimPrefix_def)
  then show "Cut CHR ''.'' (TrimPrefix (money_text neg whole frac True) ''-'') = (whole, frac, True)"
    using digits_no_sign [OF assms(1)] by (auto simp: Cut_iff)
qed

text \<open>
  Money round-trips exactly: the text of an amount reads back as that amount, for every
  amount of up to a million million units and 999 milliunits in either direction, and is refused
  beyond; and over all 64-bit amounts, the smallest one included, no two have the same text.
\<close>

theorem money_roundtrip:
  "parseMoney (formatMoney m) = (if \<bar>sint m\<bar> \<le> 1000000000000999 then Some m else None) \<and>
   (formatMoney a = formatMoney b \<longleftrightarrow> a = b)"
proof
  let ?u = "\<lambda>m. nat \<bar>sint m\<bar>"
  let ?q = "\<lambda>m. ?u m div 1000" and ?r = "\<lambda>m. ?u m mod 1000"
  have neg: "m <s 0 \<longleftrightarrow> sint m < 0" for m :: int64 by (simp add: word_sless_alt)
  have d: "length (decimals (?r m)) \<le> 3" "padded (decimals (?r m)) = fixdec 3 (?r m)" "digits (decimals (?r m))"
      "number (fixdec 3 (?r m)) = ?r m" for m
    using decimals_padded [of "?r m"] digits_fixdec3 [of "?r m"] by simp_all
  have cut: "HasPrefix (formatMoney m) ''-'' = (m <s 0)"
      "Cut CHR ''.'' (TrimPrefix (formatMoney m) ''-'') = (dec (?q m), decimals (?r m), True)" for m
    by (simp_all add: formatMoney_text money_text_parts digits_dec)
  have val: "?q m * 1000 + ?r m = ?u m" for m by (rule div_mult_mod_eq)
  show "parseMoney (formatMoney m) = (if \<bar>sint m\<bar> \<le> 1000000000000999 then Some m else None)"
  proof (cases "\<bar>sint m\<bar> \<le> 1000000000000999")
    case True
    then have q: "?q m \<le> 1000000000000" and u: "?u m < 2 ^ 63" by simp_all
    define v :: int64 where "v = of_nat (?u m)"
    have "sint (if m <s 0 then - v else v) = sint m"
      using sint_signed [OF u, of "m <s 0"] by (simp add: v_def neg)
    then have m: "(if m <s 0 then - v else v) = m" by (simp only: sint_inject)
    have "parseMoney (formatMoney m) = Some (if m <s 0 then - v else v)"
      unfolding parseMoney_eq [OF cut(2)] cut(1) d(2,4) digits_dec(2) val
      using q by (simp only: d(1,3) digits_dec(1) dec_not_Nil v_def Let_def if_True simp_thms)
    with True m show ?thesis by simp
  next
    case False
    then have "\<not> ?q m \<le> 1000000000000" by linarith
    with False show ?thesis unfolding parseMoney_eq [OF cut(2)] digits_dec(2) by simp
  qed
  show "formatMoney a = formatMoney b \<longleftrightarrow> a = b"
  proof
    assume e: "formatMoney a = formatMoney b"
    then have "dec (?q a) = dec (?q b)" "decimals (?r a) = decimals (?r b)" and s: "(a <s 0) = (b <s 0)"
      using cut [of a] cut [of b] by simp_all
    then have "?q a = ?q b" "?r a = ?r b" using digits_dec(2) d(2,4) by metis+
    then have "?u a = ?u b" using val by metis
    with s have "sint a = sint b" by (auto simp: neg)
    then show "a = b" by (simp only: sint_inject)
  qed simp
qed

end
