(* ===== verification/McpPeriod.thy ===== *)
theory McpPeriod
  imports McpMoney
begin

text \<open>
  Periods of \<open>mcp/tools_transactions.go\<close>: \<open>Period.resolve\<close>, \<open>dateRange\<close> and \<open>days\<close>. A
  \<open>clientError\<close> is an error with the sentinel \<open>ErrClient\<close>: only it is shown to the caller.
\<close>

definition badRequest :: "string \<Rightarrow> error" where
  "badRequest m = sentinelError m ErrClient"

record period =
  p_month :: string
  p_start :: string
  p_end :: string

text \<open>\<open>time.Parse("2006-01", s)\<close>: exactly \<open>dddd-dd\<close>, the first of a month that exists.\<close>

definition parse_month :: "string \<Rightarrow> date option" where
  "parse_month s =
     (if length s = 7 \<and> s ! 4 = CHR ''-'' then
        (case (read_dec 0 (take 4 s), read_dec 0 (drop 5 s)) of
           (Some y, Some m) \<Rightarrow> if 1 \<le> m \<and> m \<le> 12 then Some (int y, int m, 1) else None
         | _ \<Rightarrow> None)
      else None)"

text \<open>\<open>t.AddDate(years, months, days)\<close>: the month is normalised first, then the day.\<close>

fun AddDate :: "date \<Rightarrow> int \<Rightarrow> int \<Rightarrow> int \<Rightarrow> date" where
  "AddDate (y, m, d) dy dm dd =
     (let k = m + dm - 1
      in date_of_day (day_number (y + dy + k div 12, k mod 12 + 1, 1) + (d + dd - 1)))"

definition check_date :: "string \<Rightarrow> string \<Rightarrow> error option" where
  "check_date name d =
     (if d \<noteq> [] \<and> parse_date d = None then Some (badRequest (name @ '': dates must be YYYY-MM-DD'')) else None)"

definition dateRange :: "string \<Rightarrow> string \<Rightarrow> string \<Rightarrow> (string \<times> string) result" where
  "dateRange name start until =
     (case check_date name start of
        Some e \<Rightarrow> Inl e
      | None \<Rightarrow>
          (case check_date name until of
             Some e \<Rightarrow> Inl e
           | None \<Rightarrow>
               if start \<noteq> [] \<and> until \<noteq> [] \<and> until < start then Inl (badRequest (name @ '': start is after end''))
               else Inr (start, until)))"

definition resolve :: "period \<Rightarrow> string \<Rightarrow> (string \<times> string) result" where
  "resolve p name =
     (if p_month p \<noteq> [] then
        if p_start p \<noteq> [] \<or> p_end p \<noteq> [] then Inl (badRequest (name @ '': give month, or start and end, not both''))
        else (case parse_month (p_month p) of
                None \<Rightarrow> Inl (badRequest (name @ '': month must be YYYY-MM''))
              | Some m \<Rightarrow> Inr (format_date m, format_date (AddDate m 0 1 (- 1))))
      else if p_start p = [] \<or> p_end p = [] then Inl (badRequest (name @ '': give month, or both start and end''))
      else dateRange name (p_start p) (p_end p))"

text \<open>A date that does not parse is Go's zero time.\<close>

definition parsed_time :: "string \<Rightarrow> time" where
  "parsed_time s = (case parse_date s of None \<Rightarrow> 0 | Some dt \<Rightarrow> date_time dt)"

definition days :: "string \<Rightarrow> string \<Rightarrow> int" where
  "days start until = quot (time_Sub (parsed_time until) (parsed_time start)) ns_day + 1"

subsection \<open>What a period is\<close>

lemma parse_month_Some:
  assumes "parse_month s = Some dt"
  obtains y m where "dt = (y, m, 1)" "0 \<le> y" "y \<le> 9999" "1 \<le> m" "m \<le> 12"
proof -
  from assms obtain y m where r: "read_dec 0 (take 4 s) = Some y" "length s = 7" "1 \<le> m" "m \<le> 12" "dt = (int y, int m, 1)"
    by (auto simp: parse_month_def split: if_splits option.splits)
  have "y < 10 ^ 4" using read_dec_bound [OF r(1)] r(2) by simp
  with r that [of "int y" "int m"] show thesis by auto
qed

lemma last_of_month:
  assumes "1 \<le> m" "m \<le> 12"
  shows "AddDate (y, m, 1) 0 1 (- 1) = (y, m, days_in_month y m)"
proof -
  have after: "day_number (y + m div 12, m mod 12 + 1, 1) = day_number (y, m, days_in_month y m) + 1"
  proof (cases "m = 12")
    case True
    then show ?thesis using year_length [of y] by (auto simp: days_in_month_def days_before_month_def split: if_splits)
  next
    case False
    with assms have "m div 12 = 0" "m mod 12 = m" by simp_all
    then show ?thesis by (simp add: days_in_month_def)
  qed
  have "valid_date (y, m, days_in_month y m)"
    using assms days_before_month_bounds [of m y] by simp
  with after show ?thesis by (simp add: Let_def del: day_number.simps)
qed

lemma days_between:
  assumes "parse_date s = Some ds" "parse_date e = Some de" "day_number ds \<le> day_number de"
  shows "days s e = min 106752 (day_number de - day_number ds + 1)"
proof -
  define n where "n = day_number de - day_number ds"
  have n: "0 \<le> n" using assms(3) by (simp add: n_def)
  have "parsed_time e - parsed_time s = n * ns_day"
    using assms(1,2) by (simp add: parsed_time_def date_time_def n_def algebra_simps)
  then have d: "days s e = min (2 ^ 63 - 1) (n * ns_day) div ns_day + 1"
    using n by (simp add: days_def time_Sub_def quot_nonneg max_def)
  show ?thesis
  proof (cases "n \<le> 106751")
    case True
    then have "min (2 ^ 63 - 1) (n * ns_day) = n * ns_day" by simp
    then show ?thesis unfolding d using True by (simp add: n_def)
  next
    case False
    then have "min (2 ^ 63 - 1) (n * ns_day) = 2 ^ 63 - 1" by simp
    then show ?thesis unfolding d using False by (simp add: n_def)
  qed
qed

lemma dateRange_Inr:
  assumes "dateRange name start until = Inr (s, e)" "start \<noteq> []" "until \<noteq> []"
  obtains ds de where "s = start" "e = until" "parse_date s = Some ds" "parse_date e = Some de" "day_number ds \<le> day_number de"
proof -
  from assms have se: "s = start" "e = until" "start \<le> until"
    by (auto simp: dateRange_def not_less split: option.splits if_splits)
  from assms obtain ds de where d: "parse_date s = Some ds" "parse_date e = Some de"
    by (auto simp: dateRange_def check_date_def split: option.splits if_splits)
  have "\<not> day_number de < day_number ds"
    using format_date_less [OF parse_date_Some(1,2) [OF d(2)] parse_date_Some(1,2) [OF d(1)]]
      parse_date_Some(3) [OF d(1)] parse_date_Some(3) [OF d(2)] se by (simp add: not_less [symmetric])
  with se d that show thesis by (simp add: not_less)
qed

text \<open>
  A resolved period is a range of calendar days that exist: its ends parse as dates, the first
  not after the last; a month runs from its first to its last day (leap years included), a range is
  the caller's own; and the days reported count both ends, up to the 106752 days a Go duration can
  tell apart.
\<close>

theorem period_resolved:
  assumes "resolve p name = Inr (s, e)"
  shows "\<exists>ds de. parse_date s = Some ds \<and> parse_date e = Some de \<and> day_number ds \<le> day_number de \<and>
    (if p_month p = [] then s = p_start p \<and> e = p_end p
     else \<exists>y m. parse_month (p_month p) = Some (y, m, 1) \<and> ds = (y, m, 1) \<and> de = (y, m, days_in_month y m)) \<and>
    days s e = min 106752 (day_number de - day_number ds + 1)"
proof (cases "p_month p = []")
  case True
  with assms have r: "dateRange name (p_start p) (p_end p) = Inr (s, e)" "p_start p \<noteq> []" "p_end p \<noteq> []"
    by (auto simp: resolve_def split: if_splits)
  obtain ds de where d: "s = p_start p" "e = p_end p" "parse_date s = Some ds" "parse_date e = Some de" "day_number ds \<le> day_number de"
    using r by (rule dateRange_Inr)
  with True days_between [OF d(3-5)] show ?thesis by auto
next
  case False
  with assms obtain dt where dt: "parse_month (p_month p) = Some dt" "s = format_date dt" "e = format_date (AddDate dt 0 1 (- 1))"
    by (auto simp: resolve_def split: if_splits option.splits)
  obtain y m where y: "dt = (y, m, 1)" "0 \<le> y" "y \<le> 9999" "1 \<le> m" "m \<le> 12" using dt(1) by (rule parse_month_Some)
  have dim: "28 \<le> days_in_month y m" using y days_before_month_bounds(3) by blast
  have "parse_date s = Some (y, m, 1)"
    unfolding dt(2) y(1) by (rule parse_format_date) (use y dim in \<open>simp_all add: four_digit_def\<close>)
  moreover have "parse_date e = Some (y, m, days_in_month y m)"
    unfolding dt(3) y(1) last_of_month [OF y(4,5)]
    by (rule parse_format_date) (use y dim in \<open>simp_all add: four_digit_def\<close>)
  moreover have "day_number (y, m, 1) \<le> day_number (y, m, days_in_month y m)" using dim by simp
  ultimately show ?thesis using days_between dt(1) y(1) False by fastforce
qed

lemma period_resolved_witness:
  "\<exists>ds de. parse_date ''2024-02-01'' = Some ds \<and> parse_date ''2024-02-29'' = Some de \<and> day_number de - day_number ds = 28"
proof -
  have "resolve \<lparr>p_month = ''2024-02'', p_start = [], p_end = []\<rparr> ''period'' = Inr (''2024-02-01'', ''2024-02-29'')"
    by code_simp
  from period_resolved [OF this] have "\<exists>ds de. parse_date ''2024-02-01'' = Some ds \<and> parse_date ''2024-02-29'' = Some de \<and>
      days ''2024-02-01'' ''2024-02-29'' = min 106752 (day_number de - day_number ds + 1)" by blast
  moreover have "days ''2024-02-01'' ''2024-02-29'' = 29" by code_simp
  ultimately show ?thesis by (auto simp: min_def split: if_splits)
qed

end
