(* ===== verification/StoreLines.thy ===== *)
theory StoreLines
  imports StoreRows GoText
begin

text \<open>
  \<open>store/transactions_read.go\<close>: transactions read as lines, their filters, pages and totals. A query's
  rows come in the order of its \<open>ORDER BY\<close>; a SQL comparison with \<open>NULL\<close> does not select a row.
  A failure of a query is an argument, as is one of scanning a row.
\<close>

subsection \<open>Lines\<close>

text \<open>A row of \<open>lines\<close>: the columns of \<open>linesCTE\<close>.\<close>

record raw_line =
  rl_transaction_id :: string
  rl_sub_id :: string
  rl_date :: string
  rl_amount :: int64
  rl_memo :: "string option"
  rl_account_id :: string
  rl_payee_id :: "string option"
  rl_category_id :: "string option"
  rl_transfer_account_id :: "string option"
  rl_approved :: bool
  rl_cleared :: string
  rl_import_payee_name :: "string option"
  rl_flag_name :: "string option"

definition coalesce :: "'a option \<Rightarrow> 'a option \<Rightarrow> 'a option" where
  "coalesce a b = (case a of None \<Rightarrow> b | Some _ \<Rightarrow> a)"

definition live_subs :: "db \<Rightarrow> string \<Rightarrow> string \<Rightarrow> subtransaction list" where
  "live_subs d plan t =
     map snd (filter (\<lambda>((p, _), s). p = plan \<and> sub_transaction_id s = t \<and> \<not> sub_deleted s) (subtransactions d))"

definition whole_line :: "string \<Rightarrow> transaction_row \<Rightarrow> raw_line" where
  "whole_line key t =
     \<lparr>rl_transaction_id = key, rl_sub_id = [], rl_date = tx_date t, rl_amount = tx_amount t, rl_memo = tx_memo t,
      rl_account_id = tx_account_id t, rl_payee_id = tx_payee_id t, rl_category_id = tx_category_id t,
      rl_transfer_account_id = tx_transfer_account_id t, rl_approved = tx_approved t, rl_cleared = tx_cleared t,
      rl_import_payee_name = tx_import_payee_name t, rl_flag_name = tx_flag_name t\<rparr>"

definition part_line :: "string \<Rightarrow> transaction_row \<Rightarrow> string \<Rightarrow> subtransaction \<Rightarrow> raw_line" where
  "part_line key t skey s =
     \<lparr>rl_transaction_id = key, rl_sub_id = skey, rl_date = tx_date t, rl_amount = sub_amount s,
      rl_memo = coalesce (sub_memo s) (tx_memo t), rl_account_id = tx_account_id t,
      rl_payee_id = coalesce (sub_payee_id s) (tx_payee_id t), rl_category_id = sub_category_id s,
      rl_transfer_account_id = sub_transfer_account_id s, rl_approved = tx_approved t, rl_cleared = tx_cleared t,
      rl_import_payee_name = tx_import_payee_name t, rl_flag_name = tx_flag_name t\<rparr>"

text \<open>\<open>linesCTE\<close>: the two halves of the \<open>UNION ALL\<close>.\<close>

definition whole_lines :: "db \<Rightarrow> string \<Rightarrow> raw_line list" where
  "whole_lines d plan =
     map (\<lambda>((_, k), t). whole_line k t)
       (filter (\<lambda>((p, k), t). p = plan \<and> \<not> tx_deleted t \<and> live_subs d plan k = []) (transactions d))"

definition part_lines :: "db \<Rightarrow> string \<Rightarrow> raw_line list" where
  "part_lines d plan =
     List.map_filter (\<lambda>((p, k), s).
         if p = plan \<and> \<not> sub_deleted s then
           (case tbl_get (transactions d) (plan, sub_transaction_id s) of
              None \<Rightarrow> None
            | Some t \<Rightarrow> if tx_deleted t then None else Some (part_line (sub_transaction_id s) t k s))
         else None)
       (subtransactions d)"

definition lines :: "db \<Rightarrow> string \<Rightarrow> raw_line list" where
  "lines d plan = whole_lines d plan @ part_lines d plan"

text \<open>\<open>linesJoins\<close>: the line with the names of its account, payee, category and group.\<close>

record line =
  ln_line :: raw_line
  ln_account_name :: "string option"
  ln_on_budget :: "bool option"
  ln_payee_name :: "string option"
  ln_category_name :: "string option"
  ln_internal :: "bool option"
  ln_group_name :: "string option"

definition join_line :: "db \<Rightarrow> string \<Rightarrow> raw_line \<Rightarrow> line" where
  "join_line d plan l =
     (let a = tbl_get (accounts d) (plan, rl_account_id l);
          p = Option.bind (rl_payee_id l) (\<lambda>k. tbl_get (payees d) (plan, k));
          c = Option.bind (rl_category_id l) (\<lambda>k. tbl_get (categories d) (plan, k));
          g = Option.bind c (\<lambda>c. tbl_get (category_groups d) (plan, cat_category_group_id c))
      in \<lparr>ln_line = l, ln_account_name = map_option acc_name a, ln_on_budget = map_option acc_on_budget a,
          ln_payee_name = map_option pay_name p, ln_category_name = map_option cat_name c,
          ln_internal = map_option cat_internal c, ln_group_name = map_option grp_name g\<rparr>)"

definition joined :: "db \<Rightarrow> string \<Rightarrow> line list" where
  "joined d plan = map (join_line d plan) (lines d plan)"

subsection \<open>The order of lines\<close>

text \<open>\<open>LineKey\<close> in \<open>QueryLines\<close>'s order: newest date first, then transaction id, then subtransaction id.\<close>

datatype line_key = LineKey (lk_date: string) (lk_transaction: string) (lk_sub: string)

instantiation line_key :: linorder
begin

definition less_line_key :: "line_key \<Rightarrow> line_key \<Rightarrow> bool" where
  "less_line_key a b \<longleftrightarrow> lk_date b < lk_date a \<or>
     (lk_date a = lk_date b \<and> (lk_transaction a < lk_transaction b \<or>
       (lk_transaction a = lk_transaction b \<and> lk_sub a < lk_sub b)))"

definition less_eq_line_key :: "line_key \<Rightarrow> line_key \<Rightarrow> bool" where
  "less_eq_line_key a b \<longleftrightarrow> a < b \<or> a = b"

instance
proof
  fix x y :: line_key
  show "x \<le> y \<or> y \<le> x" by (cases x; cases y) (auto simp: less_line_key_def less_eq_line_key_def)
qed (auto simp: less_line_key_def less_eq_line_key_def)

end

definition Key :: "line \<Rightarrow> line_key" where
  "Key l = LineKey (rl_date (ln_line l)) (rl_transaction_id (ln_line l)) (rl_sub_id (ln_line l))"

text \<open>The condition \<open>QueryLines\<close> adds for a page after \<open>k\<close>.\<close>

definition after_key :: "line_key \<Rightarrow> line \<Rightarrow> bool" where
  "after_key k l \<longleftrightarrow>
     rl_date (ln_line l) < lk_date k \<or>
     (rl_date (ln_line l) = lk_date k \<and>
       (lk_transaction k < rl_transaction_id (ln_line l) \<or>
        (rl_transaction_id (ln_line l) = lk_transaction k \<and> lk_sub k < rl_sub_id (ln_line l))))"

subsection \<open>Filters\<close>

record line_filter =
  lf_start :: string
  lf_end :: string
  lf_account :: string
  lf_category :: string
  lf_payee_text :: string
  lf_min_amount :: "int64 option"
  lf_max_amount :: "int64 option"
  lf_approved :: "bool option"

definition escapeLike :: "string \<Rightarrow> string" where
  "escapeLike s = concat (map (\<lambda>c. if c = CHR 0x5C \<or> c = CHR ''%'' \<or> c = CHR ''_'' then [CHR 0x5C, c] else [c]) s)"

text \<open>SQLite's \<open>x LIKE pattern ESCAPE '\'\<close>: \<open>%\<close> is any text, \<open>_\<close> any character; letters match in any case.\<close>

function like :: "string \<Rightarrow> string \<Rightarrow> bool" where
  "like [] s = (s = [])"
| "like (p # ps) s =
     (if p = CHR ''%'' then like ps s \<or> (case s of [] \<Rightarrow> False | _ # cs \<Rightarrow> like (p # ps) cs)
      else if p = CHR 0x5C then
        (case (ps, s) of (q # qs, c # cs) \<Rightarrow> lower_char q = lower_char c \<and> like qs cs | _ \<Rightarrow> False)
      else (case s of [] \<Rightarrow> False | c # cs \<Rightarrow> (p = CHR ''_'' \<or> lower_char p = lower_char c) \<and> like ps cs))"
  by pat_completeness auto
termination
  by (relation "measures [\<lambda>(p, s). length p + length s]") auto

declare like.simps [simp del]

definition matches_name :: "string \<Rightarrow> string option \<Rightarrow> bool" where
  "matches_name s name = (case name of None \<Rightarrow> False | Some n \<Rightarrow> ToLower n = ToLower s)"

definition like_name :: "string \<Rightarrow> string option \<Rightarrow> bool" where
  "like_name pat name = (case name of None \<Rightarrow> False | Some n \<Rightarrow> like pat (ToLower n))"

text \<open>\<open>where\<close>: the conjunction of the conditions that the filter's non-zero fields add.\<close>

definition selects :: "line_filter \<Rightarrow> line \<Rightarrow> bool" where
  "selects f l =
     (let r = ln_line l; pat = CHR ''%'' # escapeLike (ToLower (lf_payee_text f)) @ ''%''
      in (lf_start f \<noteq> [] \<longrightarrow> lf_start f \<le> rl_date r) \<and>
         (lf_end f \<noteq> [] \<longrightarrow> rl_date r \<le> lf_end f) \<and>
         (lf_account f \<noteq> [] \<longrightarrow> rl_account_id r = lf_account f \<or> matches_name (lf_account f) (ln_account_name l)) \<and>
         (lf_category f \<noteq> [] \<longrightarrow> rl_category_id r = Some (lf_category f) \<or> matches_name (lf_category f) (ln_category_name l)) \<and>
         (lf_payee_text f \<noteq> [] \<longrightarrow> like_name pat (ln_payee_name l) \<or> like_name pat (rl_import_payee_name r)) \<and>
         (case lf_min_amount f of None \<Rightarrow> True | Some m \<Rightarrow> m \<le>s rl_amount r) \<and>
         (case lf_max_amount f of None \<Rightarrow> True | Some m \<Rightarrow> rl_amount r \<le>s m) \<and>
         (case lf_approved f of None \<Rightarrow> True | Some b \<Rightarrow> rl_approved r = b))"

subsection \<open>Queries\<close>

text \<open>SQLite's \<open>sum\<close> of an integer column, which fails when it leaves the 64-bit range.\<close>

definition sql_sum :: "int64 list \<Rightarrow> int64 result" where
  "sql_sum xs =
     (let s = sum_list (map sint xs)
      in if - (2 ^ 63) \<le> s \<and> s < 2 ^ 63 then Inr (word_of_int s) else Inl (newError ''integer overflow''))"

record line_summary =
  lsum_count :: nat
  lsum_total :: int64

definition QueryLines ::
    "(nat \<Rightarrow> error option) \<Rightarrow> db \<Rightarrow> string \<Rightarrow> line_filter \<Rightarrow> line_key option \<Rightarrow> nat \<Rightarrow> (line list \<times> line_summary) result" where
  "QueryLines flt d plan f after limit =
     (let found = filter (selects f) (joined d plan)
      in case (case flt 0 of Some e \<Rightarrow> Inl e | None \<Rightarrow> sql_sum (map (rl_amount \<circ> ln_line) found)) of
           Inl e \<Rightarrow> Inl (wrapError ''store: summarize lines'' e)
         | Inr amount \<Rightarrow>
             (case flt 1 of
                Some e \<Rightarrow> Inl (wrapError ''store: query lines'' e)
              | None \<Rightarrow>
                  (let page = (case after of None \<Rightarrow> found | Some k \<Rightarrow> filter (after_key k) found)
                   in (case flt 2 of
                         Some e \<Rightarrow> Inl (wrapError ''store: scan line'' e)
                       | None \<Rightarrow> Inr (take limit (sort_key Key page), \<lparr>lsum_count = length found, lsum_total = amount\<rparr>)))))"

record category_total =
  ct_category_id :: string
  ct_category_name :: string
  ct_category_group :: string
  ct_total :: int64
  ct_count :: nat

text \<open>The \<open>WHERE\<close> of \<open>CategoryTotals\<close>.\<close>

definition spending_line :: "string \<Rightarrow> string \<Rightarrow> line \<Rightarrow> bool" where
  "spending_line start until l =
     (let r = ln_line l
      in start \<le> rl_date r \<and> rl_date r \<le> until \<and> ln_on_budget l = Some True \<and>
         \<not> (rl_category_id r = None \<and> rl_transfer_account_id r \<noteq> None) \<and>
         \<not> (ln_internal l = Some True \<and> (case ln_category_name l of None \<Rightarrow> False | Some n \<Rightarrow> like ''Inflow:%'' n)))"

definition or_empty :: "string option \<Rightarrow> string" where
  "or_empty x = (case x of None \<Rightarrow> [] | Some s \<Rightarrow> s)"

text \<open>What a line is grouped by, in the order of \<open>ORDER BY 3, 2, 1\<close>: group, name, id.\<close>

definition group_key :: "line \<Rightarrow> string \<times> string \<times> string" where
  "group_key l = (or_empty (ln_group_name l), or_empty (ln_category_name l), or_empty (rl_category_id (ln_line l)))"

definition total_of :: "line list \<Rightarrow> string \<times> string \<times> string \<Rightarrow> category_total result" where
  "total_of ls k =
     (let rows = filter (\<lambda>l. group_key l = k) ls
      in case sql_sum (map (rl_amount \<circ> ln_line) rows) of
           Inl e \<Rightarrow> Inl e
         | Inr t \<Rightarrow> Inr \<lparr>ct_category_id = snd (snd k), ct_category_name = fst (snd k), ct_category_group = fst k,
                         ct_total = t, ct_count = length rows\<rparr>)"

definition CategoryTotals :: "error option \<Rightarrow> db \<Rightarrow> string \<Rightarrow> string \<Rightarrow> string \<Rightarrow> category_total list result" where
  "CategoryTotals flt d plan start until =
     (let ls = filter (spending_line start until) (joined d plan)
      in case (case flt of Some e \<Rightarrow> Inl e | None \<Rightarrow> collect (total_of ls) (sort (remdups (map group_key ls)))) of
           Inl e \<Rightarrow> Inl (wrapError ''store: category totals'' e)
         | Inr ts \<Rightarrow> Inr ts)"

datatype name_table = Accounts | Categories

definition NameMatches :: "error option \<Rightarrow> db \<Rightarrow> string \<Rightarrow> name_table \<Rightarrow> string \<Rightarrow> bool result" where
  "NameMatches flt d plan t s =
     (case flt of
        Some e \<Rightarrow> Inl (wrapError (''store: match '' @ (case t of Accounts \<Rightarrow> ''accounts'' | Categories \<Rightarrow> ''categories'')) e)
      | None \<Rightarrow>
          (let names = (case t of
               Accounts \<Rightarrow> map (\<lambda>((p, k), a). (p, k, acc_name a)) (accounts d)
             | Categories \<Rightarrow> map (\<lambda>((p, k), c). (p, k, cat_name c)) (categories d))
           in Inr (0 < length (filter (\<lambda>(p, k, n). p = plan \<and> (k = s \<or> ToLower n = ToLower s)) names))))"

end
