(* ===== verification/LineFacts.thy ===== *)
theory LineFacts
  imports StoreLines "HOL-Library.Multiset"
begin

text \<open>
  Each dollar is a line once; a filter's text is matched literally; pages continue where the last one
  ended; category totals add up.
\<close>

subsection \<open>Sums\<close>

lemma sql_sum_Inr: "sql_sum xs = Inr t \<Longrightarrow> sint t = sum_list (map sint xs)"
  by (auto simp: sql_sum_def Let_def sint_word_of_int_eq split: if_splits)

lemma sum_list_filter_if: "sum_list (map f (filter P xs)) = (\<Sum>x\<leftarrow>xs. if P x then f x else 0)"
  for f :: "'a \<Rightarrow> int"
  by (induction xs) auto

lemma sum_list_map_filter: "sum_list (map f (List.map_filter g xs)) = (\<Sum>x\<leftarrow>xs. case g x of None \<Rightarrow> 0 | Some y \<Rightarrow> f y)"
  for f :: "'a \<Rightarrow> int"
  by (induction xs) (auto simp: List.map_filter_def)

lemma sum_list_swap: "(\<Sum>x\<leftarrow>xs. \<Sum>y\<leftarrow>ys. f x y) = (\<Sum>y\<leftarrow>ys. \<Sum>x\<leftarrow>xs. f x y)"
  for f :: "'a \<Rightarrow> 'b \<Rightarrow> int"
  by (induction xs) (simp_all add: sum_list_addf)

text \<open>The row of a key, found by summing over the whole table.\<close>

lemma sum_list_lookup:
  fixes f :: "'v \<Rightarrow> int"
  assumes "tbl_ok t"
  shows "(\<Sum>(k', v)\<leftarrow>t. if k' = k \<and> P v then f v else 0) = (case tbl_get t k of None \<Rightarrow> 0 | Some v \<Rightarrow> if P v then f v else 0)"
  using assms
proof (induction t)
  case (Cons a t)
  obtain k' v where a: "a = (k', v)" by fastforce
  have ok: "tbl_ok t" and nk: "tbl_get t k' = None"
    using Cons.prems by (auto simp: a tbl_ok_def tbl_keys_def tbl_get_None_iff)
  show ?case using Cons.IH [OF ok] nk by (auto simp: a)
qed simp

text \<open>What a live transaction is worth to the lines: itself, or its live parts.\<close>

definition split_amount :: "db \<Rightarrow> string \<Rightarrow> string \<Rightarrow> transaction_row \<Rightarrow> int" where
  "split_amount d plan k t =
     (if live_subs d plan k = [] then sint (tx_amount t) else sum_list (map (sint \<circ> sub_amount) (live_subs d plan k)))"

lemma whole_lines_sum:
  "sum_list (map (sint \<circ> rl_amount) (whole_lines d plan)) =
   (\<Sum>((p, k), t)\<leftarrow>transactions d. if p = plan \<and> \<not> tx_deleted t \<and> live_subs d plan k = [] then sint (tx_amount t) else 0)"
proof -
  have "sum_list (map (sint \<circ> rl_amount) (whole_lines d plan)) =
      sum_list (map (\<lambda>x. sint (tx_amount (snd x)))
        (filter (\<lambda>((p, k), t). p = plan \<and> \<not> tx_deleted t \<and> live_subs d plan k = []) (transactions d)))"
    unfolding whole_lines_def map_map by (rule arg_cong [of _ _ sum_list], rule map_cong) (auto simp: whole_line_def)
  also have "\<dots> = (\<Sum>x\<leftarrow>transactions d. if (\<lambda>((p, k), t). p = plan \<and> \<not> tx_deleted t \<and> live_subs d plan k = []) x
      then sint (tx_amount (snd x)) else 0)"
    by (rule sum_list_filter_if)
  also have "\<dots> = (\<Sum>((p, k), t)\<leftarrow>transactions d. if p = plan \<and> \<not> tx_deleted t \<and> live_subs d plan k = [] then sint (tx_amount t) else 0)"
    by (simp add: split_def)
  finally show ?thesis .
qed

lemma live_subs_sum:
  "sum_list (map (sint \<circ> sub_amount) (live_subs d plan k)) =
   (\<Sum>((p, j), s)\<leftarrow>subtransactions d. if p = plan \<and> sub_transaction_id s = k \<and> \<not> sub_deleted s then sint (sub_amount s) else 0)"
proof -
  have "sum_list (map (sint \<circ> sub_amount) (live_subs d plan k)) =
      sum_list (map (\<lambda>x. sint (sub_amount (snd x)))
        (filter (\<lambda>((p, j), s). p = plan \<and> sub_transaction_id s = k \<and> \<not> sub_deleted s) (subtransactions d)))"
    by (simp add: live_subs_def comp_def)
  also have "\<dots> = (\<Sum>x\<leftarrow>subtransactions d. if (\<lambda>((p, j), s). p = plan \<and> sub_transaction_id s = k \<and> \<not> sub_deleted s) x
      then sint (sub_amount (snd x)) else 0)"
    by (rule sum_list_filter_if)
  also have "\<dots> = (\<Sum>((p, j), s)\<leftarrow>subtransactions d. if p = plan \<and> sub_transaction_id s = k \<and> \<not> sub_deleted s then sint (sub_amount s) else 0)"
    by (simp add: split_def)
  finally show ?thesis .
qed

lemma part_lines_sum:
  assumes "tbl_ok (transactions d)"
  shows "sum_list (map (sint \<circ> rl_amount) (part_lines d plan)) =
    (\<Sum>((p, k), t)\<leftarrow>transactions d. if p = plan \<and> \<not> tx_deleted t
       then sum_list (map (sint \<circ> sub_amount) (live_subs d plan k)) else 0)"
proof -
  let ?sub = "\<lambda>k ((p, j), s). if p = plan \<and> sub_transaction_id s = k \<and> \<not> sub_deleted s then sint (sub_amount s) else 0"
  have one: "(\<Sum>((p, k), t)\<leftarrow>transactions d. if p = plan \<and> \<not> tx_deleted t then ?sub k x else 0) =
      (case (\<lambda>((p, k), s).
         if p = plan \<and> \<not> sub_deleted s then
           (case tbl_get (transactions d) (plan, sub_transaction_id s) of
              None \<Rightarrow> None
            | Some t \<Rightarrow> if tx_deleted t then None else Some (part_line (sub_transaction_id s) t k s))
         else None) x of None \<Rightarrow> 0 | Some y \<Rightarrow> (sint \<circ> rl_amount) y)" for x
  proof -
    obtain p j s where x: "x = ((p, j), s)" by (metis prod.exhaust)
    show ?thesis
    proof (cases "p = plan \<and> \<not> sub_deleted s")
      case True
      have "(\<Sum>((p, k), t)\<leftarrow>transactions d. if p = plan \<and> \<not> tx_deleted t then ?sub k x else 0) =
          (\<Sum>(pk, t)\<leftarrow>transactions d. if pk = (plan, sub_transaction_id s) \<and> \<not> tx_deleted t then sint (sub_amount s) else 0)"
        by (rule arg_cong [of _ _ sum_list], rule map_cong) (use True in \<open>auto simp: x\<close>)
      also have "\<dots> = (case tbl_get (transactions d) (plan, sub_transaction_id s) of None \<Rightarrow> 0
          | Some t \<Rightarrow> if \<not> tx_deleted t then sint (sub_amount s) else 0)"
        by (rule sum_list_lookup [OF assms, where f = "\<lambda>_. sint (sub_amount s)"])
      finally show ?thesis using True by (auto simp: x part_line_def split: option.splits)
    next
      case False
      then have "(\<Sum>((p, k), t)\<leftarrow>transactions d. if p = plan \<and> \<not> tx_deleted t then ?sub k x else 0) = (\<Sum>_\<leftarrow>transactions d. 0)"
        by (intro arg_cong [of _ _ sum_list] map_cong) (auto simp: x)
      with False show ?thesis by (auto simp: x)
    qed
  qed
  have "sum_list (map (sint \<circ> rl_amount) (part_lines d plan)) =
      (\<Sum>x\<leftarrow>subtransactions d. \<Sum>((p, k), t)\<leftarrow>transactions d. if p = plan \<and> \<not> tx_deleted t then ?sub k x else 0)"
    unfolding part_lines_def sum_list_map_filter
    by (rule arg_cong [of _ _ sum_list], rule map_cong [OF refl], rule one [symmetric])
  also have "\<dots> = (\<Sum>y\<leftarrow>transactions d. \<Sum>x\<leftarrow>subtransactions d. (\<lambda>((p, k), t). if p = plan \<and> \<not> tx_deleted t then ?sub k x else 0) y)"
    by (rule sum_list_swap)
  also have "\<dots> = (\<Sum>((p, k), t)\<leftarrow>transactions d. if p = plan \<and> \<not> tx_deleted t
       then sum_list (map (sint \<circ> sub_amount) (live_subs d plan k)) else 0)"
    by (intro arg_cong [of _ _ sum_list] map_cong refl) (auto simp: live_subs_sum split: prod.splits)
  finally show ?thesis .
qed

text \<open>
  C29: Every dollar is read exactly once. The amounts of a plan's lines add up to the amounts of its
  live transactions, each taken as its live split parts when it has any and as itself otherwise:
  nothing deleted counts, no split is counted both whole and in parts, no part is lost.
\<close>

theorem lines_count_once:
  assumes "tbl_ok (transactions d)"
  shows "sum_list (map (sint \<circ> rl_amount) (lines d plan)) =
    (\<Sum>((p, k), t)\<leftarrow>transactions d. if p = plan \<and> \<not> tx_deleted t then split_amount d plan k t else 0)"
proof -
  have "sum_list (map (sint \<circ> rl_amount) (lines d plan)) =
      (\<Sum>x\<leftarrow>transactions d. (\<lambda>((p, k), t). if p = plan \<and> \<not> tx_deleted t \<and> live_subs d plan k = [] then sint (tx_amount t) else 0) x +
        (\<lambda>((p, k), t). if p = plan \<and> \<not> tx_deleted t then sum_list (map (sint \<circ> sub_amount) (live_subs d plan k)) else 0) x)"
    by (simp add: lines_def whole_lines_sum part_lines_sum [OF assms] sum_list_addf split_def)
  also have "\<dots> = (\<Sum>((p, k), t)\<leftarrow>transactions d. if p = plan \<and> \<not> tx_deleted t then split_amount d plan k t else 0)"
    by (intro arg_cong [of _ _ sum_list] map_cong refl) (auto simp: split_amount_def split: prod.splits)
  finally show ?thesis .
qed


subsection \<open>Text is matched literally\<close>

lemma like_literal: "like (escapeLike t @ ''%'') s \<longleftrightarrow> HasPrefix (ToLower s) (ToLower t)"
proof (induction t arbitrary: s)
  case Nil
  have "like ''%'' s" for s
  proof (induction s)
    case (Cons c cs)
    then show ?case by (subst like.simps) simp
  qed (simp add: like.simps)
  then show ?case by (simp add: escapeLike_def HasPrefix_def ToLower_def)
next
  case (Cons c t)
  let ?rest = "escapeLike t @ ''%''"
  have "escapeLike (c # t) @ ''%'' = (if c = CHR 0x5C \<or> c = CHR ''%'' \<or> c = CHR ''_'' then [CHR 0x5C, c] else [c]) @ ?rest"
    by (simp add: escapeLike_def)
  then show ?case
    using Cons.IH by (cases s) (auto simp: like.simps HasPrefix_def ToLower_def)
qed

lemma like_substring: "like (CHR ''%'' # escapeLike t @ ''%'') s \<longleftrightarrow> Contains (ToLower s) (ToLower t)"
proof (induction s)
  case Nil
  show ?case by (subst like.simps) (auto simp: like_literal HasPrefix_def ToLower_def)
next
  case (Cons c cs)
  then show ?case by (subst like.simps) (auto simp: like_literal ToLower_def)
qed

text \<open>
  A payee filter finds its text literally, in any case: the wildcards of \<open>LIKE\<close> in it are
  escaped, so a line passes \<open>payee text\<close> exactly when its payee's or its imported payee's name
  contains the text, case aside; and the other conditions are the plain comparisons of the line.
\<close>

theorem payee_filter_literal:
  "selects f l \<longleftrightarrow>
     selects (f\<lparr>lf_payee_text := []\<rparr>) l \<and>
     (lf_payee_text f \<noteq> [] \<longrightarrow>
        (\<exists>n \<in> set_option (ln_payee_name l) \<union> set_option (rl_import_payee_name (ln_line l)).
           Contains (ToLower n) (ToLower (lf_payee_text f))))"
proof -
  have "like_name (CHR ''%'' # escapeLike (ToLower t) @ ''%'') name \<longleftrightarrow>
      (\<exists>n \<in> set_option name. Contains (ToLower n) (ToLower t))" for t name
    by (cases name) (simp_all add: like_name_def like_substring)
  then show ?thesis by (auto simp: selects_def Let_def)
qed


subsection \<open>Category totals\<close>

lemma sum_list_one: "distinct ks \<Longrightarrow> (\<Sum>k\<leftarrow>ks. if j = k then c else 0) = (if j \<in> set ks then c else (0::int))"
  by (induction ks) auto

lemma sum_by_key:
  fixes f :: "'a \<Rightarrow> int"
  assumes "distinct ks" and "set (map g ls) \<subseteq> set ks"
  shows "(\<Sum>k\<leftarrow>ks. sum_list (map f (filter (\<lambda>l. g l = k) ls))) = sum_list (map f ls)"
proof -
  have "(\<Sum>k\<leftarrow>ks. sum_list (map f (filter (\<lambda>l. g l = k) ls))) = (\<Sum>l\<leftarrow>ls. \<Sum>k\<leftarrow>ks. if g l = k then f l else 0)"
    by (simp add: sum_list_filter_if) (rule sum_list_swap)
  also have "\<dots> = sum_list (map f ls)"
    by (intro arg_cong [of _ _ sum_list] map_cong refl) (use assms in \<open>auto simp: sum_list_one\<close>)
  finally show ?thesis .
qed

definition total_key :: "category_total \<Rightarrow> string \<times> string \<times> string" where
  "total_key t = (ct_category_group t, ct_category_name t, ct_category_id t)"

lemma total_of_Inr:
  "total_of ls k = Inr t \<Longrightarrow> total_key t = k \<and> ct_count t = length (filter (\<lambda>l. group_key l = k) ls) \<and>
     sint (ct_total t) = sum_list (map (sint \<circ> rl_amount \<circ> ln_line) (filter (\<lambda>l. group_key l = k) ls))"
  by (auto simp: total_of_def total_key_def Let_def comp_def dest!: sql_sum_Inr split: sum.splits)

lemma CategoryTotals_Inr:
  assumes "CategoryTotals flt d plan start until = Inr ts"
  shows "list_all2 (\<lambda>k t. total_of (filter (spending_line start until) (joined d plan)) k = Inr t)
    (sort (remdups (map group_key (filter (spending_line start until) (joined d plan))))) ts"
  using assms by (auto simp: CategoryTotals_def Let_def collect_Inr_iff split: option.splits sum.splits)

lemma CategoryTotals_rows:
  assumes "CategoryTotals flt d plan start until = Inr ts"
  shows "map total_key ts = sort (remdups (map group_key (filter (spending_line start until) (joined d plan)))) \<and>
    (\<forall>t \<in> set ts. total_of (filter (spending_line start until) (joined d plan)) (total_key t) = Inr t)"
proof -
  have "map total_key ts = ks \<and> (\<forall>t \<in> set ts. total_of ls (total_key t) = Inr t)"
    if "list_all2 (\<lambda>k t. total_of ls k = Inr t) ks ts" for ls ks
    using that
  proof (induction rule: list_all2_induct)
    case (Cons k ks t ts)
    then show ?case using total_of_Inr [OF Cons.hyps(1)] by simp
  qed simp
  then show ?thesis using CategoryTotals_Inr [OF assms] by blast
qed

lemma list_all2_right: "list_all2 P xs ys \<Longrightarrow> y \<in> set ys \<Longrightarrow> \<exists>x. P x y"
  by (induction rule: list_all2_induct) auto

lemma sum_list_all2: "list_all2 (\<lambda>k t. f k = g t) ks ts \<Longrightarrow> sum_list (map g ts) = sum_list (map f ks)"
  by (induction rule: list_all2_induct) simp_all

text \<open>
  Category totals are complete and disjoint: they come in the order of group, name and id, one
  row each; every row is the exact sum (no wrap-around) and the number of the spending lines of its
  category; and the rows together add up to all spending lines of the period.
\<close>

theorem CategoryTotals_add_up:
  assumes "CategoryTotals flt d plan start until = Inr ts"
  defines "ls \<equiv> filter (spending_line start until) (joined d plan)"
  shows "sorted (map total_key ts) \<and> distinct (map total_key ts) \<and>
    (\<forall>t \<in> set ts. sint (ct_total t) = sum_list (map (sint \<circ> rl_amount \<circ> ln_line) (filter (\<lambda>l. group_key l = total_key t) ls)) \<and>
       ct_count t = length (filter (\<lambda>l. group_key l = total_key t) ls)) \<and>
    (\<Sum>t\<leftarrow>ts. sint (ct_total t)) = sum_list (map (sint \<circ> rl_amount \<circ> ln_line) ls) \<and>
    (\<Sum>t\<leftarrow>ts. int (ct_count t)) = int (length ls)"
proof -
  let ?ks = "sort (remdups (map group_key ls))"
  have all: "list_all2 (\<lambda>k t. total_of ls k = Inr t) ?ks ts" using CategoryTotals_Inr [OF assms(1)] by (simp add: ls_def)
  then have t: "list_all2 (\<lambda>k t. total_key t = k \<and> ct_count t = length (filter (\<lambda>l. group_key l = k) ls) \<and>
      sint (ct_total t) = sum_list (map (sint \<circ> rl_amount \<circ> ln_line) (filter (\<lambda>l. group_key l = k) ls))) ?ks ts"
    by (rule list_all2_mono) (rule total_of_Inr)
  have keys: "map total_key ts = ?ks" using t by (induction rule: list_all2_induct) simp_all
  have d: "distinct ?ks" "set (map group_key ls) \<subseteq> set ?ks" by auto
  have "list_all2 (\<lambda>k t. sum_list (map (sint \<circ> rl_amount \<circ> ln_line) (filter (\<lambda>l. group_key l = k) ls)) = sint (ct_total t)) ?ks ts"
    using t by (rule list_all2_mono) simp
  from sum_list_all2 [OF this] have s: "(\<Sum>t\<leftarrow>ts. sint (ct_total t)) = sum_list (map (sint \<circ> rl_amount \<circ> ln_line) ls)"
    using sum_by_key [OF d, of "sint \<circ> rl_amount \<circ> ln_line"] by simp
  have "list_all2 (\<lambda>k t. sum_list (map (\<lambda>_. 1) (filter (\<lambda>l. group_key l = k) ls)) = int (ct_count t)) ?ks ts"
    using t by (rule list_all2_mono) (simp add: sum_list_triv)
  from sum_list_all2 [OF this] have c: "(\<Sum>t\<leftarrow>ts. int (ct_count t)) = int (length ls)"
    using sum_by_key [OF d, of "\<lambda>_. 1"] by (simp add: sum_list_triv)
  have each_row: "sint (ct_total x) = sum_list (map (sint \<circ> rl_amount \<circ> ln_line) (filter (\<lambda>l. group_key l = total_key x) ls)) \<and>
       ct_count x = length (filter (\<lambda>l. group_key l = total_key x) ls)" if "x \<in> set ts" for x
    using list_all2_right [OF t that] by blast
  show ?thesis by (intro conjI ballI) (use each_row s c in \<open>simp_all add: keys\<close>)
qed

subsection \<open>Pages\<close>

lemma after_key_less: "after_key k l \<longleftrightarrow> k < Key l"
  by (auto simp: after_key_def less_line_key_def Key_def)

lemma part_lines_Cons:
  "List.map_filter f (x # xs) = (case f x of None \<Rightarrow> [] | Some y \<Rightarrow> [y]) @ List.map_filter f xs"
  by (simp add: List.map_filter_def split: option.split)

text \<open>A partial map whose results carry part of a distinct key has distinct results.\<close>

lemma distinct_map_filter_key:
  assumes "distinct (map fst xs)" and f: "\<And>x y. f x = Some y \<Longrightarrow> fst x = h (g y)"
  shows "distinct (map g (List.map_filter f xs)) \<and> h ` set (map g (List.map_filter f xs)) \<subseteq> set (map fst xs)"
  using assms(1)
proof (induction xs)
  case (Cons x xs)
  show ?case
  proof (cases "f x")
    case None
    with Cons show ?thesis by (auto simp: part_lines_Cons)
  next
    case (Some y)
    with Cons f [OF Some] show ?thesis by (auto simp: part_lines_Cons)
  qed
qed (simp add: List.map_filter_def)

lemma part_lines_distinct:
  assumes "tbl_ok (subtransactions d)"
  shows "distinct (map rl_sub_id (part_lines d plan))"
  unfolding part_lines_def
  by (rule conjunct1 [OF distinct_map_filter_key [where h = "Pair plan"]])
    (use assms in \<open>auto simp: tbl_ok_def tbl_keys_def part_line_def split: if_splits option.splits\<close>)

lemma distinct_line_keys:
  assumes "tbl_ok (transactions d)" "tbl_ok (subtransactions d)"
  shows "distinct (map Key (joined d plan))"
proof -
  let ?id = "\<lambda>l. (rl_transaction_id l, rl_sub_id l)"
  have w: "distinct (map ?id (whole_lines d plan))"
  proof -
    let ?rows = "filter (\<lambda>((p, k), t). p = plan \<and> \<not> tx_deleted t \<and> live_subs d plan k = []) (transactions d)"
    have "map ?id (whole_lines d plan) = map (\<lambda>k. (snd k, [])) (map fst ?rows)"
      by (auto simp: whole_lines_def whole_line_def)
    moreover have "distinct (map fst ?rows)" using assms(1) by (simp add: tbl_ok_def tbl_keys_def distinct_map_filter)
    moreover have "inj_on (\<lambda>k. (snd k, [] :: string)) (set (map fst ?rows))" by (auto simp: inj_on_def)
    ultimately show ?thesis by (simp add: distinct_map del: map_map)
  qed
  have p: "distinct (map rl_sub_id (part_lines d plan))" using assms(2) by (rule part_lines_distinct)
  have apart: "?id a \<noteq> ?id b" if A: "a \<in> set (whole_lines d plan)" and B: "b \<in> set (part_lines d plan)" for a b
  proof
    assume e: "?id a = ?id b"
    obtain k t where a: "a = whole_line k t" "live_subs d plan k = []"
      using A unfolding whole_lines_def by fastforce
    obtain j s t' where b: "((plan, j), s) \<in> set (subtransactions d)" "\<not> sub_deleted s" "b = part_line (sub_transaction_id s) t' j s"
      using B by (auto simp: part_lines_def List.map_filter_def split: if_splits option.splits)
    have "sub_transaction_id s = k" using e by (simp add: a b whole_line_def part_line_def)
    with b have "s \<in> set (live_subs d plan k)" by (force simp: live_subs_def)
    with a(2) show False by simp
  qed
  have "distinct (map ?id (part_lines d plan))" using p by (auto simp: distinct_map inj_on_def)
  with w apart have "distinct (map ?id (lines d plan))"
    by (auto simp: lines_def)
  then have "distinct (map (\<lambda>l. (rl_transaction_id (ln_line l), rl_sub_id (ln_line l))) (joined d plan))"
    by (simp add: joined_def comp_def join_line_def Let_def)
  then show ?thesis by (auto simp: distinct_map inj_on_def Key_def)
qed

lemma filter_after:
  assumes "sorted (map f (as @ a # bs))" and "distinct (map f (as @ a # bs))"
  shows "filter (\<lambda>x. f a < f x) (as @ a # bs) = bs"
proof -
  have "f x \<le> f a" if "x \<in> set as" for x using assms(1) that by (auto simp: sorted_append)
  moreover have "f a < f x" if "x \<in> set bs" for x using assms that by (auto simp: sorted_append less_le)
  ultimately show ?thesis by (auto simp: not_less filter_empty_conv filter_id_conv)
qed

text \<open>The lines a filter selects, in the order of the pages; a page after a line continues right after it.\<close>

definition found :: "db \<Rightarrow> string \<Rightarrow> line_filter \<Rightarrow> line list" where
  "found d plan f = sort_key Key (filter (selects f) (joined d plan))"

lemma QueryLines_found:
  assumes "QueryLines flt d plan f after limit = Inr (page, summary)"
  shows "page = take limit (case after of None \<Rightarrow> found d plan f | Some k \<Rightarrow> filter (\<lambda>l. k < Key l) (found d plan f)) \<and>
    lsum_count summary = length (found d plan f) \<and>
    sint (lsum_total summary) = sum_list (map (sint \<circ> rl_amount \<circ> ln_line) (found d plan f))"
proof -
  let ?ls = "filter (selects f) (joined d plan)"
  obtain t where t: "sql_sum (map (rl_amount \<circ> ln_line) ?ls) = Inr t" and summary: "summary = \<lparr>lsum_count = length ?ls, lsum_total = t\<rparr>"
    and page: "page = take limit (sort_key Key (case after of None \<Rightarrow> ?ls | Some k \<Rightarrow> filter (after_key k) ?ls))"
    using assms by (auto simp: QueryLines_def Let_def split: option.splits sum.splits)
  have "sum_list (map (sint \<circ> rl_amount \<circ> ln_line) (found d plan f)) = sum_list (map (sint \<circ> rl_amount \<circ> ln_line) ?ls)"
    by (metis found_def mset_map mset_sort sum_mset_sum_list)
  moreover have "sint t = sum_list (map (sint \<circ> rl_amount \<circ> ln_line) ?ls)"
    using sql_sum_Inr [OF t] by (simp add: comp_assoc)
  moreover have "after_key k = (\<lambda>l. k < Key l)" for k by (simp add: fun_eq_iff after_key_less)
  ultimately show ?thesis
    unfolding page summary by (auto simp: found_def filter_sort split: option.split)
qed

lemma found_keys:
  assumes "tbl_ok (transactions d)" "tbl_ok (subtransactions d)"
  shows "sorted (map Key (found d plan f)) \<and> distinct (map Key (found d plan f))"
proof
  show "sorted (map Key (found d plan f))" by (simp add: found_def)
  have "distinct (map Key (filter (selects f) (joined d plan)))"
    using distinct_line_keys [OF assms] by (simp add: distinct_map_filter)
  then show "distinct (map Key (found d plan f))"
    by (metis found_def mset_map mset_sort mset_eq_imp_distinct_iff)
qed

lemma found_after:
  assumes "tbl_ok (transactions d)" "tbl_ok (subtransactions d)" and "found d plan f = as @ a # bs"
  shows "filter (\<lambda>l. Key a < Key l) (found d plan f) = bs"
  using filter_after [of Key as a bs] found_keys [OF assms(1,2), of plan f] by (simp only: assms(3))

lemma found_lines: "set (found d plan f) = {l \<in> set (joined d plan). selects f l}"
  by (auto simp: found_def)

subsection \<open>An example\<close>

definition ex_row :: "string \<Rightarrow> int64 \<Rightarrow> string option \<Rightarrow> bool \<Rightarrow> transaction_row" where
  "ex_row date amount category gone =
     \<lparr>tx_id = [], tx_date = date, tx_amount = amount, tx_memo = None, tx_cleared = ''cleared'', tx_approved = True,
      tx_flag_color = None, tx_flag_name = None, tx_account_id = ''a1'', tx_payee_id = Some ''y1'', tx_category_id = category,
      tx_transfer_account_id = None, tx_transfer_transaction_id = None, tx_matched_transaction_id = None, tx_import_id = None,
      tx_import_payee_name = None, tx_import_payee_name_original = None, tx_debt_transaction_type = None, tx_deleted = gone,
      tx_first_seen_at = ''2024-05-02T00:00:00Z''\<rparr>"

definition ex_part :: "int64 \<Rightarrow> string \<Rightarrow> subtransaction" where
  "ex_part amount category =
     \<lparr>sub_id = [], sub_transaction_id = ''t2'', sub_amount = amount, sub_memo = None, sub_payee_id = None,
      sub_category_id = Some category, sub_transfer_account_id = None, sub_transfer_transaction_id = None, sub_deleted = False\<rparr>"

definition ex_category_row :: "string \<Rightarrow> category_row" where
  "ex_category_row name =
     \<lparr>cat_id = [], cat_category_group_id = ''g1'', cat_name = name, cat_hidden = False, cat_internal = False,
      cat_original_category_group_id = None, cat_note = None, cat_budgeted = 0, cat_activity = 0, cat_balance = 0,
      cat_goal_type = None, cat_goal_needs_whole_amount = None, cat_goal_day = None, cat_goal_cadence = None,
      cat_goal_cadence_frequency = None, cat_goal_creation_month = None, cat_goal_target = None, cat_goal_target_month = None,
      cat_goal_target_date = None, cat_goal_percentage_complete = None, cat_goal_months_to_budget = None,
      cat_goal_under_funded = None, cat_goal_overall_funded = None, cat_goal_overall_left = None, cat_goal_snoozed_at = None,
      cat_deleted = False\<rparr>"

definition ex_ledger :: db where
  "ex_ledger = empty_db
     \<lparr>accounts := [((''p'', ''a1''), \<lparr>acc_id = [], acc_name = ''Checking'', acc_type = ''checking'', acc_on_budget = True, acc_closed = False,
          acc_note = None, acc_balance = 0, acc_cleared_balance = 0, acc_uncleared_balance = 0, acc_transfer_payee_id = None,
          acc_direct_import_linked = False, acc_direct_import_in_error = False, acc_last_reconciled_at = None,
          acc_debt_original_balance = None, acc_debt_interest_rates = None, acc_debt_minimum_payments = None,
          acc_debt_escrow_amounts = None, acc_deleted = False, acc_tax_bucket = None\<rparr>)],
      category_groups := [((''p'', ''g1''), \<lparr>grp_id = [], grp_name = ''Home'', grp_hidden = False, grp_internal = False, grp_deleted = False\<rparr>)],
      categories := [((''p'', ''c1''), ex_category_row ''Food''), ((''p'', ''c2''), ex_category_row ''Rent'')],
      payees := [((''p'', ''y1''), \<lparr>pay_id = [], pay_name = ''Shop_1'', pay_transfer_account_id = None, pay_deleted = False\<rparr>)],
      transactions := [((''p'', ''t1''), ex_row ''2024-05-01'' (-5000) (Some ''c1'') False), ((''p'', ''t2''), ex_row ''2024-05-03'' (-7000) None False),
        ((''p'', ''t3''), ex_row ''2024-05-02'' (-9000) (Some ''c1'') True)],
      subtransactions := [((''p'', ''s1''), ex_part (-3000) ''c1''), ((''p'', ''s2''), ex_part (-4000) ''c2'')]\<rparr>"

lemma ex_ledger_ok: "tbl_ok (transactions ex_ledger)" "tbl_ok (subtransactions ex_ledger)"
  by (simp_all add: ex_ledger_def tbl_ok_def)

lemma lines_count_once_witness:
  "sum_list (map (sint \<circ> rl_amount) (lines ex_ledger ''p'')) = -12000"
proof -
  have "(\<Sum>((p, k), t)\<leftarrow>transactions ex_ledger. if p = ''p'' \<and> \<not> tx_deleted t then split_amount ex_ledger ''p'' k t else 0) = -12000"
    by code_simp
  then show ?thesis using lines_count_once [OF ex_ledger_ok(1), of "''p''"] by simp
qed

definition ex_filter :: line_filter where
  "ex_filter = \<lparr>lf_start = [], lf_end = [], lf_account = [], lf_category = [], lf_payee_text = ''shop_'',
     lf_min_amount = None, lf_max_amount = None, lf_approved = None\<rparr>"

lemma payee_filter_literal_witness:
  "selects ex_filter (hd (joined ex_ledger ''p'')) \<and> \<not> selects ex_filter ((hd (joined ex_ledger ''p''))\<lparr>ln_payee_name := Some ''Shops''\<rparr>)"
  by (subst (1 2) payee_filter_literal) code_simp

lemma CategoryTotals_add_up_witness:
  "\<exists>ts. CategoryTotals None ex_ledger ''p'' ''2024-05-01'' ''2024-05-31'' = Inr ts \<and> length ts = 2 \<and> (\<Sum>t\<leftarrow>ts. sint (ct_total t)) = -12000"
proof -
  let ?r = "CategoryTotals None ex_ledger ''p'' ''2024-05-01'' ''2024-05-31''"
  have e: "(case ?r of Inl _ \<Rightarrow> False | Inr ts \<Rightarrow> length ts = 2)" by code_simp
  then obtain ts where ts: "?r = Inr ts" "length ts = 2" by (cases ?r) auto
  have "sum_list (map (sint \<circ> rl_amount \<circ> ln_line) (filter (spending_line ''2024-05-01'' ''2024-05-31'') (joined ex_ledger ''p''))) = -12000"
    by code_simp
  with CategoryTotals_add_up [OF ts(1)] ts show ?thesis by auto
qed

end
