(* ===== verification/McpQuery.thy ===== *)
theory McpQuery
  imports McpPeriod LineFacts
begin

text \<open>
  \<open>query_transactions\<close> of \<open>mcp/tools_transactions.go\<close>: the filter of its arguments, one page of
  lines, and the cursor of the next page. A cursor's text is the URL-safe base64 of JSON and its
  filter hash a SHA-256 prefix; the codec of cursors and the hash are arguments.
\<close>

record query_args =
  qa_start :: string
  qa_end :: string
  qa_account :: string
  qa_category :: string
  qa_payee :: string
  qa_min_amount :: string
  qa_max_amount :: string
  qa_approved :: "bool option"
  qa_page_size :: int
  qa_cursor :: string

record tx_line =
  tl_transaction_id :: string
  tl_subtransaction_id :: string
  tl_date :: string
  tl_amount :: string
  tl_account :: string
  tl_payee :: string
  tl_import_payee :: string
  tl_memo :: string
  tl_category_id :: string
  tl_category :: string
  tl_category_group :: string
  tl_transfer :: bool
  tl_approved :: bool
  tl_cleared :: string
  tl_flag :: string

record query_data =
  qd_lines :: "tx_line list"
  qd_match_count :: nat
  qd_match_total :: string
  qd_next_cursor :: string

record cursor_state =
  cs_key :: line_key
  cs_filter :: string

record cursor_codec =
  cc_hash :: "line_filter \<Rightarrow> string"
  cc_encode :: "cursor_state \<Rightarrow> string"
  cc_decode :: "string \<Rightarrow> cursor_state option"

definition defaultPageSize :: nat where
  "defaultPageSize = 50"

definition maxPageSize :: nat where
  "maxPageSize = 200"

subsection \<open>The filter\<close>

definition amount_arg :: "string \<Rightarrow> string \<Rightarrow> int64 option result" where
  "amount_arg name s =
     (if s = [] then Inr None
      else (case parseMoney s of
              None \<Rightarrow> Inl (badRequest (name @ '' must be a decimal amount such as -12.34''))
            | Some v \<Rightarrow> Inr (Some v)))"

definition args_filter :: "query_args \<Rightarrow> line_filter result" where
  "args_filter a =
     (case dateRange ''start/end'' (qa_start a) (qa_end a) of
        Inl e \<Rightarrow> Inl e
      | Inr (start, until) \<Rightarrow>
          (case amount_arg ''min_amount'' (qa_min_amount a) of
             Inl e \<Rightarrow> Inl e
           | Inr lo \<Rightarrow>
               (case amount_arg ''max_amount'' (qa_max_amount a) of
                  Inl e \<Rightarrow> Inl e
                | Inr hi \<Rightarrow>
                    if (case (lo, hi) of (Some l, Some h) \<Rightarrow> h <s l | _ \<Rightarrow> False)
                    then Inl (badRequest ''min_amount is more than max_amount'')
                    else Inr \<lparr>lf_start = start, lf_end = until, lf_account = qa_account a, lf_category = qa_category a,
                               lf_payee_text = qa_payee a, lf_min_amount = lo, lf_max_amount = hi, lf_approved = qa_approved a\<rparr>)))"

subsection \<open>One page\<close>

definition deref :: "string option \<Rightarrow> string" where
  "deref s = (case s of None \<Rightarrow> [] | Some x \<Rightarrow> x)"

definition show_line :: "line \<Rightarrow> tx_line" where
  "show_line l =
     (let r = ln_line l
      in \<lparr>tl_transaction_id = rl_transaction_id r, tl_subtransaction_id = rl_sub_id r, tl_date = rl_date r,
          tl_amount = formatMoney (rl_amount r), tl_account = deref (ln_account_name l), tl_payee = deref (ln_payee_name l),
          tl_import_payee = deref (rl_import_payee_name r), tl_memo = deref (rl_memo r), tl_category_id = deref (rl_category_id r),
          tl_category = deref (ln_category_name l), tl_category_group = deref (ln_group_name l),
          tl_transfer = (rl_transfer_account_id r \<noteq> None), tl_approved = rl_approved r, tl_cleared = rl_cleared r,
          tl_flag = deref (rl_flag_name r)\<rparr>)"

text \<open>The names a filter uses must exist; \<open>Inr ()\<close> when they do.\<close>

definition check_name :: "error option \<Rightarrow> db \<Rightarrow> string \<Rightarrow> name_table \<Rightarrow> string \<Rightarrow> string \<Rightarrow> unit result" where
  "check_name flt d plan table label s =
     (if s = [] then Inr ()
      else (case NameMatches flt d plan table s of
              Inl e \<Rightarrow> Inl e
            | Inr ok \<Rightarrow> if ok then Inr () else Inl (badRequest (''no '' @ label @ '' is named '' @ Quote s))))"

definition page_size :: "query_args \<Rightarrow> nat" where
  "page_size a = min (if qa_page_size a \<le> 0 then defaultPageSize else nat (qa_page_size a)) maxPageSize"

definition read_cursor :: "cursor_codec \<Rightarrow> string \<Rightarrow> string \<Rightarrow> line_key option result" where
  "read_cursor codec hash cursor =
     (if cursor = [] then Inr None
      else (case cc_decode codec cursor of
              None \<Rightarrow> Inl (badRequest ''cursor is not one this tool returned'')
            | Some c \<Rightarrow>
                if cs_filter c \<noteq> hash
                then Inl (badRequest ''cursor belongs to different filters; repeat the same filters or start without a cursor'')
                else Inr (Some (cs_key c))))"

text \<open>The faults of one call: of the two name lookups, and of \<open>QueryLines\<close>.\<close>

record query_faults =
  qf_account :: "error option"
  qf_category :: "error option"
  qf_lines :: "nat \<Rightarrow> error option"

definition no_query_faults :: query_faults where
  "no_query_faults = \<lparr>qf_account = None, qf_category = None, qf_lines = (\<lambda>_. None)\<rparr>"

definition queryTransactions :: "cursor_codec \<Rightarrow> query_faults \<Rightarrow> db \<Rightarrow> string \<Rightarrow> query_args \<Rightarrow> query_data result" where
  "queryTransactions codec flt d plan a =
     (case args_filter a of
        Inl e \<Rightarrow> Inl e
      | Inr f \<Rightarrow>
          (case check_name (qf_account flt) d plan Accounts ''account'' (lf_account f) of
             Inl e \<Rightarrow> Inl e
           | Inr _ \<Rightarrow>
               (case check_name (qf_category flt) d plan Categories ''category'' (lf_category f) of
                  Inl e \<Rightarrow> Inl e
                | Inr _ \<Rightarrow>
                    (let size = page_size a; hash = cc_hash codec f
                     in case read_cursor codec hash (qa_cursor a) of
                          Inl e \<Rightarrow> Inl e
                        | Inr after \<Rightarrow>
                            (case QueryLines (qf_lines flt) d plan f after (size + 1) of
                               Inl e \<Rightarrow> Inl e
                             | Inr (page, summary) \<Rightarrow>
                                 (let more = size < length page; shown = (if more then take size page else page)
                                  in Inr \<lparr>qd_lines = map show_line shown, qd_match_count = lsum_count summary,
                                          qd_match_total = formatMoney (lsum_total summary),
                                          qd_next_cursor = (if more then cc_encode codec
                                            \<lparr>cs_key = Key (shown ! (size - 1)), cs_filter = hash\<rparr> else [])\<rparr>))))))"

end
