(* ===== verification/McpFreshness.thy ===== *)
theory McpFreshness
  imports QueryFacts McpQuery
begin

text \<open>
  \<open>mcp/freshness.go\<close> and \<open>respond\<close> of \<open>mcp/tools.go\<close>: what every tool's answer says about the age
  of the mirror and of each bank link, and what of a failure a caller sees. The zone of \<open>now\<close> is an
  argument: the offset, in nanoseconds east of UTC, at an instant.
\<close>

definition importStaleAfterDays :: int where
  "importStaleAfterDays = 14"

datatype import_status = importOK | importLinkErr | importStale | importNeverSet

record mcp_account =
  ma_name :: string
  ma_status :: import_status
  ma_in_error :: bool
  ma_last_import_date :: string
  ma_import_age_days :: "int option"
  ma_last_import_seen_at :: string

record mcp_freshness =
  fr_last_synced_at :: string
  fr_age_seconds :: "int option"
  fr_stale :: bool
  fr_links_ok :: bool
  fr_accounts :: "mcp_account list"
  fr_warnings :: "string list"

subsection \<open>Times\<close>

text \<open>\<open>Duration.Round\<close>: to the nearest multiple, halves away from zero, unless that leaves the range.\<close>

definition Round :: "duration \<Rightarrow> duration \<Rightarrow> duration" where
  "Round d m =
     (if m \<le> 0 then d
      else let r = \<bar>d\<bar> mod m; down = \<bar>d\<bar> - r
           in if d < 0
              then (if 2 * r < m then - down else if - (2 ^ 63) \<le> - (down + m) then - (down + m) else - (2 ^ 63))
              else (if 2 * r < m then down else if down + m < 2 ^ 63 then down + m else 2 ^ 63 - 1))"

text \<open>The rest of a parse error's text is left out.\<close>

definition daysSince :: "(time \<Rightarrow> duration) \<Rightarrow> string \<Rightarrow> time \<Rightarrow> int result" where
  "daysSince zone date now =
     (case parse_date date of
        None \<Rightarrow> Inl (newError (''parsing time '' @ Quote date))
      | Some d \<Rightarrow>
          (let today = date_of_day ((now + zone now) div ns_day)
           in Inr (max 0 (quot (time_Sub (date_time today) (date_time d)) ns_day))))"

subsection \<open>One account\<close>

definition last_import_text :: "account_freshness \<Rightarrow> int option \<Rightarrow> string" where
  "last_import_text a age =
     (case age of
        None \<Rightarrow> ''no bank import has ever been seen''
      | Some n \<Rightarrow> ''the newest bank import is from '' @ af_newest_import_date a @ '' ('' @ dec_int n @ '' days ago)'')"

definition accountFreshness :: "(time \<Rightarrow> duration) \<Rightarrow> account_freshness \<Rightarrow> time \<Rightarrow> (mcp_account \<times> string) result" where
  "accountFreshness zone a now =
     (case (if af_newest_import_date a = [] then Inr None
            else (case daysSince zone (af_newest_import_date a) now of
                    Inl e \<Rightarrow> Inl (wrapError ''mcp: account import date'' e)
                  | Inr n \<Rightarrow> Inr (Some n))) of
        Inl e \<Rightarrow> Inl e
      | Inr age \<Rightarrow>
          (let text = last_import_text a age;
               af = (\<lambda>status. \<lparr>ma_name = af_name a, ma_status = status, ma_in_error = af_in_error a,
                       ma_last_import_date = af_newest_import_date a, ma_import_age_days = age,
                       ma_last_import_seen_at = (case af_last_import_seen_at a of None \<Rightarrow> [] | Some t \<Rightarrow> formatRFC3339 t)\<rparr>)
           in if af_in_error a then
                Inr (af importLinkErr, af_name a @ '': the bank link is in error and '' @ text @ ''. Its transactions are likely incomplete.'')
              else (case age of
                      None \<Rightarrow> Inr (af importNeverSet, af_name a @ '': linked, but '' @ text @ ''.'')
                    | Some n \<Rightarrow>
                        if importStaleAfterDays < n
                        then Inr (af importStale, af_name a @ '': '' @ text @
                               ''. The link may be broken, or the account may just have had no activity.'')
                        else Inr (af importOK, []))))"

subsection \<open>All of them\<close>

text \<open>The loop over the accounts: what it reports, whether the links are fine, and the warnings.\<close>

fun account_loop ::
    "(time \<Rightarrow> duration) \<Rightarrow> time \<Rightarrow> account_freshness list \<Rightarrow> (mcp_account list \<times> bool \<times> string list) result" where
  "account_loop zone now [] = Inr ([], True, [])"
| "account_loop zone now (a # as) =
     (if \<not> af_linked a \<or> af_closed a then account_loop zone now as
      else (case accountFreshness zone a now of
              Inl e \<Rightarrow> Inl e
            | Inr (af, warning) \<Rightarrow>
                (case account_loop zone now as of
                   Inl e \<Rightarrow> Inl e
                 | Inr (rest, ok, warnings) \<Rightarrow>
                     Inr (af # rest, warning = [] \<and> ok, (if warning = [] then [] else [warning]) @ warnings))))"

record freshness_faults =
  ff_state :: "error option"
  ff_state2 :: "error option"
  ff_rows :: "error option"

definition no_freshness_faults :: freshness_faults where
  "no_freshness_faults = \<lparr>ff_state = None, ff_state2 = None, ff_rows = None\<rparr>"

definition readFreshness ::
    "(time \<Rightarrow> duration) \<Rightarrow> duration \<Rightarrow> freshness_faults \<Rightarrow> db \<Rightarrow> string \<Rightarrow> time \<Rightarrow> mcp_freshness result" where
  "readFreshness zone staleAfter flt d plan now =
     (case GetSyncState (ff_state flt) d plan of
        Inl e \<Rightarrow> Inl e
      | Inr st \<Rightarrow>
          (case Freshness (ff_state2 flt) (ff_rows flt) d plan of
             Inl e \<Rightarrow> Inl e
           | Inr accs \<Rightarrow>
               (case st of
                  None \<Rightarrow>
                    Inr \<lparr>fr_last_synced_at = [], fr_age_seconds = None, fr_stale = True, fr_links_ok = False, fr_accounts = [],
                         fr_warnings = [''The active plan has never synced with YNAB, so there is no data to rely on.'']\<rparr>
                | Some s \<Rightarrow>
                    (let age = time_Sub now (ss_synced_at s); stale = staleAfter < age
                     in case account_loop zone now accs of
                          Inl e \<Rightarrow> Inl e
                        | Inr (afs, ok, warnings) \<Rightarrow>
                            Inr \<lparr>fr_last_synced_at = formatRFC3339 (ss_synced_at s), fr_age_seconds = Some (quot age ns_second),
                                 fr_stale = stale, fr_links_ok = ok, fr_accounts = afs,
                                 fr_warnings =
                                   (if stale then [''The last sync with YNAB was '' @ duration_String (Round age ns_minute) @
                                      '' ago, so recent changes may be missing.''] else []) @ warnings\<rparr>))))"

subsection \<open>Answering\<close>

text \<open>What the log gets of a failed call.\<close>

datatype tool_log = Refused string | Failed string string

definition errTool :: error where
  "errTool = newError ''this tool failed; see the finbot logs''"

text \<open>
  \<open>respond\<close>: the body's answer with the freshness, which is read only when the body succeeded.
\<close>

definition respond :: "(string \<Rightarrow> string) \<Rightarrow> mcp_freshness result \<Rightarrow> string \<Rightarrow> 'a result \<Rightarrow> ('a \<times> mcp_freshness) result \<times> tool_log list" where
  "respond redact fresh name answer =
     (case answer of
        Inl e \<Rightarrow> if errors_Is e ErrClient then (Inl e, [Refused name]) else (Inl errTool, [Failed name (redact (err_msg e))])
      | Inr data \<Rightarrow>
          (case fresh of
             Inl e \<Rightarrow> (Inl errTool, [Failed name (redact (err_msg e))])
           | Inr f \<Rightarrow> (Inr (data, f), [])))"

end
