(* ===== verification/McpPaging.thy ===== *)
theory McpPaging
  imports McpQuery
begin

text \<open>
  Walking the pages of \<open>query_transactions\<close>: the contract of a paged source (a page after a key
  continues right after it) as a locale, its interpretation on \<open>QueryLines\<close>, and the caller's loop
  that follows \<open>next_cursor\<close> until there is none.
\<close>

subsection \<open>Paged sources\<close>

text \<open>
  \<open>page s after n\<close>: at most \<open>n\<close> elements of \<open>items s\<close> from the start, or from right after the
  element with key \<open>after\<close>.
\<close>

locale paged_source =
  fixes page :: "'s \<Rightarrow> 'k option \<Rightarrow> nat \<Rightarrow> 'a list"
    and key :: "'a \<Rightarrow> 'k"
    and items :: "'s \<Rightarrow> 'a list"
    and ok :: "'s \<Rightarrow> bool"
  assumes page_first: "page s None n = take n (items s)"
    and page_after: "ok s \<Longrightarrow> items s = as @ a # bs \<Longrightarrow> page s (Some (key a)) n = take n bs"
begin

text \<open>The position of a walk: what was read, what is left, and the key to continue after.\<close>

definition position :: "'s \<Rightarrow> 'a list \<Rightarrow> 'a list \<Rightarrow> 'k option \<Rightarrow> bool" where
  "position s before rest after \<longleftrightarrow> items s = before @ rest \<and>
     (case after of None \<Rightarrow> before = [] | Some k \<Rightarrow> before \<noteq> [] \<and> k = key (last before))"

lemma position_start: "position s [] (items s) None"
  by (simp add: position_def)

lemma page_at:
  assumes "ok s" and "position s before rest after"
  shows "page s after n = take n rest"
proof (cases after)
  case None
  with assms(2) show ?thesis by (simp add: position_def page_first)
next
  case (Some k)
  with assms(2) have b: "before \<noteq> []" "k = key (last before)" "items s = before @ rest" by (simp_all add: position_def)
  then have "items s = butlast before @ last before # rest" by simp
  from page_after [OF assms(1) this] Some b show ?thesis by simp
qed

text \<open>After a page of \<open>n\<close> the walk stands right behind it.\<close>

lemma position_advance:
  assumes "position s before rest after" and "0 < n" "n \<le> length rest"
  shows "position s (before @ take n rest) (drop n rest) (Some (key (take n rest ! (n - 1))))"
proof -
  have "length (take n rest) = n" using assms(3) by simp
  with assms(2) have "take n rest \<noteq> []" "last (take n rest) = take n rest ! (n - 1)"
    by (metis list.size(3) less_numeral_extra(3), metis last_conv_nth list.size(3) less_numeral_extra(3))
  with assms(1) show ?thesis by (simp add: position_def)
qed

end

text \<open>The pages of \<open>QueryLines\<close>, for a mirror whose tables keep their primary keys.\<close>

fun line_page :: "db \<times> string \<times> line_filter \<Rightarrow> line_key option \<Rightarrow> nat \<Rightarrow> line list" where
  "line_page (d, plan, f) after n =
     take n (case after of None \<Rightarrow> found d plan f | Some k \<Rightarrow> filter (\<lambda>l. k < Key l) (found d plan f))"

fun found_items :: "db \<times> string \<times> line_filter \<Rightarrow> line list" where
  "found_items (d, plan, f) = found d plan f"

fun keyed_lines :: "db \<times> string \<times> line_filter \<Rightarrow> bool" where
  "keyed_lines (d, plan, f) = (tbl_ok (transactions d) \<and> tbl_ok (subtransactions d))"

interpretation line_pages: paged_source line_page Key found_items keyed_lines
proof unfold_locales
  fix s :: "db \<times> string \<times> line_filter" and n
  show "line_page s None n = take n (found_items s)" by (cases s) simp
  fix as a bs
  assume h: "keyed_lines s" "found_items s = as @ a # bs"
  obtain d plan f where s: "s = (d, plan, f)" by (cases s) auto
  have "filter (\<lambda>l. Key a < Key l) (found d plan f) = bs" using h by (intro found_after) (simp_all add: s)
  then show "line_page s (Some (Key a)) n = take n bs" by (simp add: s)
qed

lemma QueryLines_line_page:
  assumes "QueryLines flt d plan f after n = Inr (page, summary)"
  shows "page = line_page (d, plan, f) after n"
  using QueryLines_found [OF assms] by simp

lemma QueryLines_again:
  assumes "QueryLines (\<lambda>_. None) d plan f after n = Inr (page, summary)"
  shows "QueryLines (\<lambda>_. None) d plan f after' n' = Inr (line_page (d, plan, f) after' n', summary)"
proof -
  have "\<exists>page'. QueryLines (\<lambda>_. None) d plan f after' n' = Inr (page', summary)"
    using assms by (auto simp: QueryLines_def Let_def split: sum.splits)
  then show ?thesis using QueryLines_line_page by metis
qed

subsection \<open>The loop over the pages\<close>

text \<open>The caller: ask again with \<open>next_cursor\<close> until it is absent. \<open>None\<close> is a loop that never ends.\<close>

partial_function (option) follow :: "cursor_codec \<Rightarrow> db \<Rightarrow> string \<Rightarrow> query_args \<Rightarrow> tx_line list result option" where
  "follow codec d plan a =
     (case queryTransactions codec no_query_faults d plan a of
        Inl e \<Rightarrow> Some (Inl e)
      | Inr out \<Rightarrow>
          if qd_next_cursor out = [] then Some (Inr (qd_lines out))
          else Option.bind (follow codec d plan (a\<lparr>qa_cursor := qd_next_cursor out\<rparr>))
                 (\<lambda>r. Some (case r of Inl e \<Rightarrow> Inl e | Inr rest \<Rightarrow> Inr (qd_lines out @ rest))))"

definition codec_ok :: "cursor_codec \<Rightarrow> bool" where
  "codec_ok codec \<longleftrightarrow> (\<forall>c. cc_encode codec c \<noteq> [] \<and> cc_decode codec (cc_encode codec c) = Some c)"

lemma args_filter_cursor [simp]: "args_filter (a\<lparr>qa_cursor := c\<rparr>) = args_filter a"
  by (simp add: args_filter_def cong del: sum.case_cong_weak prod.case_cong_weak if_weak_cong)

lemma page_size_cursor [simp]: "page_size (a\<lparr>qa_cursor := c\<rparr>) = page_size a"
  by (simp add: page_size_def)

lemma page_size_bounds: "0 < page_size a \<and> page_size a \<le> 200"
  by (auto simp: page_size_def defaultPageSize_def maxPageSize_def)

text \<open>One call at a position of the walk.\<close>

lemma queryTransactions_page:
  assumes "args_filter a = Inr f"
    and "check_name None d plan Accounts ''account'' (lf_account f) = Inr ()"
    and "check_name None d plan Categories ''category'' (lf_category f) = Inr ()"
    and "QueryLines (\<lambda>_. None) d plan f None n0 = Inr (p0, summary)"
    and "read_cursor codec (cc_hash codec f) (qa_cursor a) = Inr after"
    and "keyed_lines (d, plan, f)" "line_pages.position (d, plan, f) before rest after"
  shows "queryTransactions codec no_query_faults d plan a =
    Inr \<lparr>qd_lines = map show_line (take (page_size a) rest), qd_match_count = lsum_count summary,
         qd_match_total = formatMoney (lsum_total summary),
         qd_next_cursor = (if page_size a < length rest then
           cc_encode codec \<lparr>cs_key = Key (take (page_size a) rest ! (page_size a - 1)), cs_filter = cc_hash codec f\<rparr> else [])\<rparr>"
proof -
  let ?n = "page_size a"
  have "QueryLines (\<lambda>_. None) d plan f after (?n + 1) = Inr (take (?n + 1) rest, summary)"
    using QueryLines_again [OF assms(4)] line_pages.page_at [OF assms(6,7)] by simp
  moreover have "?n < length (take (?n + 1) rest) \<longleftrightarrow> ?n < length rest" by auto
  moreover have "take ?n (take (?n + 1) rest) = take ?n rest" by simp
  moreover have "\<not> ?n < length rest \<Longrightarrow> take (?n + 1) rest = take ?n rest" by simp
  ultimately show ?thesis
    using assms(1-3,5) unfolding queryTransactions_def no_query_faults_def
    by (simp add: Let_def del: line_page.simps)
qed

lemma follow_from:
  assumes "args_filter a = Inr f"
    and "check_name None d plan Accounts ''account'' (lf_account f) = Inr ()"
    and "check_name None d plan Categories ''category'' (lf_category f) = Inr ()"
    and "QueryLines (\<lambda>_. None) d plan f None n0 = Inr (p0, summary)"
    and codec: "codec_ok codec"
    and ok: "keyed_lines (d, plan, f)"
    and "read_cursor codec (cc_hash codec f) (qa_cursor a) = Inr after"
    and "line_pages.position (d, plan, f) before rest after"
  shows "follow codec d plan a = Some (Inr (map show_line rest))"
  using assms
proof (induction "length rest" arbitrary: a before rest after rule: less_induct)
  case less
  let ?n = "page_size a"
  note q = queryTransactions_page [OF less.prems(1-4,7,6,8)]
  show ?case
  proof (cases "?n < length rest")
    case False
    then show ?thesis by (subst follow.simps) (simp add: q)
  next
    case True
    let ?k = "Key (take ?n rest ! (?n - 1))"
    let ?c = "cc_encode codec \<lparr>cs_key = ?k, cs_filter = cc_hash codec f\<rparr>"
    let ?a = "a\<lparr>qa_cursor := ?c\<rparr>"
    have n: "0 < ?n" using page_size_bounds [of a] by simp
    have c: "?c \<noteq> []" "read_cursor codec (cc_hash codec f) (qa_cursor ?a) = Inr (Some ?k)"
      using codec by (simp_all add: codec_ok_def read_cursor_def)
    have "line_pages.position (d, plan, f) (before @ take ?n rest) (drop ?n rest) (Some ?k)"
      by (rule line_pages.position_advance [OF less.prems(8) n]) (use True in simp)
    moreover have "length (drop ?n rest) < length rest" using n True by simp
    ultimately have "follow codec d plan ?a = Some (Inr (map show_line (drop ?n rest)))"
      using less.hyps [of "drop ?n rest" ?a "Some ?k" "before @ take ?n rest"] less.prems c(2) by simp
    then show ?thesis
      using c(1) True by (subst follow.simps) (simp add: q map_append [symmetric] del: map_append)
  qed
qed

text \<open>
  C35: Following the cursors ends, and reads every matching line exactly once: when the first page
  is answered, the loop returns, its lines are the lines the filter selects, newest first, each with
  its own key and none twice; and the count and the total of the first page are the number and the
  exact sum of all of them, whatever the page size.
\<close>

theorem follow_reads_all:
  assumes "tbl_ok (transactions d)" "tbl_ok (subtransactions d)" and "codec_ok codec"
    and "qa_cursor a = []" "args_filter a = Inr f" and "queryTransactions codec no_query_faults d plan a = Inr out"
  shows "\<exists>ls total. follow codec d plan a = Some (Inr (map show_line ls)) \<and>
    mset ls = mset (filter (selects f) (joined d plan)) \<and> sorted (map Key ls) \<and> distinct (map Key ls) \<and>
    qd_match_count out = length ls \<and> qd_match_total out = formatMoney total \<and>
    sint total = sum_list (map (sint \<circ> rl_amount \<circ> ln_line) ls)"
proof -
  let ?ls = "found d plan f"
  obtain page summary where names: "check_name None d plan Accounts ''account'' (lf_account f) = Inr ()"
      "check_name None d plan Categories ''category'' (lf_category f) = Inr ()"
    and q: "QueryLines (\<lambda>_. None) d plan f None (page_size a + 1) = Inr (page, summary)"
    and out: "qd_match_count out = lsum_count summary" "qd_match_total out = formatMoney (lsum_total summary)"
    using assms(4-6) by (auto simp: queryTransactions_def no_query_faults_def read_cursor_def Let_def split: sum.splits prod.splits)
  have "follow codec d plan a = Some (Inr (map show_line ?ls))"
    using follow_from [OF assms(5) names q assms(3), of None "[]" ?ls] assms(1,2,4)
      line_pages.position_start [of "(d, plan, f)"] by (simp add: read_cursor_def)
  moreover have "mset ?ls = mset (filter (selects f) (joined d plan))" by (simp add: found_def)
  ultimately show ?thesis
    using QueryLines_found [OF q] found_keys [OF assms(1,2)] out by fastforce
qed

subsection \<open>An example\<close>

text \<open>A simple codec: every character of a field is marked, and a full stop ends the field.\<close>

definition put_field :: "string \<Rightarrow> string" where
  "put_field s = concat (map (\<lambda>c. [CHR ''x'', c]) s) @ ''.''"

fun get_field :: "string \<Rightarrow> string \<times> string" where
  "get_field [] = ([], [])"
| "get_field [c] = ([], [])"
| "get_field (m # c # s) = (if m = CHR ''x'' then (c # fst (get_field s), snd (get_field s)) else ([], c # s))"

lemma get_put_field: "get_field (put_field s @ r) = (s, r)"
proof (induction s)
  case Nil
  show ?case by (cases r) (simp_all add: put_field_def)
qed (simp add: put_field_def)

definition ex_codec :: cursor_codec where
  "ex_codec =
     \<lparr>cc_hash = lf_payee_text,
      cc_encode = (\<lambda>c. put_field (lk_date (cs_key c)) @ put_field (lk_transaction (cs_key c)) @
                       put_field (lk_sub (cs_key c)) @ put_field (cs_filter c)),
      cc_decode = (\<lambda>s. let (a, s1) = get_field s; (b, s2) = get_field s1; (c, s3) = get_field s2; (f, _) = get_field s3
                       in Some \<lparr>cs_key = LineKey a b c, cs_filter = f\<rparr>)\<rparr>"

lemma ex_codec_ok: "codec_ok ex_codec"
proof -
  have "get_field (put_field s) = (s, [])" for s using get_put_field [of s "[]"] by simp
  moreover have "put_field s \<noteq> []" for s by (simp add: put_field_def)
  ultimately show ?thesis by (simp add: codec_ok_def ex_codec_def get_put_field)
qed

definition ex_query :: query_args where
  "ex_query = \<lparr>qa_start = ''2024-05-01'', qa_end = [], qa_account = ''checking'', qa_category = [], qa_payee = ''shop_'',
     qa_min_amount = ''-4'', qa_max_amount = [], qa_approved = Some True, qa_page_size = 1, qa_cursor = []\<rparr>"

definition ex_query_filter :: line_filter where
  "ex_query_filter = \<lparr>lf_start = ''2024-05-01'', lf_end = [], lf_account = ''checking'', lf_category = [], lf_payee_text = ''shop_'',
     lf_min_amount = Some (- 4000), lf_max_amount = None, lf_approved = Some True\<rparr>"

lemma ex_query_answer:
  "args_filter ex_query = Inr ex_query_filter"
  "\<exists>out. queryTransactions ex_codec no_query_faults ex_ledger ''p'' ex_query = Inr out \<and> qd_match_count out = 2"
proof -
  have c: "Cut CHR ''.'' (TrimPrefix ''-4'' ''-'') = (''4'', [], False)" by code_simp
  have "digits ''4''" "digits []" "number ''4'' = 4"
    "number (padded []) = 0" "HasPrefix ''-4'' ''-''" by code_simp+
  then have "parseMoney ''-4'' = Some (- 4000)" by (simp add: parseMoney_eq [OF c])
  moreover have "dateRange ''start/end'' ''2024-05-01'' [] = Inr (''2024-05-01'', [])" by code_simp
  ultimately show f: "args_filter ex_query = Inr ex_query_filter"
    by (simp add: args_filter_def amount_arg_def ex_query_def ex_query_filter_def)
  let ?ls = "filter (selects ex_query_filter) (joined ex_ledger ''p'')"
  have amounts: "map (rl_amount \<circ> ln_line) ?ls = [- 3000, - 4000]" by code_simp
  have "sql_sum [- 3000, - 4000] = Inr (- 7000)" by code_simp
  then have q: "QueryLines (\<lambda>_. None) ex_ledger ''p'' ex_query_filter None (Suc (Suc 0)) =
      Inr (take (Suc (Suc 0)) (sort_key Key ?ls), \<lparr>lsum_count = length ?ls, lsum_total = - 7000\<rparr>)"
    by (simp add: QueryLines_def Let_def amounts)
  have n: "check_name None ex_ledger ''p'' Accounts ''account'' ''checking'' = Inr ()" by code_simp
  have "length ?ls = 2" using arg_cong [OF amounts, of length] by simp
  moreover have "page_size ex_query = 1" "qa_cursor ex_query = []" "lf_account ex_query_filter = ''checking''" "lf_category ex_query_filter = []"
    by (simp_all add: page_size_def ex_query_def maxPageSize_def ex_query_filter_def)
  ultimately show "\<exists>out. queryTransactions ex_codec no_query_faults ex_ledger ''p'' ex_query = Inr out \<and> qd_match_count out = 2"
    using n f q by (simp add: queryTransactions_def no_query_faults_def read_cursor_def Let_def check_name_def [of _ _ _ Categories])
qed

lemma follow_reads_all_witness:
  "\<exists>ls. follow ex_codec ex_ledger ''p'' ex_query = Some (Inr ls) \<and> length ls = 2"
proof -
  obtain out where out: "queryTransactions ex_codec no_query_faults ex_ledger ''p'' ex_query = Inr out" "qd_match_count out = 2"
    using ex_query_answer(2) by blast
  have "qa_cursor ex_query = []" by (simp add: ex_query_def)
  from follow_reads_all [OF ex_ledger_ok ex_codec_ok this ex_query_answer(1) out(1)] out(2) show ?thesis by auto
qed

end
