(* ===== verification/McpSpending.thy ===== *)
theory McpSpending
  imports McpPeriod LineFacts
begin

text \<open>
  \<open>compare_spending\<close> of \<open>mcp/tools_transactions.go\<close>: the category totals of two periods joined by
  category, with their differences, in 64-bit milliunits; then what its answer says of the lines.
\<close>

record period_info =
  pi_start :: string
  pi_end :: string
  pi_days :: int

record category_diff =
  df_category_id :: string
  df_category :: string
  df_category_group :: string
  df_period_spent :: string
  df_baseline_spent :: string
  df_difference :: string
  df_period_count :: nat
  df_baseline_count :: nat

record compare_data =
  cd_period :: period_info
  cd_baseline :: period_info
  cd_categories :: "category_diff list"
  cd_period_total :: string
  cd_baseline_total :: string
  cd_difference :: string

text \<open>\<open>acc\<close>: one category while the totals are read; its id is the key of the table \<open>byID\<close>, in \<open>order\<close>.\<close>

record spend =
  sp_category :: string
  sp_group :: string
  sp_cur :: int64
  sp_old :: int64
  sp_period_count :: nat
  sp_baseline_count :: nat

definition new_spend :: "category_total \<Rightarrow> spend" where
  "new_spend t = \<lparr>sp_category = (if ct_category_id t = [] then ''Uncategorized'' else ct_category_name t),
     sp_group = ct_category_group t, sp_cur = 0, sp_old = 0, sp_period_count = 0, sp_baseline_count = 0\<rparr>"

text \<open>Spending is the negated net amount.\<close>

definition in_period :: "category_total \<Rightarrow> spend \<Rightarrow> spend" where
  "in_period t e = e\<lparr>sp_cur := - ct_total t, sp_period_count := ct_count t\<rparr>"

definition in_baseline :: "category_total \<Rightarrow> spend \<Rightarrow> spend" where
  "in_baseline t e = e\<lparr>sp_old := - ct_total t, sp_baseline_count := ct_count t\<rparr>"

definition add_total :: "(category_total \<Rightarrow> spend \<Rightarrow> spend) \<Rightarrow> category_total \<Rightarrow> (string, spend) tbl \<Rightarrow> (string, spend) tbl" where
  "add_total f t = tbl_upsert (ct_category_id t) (f t (new_spend t)) (f t)"

definition spent_total :: "category_total list \<Rightarrow> int64" where
  "spent_total ts = fold (\<lambda>t s. s - ct_total t) ts 0"

definition abs64 :: "int64 \<Rightarrow> int64" where
  "abs64 v = (if v <s - v then - v else v)"

text \<open>The order of the answer: larger differences first, then by name.\<close>

definition rank :: "string \<times> spend \<Rightarrow> int \<times> string" where
  "rank e = (- sint (abs64 (sp_cur (snd e) - sp_old (snd e))), sp_category (snd e))"

definition show_spend :: "string \<times> spend \<Rightarrow> category_diff" where
  "show_spend e =
     \<lparr>df_category_id = fst e, df_category = sp_category (snd e), df_category_group = sp_group (snd e),
      df_period_spent = formatMoney (sp_cur (snd e)), df_baseline_spent = formatMoney (sp_old (snd e)),
      df_difference = formatMoney (sp_cur (snd e) - sp_old (snd e)),
      df_period_count = sp_period_count (snd e), df_baseline_count = sp_baseline_count (snd e)\<rparr>"

definition merged :: "category_total list \<Rightarrow> category_total list \<Rightarrow> (string \<times> spend) list" where
  "merged cur old = sort_key rank (fold (add_total in_baseline) old (fold (add_total in_period) cur []))"

definition compareSpending :: "(nat \<Rightarrow> error option) \<Rightarrow> db \<Rightarrow> string \<Rightarrow> period \<Rightarrow> period \<Rightarrow> compare_data result" where
  "compareSpending flt d plan period baseline =
     (case resolve period ''period'' of
        Inl e \<Rightarrow> Inl e
      | Inr (ps, pe) \<Rightarrow>
          (case resolve baseline ''baseline'' of
             Inl e \<Rightarrow> Inl e
           | Inr (bs, be) \<Rightarrow>
               (case CategoryTotals (flt 0) d plan ps pe of
                  Inl e \<Rightarrow> Inl e
                | Inr cur \<Rightarrow>
                    (case CategoryTotals (flt 1) d plan bs be of
                       Inl e \<Rightarrow> Inl e
                     | Inr old \<Rightarrow>
                         Inr \<lparr>cd_period = \<lparr>pi_start = ps, pi_end = pe, pi_days = days ps pe\<rparr>,
                              cd_baseline = \<lparr>pi_start = bs, pi_end = be, pi_days = days bs be\<rparr>,
                              cd_categories = map show_spend (merged cur old),
                              cd_period_total = formatMoney (spent_total cur),
                              cd_baseline_total = formatMoney (spent_total old),
                              cd_difference = formatMoney (spent_total cur - spent_total old)\<rparr>))))"

subsection \<open>What a total is in terms of lines\<close>

definition category_of :: "line \<Rightarrow> string" where
  "category_of l = or_empty (rl_category_id (ln_line l))"

definition amount_of :: "line list \<Rightarrow> int64" where
  "amount_of ls = sum_list (map (rl_amount \<circ> ln_line) ls)"

lemma sql_sum_word: "sql_sum xs = Inr t \<Longrightarrow> t = sum_list xs"
proof -
  have "word_of_int (sum_list (map sint xs)) = sum_list xs" for xs :: "int64 list"
    by (induction xs) simp_all
  then show "sql_sum xs = Inr t \<Longrightarrow> t = sum_list xs" by (auto simp: sql_sum_def Let_def split: if_splits)
qed

lemma total_of_word:
  "total_of ls k = Inr t \<Longrightarrow> ct_total t = amount_of (filter (\<lambda>l. group_key l = k) ls)"
  by (auto simp: total_of_def amount_of_def Let_def dest!: sql_sum_word split: sum.splits)

text \<open>The id of a line's category decides its name and group, when no category has an empty id.\<close>

lemma group_key_category:
  assumes "tbl_get (categories d) (plan, []) = None" and "l \<in> set (joined d plan)" "l' \<in> set (joined d plan)"
  shows "group_key l = group_key l' \<longleftrightarrow> category_of l = category_of l'"
proof -
  have "group_key (join_line d plan r) = group_key (join_line d plan r')"
    if "or_empty (rl_category_id r) = or_empty (rl_category_id r')" for r r'
    using that assms(1)
    by (cases "rl_category_id r"; cases "rl_category_id r'") (auto simp: group_key_def join_line_def Let_def or_empty_def)
  moreover obtain r r' where "l = join_line d plan r" "l' = join_line d plan r'"
    using assms(2,3) by (auto simp: joined_def)
  moreover have "category_of (join_line d plan r) = or_empty (rl_category_id r)" for r
    by (simp add: category_of_def join_line_def Let_def)
  moreover have "snd (snd (group_key l)) = category_of l" for l by (simp add: group_key_def category_of_def)
  ultimately show ?thesis by metis
qed

text \<open>The totals of a period, one per category that has a spending line in it.\<close>

lemma CategoryTotals_by_category:
  assumes "tbl_get (categories d) (plan, []) = None" and "CategoryTotals flt d plan start until = Inr ts"
  defines "ls \<equiv> filter (spending_line start until) (joined d plan)"
  shows "distinct (map ct_category_id ts)" "ct_category_id ` set ts = category_of ` set ls"
    "t \<in> set ts \<Longrightarrow> ct_total t = amount_of (filter (\<lambda>l. category_of l = ct_category_id t) ls)"
    "t \<in> set ts \<Longrightarrow> ct_count t = length (filter (\<lambda>l. category_of l = ct_category_id t) ls)"
proof -
  note rows = CategoryTotals_rows [OF assms(2), folded ls_def]
  have same: "group_key l = group_key l' \<longleftrightarrow> category_of l = category_of l'" if "l \<in> set ls" "l' \<in> set ls" for l l'
    using group_key_category [OF assms(1)] that by (simp add: ls_def)
  have third: "snd (snd (group_key l)) = category_of l" for l by (simp add: group_key_def category_of_def)
  have ids: "map ct_category_id ts = map (snd \<circ> snd) (map total_key ts)" by (simp add: total_key_def)
  have keys: "set (map total_key ts) = group_key ` set ls" "distinct (map total_key ts)" using rows by simp_all
  have "inj_on (snd \<circ> snd) (group_key ` set ls)" using same third by (auto simp: inj_on_def)
  then show "distinct (map ct_category_id ts)" unfolding ids using keys by (simp add: distinct_map del: map_map)
  show "ct_category_id ` set ts = category_of ` set ls"
  proof -
    have "ct_category_id ` set ts = (snd \<circ> snd) ` set (map total_key ts)" using arg_cong [OF ids, of set] by (simp only: list.set_map)
    then show ?thesis by (simp only: keys(1) image_image comp_def third)
  qed
  show "ct_total t = amount_of (filter (\<lambda>l. category_of l = ct_category_id t) ls)"
    "ct_count t = length (filter (\<lambda>l. category_of l = ct_category_id t) ls)" if t: "t \<in> set ts"
  proof -
    obtain l where l: "l \<in> set ls" "total_key t = group_key l" using keys(1) t by (metis image_iff list.set_map)
    then have "ct_category_id t = category_of l" using third [of l] by (simp add: total_key_def flip: l(2))
    then have "filter (\<lambda>l. group_key l = total_key t) ls = filter (\<lambda>l. category_of l = ct_category_id t) ls"
      using same l by (auto intro!: filter_cong)
    moreover have "total_of ls (total_key t) = Inr t" using rows t by blast
    ultimately show "ct_total t = amount_of (filter (\<lambda>l. category_of l = ct_category_id t) ls)"
      "ct_count t = length (filter (\<lambda>l. category_of l = ct_category_id t) ls)"
      using total_of_word total_of_Inr by (metis, metis)
  qed
qed

lemma spent_total_amount:
  assumes "CategoryTotals flt d plan start until = Inr ts"
  shows "spent_total ts = - amount_of (filter (spending_line start until) (joined d plan))"
proof -
  define ls where "ls = filter (spending_line start until) (joined d plan)"
  note rows = CategoryTotals_rows [OF assms, folded ls_def]
  have "fold (\<lambda>t s. s - ct_total t) ts s = s - sum_list (map ct_total ts)" for s
    by (induction ts arbitrary: s) (simp_all add: algebra_simps)
  then have "spent_total ts = - sum_list (map ct_total ts)" by (simp add: spent_total_def)
  moreover have "ct_total t = amount_of (filter (\<lambda>l. group_key l = total_key t) ls)" if "t \<in> set ts" for t
    using rows that total_of_word by blast
  then have "map ct_total ts = map (\<lambda>k. amount_of (filter (\<lambda>l. group_key l = k) ls)) (map total_key ts)" by simp
  moreover have "sum_list (map (\<lambda>k. amount_of (filter (\<lambda>l. group_key l = k) ls)) ks) = amount_of ls"
    if "distinct ks" "group_key ` set ls \<subseteq> set ks" for ks
    using that(2)
  proof (induction ls)
    case (Cons l ls)
    have one: "(\<Sum>k\<leftarrow>ks. if j = k then c + f k else f k) = (if j \<in> set ks then c else 0) + sum_list (map f ks)"
      if "distinct ks" for j and c :: int64 and f ks using that by (induction ks) (auto simp: algebra_simps)
    have "amount_of (filter (\<lambda>x. group_key x = k) (l # ls)) =
        (if group_key l = k then rl_amount (ln_line l) + amount_of (filter (\<lambda>x. group_key x = k) ls)
         else amount_of (filter (\<lambda>x. group_key x = k) ls))" for k by (simp add: amount_of_def)
    with Cons one [OF that(1), of "group_key l"] show ?case by (simp add: amount_of_def)
  qed (simp add: amount_of_def sum_list_0)
  ultimately show ?thesis using rows by (simp flip: ls_def)
qed

subsection \<open>The merged table\<close>

lemma find_fresh: "g x \<notin> g ` set ts \<Longrightarrow> find (\<lambda>u. g u = g x) ts = None"
  by (induction ts) auto

lemma get_add_totals:
  assumes "distinct (map ct_category_id ts)"
  shows "tbl_get (fold (add_total f) ts tbl) k =
    (case find (\<lambda>t. ct_category_id t = k) ts of None \<Rightarrow> tbl_get tbl k
     | Some t \<Rightarrow> Some (f t (case tbl_get tbl k of None \<Rightarrow> new_spend t | Some e \<Rightarrow> e)))"
  using assms
proof (induction ts arbitrary: tbl)
  case (Cons t ts)
  then have "ct_category_id t \<notin> ct_category_id ` set ts" by simp
  then have "find (\<lambda>u. ct_category_id u = ct_category_id t) ts = None" by (rule find_fresh)
  then show ?case
    using Cons.IH [of "add_total f t tbl"] Cons.prems
    by (cases "ct_category_id t = k") (simp_all add: add_total_def table_simps split: option.split)
qed simp

lemma ok_add_totals: "tbl_ok tbl \<Longrightarrow> tbl_ok (fold (add_total f) ts tbl)"
  unfolding add_total_def by (rule table.ok_fold)

lemma find_total:
  "find (\<lambda>t. ct_category_id t = k) ts = Some t \<Longrightarrow> t \<in> set ts \<and> ct_category_id t = k"
  by (auto simp: find_Some_iff)

lemma set_sort_key_tbl: "set (sort_key f xs) = set xs" "distinct (map fst (sort_key f xs)) = distinct (map fst xs)"
  by (simp_all, metis mset_map mset_sort mset_eq_imp_distinct_iff)

text \<open>What a category was spent in a list of lines: nothing when no line is of the category.\<close>

definition spent :: "line list \<Rightarrow> string \<Rightarrow> int64" where
  "spent ls k = - amount_of (filter (\<lambda>l. category_of l = k) ls)"

definition line_count :: "line list \<Rightarrow> string \<Rightarrow> nat" where
  "line_count ls k = length (filter (\<lambda>l. category_of l = k) ls)"

definition period_lines :: "db \<Rightarrow> string \<Rightarrow> period_info \<Rightarrow> line list" where
  "period_lines d plan p = filter (spending_line (pi_start p) (pi_end p)) (joined d plan)"

lemma spent_none: "k \<notin> category_of ` set ls \<Longrightarrow> spent ls k = 0 \<and> line_count ls k = 0"
proof -
  assume "k \<notin> category_of ` set ls"
  then have "filter (\<lambda>l. category_of l = k) ls = []" by (auto simp: filter_empty_conv)
  then show ?thesis by (simp add: spent_def line_count_def amount_of_def)
qed

lemma find_spent:
  assumes "tbl_get (categories d) (plan, []) = None" and "CategoryTotals flt d plan start until = Inr ts"
  defines "ls \<equiv> filter (spending_line start until) (joined d plan)"
  shows "case find (\<lambda>t. ct_category_id t = k) ts of
      None \<Rightarrow> k \<notin> category_of ` set ls
    | Some t \<Rightarrow> k \<in> category_of ` set ls \<and> - ct_total t = spent ls k \<and> ct_count t = line_count ls k"
proof (cases "find (\<lambda>t. ct_category_id t = k) ts")
  case None
  then have "k \<notin> ct_category_id ` set ts" by (auto simp: find_None_iff)
  with CategoryTotals_by_category(2) [OF assms(1,2)] None show ?thesis by (simp add: ls_def)
next
  case (Some t)
  note t = find_total [OF Some]
  with CategoryTotals_by_category [OF assms(1,2), folded ls_def] Some show ?thesis
    by (auto simp: spent_def line_count_def)
qed

text \<open>
  C36: A comparison is exact and complete: it has one row for each category with a spending line in
  either period, each with the net spending and the number of its lines in both (nothing where there
  are none) and their difference, the largest difference first; and the totals are the net spending
  of all lines of the period and of the baseline, and their difference.
\<close>

theorem compareSpending_exact:
  assumes "compareSpending flt d plan period baseline = Inr out" and "tbl_get (categories d) (plan, []) = None"
  defines "cur \<equiv> period_lines d plan (cd_period out)" and "old \<equiv> period_lines d plan (cd_baseline out)"
  shows "\<exists>rows. cd_categories out = map show_spend rows \<and> distinct (map fst rows) \<and> sorted (map rank rows) \<and>
    fst ` set rows = category_of ` (set cur \<union> set old) \<and>
    (\<forall>(k, e) \<in> set rows. sp_cur e = spent cur k \<and> sp_old e = spent old k \<and>
       sp_period_count e = line_count cur k \<and> sp_baseline_count e = line_count old k) \<and>
    cd_period_total out = formatMoney (- amount_of cur) \<and> cd_baseline_total out = formatMoney (- amount_of old) \<and>
    cd_difference out = formatMoney (amount_of old - amount_of cur)"
proof -
  from assms(1) obtain ps pe bs be ts us where t: "CategoryTotals (flt 0) d plan ps pe = Inr ts"
      and u: "CategoryTotals (flt 1) d plan bs be = Inr us"
      and out: "cd_period out = \<lparr>pi_start = ps, pi_end = pe, pi_days = days ps pe\<rparr>"
        "cd_baseline out = \<lparr>pi_start = bs, pi_end = be, pi_days = days bs be\<rparr>" "cd_categories out = map show_spend (merged ts us)"
        "cd_period_total out = formatMoney (spent_total ts)" "cd_baseline_total out = formatMoney (spent_total us)"
        "cd_difference out = formatMoney (spent_total ts - spent_total us)"
    by (auto simp: compareSpending_def split: sum.splits)
  have cur: "cur = filter (spending_line ps pe) (joined d plan)" and old: "old = filter (spending_line bs be) (joined d plan)"
    by (simp_all add: cur_def old_def period_lines_def out)
  let ?tbl = "fold (add_total in_baseline) us (fold (add_total in_period) ts [])"
  have ok: "tbl_ok ?tbl" by (intro ok_add_totals) simp
  have get: "tbl_get ?tbl k =
      (case find (\<lambda>t. ct_category_id t = k) us of
         None \<Rightarrow> map_option (\<lambda>t. in_period t (new_spend t)) (find (\<lambda>t. ct_category_id t = k) ts)
       | Some u \<Rightarrow> Some (in_baseline u (case find (\<lambda>t. ct_category_id t = k) ts of None \<Rightarrow> new_spend u | Some t \<Rightarrow> in_period t (new_spend t))))" for k
    using CategoryTotals_by_category(1) [OF assms(2) t] CategoryTotals_by_category(1) [OF assms(2) u]
    by (auto simp: get_add_totals split: option.splits)
  note ft = find_spent [OF assms(2) t, folded cur] and fu = find_spent [OF assms(2) u, folded old]
  have row: "sp_cur e = spent cur k \<and> sp_old e = spent old k \<and> sp_period_count e = line_count cur k \<and>
      sp_baseline_count e = line_count old k" if "(k, e) \<in> set ?tbl" for k e
    using tbl_in_get [OF ok that] ft [of k] fu [of k] spent_none [of k cur] spent_none [of k old]
    by (auto simp: get in_period_def in_baseline_def new_spend_def split: option.splits)
  have "k \<in> fst ` set ?tbl \<longleftrightarrow> k \<in> category_of ` (set cur \<union> set old)" for k
  proof -
    have "k \<in> fst ` set ?tbl \<longleftrightarrow> tbl_get ?tbl k \<noteq> None" by (simp add: tbl_get_None_iff tbl_keys_def)
    also have "\<dots> \<longleftrightarrow> k \<in> category_of ` (set cur \<union> set old)"
      using ft [of k] fu [of k] by (auto simp: get image_Un split: option.splits)
    finally show ?thesis .
  qed
  then have dom: "fst ` set (merged ts us) = category_of ` (set cur \<union> set old)" by (auto simp: merged_def)
  have "distinct (map fst (merged ts us))" "sorted (map rank (merged ts us))"
    using ok by (simp_all add: merged_def set_sort_key_tbl tbl_ok_def tbl_keys_def)
  moreover have "\<forall>(k, e) \<in> set (merged ts us). sp_cur e = spent cur k \<and> sp_old e = spent old k \<and>
      sp_period_count e = line_count cur k \<and> sp_baseline_count e = line_count old k"
    using row by (auto simp: merged_def)
  moreover have "spent_total ts = - amount_of cur" "spent_total us = - amount_of old"
    using spent_total_amount [OF t] spent_total_amount [OF u] by (simp_all add: cur old)
  ultimately show ?thesis
    using dom by (intro exI [of _ "merged ts us"]) (simp add: out(3-6))
qed

lemma compareSpending_exact_witness:
  "\<exists>out. compareSpending (\<lambda>_. None) ex_ledger ''p'' \<lparr>p_month = ''2024-05'', p_start = [], p_end = []\<rparr>
      \<lparr>p_month = ''2024-04'', p_start = [], p_end = []\<rparr> = Inr out \<and> cd_difference out = formatMoney 12000"
proof -
  let ?c = "compareSpending (\<lambda>_. None) ex_ledger ''p'' \<lparr>p_month = ''2024-05'', p_start = [], p_end = []\<rparr>
    \<lparr>p_month = ''2024-04'', p_start = [], p_end = []\<rparr>"
  have m: "resolve \<lparr>p_month = ''2024-05'', p_start = [], p_end = []\<rparr> ''period'' = Inr (''2024-05-01'', ''2024-05-31'')"
    "resolve \<lparr>p_month = ''2024-04'', p_start = [], p_end = []\<rparr> ''baseline'' = Inr (''2024-04-01'', ''2024-04-30'')" by code_simp+
  have "case CategoryTotals None ex_ledger ''p'' ''2024-05-01'' ''2024-05-31'' of Inl _ \<Rightarrow> False | Inr _ \<Rightarrow> True"
    "case CategoryTotals None ex_ledger ''p'' ''2024-04-01'' ''2024-04-30'' of Inl _ \<Rightarrow> False | Inr _ \<Rightarrow> True" by code_simp+
  with m obtain out where out: "?c = Inr out" "pi_start (cd_period out) = ''2024-05-01''" "pi_end (cd_period out) = ''2024-05-31''"
      "pi_start (cd_baseline out) = ''2024-04-01''" "pi_end (cd_baseline out) = ''2024-04-30''"
    by (auto simp: compareSpending_def split: sum.splits)
  have "tbl_get (categories ex_ledger) (''p'', []) = None" by code_simp
  from compareSpending_exact [OF out(1) this]
  have "cd_difference out = formatMoney (amount_of (period_lines ex_ledger ''p'' (cd_baseline out)) - amount_of (period_lines ex_ledger ''p'' (cd_period out)))"
    by blast
  moreover have "amount_of (filter (spending_line ''2024-05-01'' ''2024-05-31'') (joined ex_ledger ''p'')) = - 12000"
    "amount_of (filter (spending_line ''2024-04-01'' ''2024-04-30'') (joined ex_ledger ''p'')) = 0" by code_simp+
  ultimately have "cd_difference out = formatMoney 12000" by (simp only: period_lines_def out(2-5)) simp
  with out(1) show ?thesis by blast
qed

end
