(* ===== verification/McpFacts.thy ===== *)
theory McpFacts
  imports McpFreshness McpPaging McpSpending
begin

text \<open>
  What a caller of the tools can rely on: no stale mirror and no broken bank link goes unmentioned,
  and an error text is made of the caller's own input and fixed text alone.
\<close>

subsection \<open>Freshness\<close>

text \<open>A bank link that needs no warning.\<close>

definition healthy :: "(time \<Rightarrow> duration) \<Rightarrow> time \<Rightarrow> account_freshness \<Rightarrow> bool" where
  "healthy zone now a \<longleftrightarrow> \<not> af_in_error a \<and>
     (\<exists>dt. parse_date (af_newest_import_date a) = Some dt \<and>
        day_number (date_of_day ((now + zone now) div ns_day)) - day_number dt \<le> 14)"

definition tracked :: "account_freshness \<Rightarrow> bool" where
  "tracked a \<longleftrightarrow> af_linked a \<and> \<not> af_closed a"

lemma daysSince_le:
  assumes "daysSince zone date now = Inr n"
  shows "\<exists>dt. parse_date date = Some dt \<and> (n \<le> 14 \<longleftrightarrow> day_number (date_of_day ((now + zone now) div ns_day)) - day_number dt \<le> 14)"
proof -
  from assms obtain dt where dt: "parse_date date = Some dt"
    and n: "n = max 0 (quot (time_Sub (date_time (date_of_day ((now + zone now) div ns_day))) (date_time dt)) ns_day)"
    by (auto simp: daysSince_def Let_def split: option.splits)
  define k where "k = day_number (date_of_day ((now + zone now) div ns_day)) - day_number dt"
  have s: "time_Sub (date_time (date_of_day ((now + zone now) div ns_day))) (date_time dt) = max (- (2 ^ 63)) (min (2 ^ 63 - 1) (k * ns_day))"
    by (simp add: time_Sub_def date_time_def k_def algebra_simps)
  have "n \<le> 14 \<longleftrightarrow> k \<le> 14"
  proof (cases "0 \<le> k")
    case True
    then have "n = min (2 ^ 63 - 1) (k * ns_day) div ns_day"
      unfolding n s by (simp add: max_def quot_nonneg pos_imp_zdiv_nonneg_iff)
    then show ?thesis by (cases "k * ns_day \<le> 2 ^ 63 - 1") (simp_all add: min_def)
  next
    case False
    then have "k * ns_day \<le> 0" by simp
    then have "quot (max (- (2 ^ 63)) (min (2 ^ 63 - 1) (k * ns_day))) ns_day \<le> 0"
      by (intro quot_nonpos) simp_all
    with False show ?thesis unfolding n s by simp
  qed
  with dt show ?thesis by (auto simp: k_def)
qed

lemma accountFreshness_Inr:
  assumes "accountFreshness zone a now = Inr (af, warning)"
  shows "ma_name af = af_name a \<and> (warning = [] \<longleftrightarrow> healthy zone now a) \<and> (ma_status af = importOK \<longleftrightarrow> healthy zone now a) \<and>
    (af_in_error a \<longrightarrow> ma_status af = importLinkErr)"
proof (cases "af_newest_import_date a = []")
  case True
  have "parse_date [] = None" by code_simp
  with True assms show ?thesis
    by (auto simp: accountFreshness_def healthy_def Let_def split: if_splits)
next
  case False
  with assms obtain n where n: "daysSince zone (af_newest_import_date a) now = Inr n"
    by (auto simp: accountFreshness_def split: sum.splits)
  note dl = daysSince_le [OF n]
  have "healthy zone now a \<longleftrightarrow> \<not> af_in_error a \<and> n \<le> 14" using dl by (auto simp: healthy_def)
  with False n assms show ?thesis
    by (auto simp: accountFreshness_def Let_def importStaleAfterDays_def split: if_splits)
qed

lemma account_loop_Inr:
  assumes "account_loop zone now as = Inr (afs, ok, warnings)"
  shows "map (\<lambda>af. (ma_name af, ma_status af = importOK)) afs = map (\<lambda>a. (af_name a, healthy zone now a)) (filter tracked as) \<and>
    (ok \<longleftrightarrow> (\<forall>a \<in> set (filter tracked as). healthy zone now a)) \<and>
    length warnings = length (filter (\<lambda>a. \<not> healthy zone now a) (filter tracked as)) \<and> [] \<notin> set warnings"
  using assms
proof (induction as arbitrary: afs ok warnings)
  case (Cons a as)
  show ?case
  proof (cases "tracked a")
    case False
    with Cons show ?thesis by (auto simp: tracked_def)
  next
    case True
    with Cons.prems obtain af w rest ok' ws where a: "accountFreshness zone a now = Inr (af, w)"
        and r: "account_loop zone now as = Inr (rest, ok', ws)" "afs = af # rest" "ok \<longleftrightarrow> w = [] \<and> ok'"
          "warnings = (if w = [] then [] else [w]) @ ws"
      by (auto simp: tracked_def split: sum.splits prod.splits)
    show ?thesis using Cons.IH [OF r(1)] accountFreshness_Inr [OF a] True r(2-4) by auto
  qed
qed simp

text \<open>
  C37: An answer never passes off old data as current. Its freshness lists every open linked account
  under its status; \<open>stale\<close> says exactly whether the last sync is older than allowed (or never was);
  \<open>links_ok\<close> exactly whether every tracked account's link is without error and imported within the
  last 14 calendar days; and there is one warning for a stale sync and one for each unhealthy link,
  no more.
\<close>

theorem freshness_tells:
  assumes "readFreshness zone staleAfter flt d plan now = Inr f"
  shows "\<exists>st accs. GetSyncState (ff_state flt) d plan = Inr st \<and> Freshness (ff_state2 flt) (ff_rows flt) d plan = Inr accs \<and>
    (case st of
       None \<Rightarrow> fr_stale f \<and> \<not> fr_links_ok f \<and> fr_accounts f = [] \<and> length (fr_warnings f) = 1
     | Some s \<Rightarrow>
         (fr_stale f \<longleftrightarrow> staleAfter < time_Sub now (ss_synced_at s)) \<and>
         map (\<lambda>a. (ma_name a, ma_status a = importOK)) (fr_accounts f) = map (\<lambda>a. (af_name a, healthy zone now a)) (filter tracked accs) \<and>
         (fr_links_ok f \<longleftrightarrow> (\<forall>a \<in> set (filter tracked accs). healthy zone now a)) \<and>
         length (fr_warnings f) = (if fr_stale f then 1 else 0) + length (filter (\<lambda>a. \<not> healthy zone now a) (filter tracked accs)))"
proof -
  from assms obtain st accs where st: "GetSyncState (ff_state flt) d plan = Inr st"
      and accs: "Freshness (ff_state2 flt) (ff_rows flt) d plan = Inr accs"
    by (auto simp: readFreshness_def split: sum.splits)
  show ?thesis
  proof (cases st)
    case None
    with assms st accs show ?thesis by (auto simp: readFreshness_def)
  next
    case (Some s)
    with assms st accs obtain afs ok ws where l: "account_loop zone now accs = Inr (afs, ok, ws)"
      by (auto simp: readFreshness_def Let_def split: sum.splits)
    with assms st accs Some have "fr_stale f \<longleftrightarrow> staleAfter < time_Sub now (ss_synced_at s)" "fr_accounts f = afs"
      "fr_links_ok f = ok" "length (fr_warnings f) = (if fr_stale f then 1 else 0) + length ws"
      by (auto simp: readFreshness_def Let_def)
    with account_loop_Inr [OF l] st accs Some show ?thesis by auto
  qed
qed

subsection \<open>What a caller sees of a failure\<close>

text \<open>Everything \<open>query_transactions\<close> may refuse an input with: fixed text and the caller's own names.\<close>

definition query_refusals :: "query_args \<Rightarrow> error list" where
  "query_refusals a = map badRequest
     [''start/end: dates must be YYYY-MM-DD'', ''start/end: start is after end'',
      ''min_amount must be a decimal amount such as -12.34'', ''max_amount must be a decimal amount such as -12.34'',
      ''min_amount is more than max_amount'',
      ''no account is named '' @ Quote (qa_account a), ''no category is named '' @ Quote (qa_category a),
      ''cursor is not one this tool returned'',
      ''cursor belongs to different filters; repeat the same filters or start without a cursor'']"

text \<open>The errors of the database driver are not client errors.\<close>

definition driver_faults :: "query_faults \<Rightarrow> bool" where
  "driver_faults flt \<longleftrightarrow> (\<forall>e. qf_account flt = Some e \<or> qf_category flt = Some e \<or> (\<exists>i. qf_lines flt i = Some e) \<longrightarrow> \<not> errors_Is e ErrClient)"

lemma badRequest_is [simp]: "errors_Is (badRequest m) ErrClient"
  by (simp add: badRequest_def)

lemma args_filter_Inl: "args_filter a = Inl e \<Longrightarrow> e \<in> set (query_refusals a)"
  by (auto simp: args_filter_def amount_arg_def dateRange_def check_date_def query_refusals_def
      split: sum.splits option.splits if_splits prod.splits)

lemma args_filter_names: "args_filter a = Inr f \<Longrightarrow> lf_account f = qa_account a \<and> lf_category f = qa_category a"
  by (auto simp: args_filter_def split: sum.splits if_splits prod.splits)

lemma check_name_Inl:
  "check_name flt d plan table label s = Inl e \<Longrightarrow>
     e = badRequest (''no '' @ label @ '' is named '' @ Quote s) \<or> (\<exists>e'. flt = Some e' \<and> errors_Is e ErrClient = errors_Is e' ErrClient)"
  by (auto simp: check_name_def NameMatches_def Let_def split: if_splits option.splits)

lemma read_cursor_Inl:
  "read_cursor codec hash c = Inl e \<Longrightarrow> e = badRequest ''cursor is not one this tool returned'' \<or>
     e = badRequest ''cursor belongs to different filters; repeat the same filters or start without a cursor''"
  by (auto simp: read_cursor_def split: if_splits option.splits)

lemma QueryLines_Inl:
  "QueryLines flt d plan f after n = Inl e \<Longrightarrow> (\<And>i e'. flt i = Some e' \<Longrightarrow> \<not> errors_Is e' ErrClient) \<Longrightarrow> \<not> errors_Is e ErrClient"
  by (fastforce simp: QueryLines_def sql_sum_def Let_def split: option.splits sum.splits if_splits)

lemma queryTransactions_refusal:
  assumes "queryTransactions codec flt d plan a = Inl e" and "errors_Is e ErrClient" and "driver_faults flt"
  shows "e \<in> set (query_refusals a)"
proof (cases "args_filter a")
  case (Inl e')
  with assms(1) args_filter_Inl [OF Inl] show ?thesis by (simp add: queryTransactions_def)
next
  case (Inr f)
  note names = args_filter_names [OF Inr]
  have ql: "QueryLines (qf_lines flt) d plan f after n \<noteq> Inl e" for after n
    using QueryLines_Inl assms(2,3) unfolding driver_faults_def by blast
  consider (account) "check_name (qf_account flt) d plan Accounts ''account'' (lf_account f) = Inl e"
    | (category) "check_name (qf_category flt) d plan Categories ''category'' (lf_category f) = Inl e"
    | (cursor) "read_cursor codec (cc_hash codec f) (qa_cursor a) = Inl e"
    using assms(1) Inr ql by (auto simp: queryTransactions_def Let_def split: sum.splits prod.splits)
  then show ?thesis
  proof cases
    case account
    with check_name_Inl [OF account] assms(2,3) names show ?thesis by (auto simp: query_refusals_def driver_faults_def)
  next
    case category
    with check_name_Inl [OF category] assms(2,3) names show ?thesis by (auto simp: query_refusals_def driver_faults_def)
  next
    case cursor
    then show ?thesis using read_cursor_Inl [OF cursor] by (auto simp: query_refusals_def)
  qed
qed

text \<open>
  C38: A failed query tells the caller nothing of the database and the log no id: its error is the
  fixed text, or one of the refusals that are made of the caller's own input; and what is logged of
  it is free of ids once scrubbed.
\<close>

theorem query_errors_safe:
  assumes "driver_faults flt"
    and "respond (\<lambda>s. scrub s secrets) fresh name (queryTransactions codec flt d plan a) = (Inl e, logged)"
  shows "(e = errTool \<or> e \<in> set (query_refusals a)) \<and> (\<forall>text. Failed name text \<in> set logged \<longrightarrow> \<not> has_uuid text)"
proof (cases "queryTransactions codec flt d plan a")
  case (Inl e')
  with assms(2) queryTransactions_refusal [OF Inl _ assms(1)] show ?thesis
    by (auto simp: respond_def scrub_clean split: if_splits)
next
  case (Inr out)
  with assms(2) show ?thesis by (auto simp: respond_def scrub_clean split: sum.splits)
qed

subsection \<open>Examples\<close>

text \<open>A mirror synced at the zero time, with one linked account whose link has never imported.\<close>

definition ex_fresh_db :: db where
  "ex_fresh_db = empty_db
     \<lparr>accounts := map (\<lambda>(k, a). (k, a\<lparr>acc_direct_import_linked := True\<rparr>)) (accounts ex_ledger),
      sync_states := [(''p'', \<lparr>sr_server_knowledge = 7, sr_synced_at = formatTime 0\<rparr>)]\<rparr>"

lemma freshness_tells_witness:
  "\<exists>f. readFreshness (\<lambda>_. 0) 1800000000000 no_freshness_faults ex_fresh_db ''p'' 3600000000000 = Inr f \<and>
     fr_stale f \<and> \<not> fr_links_ok f \<and> length (fr_warnings f) = 2"
proof -
  let ?r = "readFreshness (\<lambda>_. 0) 1800000000000 no_freshness_faults ex_fresh_db ''p'' 3600000000000"
  let ?a = "\<lparr>af_account_id = ''a1'', af_name = ''Checking'', af_closed = False, af_linked = True,
      af_in_error = False, af_newest_import_date = [], af_last_import_seen_at = None, af_synced_at = 0\<rparr>"
  have st: "GetSyncState None ex_fresh_db ''p'' = Inr (Some \<lparr>ss_plan_id = ''p'', ss_server_knowledge = 7, ss_synced_at = 0\<rparr>)"
    by (simp add: GetSyncState_def ex_fresh_db_def parseTime_formatTime storable_0)
  then have accs: "Freshness None None ex_fresh_db ''p'' = Inr [?a]"
    by (simp add: Freshness_def plan_accounts_def freshness_row_def imports_of_def ex_fresh_db_def empty_db_def ex_ledger_def)
  have no_date: "parse_date [] = None" by code_simp
  obtain f where f: "?r = Inr f"
    using accs st by (auto simp: readFreshness_def no_freshness_faults_def Let_def accountFreshness_def)
  have "tracked ?a" "\<not> healthy (\<lambda>_. 0) 3600000000000 ?a" by (simp_all add: tracked_def healthy_def no_date)
  with freshness_tells [OF f] accs st show ?thesis
    unfolding f by (simp add: no_freshness_faults_def time_Sub_def)
qed

lemma query_errors_safe_witness:
  "\<exists>e logged. respond (\<lambda>s. scrub s []) (Inl errTool) ''query_transactions''
      (queryTransactions ex_codec no_query_faults ex_ledger ''p'' (ex_query\<lparr>qa_account := ''nobody''\<rparr>)) = (Inl e, logged) \<and>
      (e = errTool \<or> e \<in> set (query_refusals (ex_query\<lparr>qa_account := ''nobody''\<rparr>)))"
proof -
  obtain r logged where r: "respond (\<lambda>s. scrub s []) (Inl errTool) ''query_transactions''
      (queryTransactions ex_codec no_query_faults ex_ledger ''p'' (ex_query\<lparr>qa_account := ''nobody''\<rparr>)) = (r, logged)" by fastforce
  then obtain e where e: "r = Inl e" by (auto simp: respond_def split: sum.splits if_splits)
  have "driver_faults no_query_faults" by (simp add: driver_faults_def no_query_faults_def)
  from query_errors_safe [OF this r [unfolded e]] r e show ?thesis by auto
qed

end
