(* ===== verification/McpServer.thy ===== *)
theory McpServer
  imports AuthServer McpQuery "HOL-Library.AList"
begin

text \<open>
  \<open>mcp/server.go\<close>, the registry of \<open>mcp/tools.go\<close> and \<open>logPath\<close> of \<open>mcp/middleware.go\<close>: which tools
  a token may see and run. The SDK's server behind the middleware is an argument, a step on its own
  state (\<open>next\<close>).
\<close>

record tool_def =
  td_name :: string
  td_scope :: string

text \<open>\<open>define\<close> panics (\<open>None\<close>) on a tool without a scope.\<close>

definition define_tool :: "string \<Rightarrow> string \<Rightarrow> tool_def option" where
  "define_tool scope name = (if scope = [] then None else Some \<lparr>td_name = name, td_scope = scope\<rparr>)"

text \<open>\<open>registry\<close> after the \<open>init\<close> functions: \<open>freshness.go\<close>, then \<open>tools_transactions.go\<close>.\<close>

definition registry :: "tool_def list" where
  "registry = List.map_filter (define_tool ScopeMCP) [''data_freshness'', ''query_transactions'', ''compare_spending'']"

text \<open>The map \<open>scopes\<close> of \<open>newServer\<close>: a later definition of a name replaces an earlier one.\<close>

definition tool_scopes :: "tool_def list \<Rightarrow> (string \<times> string) list" where
  "tool_scopes defs = fold (\<lambda>t. AList.update (td_name t) (td_scope t)) defs []"

datatype mcp_request = CallTool string | ListTools | OtherMethod string

datatype 'r mcp_reply = ToolList "string list" | RpcError string | Reply 'r

text \<open>\<open>permitted\<close>: a missing key of \<open>scopes\<close> reads as the empty scope. No token, no tools.\<close>

definition permitted :: "(string \<times> string) list \<Rightarrow> token_info option \<Rightarrow> string \<Rightarrow> bool" where
  "permitted scopes info tool =
     (case info of
        None \<Rightarrow> False
      | Some i \<Rightarrow> (case map_of scopes tool of None \<Rightarrow> [] | Some s \<Rightarrow> s) \<in> set (ti_scopes i))"

definition unknown_tool :: "string \<Rightarrow> string" where
  "unknown_tool t = ''unknown tool '' @ Quote t"

fun limitToToken ::
    "(string \<times> string) list \<Rightarrow> (mcp_request \<Rightarrow> 's \<Rightarrow> 'r mcp_reply \<times> 's) \<Rightarrow> token_info option \<Rightarrow> mcp_request \<Rightarrow> 's \<Rightarrow>
     'r mcp_reply \<times> 's" where
  "limitToToken scopes next_step info (CallTool t) s =
     (if map_of scopes t \<noteq> None \<and> \<not> permitted scopes info t then (RpcError (unknown_tool t), s)
      else next_step (CallTool t) s)"
| "limitToToken scopes next_step info ListTools s =
     (case next_step ListTools s of
        (ToolList ts, s') \<Rightarrow> (ToolList (filter (permitted scopes info) ts), s')
      | r \<Rightarrow> r)"
| "limitToToken scopes next_step info (OtherMethod m) s = next_step (OtherMethod m) s"

text \<open>\<open>loggedPaths\<close> and \<open>logPath\<close>: a path outside finbot's routes is anyone's text.\<close>

definition mcp_path :: string where
  "mcp_path = ''/mcp''"

definition loggedPaths :: "string list" where
  "loggedPaths = [mcp_path, ''/oauth/register'', ''/oauth/authorize'', ''/oauth/google/callback'', ''/oauth/consent'', ''/oauth/token'',
     ''/oauth/revoke'', ''/.well-known/oauth-authorization-server'', ''/.well-known/oauth-protected-resource'',
     ''/.well-known/oauth-protected-resource'' @ mcp_path]"

definition logPath :: "string \<Rightarrow> string" where
  "logPath p = (if p \<in> set loggedPaths then p else ''other'')"

text \<open>\<open>CORS\<close>: the headers it sets, and the answer to a preflight; other requests reach the handler.\<close>

definition cors_headers :: "(string \<times> string) list" where
  "cors_headers =
     [(''Access-Control-Allow-Origin'', ''*''), (''Access-Control-Allow-Methods'', ''GET, POST, DELETE, OPTIONS''),
      (''Access-Control-Allow-Headers'', ''Authorization, Content-Type, Mcp-Session-Id, Mcp-Protocol-Version, Last-Event-ID''),
      (''Access-Control-Expose-Headers'', ''WWW-Authenticate, Mcp-Session-Id'')]"

definition CORS :: "(string \<Rightarrow> nat \<times> (string \<times> string) list) \<Rightarrow> string \<Rightarrow> nat \<times> (string \<times> string) list" where
  "CORS h http_method =
     (if http_method = ''OPTIONS'' then (204, cors_headers)
      else (case h http_method of (code, headers) \<Rightarrow> (code, cors_headers @ headers)))"

subsection \<open>Sessions\<close>

text \<open>A session's requests in order, each with the token it came with.\<close>

fun session ::
    "(string \<times> string) list \<Rightarrow> (mcp_request \<Rightarrow> 's \<Rightarrow> 'r mcp_reply \<times> 's) \<Rightarrow> (token_info option \<times> mcp_request) list \<Rightarrow> 's \<Rightarrow>
     'r mcp_reply list \<times> 's" where
  "session scopes next_step [] s = ([], s)"
| "session scopes next_step ((info, r) # rs) s =
     (let (a, s1) = limitToToken scopes next_step info r s; (as, s2) = session scopes next_step rs s1 in (a # as, s2))"

definition allowed :: "(string \<times> string) list \<Rightarrow> token_info option \<times> mcp_request \<Rightarrow> bool" where
  "allowed scopes ir = (case ir of (info, CallTool t) \<Rightarrow> map_of scopes t = None \<or> permitted scopes info t | _ \<Rightarrow> True)"

definition refused_reply :: "token_info option \<times> mcp_request \<Rightarrow> 'r mcp_reply" where
  "refused_reply ir = (case ir of (_, CallTool t) \<Rightarrow> RpcError (unknown_tool t) | _ \<Rightarrow> RpcError [])"

text \<open>The answers of a session, with those to refused calls put back in their places.\<close>

fun weave :: "(token_info option \<times> mcp_request \<Rightarrow> bool) \<Rightarrow> (token_info option \<times> mcp_request) list \<Rightarrow> 'r mcp_reply list \<Rightarrow> 'r mcp_reply list" where
  "weave ok [] as = []"
| "weave ok (ir # irs) as =
     (if ok ir then (case as of [] \<Rightarrow> [] | a # as' \<Rightarrow> a # weave ok irs as') else refused_reply ir # weave ok irs as)"

lemma session_weave:
  "session scopes next_step rs s =
     (let (as, s') = session scopes next_step (filter (allowed scopes) rs) s in (weave (allowed scopes) rs as, s'))"
proof (induction rs arbitrary: s)
  case (Cons ir rs)
  obtain info r where ir: "ir = (info, r)" by (cases ir)
  show ?case
  proof (cases "allowed scopes ir")
    case True
    with Cons.IH show ?thesis by (simp add: ir Let_def split_def)
  next
    case False
    then obtain t where "r = CallTool t" by (cases r) (auto simp: allowed_def ir)
    with False have "limitToToken scopes next_step info r s = (refused_reply ir, s)" by (simp add: ir allowed_def refused_reply_def)
    with False [unfolded ir] Cons.IH [of s] show ?thesis by (simp add: ir Let_def split_def)
  qed
qed simp

lemma tool_scopes_registry: "map_of (tool_scopes registry) t = (if t \<in> {''data_freshness'', ''query_transactions'', ''compare_spending''} then Some ScopeMCP else None)"
proof -
  have "tool_scopes registry = [(''data_freshness'', ''mcp''), (''query_transactions'', ''mcp''), (''compare_spending'', ''mcp'')]" by code_simp
  then show ?thesis by (simp add: ScopeMCP_def)
qed

lemma session_lists:
  "ToolList ts \<in> set (fst (session scopes next_step rs s)) \<Longrightarrow>
     (\<forall>info r. (info, r) \<in> set rs \<longrightarrow> \<not> permitted scopes info t) \<Longrightarrow> (\<And>m s. m \<noteq> ListTools \<Longrightarrow> fst (next_step m s) \<noteq> ToolList ts) \<Longrightarrow> t \<notin> set ts"
proof (induction rs arbitrary: s)
  case (Cons ir rs)
  obtain info r where ir: "ir = (info, r)" by (cases ir)
  obtain a s1 where a: "limitToToken scopes next_step info r s = (a, s1)" by fastforce
  have p: "\<not> permitted scopes info t" using Cons.prems(2) ir by simp
  show ?case
  proof (cases "a = ToolList ts")
    case True
    have "t \<notin> set ts"
    proof (cases r)
      case ListTools
      with a True p show ?thesis by (auto split: prod.splits mcp_reply.splits)
    qed (use a True Cons.prems(3) [of r s] in \<open>auto split: if_splits\<close>)
    then show ?thesis .
  next
    case False
    with Cons.prems(1) a have "ToolList ts \<in> set (fst (session scopes next_step rs s1))" by (auto simp: ir split_def Let_def)
    then show ?thesis by (rule Cons.IH) (use Cons.prems(2,3) in auto)
  qed
qed simp

text \<open>
  C39: A token without the MCP scope neither sees nor runs finbot's tools. Whatever server is behind
  the middleware and whatever tokens a session's requests carry, the session is the one without the
  calls of finbot's tools whose own token lacks the scope, each of which is answered as an unknown
  tool; and where no token has the scope, no tool of finbot is ever listed.
\<close>

theorem scope_guards_tools:
  fixes next_step :: "mcp_request \<Rightarrow> 's \<Rightarrow> 'r mcp_reply \<times> 's"
  assumes "\<And>m s ts. m \<noteq> ListTools \<Longrightarrow> fst (next_step m s) \<noteq> ToolList ts"
  defines "scoped \<equiv> \<lambda>info. case info of None \<Rightarrow> False | Some i \<Rightarrow> ScopeMCP \<in> set (ti_scopes i)"
    and "ours \<equiv> {''data_freshness'', ''query_transactions'', ''compare_spending''}"
  defines "ok \<equiv> \<lambda>(info, r). \<forall>t \<in> ours. r = CallTool t \<longrightarrow> scoped info"
  shows "session (tool_scopes registry) next_step rs s =
      (let (as, s') = session (tool_scopes registry) next_step (filter ok rs) s in (weave ok rs as, s')) \<and>
    ((\<forall>(info, r) \<in> set rs. \<not> scoped info) \<longrightarrow>
       (\<forall>ts. ToolList ts \<in> set (fst (session (tool_scopes registry) next_step rs s)) \<longrightarrow> set ts \<inter> ours = {}))"
proof -
  have p: "permitted (tool_scopes registry) info t \<longleftrightarrow> scoped info" if "t \<in> ours" for info t
    using that by (auto simp: permitted_def tool_scopes_registry scoped_def ours_def split: option.splits)
  have "allowed (tool_scopes registry) ir = ok ir" for ir
    using p by (cases ir; cases "snd ir") (auto simp: allowed_def ok_def tool_scopes_registry ours_def)
  then have "allowed (tool_scopes registry) = ok" by (simp add: fun_eq_iff)
  moreover have "t \<notin> set ts" if "\<forall>(info, r) \<in> set rs. \<not> scoped info" "t \<in> ours"
      "ToolList ts \<in> set (fst (session (tool_scopes registry) next_step rs s))" for t ts
    by (rule session_lists [OF that(3) _ assms(1)]) (use that p in auto)
  ultimately show ?thesis using session_weave [of "tool_scopes registry" next_step rs s] by auto
qed

definition ex_sdk :: "mcp_request \<Rightarrow> string list \<Rightarrow> unit mcp_reply \<times> string list" where
  "ex_sdk r called = (case r of CallTool t \<Rightarrow> (Reply (), called @ [t]) | ListTools \<Rightarrow> (ToolList (map td_name registry), called)
     | OtherMethod m \<Rightarrow> (Reply (), called))"

lemma scope_guards_tools_witness:
  "session (tool_scopes registry) ex_sdk [(None, CallTool ''data_freshness''), (None, ListTools), (None, CallTool ''ping'')] [] =
     ([RpcError (unknown_tool ''data_freshness''), ToolList [], Reply ()], [''ping''])"
proof -
  have h: "m \<noteq> ListTools \<Longrightarrow> fst (ex_sdk m s) \<noteq> ToolList ts" for m s ts by (cases m) (simp_all add: ex_sdk_def)
  have "session (tool_scopes registry) ex_sdk [(None, ListTools), (None, CallTool ''ping'')] [] = ([ToolList [], Reply ()], [''ping''])"
    by code_simp
  then show ?thesis
    by (subst scope_guards_tools [OF h, THEN conjunct1]) (simp_all add: refused_reply_def)
qed

end
