(* ===== verification/Base64.thy ===== *)
theory Base64
  imports GoText
begin

text \<open>
  Go's \<open>base64.RawStdEncoding\<close> over byte strings, as \<open>backup/turso.go\<close> uses it: three bytes are
  four characters, the rest two or three, without padding; decoding skips line ends and refuses
  every other character outside the alphabet.
\<close>

definition b64_char :: "nat \<Rightarrow> char" where
  "b64_char n =
     (if n < 26 then char_of (65 + n) else if n < 52 then char_of (71 + n) else if n < 62 then char_of (n - 4)
      else if n = 62 then CHR ''+'' else CHR ''/'')"

definition b64_val :: "char \<Rightarrow> nat option" where
  "b64_val c =
     (let n = of_char c :: nat
      in if 65 \<le> n \<and> n \<le> 90 then Some (n - 65) else if 97 \<le> n \<and> n \<le> 122 then Some (n - 71)
         else if 48 \<le> n \<and> n \<le> 57 then Some (n + 4) else if n = 43 then Some 62 else if n = 47 then Some 63 else None)"

lemma b64_val_char [simp]: "n < 64 \<Longrightarrow> b64_val (b64_char n) = Some n"
proof -
  assume "n < 64"
  then have "n < 26 \<or> (26 \<le> n \<and> n < 52) \<or> (52 \<le> n \<and> n < 62) \<or> n = 62 \<or> n = 63" by linarith
  moreover have "of_char (char_of k) = k" if "k < 256" for k :: nat using that by simp
  ultimately show ?thesis by (auto simp: b64_char_def b64_val_def Let_def)
qed

abbreviation byte :: "char \<Rightarrow> nat" where
  "byte c \<equiv> of_char c"

fun b64_encode :: "string \<Rightarrow> string" where
  "b64_encode [] = []"
| "b64_encode [a] = [b64_char (byte a div 4), b64_char (byte a mod 4 * 16)]"
| "b64_encode [a, b] =
     [b64_char (byte a div 4), b64_char (byte a mod 4 * 16 + byte b div 16), b64_char (byte b mod 16 * 4)]"
| "b64_encode (a # b # c # s) =
     b64_char (byte a div 4) # b64_char (byte a mod 4 * 16 + byte b div 16) #
     b64_char (byte b mod 16 * 4 + byte c div 64) # b64_char (byte c mod 64) # b64_encode s"

fun b64_values :: "nat list \<Rightarrow> string option" where
  "b64_values [] = Some []"
| "b64_values [p] = None"
| "b64_values [p, q] = Some [char_of (p * 4 + q div 16)]"
| "b64_values [p, q, r] = Some [char_of (p * 4 + q div 16), char_of (q mod 16 * 16 + r div 4)]"
| "b64_values (p # q # r # t # vs) =
     map_option (\<lambda>s. char_of (p * 4 + q div 16) # char_of (q mod 16 * 16 + r div 4) # char_of (r mod 4 * 64 + t) # s) (b64_values vs)"

definition b64_decode :: "string \<Rightarrow> string option" where
  "b64_decode s =
     Option.bind (those (map b64_val (filter (\<lambda>c. of_char c \<noteq> (10 :: nat) \<and> of_char c \<noteq> (13 :: nat)) s))) b64_values"

definition alphabet :: "string \<Rightarrow> bool" where
  "alphabet s \<longleftrightarrow> (\<forall>c \<in> set s. b64_val c \<noteq> None)"

lemma alphabet_plain: "b64_val c \<noteq> None \<Longrightarrow> of_char c \<noteq> (10 :: nat) \<and> of_char c \<noteq> (13 :: nat) \<and> c \<noteq> CHR ''=''"
  by (auto simp: b64_val_def Let_def)

lemma filter_alphabet: "alphabet s \<Longrightarrow> filter (\<lambda>c. of_char c \<noteq> (10 :: nat) \<and> of_char c \<noteq> (13 :: nat)) s = s"
  using alphabet_plain by (auto simp: alphabet_def intro!: filter_True)

lemma digit_parts: "(y :: nat) < k \<Longrightarrow> (x * k + y) div k = x \<and> (x * k + y) mod k = y"
  by (auto simp: div_mult_self3)

lemma byte_parts:
  "byte a div 4 < 64" "byte a mod 4 * 16 < 64" "byte a mod 4 * 16 + byte b div 16 < 64"
  "byte a mod 16 * 4 < 64" "byte a mod 16 * 4 + byte b div 64 < 64" "byte a mod 64 < 64"
  "byte b div 16 < 16" "byte b div 64 < 4"
proof -
  have "byte a mod 4 \<le> 3" "byte a mod 16 \<le> 15" "byte a div 4 < 64"
    by (simp_all add: less_mult_imp_div_less flip: less_Suc_eq_le)
  moreover show b: "byte b div 16 < 16" "byte b div 64 < 4" by (simp_all add: less_mult_imp_div_less)
  ultimately show "byte a div 4 < 64" "byte a mod 4 * 16 < 64" "byte a mod 4 * 16 + byte b div 16 < 64"
    "byte a mod 16 * 4 < 64" "byte a mod 16 * 4 + byte b div 64 < 64" "byte a mod 64 < 64"
    by simp_all
qed

lemma byte_joins:
  "byte a div 4 * 4 + (byte a mod 4 * 16 + byte b div 16) div 16 = byte a" "byte a div 4 * 4 + (byte a mod 4 * 16) div 16 = byte a"
  "(byte a mod 4 * 16 + byte b div 16) mod 16 * 16 + (byte b mod 16 * 4 + byte c div 64) div 4 = byte b"
  "(byte a mod 4 * 16 + byte b div 16) mod 16 * 16 + (byte b mod 16 * 4) div 4 = byte b"
  "(byte b mod 16 * 4 + byte c div 64) mod 4 * 64 + byte c mod 64 = byte c"
proof -
  note d = digit_parts [OF byte_parts(7) [of b], of "byte a mod 4"] digit_parts [OF byte_parts(8) [of c], of "byte b mod 16"]
    digit_parts [of 0 16 "byte a mod 4", simplified] digit_parts [of 0 4 "byte b mod 16", simplified]
  show "byte a div 4 * 4 + (byte a mod 4 * 16 + byte b div 16) div 16 = byte a" "byte a div 4 * 4 + (byte a mod 4 * 16) div 16 = byte a"
    "(byte a mod 4 * 16 + byte b div 16) mod 16 * 16 + (byte b mod 16 * 4 + byte c div 64) div 4 = byte b"
    "(byte a mod 4 * 16 + byte b div 16) mod 16 * 16 + (byte b mod 16 * 4) div 4 = byte b"
    "(byte b mod 16 * 4 + byte c div 64) mod 4 * 64 + byte c mod 64 = byte c"
    by (simp_all only: d) simp_all
qed

lemma those_Cons: "those (map f (x # xs)) = (case f x of None \<Rightarrow> None | Some y \<Rightarrow> map_option ((#) y) (those (map f xs)))"
  by (simp split: option.split)

lemma values_encode:
  "alphabet (b64_encode s) \<and> (\<exists>vs. those (map b64_val (b64_encode s)) = Some vs \<and> b64_values vs = Some s)"
proof (induction s rule: b64_encode.induct)
  case 1
  show ?case by (simp add: alphabet_def)
next
  case (2 a)
  show ?case by (simp only: b64_encode.simps) (simp add: alphabet_def byte_parts byte_joins)
next
  case (3 a b)
  show ?case by (simp only: b64_encode.simps) (simp add: alphabet_def byte_parts byte_joins)
next
  case (4 a b c s)
  then show ?case by (auto simp: alphabet_def byte_parts byte_joins)
qed

text \<open>What is encoded decodes to itself; the encoding has no padding and no line end.\<close>

lemma b64_decode_encode [simp]: "b64_decode (b64_encode s) = Some s"
  using values_encode [of s] filter_alphabet by (auto simp: b64_decode_def)

lemma b64_encode_alphabet: "alphabet (b64_encode s)"
  using values_encode by blast

end
