(* ===== verification/Turso.thy ===== *)
theory Turso
  imports Base64 GoTime
begin

text \<open>
  \<open>backup/turso.go\<close>: backups as numbered chunks in a Turso database, over Hrana's HTTP pipeline. The
  server is SQL over one table with its streams: a stream holds its open transaction under a baton
  that changes with every answer, and closing or losing it rolls back. What the network and the
  server do to each call is an argument (\<open>call_env\<close>); every lemma holds for all of it.
\<close>

subsection \<open>Errors\<close>

record turso_client =
  tc_endpoint :: string
  tc_token :: string
  tc_secrets :: "string list"

definition errBodyLimit :: nat where
  "errBodyLimit = 200"

definition Turso_scrub :: "turso_client \<Rightarrow> string \<Rightarrow> string" where
  "Turso_scrub t s = fold (\<lambda>secret s. if secret \<noteq> [] then ReplaceAll secret ''<secret>'' s else s) (tc_secrets t) s"

definition errText :: "turso_client \<Rightarrow> string \<Rightarrow> string" where
  "errText t s = (let s' = Turso_scrub t s in if errBodyLimit < length s' then take errBodyLimit s' else s')"

text \<open>\<open>clean\<close>; of a \<open>*url.Error\<close> the argument is its cause.\<close>

definition turso_clean :: "turso_client \<Rightarrow> string \<Rightarrow> error" where
  "turso_clean t m = newError (''turso: '' @ Turso_scrub t m)"

text \<open>
  \<open>NewTurso\<close>. \<open>parse\<close> is \<open>url.Parse\<close>, \<open>userinfo\<close> the URL's user part, and \<open>render\<close> is \<open>u.String()\<close> of the URL
  with the given scheme and without its user, query and fragment.
\<close>

definition NewTurso :: "(string \<Rightarrow> url option) \<Rightarrow> (string \<Rightarrow> string) \<Rightarrow> (string \<Rightarrow> url \<Rightarrow> string) \<Rightarrow> string \<Rightarrow> string \<Rightarrow> turso_client result" where
  "NewTurso parse userinfo render rawURL token =
     (case parse rawURL of
        None \<Rightarrow> Inl (newError ''turso: database URL is not valid'')
      | Some u \<Rightarrow>
          if u_host u = [] then Inl (newError ''turso: database URL is not valid'')
          else if u_scheme u \<notin> {''libsql'', ''https'', ''http''}
          then Inl (newError ''turso: database URL must be libsql://, https:// or http://'')
          else
            (let scheme = (if u_scheme u = ''libsql'' then ''https'' else u_scheme u);
                 secrets = [token, rawURL, u_host u] @ (if u_user u then [userinfo rawURL] else []) @
                   (if u_raw_query u \<noteq> [] then [u_raw_query u] else []);
                 endpoint = TrimRight (render scheme u) ''/'' @ ''/v2/pipeline''
             in Inr \<lparr>tc_endpoint = endpoint, tc_token = token, tc_secrets = secrets @ [endpoint]\<rparr>))"

subsection \<open>Values\<close>

text \<open>A value of the answer's JSON: its \<open>value\<close> when that is a string, and its \<open>base64\<close>.\<close>

record hvalue =
  hv_text :: "string option"
  hv_base64 :: "string option"

definition value_text :: "hvalue \<Rightarrow> string" where
  "value_text v = (case hv_text v of None \<Rightarrow> [] | Some s \<Rightarrow> s)"

definition value_integer :: "hvalue \<Rightarrow> int64 result" where
  "value_integer v = (case ParseInt64 (value_text v) of None \<Rightarrow> Inl (newError ''response has a malformed integer'') | Some n \<Rightarrow> Inr n)"

definition value_blob :: "hvalue \<Rightarrow> string result" where
  "value_blob v =
     (case hv_base64 v of
        None \<Rightarrow> Inr []
      | Some b \<Rightarrow> (case b64_decode (TrimRight b ''='') of
                     None \<Rightarrow> Inl (newError ''response has a malformed blob'')
                   | Some data \<Rightarrow> Inr data))"

subsection \<open>The server\<close>

record chunk_row =
  cr_created_at :: string
  cr_size :: int64
  cr_sha256 :: string
  cr_data :: string

type_synonym chunks = "(string \<times> nat, chunk_row) tbl"

text \<open>The statements the client sends, with their arguments.\<close>

datatype turso_stmt =
    CreateTable
  | BeginImmediate
  | CommitTx
  | InsertChunk string string int64 string nat string
  | SelectInfos
  | SelectData string nat
  | DeleteOld int

text \<open>What the environment does to one call.\<close>

datatype reply_fault = Received | NetFailed string | BadStatus nat string | TooLarge | NotJSON | WrongCount nat

record call_env =
  ce_unsent :: bool
  ce_expired :: bool
  ce_stmt :: "nat \<Rightarrow> string option option"
  ce_dropped :: bool
  ce_baton :: string
  ce_reply :: reply_fault
  ce_null_blob :: bool
  ce_padding :: nat

definition text_value :: "string \<Rightarrow> hvalue" where
  "text_value s = \<lparr>hv_text = Some s, hv_base64 = None\<rparr>"

definition integer_value :: "int \<Rightarrow> hvalue" where
  "integer_value n = text_value (dec_int n)"

text \<open>A blob comes back with or without padding; an empty one can come back as null.\<close>

definition blob_value :: "call_env \<Rightarrow> string \<Rightarrow> hvalue" where
  "blob_value ce d = \<lparr>hv_text = None, hv_base64 =
     (if d = [] \<and> ce_null_blob ce then None else Some (b64_encode d @ replicate (ce_padding ce) CHR ''=''))\<rparr>"

text \<open>\<open>SELECT id, MAX(created_at), MAX(size), MAX(sha256), COUNT(*) ... GROUP BY id ORDER BY MAX(created_at) DESC, id DESC\<close>.\<close>

definition group_of :: "chunks \<Rightarrow> string \<Rightarrow> chunk_row list" where
  "group_of t key = map snd (filter (\<lambda>((k, _), _). k = key) t)"

definition created_of :: "chunks \<Rightarrow> string \<Rightarrow> string" where
  "created_of t key = Max (set (map cr_created_at (group_of t key)))"

definition newest_first :: "chunks \<Rightarrow> string list" where
  "newest_first t = rev (sort_key (\<lambda>key. (created_of t key, key)) (remdups (map (fst \<circ> fst) t)))"

definition info_row :: "chunks \<Rightarrow> string \<Rightarrow> hvalue list" where
  "info_row t key =
     (let g = group_of t key
      in [text_value key, text_value (created_of t key), integer_value (Max (set (map (sint \<circ> cr_size) g))),
          text_value (Max (set (map cr_sha256 g))), integer_value (int (length g))])"

definition sql_limit :: "int \<Rightarrow> 'a list \<Rightarrow> 'a list" where
  "sql_limit k xs = (if k < 0 then xs else take (nat k) xs)"

definition no_table :: string where
  "no_table = ''no such table: backups''"

text \<open>A statement on the table (\<open>None\<close>: not created yet), its rows or the server's error text.\<close>

fun run_stmt :: "call_env \<Rightarrow> turso_stmt \<Rightarrow> chunks option \<Rightarrow> (string option + hvalue list list) \<times> chunks option" where
  "run_stmt ce CreateTable t = (Inr [], Some (case t of None \<Rightarrow> [] | Some x \<Rightarrow> x))"
| "run_stmt ce (InsertChunk key created sz sha i d) (Some t) =
     (if tbl_get t (key, i) \<noteq> None then (Inl (Some ''UNIQUE constraint failed''), Some t)
      else (Inr [], Some (t @ [((key, i), \<lparr>cr_created_at = created, cr_size = sz, cr_sha256 = sha, cr_data = d\<rparr>)])))"
| "run_stmt ce SelectInfos (Some t) = (Inr (map (info_row t) (newest_first t)), Some t)"
| "run_stmt ce (SelectData key i) (Some t) =
     (Inr (case tbl_get t (key, i) of None \<Rightarrow> [] | Some r \<Rightarrow> [[blob_value ce (cr_data r)]]), Some t)"
| "run_stmt ce (DeleteOld keep) (Some t) =
     (Inr [], Some (tbl_delete (\<lambda>(key, _) _. key \<notin> set (sql_limit keep (newest_first t))) t))"
| "run_stmt ce _ t = (Inl (Some no_table), t)"

text \<open>
  A statement of a stream: the committed table and the stream's open transaction. A transaction holds
  the write lock from its \<open>BEGIN IMMEDIATE\<close>, so \<open>locked\<close> says another stream has one.
\<close>

fun writes :: "turso_stmt \<Rightarrow> bool" where
  "writes SelectInfos = False"
| "writes (SelectData key i) = False"
| "writes s = True"

definition exec_stmt ::
    "call_env \<Rightarrow> bool \<Rightarrow> turso_stmt \<Rightarrow> chunks option \<times> chunks option option \<Rightarrow>
     (string option + hvalue list list) \<times> (chunks option \<times> chunks option option)" where
  "exec_stmt ce locked s st =
     (case st of
        (d, None) \<Rightarrow>
          (if s = CommitTx then (Inl (Some ''cannot commit - no transaction is active''), st)
           else if locked \<and> writes s then (Inl (Some ''database is locked''), st)
           else if s = BeginImmediate then (Inr [], (d, Some d))
           else (case run_stmt ce s d of (r, d') \<Rightarrow> (r, (d', None))))
      | (d, Some w) \<Rightarrow>
          (if s = CommitTx then (Inr [], (w, None))
           else if s = BeginImmediate then (Inl (Some ''cannot start a transaction within a transaction''), st)
           else (case run_stmt ce s w of (r, w') \<Rightarrow> (r, (d, Some w')))))"

text \<open>The server runs every statement of a request, even after one failed.\<close>

fun run_stmts ::
    "call_env \<Rightarrow> bool \<Rightarrow> nat \<Rightarrow> turso_stmt list \<Rightarrow> chunks option \<times> chunks option option \<Rightarrow>
     (string option + hvalue list list) list \<times> (chunks option \<times> chunks option option)" where
  "run_stmts ce locked i [] st = ([], st)"
| "run_stmts ce locked i (s # ss) st =
     (case ce_stmt ce i of
        Some m \<Rightarrow> (case run_stmts ce locked (Suc i) ss st of (rs, st2) \<Rightarrow> (Inl m # rs, st2))
      | None \<Rightarrow>
          (case exec_stmt ce locked s st of
             (r, st1) \<Rightarrow> (case run_stmts ce locked (Suc i) ss st1 of (rs, st2) \<Rightarrow> (r # rs, st2))))"

record turso_db =
  td_table :: "chunks option"
  td_streams :: "(string, chunks option option) tbl"

text \<open>
  One request: the results and the next baton, or \<open>None\<close> when it was not run (it never arrived, or its
  baton names no stream).
\<close>

definition serve ::
    "call_env \<Rightarrow> string option \<Rightarrow> bool \<Rightarrow> turso_stmt list \<Rightarrow> turso_db \<Rightarrow>
     ((string option + hvalue list list) list \<times> string option) option \<times> turso_db" where
  "serve ce baton close stmts db =
     (if ce_unsent ce then (None, db)
      else
        (let streams = (if ce_expired ce then [] else td_streams db);
             others = tbl_delete (\<lambda>b _. Some b = baton) streams;
             locked = list_ex (\<lambda>(_, tx). tx \<noteq> None) others
         in case (case baton of None \<Rightarrow> Some None | Some b \<Rightarrow> tbl_get streams b) of
              None \<Rightarrow> (None, db\<lparr>td_streams := streams\<rparr>)
            | Some tx \<Rightarrow>
                (case run_stmts ce locked 0 stmts (td_table db, tx) of
                   (rs, (d, tx')) \<Rightarrow>
                     (if close \<or> ce_dropped ce then (Some (rs, None), \<lparr>td_table = d, td_streams = others\<rparr>)
                      else (Some (rs, Some (ce_baton ce)),
                            \<lparr>td_table = d, td_streams = (ce_baton ce, tx') # tbl_delete (\<lambda>b _. b = ce_baton ce) others\<rparr>)))))"

subsection \<open>The client's calls\<close>

fun first_error :: "('e + 'a) list \<Rightarrow> 'e option" where
  "first_error [] = None"
| "first_error (Inl m # rs) = Some m"
| "first_error (Inr _ # rs) = first_error rs"

fun oks :: "('e + 'a) list \<Rightarrow> 'a list" where
  "oks [] = []"
| "oks (Inl m # rs) = oks rs"
| "oks (Inr x # rs) = x # oks rs"

text \<open>\<open>pipeline\<close>: the rows of each statement or an error, and the latest known baton.\<close>

definition pipeline ::
    "call_env \<Rightarrow> turso_client \<Rightarrow> string option \<Rightarrow> bool \<Rightarrow> turso_stmt list \<Rightarrow> turso_db \<Rightarrow>
     (hvalue list list list result \<times> string option) \<times> turso_db" where
  "pipeline ce t baton close stmts db =
     (let n = length stmts + (if close then 1 else 0);
          status = (\<lambda>code text. turso_clean t (''status '' @ dec code @ '': '' @ errText t text))
      in case serve ce baton close stmts db of
           (None, db') \<Rightarrow>
             ((Inl (case ce_reply ce of NetFailed m \<Rightarrow> turso_clean t m | BadStatus code text \<Rightarrow> status code text
                    | _ \<Rightarrow> status 400 []), baton), db')
         | (Some (results, baton'), db') \<Rightarrow>
             ((case ce_reply ce of
                 NetFailed m \<Rightarrow> (Inl (turso_clean t m), baton)
               | BadStatus code text \<Rightarrow> (Inl (status code text), baton)
               | TooLarge \<Rightarrow> (Inl (turso_clean t ''response is too large''), baton)
               | NotJSON \<Rightarrow> (Inl (turso_clean t ''response is not valid JSON''), baton)
               | WrongCount k \<Rightarrow> (Inl (turso_clean t (''got '' @ dec k @ '' results for '' @ dec n @ '' requests'')), baton')
               | Received \<Rightarrow>
                   (case first_error results of
                      Some m \<Rightarrow> (Inl (turso_clean t (case m of None \<Rightarrow> ''request failed'' | Some x \<Rightarrow> errText t x)), baton')
                    | None \<Rightarrow> (Inr (oks results), baton'))), db'))"

end
