(* ===== verification/TursoStore.thy ===== *)
theory TursoStore
  imports Turso
begin

text \<open>
  The operations of \<open>backup/turso.go\<close> on the server of \<open>Turso\<close>: \<open>Put\<close>, \<open>List\<close>, \<open>Fetch\<close> and \<open>Prune\<close>. A world is
  the server with the number of calls made so far; \<open>env k\<close> is what happens to the \<open>k\<close>-th call.
\<close>

subsection \<open>Operations\<close>

record backup_info =
  bi_id :: string
  bi_created_at :: string
  bi_size :: int64
  bi_sha256 :: string
  bi_chunks :: int64

record turso_world =
  tw_db :: turso_db
  tw_calls :: nat

definition turso_call ::
    "(nat \<Rightarrow> call_env) \<Rightarrow> turso_client \<Rightarrow> string option \<Rightarrow> bool \<Rightarrow> turso_stmt list \<Rightarrow> turso_world \<Rightarrow>
     (hvalue list list list result \<times> string option) \<times> turso_world" where
  "turso_call env t baton close stmts w =
     (case pipeline (env (tw_calls w)) t baton close stmts (tw_db w) of
        (r, db) \<Rightarrow> (r, \<lparr>tw_db = db, tw_calls = Suc (tw_calls w)\<rparr>))"

definition turso_exec :: "(nat \<Rightarrow> call_env) \<Rightarrow> turso_client \<Rightarrow> turso_stmt list \<Rightarrow> turso_world \<Rightarrow> hvalue list list list result \<times> turso_world" where
  "turso_exec env t stmts w = (case turso_call env t None True stmts w of ((r, _), w') \<Rightarrow> (r, w'))"

definition requireStream :: "turso_client \<Rightarrow> string option \<Rightarrow> error option" where
  "requireStream t baton =
     (if baton = None \<or> baton = Some [] then Some (turso_clean t ''stream closed during the transaction'') else None)"

text \<open>
  \<open>eachChunk\<close> over a reader that yields \<open>bs\<close> and then ends (\<open>fault = None\<close>) or fails. \<open>io.ReadFull\<close> of a short
  rest is \<open>ErrUnexpectedEOF\<close>, of no rest \<open>EOF\<close>; a chunk size of 0 never reads to the end.
\<close>

partial_function (option) eachChunk ::
    "error option \<Rightarrow> nat \<Rightarrow> (nat \<Rightarrow> string \<Rightarrow> 's \<Rightarrow> error option \<times> 's) \<Rightarrow> nat \<Rightarrow> string \<Rightarrow> 's \<Rightarrow> ((nat \<times> error option) \<times> 's) option" where
  "eachChunk fault sz fn n bs s =
     (if sz \<le> length bs then
        (case fn n (take sz bs) s of
           (Some e, s') \<Rightarrow> Some ((n, Some e), s')
         | (None, s') \<Rightarrow> eachChunk fault sz fn (Suc n) (drop sz bs) s')
      else
        (case fault of
           Some e \<Rightarrow> Some ((n, Some e), s)
         | None \<Rightarrow>
             if bs = [] then
               (if 0 < n then Some ((n, None), s)
                else (case fn 0 [] s of
                        (Some e, s') \<Rightarrow> Some ((0, Some e), s')
                      | (None, s') \<Rightarrow> Some ((1, None), s')))
             else
               (case fn n bs s of
                  (Some e, s') \<Rightarrow> Some ((n, Some e), s')
                | (None, s') \<Rightarrow> Some ((Suc n, None), s'))))"

definition put_chunk ::
    "(nat \<Rightarrow> call_env) \<Rightarrow> turso_client \<Rightarrow> backup_info \<Rightarrow> nat \<Rightarrow> string \<Rightarrow> string option \<times> turso_world \<Rightarrow> error option \<times> string option \<times> turso_world" where
  "put_chunk env t info i chunk s =
     (case s of (baton, w) \<Rightarrow>
       (case turso_call env t baton False
               [InsertChunk (bi_id info) (bi_created_at info) (bi_size info) (bi_sha256 info) i chunk] w of
          ((Inl e, baton'), w') \<Rightarrow> (Some e, (baton', w'))
        | ((Inr _, baton'), w') \<Rightarrow> (requireStream t baton', (baton', w'))))"

text \<open>The deferred function of \<open>Put\<close>.\<close>

definition put_cleanup :: "(nat \<Rightarrow> call_env) \<Rightarrow> turso_client \<Rightarrow> bool \<Rightarrow> string option \<Rightarrow> turso_world \<Rightarrow> turso_world" where
  "put_cleanup env t was_committed baton w =
     (if was_committed \<or> baton = None then w else snd (turso_call env t baton True [] w))"

record reader =
  rd_bytes :: string
  rd_fault :: "error option"

text \<open>The chunks and the \<open>COMMIT\<close>, on the open stream \<open>b\<close>.\<close>

definition put_stream ::
    "(nat \<Rightarrow> call_env) \<Rightarrow> turso_client \<Rightarrow> backup_info \<Rightarrow> reader \<Rightarrow> nat \<Rightarrow> string option \<Rightarrow> turso_world \<Rightarrow> (nat result \<times> turso_world) option" where
  "put_stream env t info rd sz b w =
     (case eachChunk (rd_fault rd) sz (put_chunk env t info) 0 (rd_bytes rd) (b, w) of
        None \<Rightarrow> None
      | Some ((n, Some e), (b, w)) \<Rightarrow> Some (Inl e, put_cleanup env t False b w)
      | Some ((n, None), (b, w)) \<Rightarrow>
          (case turso_call env t b True [CommitTx] w of
             ((Inl e, b), w) \<Rightarrow> Some (Inl e, put_cleanup env t False b w)
           | ((Inr _, b), w) \<Rightarrow> Some (Inr n, put_cleanup env t True b w)))"

definition Turso_Put ::
    "(nat \<Rightarrow> call_env) \<Rightarrow> turso_client \<Rightarrow> backup_info \<Rightarrow> reader \<Rightarrow> nat \<Rightarrow> turso_world \<Rightarrow> (nat result \<times> turso_world) option" where
  "Turso_Put env t info rd sz w =
     (case turso_exec env t [CreateTable] w of
        (Inl e, w1) \<Rightarrow> Some (Inl e, w1)
      | (Inr _, w1) \<Rightarrow>
          (case turso_call env t None False [BeginImmediate] w1 of
             ((Inl e, b), w2) \<Rightarrow> Some (Inl e, put_cleanup env t False b w2)
           | ((Inr _, b), w2) \<Rightarrow>
               (case requireStream t b of
                  Some e \<Rightarrow> Some (Inl e, put_cleanup env t False b w2)
                | None \<Rightarrow> put_stream env t info rd sz b w2)))"

definition info_of_row :: "turso_client \<Rightarrow> hvalue list \<Rightarrow> backup_info result" where
  "info_of_row t row =
     (if length row \<noteq> 5 then Inl (turso_clean t ''list: unexpected columns'')
      else (case value_integer (row ! 2) of
              Inl e \<Rightarrow> Inl (turso_clean t (err_msg e))
            | Inr sz \<Rightarrow>
                (case value_integer (row ! 4) of
                   Inl e \<Rightarrow> Inl (turso_clean t (err_msg e))
                 | Inr n \<Rightarrow> Inr \<lparr>bi_id = value_text (row ! 0), bi_created_at = value_text (row ! 1), bi_size = sz,
                                 bi_sha256 = value_text (row ! 3), bi_chunks = n\<rparr>)))"

definition Turso_List :: "(nat \<Rightarrow> call_env) \<Rightarrow> turso_client \<Rightarrow> turso_world \<Rightarrow> backup_info list result \<times> turso_world" where
  "Turso_List env t w =
     (case turso_exec env t [CreateTable, SelectInfos] w of
        (Inl e, w') \<Rightarrow> (Inl e, w')
      | (Inr rows, w') \<Rightarrow> (collect (info_of_row t) (rows ! 1), w'))"

text \<open>\<open>Fetch\<close>; \<open>wfault i\<close> is the writer's answer to chunk \<open>i\<close>, and the string is what was written.\<close>

fun fetch_from ::
    "(nat \<Rightarrow> call_env) \<Rightarrow> turso_client \<Rightarrow> backup_info \<Rightarrow> (nat \<Rightarrow> error option) \<Rightarrow> nat \<Rightarrow> nat \<Rightarrow> string \<Rightarrow> turso_world \<Rightarrow>
     (error option \<times> string) \<times> turso_world" where
  "fetch_from env t info wfault i 0 out w = ((None, out), w)"
| "fetch_from env t info wfault i (Suc k) out w =
     (case turso_exec env t [SelectData (bi_id info) i] w of
        (Inl e, w') \<Rightarrow> ((Some e, out), w')
      | (Inr rows, w') \<Rightarrow>
          if length (rows ! 0) \<noteq> 1 \<or> length (rows ! 0 ! 0) \<noteq> 1
          then ((Some (turso_clean t (''backup '' @ bi_id info @ '': chunk '' @ dec i @ '' is missing'')), out), w')
          else
            (case value_blob (rows ! 0 ! 0 ! 0) of
               Inl e \<Rightarrow> ((Some (turso_clean t (err_msg e)), out), w')
             | Inr data \<Rightarrow>
                 (case wfault i of
                    Some e \<Rightarrow> ((Some (wrapError (''backup '' @ bi_id info @ '': write chunk '' @ dec i) e), out), w')
                  | None \<Rightarrow> fetch_from env t info wfault (Suc i) k (out @ data) w')))"

definition Turso_Fetch ::
    "(nat \<Rightarrow> call_env) \<Rightarrow> turso_client \<Rightarrow> backup_info \<Rightarrow> (nat \<Rightarrow> error option) \<Rightarrow> turso_world \<Rightarrow> (error option \<times> string) \<times> turso_world" where
  "Turso_Fetch env t info wfault w = fetch_from env t info wfault 0 (nat (sint (bi_chunks info))) [] w"

definition Turso_Prune :: "(nat \<Rightarrow> call_env) \<Rightarrow> turso_client \<Rightarrow> int \<Rightarrow> turso_world \<Rightarrow> error option \<times> turso_world" where
  "Turso_Prune env t keep w =
     (case turso_exec env t [DeleteOld keep] w of
        (Inl e, w') \<Rightarrow> (Some e, w')
      | (Inr _, w') \<Rightarrow> (None, w'))"

subsection \<open>\<open>eachChunk\<close> cuts the whole input\<close>

function pieces :: "nat \<Rightarrow> string \<Rightarrow> string list" where
  "pieces sz bs = (if sz = 0 \<or> bs = [] then [] else take sz bs # pieces sz (drop sz bs))"
  by pat_completeness auto
termination by (relation "measure (\<lambda>(_, bs). length bs)") auto

declare pieces.simps [simp del]

definition chunks_of :: "nat \<Rightarrow> string \<Rightarrow> string list" where
  "chunks_of sz bs = (if bs = [] then [[]] else pieces sz bs)"

fun run_chunks :: "(nat \<Rightarrow> string \<Rightarrow> 's \<Rightarrow> error option \<times> 's) \<Rightarrow> nat \<Rightarrow> string list \<Rightarrow> 's \<Rightarrow> (nat \<times> error option) \<times> 's" where
  "run_chunks fn n [] s = ((n, None), s)"
| "run_chunks fn n (c # cs) s =
     (case fn n c s of
        (Some e, s') \<Rightarrow> ((n, Some e), s')
      | (None, s') \<Rightarrow> run_chunks fn (Suc n) cs s')"

lemma concat_pieces: "0 < sz \<Longrightarrow> concat (pieces sz bs) = bs"
  by (induction sz bs rule: pieces.induct) (subst pieces.simps, auto)

lemma concat_chunks_of: "0 < sz \<Longrightarrow> concat (chunks_of sz bs) = bs"
  by (simp add: chunks_of_def concat_pieces)

lemma chunks_of_not_Nil: "0 < sz \<Longrightarrow> chunks_of sz bs \<noteq> []"
  by (simp add: chunks_of_def pieces.simps [of sz bs])

lemma length_pieces: "0 < sz \<Longrightarrow> length (pieces sz bs) \<le> length bs"
proof (induction sz bs rule: pieces.induct)
  case (1 sz bs)
  show ?case
  proof (cases "bs = []")
    case False
    then have "length (pieces sz (drop sz bs)) \<le> length bs - sz" using 1 by simp
    with False 1(2) show ?thesis by (subst pieces.simps) (cases bs, auto)
  qed (simp add: pieces.simps)
qed

lemma piece_size: "c \<in> set (pieces sz bs) \<Longrightarrow> length c \<le> sz"
  by (induction sz bs rule: pieces.induct) (subst (asm) pieces.simps, auto split: if_splits)

text \<open>The loop ends for every positive size, and passes each piece once, in order.\<close>

lemma eachChunk_runs:
  assumes "0 < sz"
  shows "eachChunk None sz fn n bs s = Some (run_chunks fn n (if n = 0 then chunks_of sz bs else pieces sz bs) s)"
  using assms
proof (induction sz bs arbitrary: n s rule: pieces.induct)
  case (1 sz bs)
  note e = eachChunk.simps [of None sz fn n bs s]
  consider (full) "sz \<le> length bs" | (rest) "\<not> sz \<le> length bs" "bs \<noteq> []" | (none) "bs = []" by blast
  then show ?case
  proof cases
    case full
    with "1.prems" have p: "bs \<noteq> []" "pieces sz bs = take sz bs # pieces sz (drop sz bs)"
      by (auto simp: pieces.simps [of sz bs])
    with full "1.IH" "1.prems" show ?thesis by (subst e) (auto simp: chunks_of_def split: prod.split option.split)
  next
    case rest
    with "1.prems" have p: "pieces sz bs = [bs]" by (simp add: pieces.simps [of sz bs] pieces.simps [of sz "[]"])
    with rest show ?thesis by (subst e) (auto simp: chunks_of_def split: prod.split option.split)
  next
    case none
    with "1.prems" show ?thesis
      by (subst e) (auto simp: chunks_of_def pieces.simps split: prod.split option.split)
  qed
qed

text \<open>A reader that fails gives the callback the full pieces before the failure, and the loop fails.\<close>

lemma eachChunk_fails:
  assumes "0 < sz"
  shows "eachChunk (Some x) sz fn n bs s =
    Some (case run_chunks fn n (filter (\<lambda>c. length c = sz) (pieces sz bs)) s of
            ((m, None), s') \<Rightarrow> ((m, Some x), s') | r \<Rightarrow> r)"
  using assms
proof (induction sz bs arbitrary: n s rule: pieces.induct)
  case (1 sz bs)
  note e = eachChunk.simps [of "Some x" sz fn n bs s]
  show ?case
  proof (cases "sz \<le> length bs")
    case True
    with "1.prems" have p: "bs \<noteq> []" "pieces sz bs = take sz bs # pieces sz (drop sz bs)"
      by (auto simp: pieces.simps [of sz bs])
    with True "1.IH" "1.prems" show ?thesis by (subst e) (auto split: prod.split option.split)
  next
    case False
    then have "filter (\<lambda>c. length c = sz) (pieces sz bs) = []"
      by (auto simp: pieces.simps [of sz bs] pieces.simps [of sz "[]"])
    with False show ?thesis by (subst e) simp
  qed
qed

end
