(* ===== verification/TursoFacts.thy ===== *)
theory TursoFacts
  imports TursoStore
begin

text \<open>
  What the operations of \<open>TursoStore\<close> do to the stored backups, whatever the network does: the table is
  read as a list of backups, each with its chunks, and each operation is its abstract counterpart.
\<close>

subsection \<open>One call\<close>

abbreviation world_table :: "turso_world \<Rightarrow> chunks option" where
  "world_table w \<equiv> td_table (tw_db w)"

definition stream_tx :: "turso_world \<Rightarrow> string option \<Rightarrow> chunks option option \<Rightarrow> bool" where
  "stream_tx w b tx \<longleftrightarrow> (case b of None \<Rightarrow> tx = None | Some x \<Rightarrow> tbl_get (td_streams (tw_db w)) x = Some tx)"

lemma first_error_None: "first_error rs = None \<Longrightarrow> rs = map Inr (oks rs)"
  by (induction rs rule: first_error.induct) auto

lemma stream_lookup:
  "(case b of None \<Rightarrow> Some None | Some x \<Rightarrow> tbl_get (if k then [] else td_streams (tw_db w)) x) = Some tx \<Longrightarrow> stream_tx w b tx"
  by (auto simp: stream_tx_def split: option.splits if_splits)

lemma run_stmts_one:
  "run_stmts ce l 0 [s] st = (rs, st') \<Longrightarrow>
     (case ce_stmt ce 0 of Some m \<Rightarrow> rs = [Inl m] \<and> st' = st | None \<Rightarrow> \<exists>r. rs = [r] \<and> exec_stmt ce l s st = (r, st'))"
  by (auto split: option.splits prod.splits)

text \<open>A call the server ran: on which stream, and what it left.\<close>

lemma serve_ran:
  assumes "serve ce b c ss (tw_db w) = (Some (rs, b'), db')"
  obtains tx l d tx' where "stream_tx w b tx" "run_stmts ce l 0 ss (world_table w, tx) = (rs, (d, tx'))" "td_table db' = d"
    "\<forall>x. b' = Some x \<longrightarrow> tbl_get (td_streams db') x = Some tx'" "c \<longrightarrow> b' = None"
proof -
  define strs where "strs = (if ce_expired ce then [] else td_streams (tw_db w))"
  define others where "others = tbl_delete (\<lambda>b' _. Some b' = b) strs"
  define l where "l = list_ex (\<lambda>(_, tx). tx \<noteq> None) others"
  obtain tx where t: "(case b of None \<Rightarrow> Some None | Some x \<Rightarrow> tbl_get strs x) = Some tx"
    using assms by (auto simp: serve_def Let_def strs_def split: if_splits option.splits)
  obtain d tx' where r: "run_stmts ce l 0 ss (world_table w, tx) = (rs, (d, tx'))" and d: "td_table db' = d"
    and b: "\<forall>x. b' = Some x \<longrightarrow> tbl_get (td_streams db') x = Some tx'" "c \<longrightarrow> b' = None"
    using assms t
    by (auto simp: serve_def Let_def l_def others_def strs_def [symmetric] split: if_splits prod.splits)
  show ?thesis by (rule that [OF _ r d b]) (use t strs_def stream_lookup in auto)
qed

lemma serve_not_run: "serve ce b c ss db = (None, db') \<Longrightarrow> td_table db' = td_table db"
  by (auto simp: serve_def Let_def split: if_splits option.splits prod.splits)

lemma call_ok:
  assumes "turso_call env t b c ss w = ((Inr rows, b'), w')"
  obtains tx l tx' where "stream_tx w b tx"
    "run_stmts (env (tw_calls w)) l 0 ss (world_table w, tx) = (map Inr rows, (world_table w', tx'))"
    "b' \<noteq> None \<longrightarrow> stream_tx w' b' tx'" "c \<longrightarrow> b' = None"
proof -
  obtain rs db' where s: "serve (env (tw_calls w)) b c ss (tw_db w) = (Some (rs, b'), db')"
    and r: "first_error rs = None" "rows = oks rs" "w' = \<lparr>tw_db = db', tw_calls = Suc (tw_calls w)\<rparr>"
    using assms by (auto simp: turso_call_def pipeline_def Let_def split: prod.splits option.splits reply_fault.splits)
  obtain tx l d tx' where "stream_tx w b tx" "run_stmts (env (tw_calls w)) l 0 ss (world_table w, tx) = (rs, (d, tx'))"
    "td_table db' = d" "\<forall>x. b' = Some x \<longrightarrow> tbl_get (td_streams db') x = Some tx'" "c \<longrightarrow> b' = None"
    by (rule serve_ran [OF s])
  with r first_error_None [OF r(1)] show ?thesis by (intro that [of tx l tx']) (auto simp: stream_tx_def)
qed

lemma call_table:
  assumes "turso_call env t b c ss w = (r, w')"
  obtains "world_table w' = world_table w"
  | tx l rs tx' where "stream_tx w b tx" "run_stmts (env (tw_calls w)) l 0 ss (world_table w, tx) = (rs, (world_table w', tx'))"
proof (cases "serve (env (tw_calls w)) b c ss (tw_db w)")
  case (Pair a db')
  have w': "w' = \<lparr>tw_db = db', tw_calls = Suc (tw_calls w)\<rparr>"
    using assms Pair by (auto simp: turso_call_def pipeline_def Let_def split: prod.splits option.splits reply_fault.splits)
  show ?thesis
  proof (cases a)
    case None
    with Pair have "td_table db' = td_table (tw_db w)" using serve_not_run by blast
    with w' show ?thesis by (intro that(1)) simp
  next
    case (Some x)
    obtain rs b' where "x = (rs, b')" by fastforce
    with Pair Some have s: "serve (env (tw_calls w)) b c ss (tw_db w) = (Some (rs, b'), db')" by simp
    show ?thesis by (rule serve_ran [OF s], rule that(2)) (auto simp: w')
  qed
qed

text \<open>The same for one statement.\<close>

lemma call_ok_one:
  assumes "turso_call env t b c [s] w = ((Inr rows, b'), w')"
  obtains tx l tx' r where "stream_tx w b tx" "rows = [r]"
    "exec_stmt (env (tw_calls w)) l s (world_table w, tx) = (Inr r, (world_table w', tx'))"
    "b' \<noteq> None \<longrightarrow> stream_tx w' b' tx'" "c \<longrightarrow> b' = None"
proof -
  obtain tx l tx' where a: "stream_tx w b tx"
    "run_stmts (env (tw_calls w)) l 0 [s] (world_table w, tx) = (map Inr rows, (world_table w', tx'))"
    "b' \<noteq> None \<longrightarrow> stream_tx w' b' tx'" "c \<longrightarrow> b' = None" by (rule call_ok [OF assms])
  from run_stmts_one [OF a(2)] have "\<exists>r. rows = [r] \<and> exec_stmt (env (tw_calls w)) l s (world_table w, tx) = (Inr r, (world_table w', tx'))"
    by (cases rows) (auto split: option.splits)
  with a that show ?thesis by blast
qed

lemma call_table_one:
  assumes "turso_call env t b c [s] w = (r, w')"
  obtains "world_table w' = world_table w"
  | tx l x tx' where "stream_tx w b tx" "exec_stmt (env (tw_calls w)) l s (world_table w, tx) = (x, (world_table w', tx'))"
proof (rule call_table [OF assms])
  fix tx l rs tx'
  assume a: "stream_tx w b tx" "run_stmts (env (tw_calls w)) l 0 [s] (world_table w, tx) = (rs, (world_table w', tx'))"
  from run_stmts_one [OF a(2)] consider "world_table w' = world_table w"
    | x where "exec_stmt (env (tw_calls w)) l s (world_table w, tx) = (x, (world_table w', tx'))"
    by (auto split: option.splits)
  then show ?thesis using that a(1) by cases blast+
qed (rule that(1))

lemma call_table_none: "world_table (snd (turso_call env t b c [] w)) = world_table w"
proof (cases "turso_call env t b c [] w")
  case (Pair r w')
  show ?thesis by (rule call_table [OF Pair]) (auto simp: Pair)
qed

lemma put_cleanup_table [simp]: "world_table (put_cleanup env t k b w) = world_table w"
  by (simp add: put_cleanup_def call_table_none)

subsection \<open>\<open>Put\<close> is all or nothing\<close>

definition rows_of :: "chunks option \<Rightarrow> chunks" where
  "rows_of d = (case d of None \<Rightarrow> [] | Some t \<Rightarrow> t)"

lemma rows_of_simps [simp]: "rows_of (Some t) = t" "rows_of None = []"
  by (simp_all add: rows_of_def)

text \<open>The rows of a backup's chunks, from number \<open>i\<close> on.\<close>

fun chunk_rows :: "backup_info \<Rightarrow> nat \<Rightarrow> string list \<Rightarrow> chunks" where
  "chunk_rows info i [] = []"
| "chunk_rows info i (c # cs) =
     ((bi_id info, i), \<lparr>cr_created_at = bi_created_at info, cr_size = bi_size info, cr_sha256 = bi_sha256 info, cr_data = c\<rparr>)
     # chunk_rows info (Suc i) cs"

definition put_open :: "chunks \<Rightarrow> chunks \<Rightarrow> string option \<times> turso_world \<Rightarrow> bool" where
  "put_open t0 rs s \<longleftrightarrow> world_table (snd s) = Some t0 \<and> stream_tx (snd s) (fst s) (Some (Some (t0 @ rs)))"

lemma stream_tx_fun: "stream_tx w b x \<Longrightarrow> stream_tx w b y \<Longrightarrow> x = y"
  by (auto simp: stream_tx_def split: option.splits)

lemma requireStream_None: "requireStream t b = None \<Longrightarrow> \<exists>x. b = Some x"
  by (auto simp: requireStream_def split: if_splits)

lemma put_chunk_open:
  assumes "put_open t0 rs s" and "put_chunk env t info i c s = (x, s')"
  shows "world_table (snd s') = Some t0" and "x = None \<Longrightarrow> put_open t0 (rs @ chunk_rows info i [c]) s'"
proof -
  obtain b w where s: "s = (b, w)" by fastforce
  let ?ins = "InsertChunk (bi_id info) (bi_created_at info) (bi_size info) (bi_sha256 info) i c"
  obtain r b' w' where c: "turso_call env t b False [?ins] w = ((r, b'), w')" by (metis prod.collapse)
  have o: "world_table w = Some t0" "stream_tx w b (Some (Some (t0 @ rs)))" using assms(1) by (simp_all add: put_open_def s)
  have s': "snd s' = w'" using assms(2) c by (auto simp: put_chunk_def s split: sum.splits)
  show "world_table (snd s') = Some t0"
    using o stream_tx_fun [OF o(2)]
    by (rule_tac call_table_one [OF c]) (auto simp: s' exec_stmt_def split: prod.splits if_splits option.splits)
  assume "x = None"
  with assms(2) c have r: "\<exists>rows. r = Inr rows" "s' = (b', w')" "requireStream t b' = None"
    by (auto simp: put_chunk_def s split: sum.splits)
  then obtain rows where "r = Inr rows" by blast
  with c have c': "turso_call env t b False [?ins] w = ((Inr rows, b'), w')" by simp
  obtain tx l tx' rr where e: "stream_tx w b tx"
    "exec_stmt (env (tw_calls w)) l ?ins (world_table w, tx) = (Inr rr, (world_table w', tx'))"
    "b' \<noteq> None \<longrightarrow> stream_tx w' b' tx'" by (rule call_ok_one [OF c'])
  have tx: "tx = Some (Some (t0 @ rs))" using stream_tx_fun [OF o(2) e(1)] by simp
  have "tx' = Some (Some ((t0 @ rs) @ chunk_rows info i [c]))" "world_table w' = Some t0"
    using e(2) o(1) by (auto simp: exec_stmt_def tx split: prod.splits if_splits)
  then show "put_open t0 (rs @ chunk_rows info i [c]) s'"
    using e(3) requireStream_None [OF r(3)] by (auto simp: put_open_def r(2))
qed

lemma run_chunks_open:
  "put_open t0 rs s \<Longrightarrow> run_chunks (put_chunk env t info) i cs s = ((n, x), s') \<Longrightarrow>
    world_table (snd s') = Some t0 \<and> (x = None \<longrightarrow> n = i + length cs \<and> put_open t0 (rs @ chunk_rows info i cs) s')"
proof (induction cs arbitrary: i rs s)
  case Nil
  then show ?case by (auto simp: put_open_def)
next
  case (Cons c cs)
  obtain y s1 where p: "put_chunk env t info i c s = (y, s1)" by (metis surj_pair)
  show ?case
    using Cons.prems(2) p put_chunk_open [OF Cons.prems(1) p] Cons.IH [of "rs @ chunk_rows info i [c]" s1 "Suc i"]
    by (cases y) auto
qed

lemma exec_create:
  assumes "turso_exec env t [CreateTable] w = (r, w')"
  shows "rows_of (world_table w') = rows_of (world_table w)" and "r = Inr rows \<Longrightarrow> \<exists>t0. world_table w' = Some t0"
proof -
  obtain b' where c: "turso_call env t None True [CreateTable] w = ((r, b'), w')"
    using assms by (auto simp: turso_exec_def split: prod.splits)
  show "rows_of (world_table w') = rows_of (world_table w)"
    by (rule call_table_one [OF c]) (auto simp: stream_tx_def exec_stmt_def rows_of_def split: option.splits if_splits prod.splits)
  assume "r = Inr rows"
  with c have c': "turso_call env t None True [CreateTable] w = ((Inr rows, b'), w')" by simp
  obtain tx l tx' rr where e: "stream_tx w None tx"
    "exec_stmt (env (tw_calls w)) l CreateTable (world_table w, tx) = (Inr rr, (world_table w', tx'))" by (rule call_ok_one [OF c'])
  have "tx = None" using e(1) by (simp add: stream_tx_def)
  with e(2) have "Some (case world_table w of None \<Rightarrow> [] | Some x \<Rightarrow> x) = world_table w'"
    by (simp add: exec_stmt_def split: if_splits)
  then show "\<exists>t0. world_table w' = Some t0" by (metis)
qed

lemma begin_open:
  assumes "turso_call env t None False [BeginImmediate] w = ((Inr rows, b), w')" and "world_table w = Some t0" and "b \<noteq> None"
  shows "put_open t0 [] (b, w')"
proof -
  obtain tx l tx' rr where e: "stream_tx w None tx"
    "exec_stmt (env (tw_calls w)) l BeginImmediate (world_table w, tx) = (Inr rr, (world_table w', tx'))"
    "b \<noteq> None \<longrightarrow> stream_tx w' b tx'" by (rule call_ok_one [OF assms(1)])
  have "tx = None" using e(1) by (simp add: stream_tx_def)
  with e(2) have "tx' = Some (world_table w)" "world_table w' = world_table w"
    by (auto simp: exec_stmt_def split: if_splits)
  with e(3) assms(2,3) show ?thesis by (simp add: put_open_def)
qed

lemma begin_table: "turso_call env t None False [BeginImmediate] w = (r, w') \<Longrightarrow> world_table w' = world_table w"
  by (erule call_table_one) (auto simp: stream_tx_def exec_stmt_def split: if_splits)

lemma commit_table:
  assumes "turso_call env t b True [CommitTx] w = ((r, b'), w')" and "put_open t0 rs (b, w)"
  shows "world_table w' = Some (t0 @ rs) \<or> (\<exists>e. r = Inl e) \<and> world_table w' = Some t0"
proof -
  have o: "stream_tx w b (Some (Some (t0 @ rs)))" "world_table w = Some t0" using assms(2) by (simp_all add: put_open_def)
  show ?thesis
  proof (cases r)
    case (Inl e)
    show ?thesis
    proof (rule call_table_one [OF assms(1)])
      fix tx l x tx'
      assume a: "stream_tx w b tx" "exec_stmt (env (tw_calls w)) l CommitTx (world_table w, tx) = (x, (world_table w', tx'))"
      have "tx = Some (Some (t0 @ rs))" using stream_tx_fun [OF o(1) a(1)] by simp
      with a(2) show ?thesis by (simp add: exec_stmt_def)
    qed (simp add: Inl o(2))
  next
    case (Inr rows)
    with assms(1) have c: "turso_call env t b True [CommitTx] w = ((Inr rows, b'), w')" by simp
    obtain tx l tx' rr where e: "stream_tx w b tx"
      "exec_stmt (env (tw_calls w)) l CommitTx (world_table w, tx) = (Inr rr, (world_table w', tx'))" by (rule call_ok_one [OF c])
    have "tx = Some (Some (t0 @ rs))" using stream_tx_fun [OF o(1) e(1)] by simp
    with e(2) show ?thesis by (simp add: exec_stmt_def)
  qed
qed

definition put_rows :: "backup_info \<Rightarrow> reader \<Rightarrow> nat \<Rightarrow> chunks" where
  "put_rows info rd sz = chunk_rows info 0 (chunks_of sz (rd_bytes rd))"

text \<open>How a \<open>Put\<close> may leave the table that was \<open>t0\<close>: every chunk on success, all or none on an error.\<close>

definition put_done :: "chunks \<Rightarrow> backup_info \<Rightarrow> reader \<Rightarrow> nat \<Rightarrow> nat result \<Rightarrow> turso_world \<Rightarrow> bool" where
  "put_done t0 info rd sz r w' \<longleftrightarrow>
     (case r of
        Inr n \<Rightarrow> n = length (chunks_of sz (rd_bytes rd)) \<and> rd_fault rd = None \<and> world_table w' = Some (t0 @ put_rows info rd sz)
      | Inl e \<Rightarrow> rows_of (world_table w') = t0 \<or> rd_fault rd = None \<and> rows_of (world_table w') = t0 @ put_rows info rd sz)"

lemma put_done_simps [simp]:
  "rows_of (world_table w') = t0 \<Longrightarrow> put_done t0 info rd sz (Inl e) w'"
  "put_done t0 info rd sz r (put_cleanup env t k b w) = put_done t0 info rd sz r w"
  by (simp_all add: put_done_def split: sum.split)

lemma put_stream_done:
  assumes "0 < sz" and "put_open t0 [] (b, w)"
  shows "\<exists>r w'. put_stream env t info rd sz b w = Some (r, w') \<and> put_done t0 info rd sz r w'"
proof -
  note put = put_stream_def [of env t info rd sz b w] and chunks = run_chunks_open [OF assms(2)]
  let ?run = "\<lambda>cs. run_chunks (put_chunk env t info) 0 cs (b, w)"
  show ?thesis
  proof (cases "rd_fault rd")
    case (Some x)
    obtain m y b3 w3 where r: "?run (filter (\<lambda>c. length c = sz) (pieces sz (rd_bytes rd))) = ((m, y), (b3, w3))"
      by (metis surj_pair)
    then have "world_table w3 = Some t0" using chunks by fastforce
    with assms(1) r show ?thesis by (cases y) (simp_all add: put Some eachChunk_fails)
  next
    case None
    obtain m y b3 w3 where r: "?run (chunks_of sz (rd_bytes rd)) = ((m, y), (b3, w3))" by (metis surj_pair)
    note c = chunks [OF r]
    show ?thesis
    proof (cases y)
      case (Some e)
      with assms(1) r c show ?thesis by (simp add: put None eachChunk_runs)
    next
      case y: None
      obtain r4 b4 w4 where e: "turso_call env t b3 True [CommitTx] w3 = ((r4, b4), w4)" by (metis surj_pair)
      have o: "put_open t0 (put_rows info rd sz) (b3, w3)" "m = length (chunks_of sz (rd_bytes rd))"
        using c y by (simp_all add: put_rows_def)
      have "put_done t0 info rd sz (case r4 of Inl e \<Rightarrow> Inl e | Inr _ \<Rightarrow> Inr m) w4"
        using commit_table [OF e o(1)] o(2) by (auto simp: put_done_def None split: sum.split)
      with assms(1) r e show ?thesis by (cases r4) (simp_all add: put None y eachChunk_runs)
    qed
  qed
qed

text \<open>Whatever the network does, a \<open>Put\<close> returns, and stores every chunk or none.\<close>

lemma put_atomic:
  assumes "0 < sz"
  shows "\<exists>r w'. Turso_Put env t info rd sz w = Some (r, w') \<and> put_done (rows_of (world_table w)) info rd sz r w'"
proof -
  note put = Turso_Put_def [of env t info rd sz w]
  obtain r1 w1 where e1: "turso_exec env t [CreateTable] w = (r1, w1)" by (metis surj_pair)
  note t1 = exec_create [OF e1]
  obtain r2 b2 w2 where e2: "turso_call env t None False [BeginImmediate] w1 = ((r2, b2), w2)" by (metis surj_pair)
  have t2: "rows_of (world_table w2) = rows_of (world_table w)" using begin_table [OF e2] t1(1) by simp
  show ?thesis
  proof (cases "\<exists>e. r1 = Inl e \<or> r2 = Inl e \<or> requireStream t b2 = Some e")
    case True
    with t1(1) t2 show ?thesis by (cases r1; cases r2) (auto simp: put e1 e2)
  next
    case False
    then obtain rows1 rows2 where r: "r1 = Inr rows1" "r2 = Inr rows2" "requireStream t b2 = None"
      by (cases r1; cases r2) auto
    then obtain t0 where t0: "world_table w1 = Some t0" using t1(2) by blast
    have "put_open t0 [] (b2, w2)"
      using begin_open [OF e2 [unfolded r(2)] t0] requireStream_None [OF r(3)] by blast
    from put_stream_done [OF assms this] t0 t1(1) show ?thesis by (simp add: put e1 e2 r)
  qed
qed

end
