(* ===== verification/TursoView.thy ===== *)
theory TursoView
  imports TursoFacts
begin

text \<open>
  The table of chunks read as the backups it holds: what \<open>List\<close>, \<open>Fetch\<close> and \<open>Prune\<close> of \<open>backup/turso.go\<close> do in
  terms of whole backups.
\<close>

subsection \<open>The abstract store\<close>

record stored_backup =
  sb_info :: backup_info
  sb_chunks :: "string list"

abbreviation sb_id :: "stored_backup \<Rightarrow> string" where
  "sb_id b \<equiv> bi_id (sb_info b)"

definition backup_rows :: "stored_backup list \<Rightarrow> chunks" where
  "backup_rows bs = concat (map (\<lambda>b. chunk_rows (sb_info b) 0 (sb_chunks b)) bs)"

definition sound_backup :: "stored_backup \<Rightarrow> bool" where
  "sound_backup b \<longleftrightarrow> sb_chunks b \<noteq> [] \<and> length (sb_chunks b) < 2 ^ 63 \<and> bi_chunks (sb_info b) = of_nat (length (sb_chunks b))"

definition stores :: "chunks option \<Rightarrow> stored_backup list \<Rightarrow> bool" where
  "stores d bs \<longleftrightarrow> rows_of d = backup_rows bs \<and> distinct (map sb_id bs) \<and> (\<forall>b \<in> set bs. sound_backup b)"

text \<open>The newest first, and what a prune keeps.\<close>

definition newest_backups :: "stored_backup list \<Rightarrow> stored_backup list" where
  "newest_backups bs = rev (sort_key (\<lambda>b. (bi_created_at (sb_info b), sb_id b)) bs)"

definition retain :: "int \<Rightarrow> stored_backup list \<Rightarrow> stored_backup list" where
  "retain keep bs = filter (\<lambda>b. sb_id b \<in> set (map sb_id (sql_limit keep (newest_backups bs)))) bs"

lemma backup_rows_simps [simp]:
  "backup_rows [] = []" "backup_rows (b # bs) = chunk_rows (sb_info b) 0 (sb_chunks b) @ backup_rows bs"
  "backup_rows (xs @ ys) = backup_rows xs @ backup_rows ys"
  by (simp_all add: backup_rows_def)

lemma set_newest [simp]: "set (newest_backups bs) = set bs"
  by (simp add: newest_backups_def)

subsection \<open>The table's groups are the backups\<close>

lemma group_of_append: "group_of (s @ t) key = group_of s key @ group_of t key"
  by (simp add: group_of_def)

lemma group_of_chunk_rows:
  "group_of (chunk_rows info i cs) key =
     (if key = bi_id info
      then map (\<lambda>c. \<lparr>cr_created_at = bi_created_at info, cr_size = bi_size info, cr_sha256 = bi_sha256 info, cr_data = c\<rparr>) cs
      else [])"
  by (induction cs arbitrary: i) (auto simp: group_of_def)

lemma group_of_other: "key \<notin> set (map sb_id bs) \<Longrightarrow> group_of (backup_rows bs) key = []"
  by (induction bs) (auto simp: group_of_append group_of_chunk_rows group_of_def [of "[]"])

lemma group_of_backup:
  "distinct (map sb_id bs) \<Longrightarrow> b \<in> set bs \<Longrightarrow> group_of (backup_rows bs) (sb_id b) = group_of (chunk_rows (sb_info b) 0 (sb_chunks b)) (sb_id b)"
proof (induction bs)
  case (Cons x bs)
  show ?case
  proof (cases "b = x")
    case True
    with Cons.prems show ?thesis by (simp add: group_of_append group_of_other)
  next
    case False
    with Cons.prems have "b \<in> set bs" "sb_id b \<noteq> sb_id x" by (auto simp: image_iff)
    with Cons show ?thesis by (simp add: group_of_append group_of_chunk_rows)
  qed
qed simp

lemma chunk_rows_ids: "map (fst \<circ> fst) (chunk_rows info i cs) = replicate (length cs) (bi_id info)"
  by (induction cs arbitrary: i) simp_all

lemma remdups_replicate: "x \<notin> set ys \<Longrightarrow> remdups (replicate n x @ ys) = (if n = 0 then remdups ys else x # remdups ys)"
  by (induction n) auto

lemma set_ids: "set (map (fst \<circ> fst) (backup_rows bs)) \<subseteq> set (map sb_id bs)"
proof (induction bs)
  case (Cons b bs)
  have "set (map (fst \<circ> fst) (chunk_rows (sb_info b) 0 (sb_chunks b))) \<subseteq> {sb_id b}"
    by (simp only: chunk_rows_ids) auto
  with Cons show ?case by auto
qed simp

lemma ids_of_rows:
  "distinct (map sb_id bs) \<Longrightarrow> \<forall>b \<in> set bs. sound_backup b \<Longrightarrow> remdups (map (fst \<circ> fst) (backup_rows bs)) = map sb_id bs"
proof (induction bs)
  case (Cons b bs)
  have "sb_id b \<notin> set (map (fst \<circ> fst) (backup_rows bs))" using Cons.prems(1) set_ids [of bs] by auto
  from remdups_replicate [OF this] Cons.prems(2)
  have "remdups (replicate (length (sb_chunks b)) (sb_id b) @ map (fst \<circ> fst) (backup_rows bs)) =
      sb_id b # remdups (map (fst \<circ> fst) (backup_rows bs))" by (simp add: sound_backup_def)
  moreover have "remdups (map (fst \<circ> fst) (backup_rows bs)) = map sb_id bs" using Cons.prems by (intro Cons.IH) auto
  ultimately show ?case by (simp only: backup_rows_simps map_append chunk_rows_ids list.map)
qed simp

lemma sort_key_map: "sort_key f (map g xs) = map g (sort_key (f \<circ> g) xs)"
proof -
  have "insort_key f (g x) (map g ys) = map g (insort_key (f \<circ> g) x ys)" for x ys by (induction ys) simp_all
  then show ?thesis by (induction xs) simp_all
qed

lemma sort_key_agree: "(\<And>x. x \<in> set xs \<Longrightarrow> f x = g x) \<Longrightarrow> sort_key f xs = sort_key g xs"
proof (induction xs)
  case (Cons x xs)
  have "insort_key f x ys = insort_key g x ys" if "\<And>y. y \<in> set (x # ys) \<Longrightarrow> f y = g y" for ys
    using that by (induction ys) auto
  from this [of "sort_key g xs"] Cons show ?case by simp
qed simp

lemma group_meta:
  assumes "distinct (map sb_id bs)" and "b \<in> set bs" and "sound_backup b"
  shows "created_of (backup_rows bs) (sb_id b) = bi_created_at (sb_info b)"
    and "info_row (backup_rows bs) (sb_id b) =
      [text_value (sb_id b), text_value (bi_created_at (sb_info b)), integer_value (sint (bi_size (sb_info b))),
       text_value (bi_sha256 (sb_info b)), integer_value (int (length (sb_chunks b)))]"
proof -
  have ne: "sb_chunks b \<noteq> []" using assms(3) by (simp add: sound_backup_def)
  have c: "(\<lambda>_. x) ` set (sb_chunks b) = {x}" for x :: 'x using ne by (simp add: image_constant_conv)
  note g = group_of_backup [OF assms(1,2)] group_of_chunk_rows
  show created: "created_of (backup_rows bs) (sb_id b) = bi_created_at (sb_info b)"
    unfolding created_of_def g by (simp add: image_image c)
  show "info_row (backup_rows bs) (sb_id b) =
      [text_value (sb_id b), text_value (bi_created_at (sb_info b)), integer_value (sint (bi_size (sb_info b))),
       text_value (bi_sha256 (sb_info b)), integer_value (int (length (sb_chunks b)))]"
    unfolding info_row_def created unfolding g by (simp add: image_image c Let_def)
qed

lemma newest_first_backups:
  assumes "distinct (map sb_id bs)" and "\<forall>b \<in> set bs. sound_backup b"
  shows "newest_first (backup_rows bs) = map sb_id (newest_backups bs)"
proof -
  have "sort_key ((\<lambda>key. (created_of (backup_rows bs) key, key)) \<circ> sb_id) bs =
      sort_key (\<lambda>b. (bi_created_at (sb_info b), sb_id b)) bs"
    using group_meta(1) assms by (intro sort_key_agree) auto
  then show ?thesis
    by (simp only: newest_first_def ids_of_rows [OF assms] sort_key_map newest_backups_def rev_map)
qed

lemma chunk_get:
  "tbl_get (chunk_rows info j cs) (key, i) =
     (if key = bi_id info \<and> j \<le> i \<and> i < j + length cs
      then Some \<lparr>cr_created_at = bi_created_at info, cr_size = bi_size info, cr_sha256 = bi_sha256 info, cr_data = cs ! (i - j)\<rparr>
      else None)"
  by (induction cs arbitrary: j) (auto simp: nth_Cons' Suc_le_eq)

lemma backup_get_other: "key \<notin> set (map sb_id bs) \<Longrightarrow> tbl_get (backup_rows bs) (key, i) = None"
  by (induction bs) (auto simp: tbl_get_append chunk_get split: option.split)

lemma backup_get:
  "distinct (map sb_id bs) \<Longrightarrow> b \<in> set bs \<Longrightarrow>
     map_option cr_data (tbl_get (backup_rows bs) (sb_id b, i)) = (if i < length (sb_chunks b) then Some (sb_chunks b ! i) else None)"
proof (induction bs)
  case (Cons x bs)
  show ?case
  proof (cases "b = x")
    case True
    with Cons.prems show ?thesis by (auto simp: tbl_get_append chunk_get backup_get_other split: option.split)
  next
    case False
    with Cons.prems have "b \<in> set bs" "sb_id b \<noteq> sb_id x" by (auto simp: image_iff)
    with Cons show ?thesis by (simp add: tbl_get_append chunk_get)
  qed
qed simp

lemma delete_chunk_rows:
  "tbl_delete (\<lambda>(key, _) _. key \<notin> K) (chunk_rows info i cs) = (if bi_id info \<in> K then chunk_rows info i cs else [])"
  by (induction cs arbitrary: i) (auto simp: tbl_delete_def)

lemma delete_backups:
  "tbl_delete (\<lambda>(key, _) _. key \<notin> K) (backup_rows bs) = backup_rows (filter (\<lambda>b. sb_id b \<in> K) bs)"
proof (induction bs)
  case (Cons b bs)
  have "tbl_delete p (s @ t) = tbl_delete p s @ tbl_delete p t" for p and s t :: chunks
    by (simp add: tbl_delete_def)
  with Cons show ?case by (simp only: backup_rows_simps delete_chunk_rows) simp
qed (simp add: tbl_delete_def)

subsection \<open>The values of an answer\<close>

lemma TrimRight_padding: "alphabet s \<Longrightarrow> TrimRight (s @ replicate n CHR ''='') ''='' = s"
proof -
  assume a: "alphabet s"
  have "dropWhile (\<lambda>c. c = CHR ''='') (rev s) = rev s"
  proof (cases "rev s")
    case (Cons c cs)
    then have "c \<in> set s" by (metis list.set_intros(1) set_rev)
    with a alphabet_plain [of c] have "c \<noteq> CHR ''=''" by (auto simp: alphabet_def)
    with Cons show ?thesis by simp
  qed simp
  moreover have "dropWhile (\<lambda>c. c = CHR ''='') (replicate n CHR ''='' @ rev s) = dropWhile (\<lambda>c. c = CHR ''='') (rev s)"
    by (induction n) simp_all
  ultimately show ?thesis by (simp add: TrimRight_def)
qed

lemma value_blob_value [simp]: "value_blob (blob_value ce d) = Inr d"
  by (auto simp: value_blob_def blob_value_def TrimRight_padding [OF b64_encode_alphabet])

lemma value_text_value [simp]: "value_text (text_value s) = s"
  by (simp add: value_text_def text_value_def)

lemma dec_digits: "c \<in> set (dec n) \<Longrightarrow> digit_val c \<noteq> None"
  by (induction n rule: dec.induct) (subst (asm) dec.simps, auto split: if_splits)

lemma ParseInt64_dec_int: "- (2 ^ 63) \<le> n \<Longrightarrow> n < 2 ^ 63 \<Longrightarrow> ParseInt64 (dec_int n) = Some (word_of_int n)"
proof -
  assume b: "- (2 ^ 63) \<le> n" "n < 2 ^ 63"
  have h: "hd (dec m) \<noteq> CHR ''-'' \<and> hd (dec m) \<noteq> CHR ''+''" for m
    using dec_digits [of "hd (dec m)" m] by (auto simp: digit_val_def)
  then have p: "\<not> HasPrefix (dec m) ''-'' \<and> \<not> HasPrefix (dec m) ''+''" for m
    by (cases "dec m") (use h [of m] in \<open>auto simp: HasPrefix_def\<close>)
  show ?thesis
  proof (cases "n < 0")
    case True
    then have "nat (- n) \<le> 2 ^ 63" and w: "- of_nat (nat (- n)) = (word_of_int n :: int64)" using b by simp_all
    then have "nat (- n) < 2 ^ 63 \<or> nat (- n) = 2 ^ 63" by linarith
    with True w show ?thesis by (simp add: dec_int_def ParseInt64_def Let_def HasPrefix_def read_dec_dec del: dec.simps)
  next
    case False
    then have "nat n < 2 ^ 63" "of_nat (nat n) = (word_of_int n :: int64)" using b by simp_all
    with False p show ?thesis by (simp add: dec_int_def ParseInt64_def Let_def read_dec_dec del: dec.simps)
  qed
qed

lemma value_integer_value [simp]: "- (2 ^ 63) \<le> n \<Longrightarrow> n < 2 ^ 63 \<Longrightarrow> value_integer (integer_value n) = Inr (word_of_int n)"
  by (simp add: value_integer_def integer_value_def ParseInt64_dec_int)

lemma info_of_row_backup:
  assumes "distinct (map sb_id bs)" and "b \<in> set bs" and "sound_backup b"
  shows "info_of_row t (info_row (backup_rows bs) (sb_id b)) = Inr (sb_info b)"
proof -
  have "value_integer (integer_value (sint (bi_size (sb_info b)))) = Inr (bi_size (sb_info b))"
    using sint_range_size [of "bi_size (sb_info b)"] by (subst value_integer_value) (auto simp: word_size)
  moreover have "value_integer (integer_value (int (length (sb_chunks b)))) = Inr (bi_chunks (sb_info b))"
    using assms(3) by (subst value_integer_value) (auto simp: sound_backup_def)
  ultimately show ?thesis by (simp add: info_of_row_def group_meta(2) [OF assms])
qed

subsection \<open>The operations\<close>

lemma exec_one_ok:
  assumes "turso_exec env t [s] w = (Inr rows, w')"
  obtains l tx' r where "rows = [r]" "exec_stmt (env (tw_calls w)) l s (world_table w, None) = (Inr r, (world_table w', tx'))"
proof -
  obtain b' where c: "turso_call env t None True [s] w = ((Inr rows, b'), w')"
    using assms by (auto simp: turso_exec_def split: prod.splits)
  show ?thesis by (rule call_ok_one [OF c]) (auto simp: stream_tx_def intro: that)
qed

lemma exec_one_table:
  assumes "turso_exec env t [s] w = (r, w')"
  obtains "world_table w' = world_table w"
  | l x tx' where "exec_stmt (env (tw_calls w)) l s (world_table w, None) = (x, (world_table w', tx'))"
proof -
  obtain b' where c: "turso_call env t None True [s] w = ((r, b'), w')"
    using assms by (auto simp: turso_exec_def split: prod.splits)
  show ?thesis by (rule call_table_one [OF c]) (auto simp: stream_tx_def intro: that)
qed

lemma prune_rows:
  assumes "stores (Some d) bs"
  shows "run_stmt ce (DeleteOld keep) (Some d) = (Inr [], Some (backup_rows (retain keep bs)))"
  using assms newest_first_backups [of bs]
  by (simp add: stores_def delete_backups retain_def sql_limit_def take_map)

lemma stores_retain: "stores d bs \<Longrightarrow> stores (Some (backup_rows (retain keep bs))) (retain keep bs)"
  by (auto simp: stores_def retain_def distinct_map_filter)

text \<open>\<open>Prune\<close> keeps exactly the newest; when its answer is lost it may or may not have run.\<close>

lemma prune_stores:
  assumes "stores (world_table w) bs" and "Turso_Prune env t keep w = (e, w')"
  shows "stores (world_table w') (retain keep bs) \<or> e \<noteq> None \<and> stores (world_table w') bs"
proof -
  obtain r where r: "turso_exec env t [DeleteOld keep] w = (r, w')" "e = (case r of Inl x \<Rightarrow> Some x | Inr _ \<Rightarrow> None)"
    using assms(2) by (auto simp: Turso_Prune_def split: prod.splits sum.splits)
  have eff: "(\<exists>d. world_table w = Some d \<and> x = Inr []) \<and> world_table w' = Some (backup_rows (retain keep bs)) \<or>
      (\<exists>m. x = Inl m) \<and> world_table w' = world_table w"
    if "exec_stmt ce l (DeleteOld keep) (world_table w, None) = (x, (world_table w', tx'))" for ce l x tx'
    using that prune_rows [of _ bs ce keep] assms(1)
    by (cases "world_table w") (auto simp: exec_stmt_def no_table_def simp del: run_stmt.simps(5) split: if_splits)
  note keep = stores_retain [OF assms(1), of keep]
  show ?thesis
  proof (cases r)
    case (Inl x)
    show ?thesis
      using eff keep assms(1) by (rule_tac exec_one_table [OF r(1)]) (fastforce simp: r(2) Inl)+
  next
    case (Inr rows)
    show ?thesis using eff keep by (rule_tac exec_one_ok [OF r(1) [unfolded Inr]]) fastforce
  qed
qed

text \<open>\<open>Put\<close> appends one backup or nothing.\<close>

definition put_backup :: "backup_info \<Rightarrow> reader \<Rightarrow> nat \<Rightarrow> stored_backup" where
  "put_backup info rd sz =
     (let cs = chunks_of sz (rd_bytes rd) in \<lparr>sb_info = info\<lparr>bi_chunks := of_nat (length cs)\<rparr>, sb_chunks = cs\<rparr>)"

lemma chunk_rows_count: "chunk_rows (info\<lparr>bi_chunks := n\<rparr>) i cs = chunk_rows info i cs"
  by (induction cs arbitrary: i) simp_all

lemma length_chunks_of: "0 < sz \<Longrightarrow> length (chunks_of sz bs) \<le> Suc (length bs)"
  using length_pieces [of sz bs] by (simp add: chunks_of_def)

lemma stores_put:
  assumes "stores d bs" and "0 < sz" and "bi_id info \<notin> set (map sb_id bs)" and "Suc (length (rd_bytes rd)) < 2 ^ 63"
    and "rows_of d' = rows_of d @ put_rows info rd sz"
  shows "stores d' (bs @ [put_backup info rd sz])"
proof -
  have "length (chunks_of sz (rd_bytes rd)) < 2 ^ 63"
    using length_chunks_of [OF assms(2), of "rd_bytes rd"] assms(4) by linarith
  with assms chunks_of_not_Nil [OF assms(2)] show ?thesis
    by (auto simp: stores_def put_backup_def put_rows_def sound_backup_def chunk_rows_count Let_def)
qed

lemma put_stores:
  assumes "stores (world_table w) bs" and "0 < sz" and "bi_id info \<notin> set (map sb_id bs)" and "Suc (length (rd_bytes rd)) < 2 ^ 63"
  shows "\<exists>r w'. Turso_Put env t info rd sz w = Some (r, w') \<and>
    (case r of
       Inr n \<Rightarrow> rd_fault rd = None \<and> n = length (chunks_of sz (rd_bytes rd)) \<and> stores (world_table w') (bs @ [put_backup info rd sz])
     | Inl e \<Rightarrow> stores (world_table w') bs \<or> rd_fault rd = None \<and> stores (world_table w') (bs @ [put_backup info rd sz]))"
proof -
  obtain r w' where p: "Turso_Put env t info rd sz w = Some (r, w')" and d: "put_done (rows_of (world_table w)) info rd sz r w'"
    using put_atomic [OF assms(2)] by blast
  have "stores (world_table w') bs" if "rows_of (world_table w') = rows_of (world_table w)"
    using that assms(1) by (simp add: stores_def)
  with p d stores_put [OF assms] show ?thesis by (cases r) (auto simp: put_done_def)
qed

lemma exec_reads:
  "s \<in> {CreateTable, SelectInfos} \<Longrightarrow> exec_stmt ce l s (d, None) = (x, (d', tx')) \<Longrightarrow> tx' = None \<and> rows_of d' = rows_of d"
  by (cases d) (auto simp: exec_stmt_def no_table_def rows_of_def split: if_splits)

lemma run_reads:
  "set ss \<subseteq> {CreateTable, SelectInfos} \<Longrightarrow> run_stmts ce l i ss (d, None) = (rs, (d', tx')) \<Longrightarrow> tx' = None \<and> rows_of d' = rows_of d"
proof (induction ss arbitrary: i d rs)
  case (Cons s ss)
  obtain x d1 tx1 where e: "exec_stmt ce l s (d, None) = (x, (d1, tx1))" by (metis surj_pair)
  have s: "s \<in> {CreateTable, SelectInfos}" "set ss \<subseteq> {CreateTable, SelectInfos}" using Cons.prems(1) by auto
  show ?case
    using Cons.prems(2) exec_reads [OF s(1) e] Cons.IH [OF s(2)]
    by (fastforce simp: e split: option.splits prod.splits)
qed simp

text \<open>\<open>List\<close> answers with the stored backups, newest first, or fails; it stores and removes nothing.\<close>

lemma list_stores:
  assumes "stores (world_table w) bs" and "Turso_List env t w = (r, w')"
  shows "stores (world_table w') bs" and "\<And>infos. r = Inr infos \<Longrightarrow> infos = map sb_info (newest_backups bs)"
proof -
  let ?ss = "[CreateTable, SelectInfos]"
  obtain x b' where c: "turso_call env t None True ?ss w = ((x, b'), w')"
    using assms(2) by (auto simp: Turso_List_def turso_exec_def split: prod.splits sum.splits)
  have d: "rows_of (world_table w') = rows_of (world_table w)"
    using run_reads [of ?ss] by (rule_tac call_table [OF c]) (auto simp: stream_tx_def simp del: run_stmts.simps)
  with assms(1) show "stores (world_table w') bs" by (simp add: stores_def)
  fix infos
  assume "r = Inr infos"
  with assms(2) c obtain rows where x: "x = Inr rows" and i: "collect (info_of_row t) (rows ! 1) = Inr infos"
    by (auto simp: Turso_List_def turso_exec_def split: prod.splits sum.splits)
  have s: "rows_of (world_table w) = backup_rows bs" "distinct (map sb_id bs)" "\<forall>b \<in> set bs. sound_backup b"
    using assms(1) by (simp_all add: stores_def)
  obtain tx l tx' where tx: "stream_tx w None tx"
    "run_stmts (env (tw_calls w)) l 0 ?ss (world_table w, tx) = (map Inr rows, (world_table w', tx'))"
    by (rule call_ok [OF c [unfolded x]])
  then have "rows ! 1 = map (info_row (backup_rows bs)) (newest_first (backup_rows bs))"
    using s(1) by (cases "world_table w")
      (auto simp: stream_tx_def exec_stmt_def map_eq_Cons_conv split: option.splits prod.splits if_splits)
  also have "\<dots> = map (\<lambda>b. info_row (backup_rows bs) (sb_id b)) (newest_backups bs)"
    by (simp add: newest_first_backups [OF s(2,3)] comp_def)
  finally have "collect (info_of_row t) (rows ! 1) = Inr (map sb_info (newest_backups bs))"
    using info_of_row_backup [OF s(2)] s(3) by (simp add: collect_Inr_iff list_all2_conv_all_nth) (metis nth_mem set_newest)
  with i show "infos = map sb_info (newest_backups bs)" by simp
qed

text \<open>\<open>Fetch\<close> of a stored backup writes its chunks in order, all of them when it returns no error.\<close>

lemma select_rows:
  assumes "stores (world_table w) bs" and "b \<in> set bs" and "i < length (sb_chunks b)"
    and "turso_exec env t [SelectData (sb_id b) i] w = (r, w')"
  shows "world_table w' = world_table w" and "r = Inr rows \<Longrightarrow> \<exists>ce. rows = [[[blob_value ce (sb_chunks b ! i)]]]"
proof -
  show "world_table w' = world_table w"
    by (rule exec_one_table [OF assms(4)]) (auto simp: exec_stmt_def no_table_def split: option.splits if_splits prod.splits elim: run_stmt.elims)
  have s: "rows_of (world_table w) = backup_rows bs" "distinct (map sb_id bs)" using assms(1) by (simp_all add: stores_def)
  assume "r = Inr rows"
  with assms(4) have e: "turso_exec env t [SelectData (sb_id b) i] w = (Inr rows, w')" by simp
  obtain l tx' r0 where r0: "rows = [r0]"
    "exec_stmt (env (tw_calls w)) l (SelectData (sb_id b) i) (world_table w, None) = (Inr r0, (world_table w', tx'))"
    by (rule exec_one_ok [OF e])
  then obtain a where a: "world_table w = Some a" by (cases "world_table w") (auto simp: exec_stmt_def)
  have "map_option cr_data (tbl_get a (sb_id b, i)) = Some (sb_chunks b ! i)"
    using backup_get [OF s(2) assms(2), of i] assms(3) s(1) by (simp add: a)
  with r0 a have "r0 = [[blob_value (env (tw_calls w)) (sb_chunks b ! i)]]" by (auto simp: exec_stmt_def)
  with r0(1) show "\<exists>ce. rows = [[[blob_value ce (sb_chunks b ! i)]]]" by blast
qed

lemma fetch_from_stores:
  assumes "b \<in> set bs" and "bi_id info = sb_id b"
  shows "stores (world_table w) bs \<Longrightarrow> i + k = length (sb_chunks b) \<Longrightarrow>
    fetch_from env t info wfault i k out w = ((e, out'), w') \<Longrightarrow>
    world_table w' = world_table w \<and> (\<exists>m \<le> k. out' = out @ concat (take m (drop i (sb_chunks b))) \<and> (e = None \<longrightarrow> m = k))"
proof (induction k arbitrary: i out w)
  case 0
  then show ?case by auto
next
  case (Suc k)
  obtain r w1 where r: "turso_exec env t [SelectData (sb_id b) i] w = (r, w1)" by (metis surj_pair)
  have i: "i < length (sb_chunks b)" using Suc.prems(2) by simp
  note sel = select_rows [OF Suc.prems(1) assms(1) i r]
  have stop: ?case if "e \<noteq> None" "out' = out" "w' = w1" using that sel(1) by auto
  show ?case
  proof (cases r)
    case (Inl x)
    with Suc.prems(3) r assms(2) show ?thesis by (intro stop) auto
  next
    case (Inr rows)
    then obtain ce where rows: "rows = [[[blob_value ce (sb_chunks b ! i)]]]" using sel(2) by blast
    show ?thesis
    proof (cases "wfault i")
      case (Some x)
      with Suc.prems(3) r Inr rows assms(2) show ?thesis by (intro stop) auto
    next
      case None
      with Suc.prems(3) r Inr rows assms(2)
      have "fetch_from env t info wfault (Suc i) k (out @ sb_chunks b ! i) w1 = ((e, out'), w')" by simp
      moreover have "stores (world_table w1) bs" using Suc.prems(1) sel(1) by simp
      ultimately obtain m where "world_table w' = world_table w1" "m \<le> k" "e = None \<longrightarrow> m = k"
        "out' = (out @ sb_chunks b ! i) @ concat (take m (drop (Suc i) (sb_chunks b)))"
        using Suc.IH [of w1 "Suc i" "out @ sb_chunks b ! i"] Suc.prems(2) by auto
      with sel(1) i show ?thesis
        by (intro conjI exI [of _ "Suc m"]) (simp_all add: Cons_nth_drop_Suc [symmetric])
    qed
  qed
qed

lemma fetch_stores:
  assumes "stores (world_table w) bs" and "b \<in> set bs" and "Turso_Fetch env t (sb_info b) wfault w = ((e, out), w')"
  shows "world_table w' = world_table w" and "e = None \<Longrightarrow> out = concat (sb_chunks b)"
proof -
  have "nat (sint (bi_chunks (sb_info b))) = length (sb_chunks b)"
    using assms(1,2) by (auto simp: stores_def sound_backup_def sint_of_nat_small)
  with assms(3) have f: "fetch_from env t (sb_info b) wfault 0 (length (sb_chunks b)) [] w = ((e, out), w')"
    by (simp add: Turso_Fetch_def)
  note fetch_from_stores [OF assms(2) refl assms(1) _ f]
  then show "world_table w' = world_table w" "e = None \<Longrightarrow> out = concat (sb_chunks b)" by auto
qed

end
