(* ===== verification/BackupRun.thy ===== *)
theory BackupRun
  imports TursoView
begin

text \<open>
  \<open>backup/backup.go\<close>: a run snapshots, checks, encrypts, stores and prunes; a restore downloads, checks,
  decrypts, verifies and only then links the file. age, SHA-256 and SQLite's reading of a file are
  arguments; so is what the file system does to each step.
\<close>

subsection \<open>Verifying a database file\<close>

definition DefaultChunkSize :: nat where
  "DefaultChunkSize = 2 ^ 20"

definition DefaultTimeout :: duration where
  "DefaultTimeout = 10 * 60 * ns_second"

definition mirrorTables :: "string list" where
  "mirrorTables = [''accounts'', ''category_groups'', ''categories'', ''payees'', ''transactions'', ''subtransactions'',
     ''months'', ''month_categories'', ''scheduled_transactions'', ''scheduled_subtransactions'']"

text \<open>What SQLite reads in a file: the integrity check, the (type, name) rows of its schema, the row counts.\<close>

record sqlite_file =
  sf_integrity :: "string result"
  sf_master :: "(string \<times> string) list result"
  sf_count :: "string \<Rightarrow> int64 result"

text \<open>The predicate \<open>name NOT LIKE 'sqlite_%'\<close> and the rest of the \<open>WHERE\<close>.\<close>

definition user_table :: "string \<times> string \<Rightarrow> bool" where
  "user_table r \<longleftrightarrow>
     fst r = ''table'' \<and> \<not> (HasPrefix (ToLower (snd r)) ''sqlite'' \<and> 7 \<le> length (snd r)) \<and> snd r \<noteq> ''schema_migrations''"

definition Verify :: "(string \<Rightarrow> sqlite_file result) \<Rightarrow> string \<Rightarrow> (string \<times> int64) list result" where
  "Verify sqlite content =
     (let fail = (\<lambda>e. Inl (wrapError ''verify'' e))
      in case sqlite content of
           Inl e \<Rightarrow> fail e
         | Inr f \<Rightarrow>
             (case sf_integrity f of
                Inl e \<Rightarrow> fail e
              | Inr s \<Rightarrow>
                  if s \<noteq> ''ok'' then Inl (newError ''verify: integrity_check failed'')
                  else
                    (case sf_master f of
                       Inl e \<Rightarrow> fail e
                     | Inr rows \<Rightarrow>
                         collect (\<lambda>name. case sf_count f name of Inl e \<Rightarrow> Inl (wrapError ''verify'' e) | Inr n \<Rightarrow> Inr (name, n))
                           (sort (map snd (filter user_table rows))))))"

definition checkSnapshot :: "(string \<Rightarrow> sqlite_file result) \<Rightarrow> string \<Rightarrow> error option" where
  "checkSnapshot sqlite content =
     (case Verify sqlite content of
        Inl e \<Rightarrow> Some e
      | Inr tables \<Rightarrow>
          if list_ex (\<lambda>(name, n). name \<in> set mirrorTables \<and> 0 < sint n) tables then None
          else Some (newError ''mirror tables are empty''))"

subsection \<open>Taking a backup\<close>

text \<open>\<open>at.Format("20060102T150405Z")\<close> and \<open>at.Format("2006-01-02T15:04:05.000Z")\<close> of a UTC time.\<close>

fun compact_date :: "date \<Rightarrow> string" where
  "compact_date (y, m, d) =
     (if y < 0 then CHR ''-'' # pad_dec 4 (nat (- y)) else pad_dec 4 (nat y)) @ fixdec 2 (nat m) @ fixdec 2 (nat d)"

definition id_time :: "time \<Rightarrow> string" where
  "id_time at =
     (let r = nat (at mod ns_day)
      in compact_date (date_of_day (at div ns_day)) @ ''T'' @ fixdec 2 (r div 3600000000000) @
         fixdec 2 (r div 60000000000 mod 60) @ fixdec 2 (r div 1000000000 mod 60) @ ''Z'')"

definition created_text :: "time \<Rightarrow> string" where
  "created_text at =
     (let r = nat (at mod ns_day)
      in format_date (date_of_day (at div ns_day)) @ ''T'' @ fixdec 2 (r div 3600000000000) @ '':'' @
         fixdec 2 (r div 60000000000 mod 60) @ '':'' @ fixdec 2 (r div 1000000000 mod 60) @ ''.'' @
         fixdec 3 (r mod 1000000000 div 1000000) @ ''Z'')"

definition newID :: "string result \<Rightarrow> time \<Rightarrow> string result" where
  "newID random at = (case random of Inl e \<Rightarrow> Inl e | Inr b \<Rightarrow> Inr (id_time at @ ''-'' @ EncodeToString b))"

record encrypt_env =
  ee_open_in :: "error option"
  ee_open_out :: "error option"
  ee_close :: "error option"

text \<open>\<open>encryptFile\<close>: the size and hex SHA-256 of the ciphertext, and the ciphertext (the content of \<open>dst\<close>).\<close>

definition encryptFile ::
    "encrypt_env \<Rightarrow> (string \<Rightarrow> string result) \<Rightarrow> (string \<Rightarrow> string) \<Rightarrow> string \<Rightarrow> (int64 \<times> string \<times> string) result" where
  "encryptFile ee encrypt sha256 src =
     (case ee_open_in ee of
        Some e \<Rightarrow> Inl e
      | None \<Rightarrow>
          (case ee_open_out ee of
             Some e \<Rightarrow> Inl e
           | None \<Rightarrow>
               (case encrypt src of
                  Inl e \<Rightarrow> Inl e
                | Inr c \<Rightarrow>
                    (case ee_close ee of
                       Some e \<Rightarrow> Inl e
                     | None \<Rightarrow> Inr (of_nat (length c), EncodeToString (sha256 c), c)))))"

record runner =
  r_client :: turso_client
  r_keep :: int
  r_chunk_size :: int
  r_timeout :: duration

record run_env =
  re_tempdir :: "error option"
  re_snapshot :: "string result"
  re_sqlite :: "string \<Rightarrow> sqlite_file result"
  re_encrypt :: encrypt_env
  re_age :: "string \<Rightarrow> string result"
  re_sha256 :: "string \<Rightarrow> string"
  re_remove :: "error option"
  re_now :: time
  re_random :: "string result"
  re_open :: "error option"
  re_read_fault :: "error option"

definition chunk_size_of :: "runner \<Rightarrow> nat" where
  "chunk_size_of r = (if r_chunk_size r \<le> 0 then DefaultChunkSize else nat (r_chunk_size r))"

text \<open>The deadline of a run; reaching it fails the calls after it, which \<open>env\<close> says.\<close>

definition run_timeout :: "runner \<Rightarrow> duration" where
  "run_timeout r = (if r_timeout r \<le> 0 then DefaultTimeout else r_timeout r)"

record run_result =
  rr_id :: string
  rr_size :: int64
  rr_chunks :: nat

text \<open>The local half of \<open>Run\<close>: what is to be stored, or why nothing is.\<close>

definition prepare_backup :: "run_env \<Rightarrow> (backup_info \<times> string) result" where
  "prepare_backup re =
     (case re_tempdir re of
        Some e \<Rightarrow> Inl (wrapError ''backup: temp dir'' e)
      | None \<Rightarrow>
     (case re_snapshot re of
        Inl e \<Rightarrow> Inl (wrapError ''backup'' e)
      | Inr plain \<Rightarrow>
     (case checkSnapshot (re_sqlite re) plain of
        Some e \<Rightarrow> Inl (wrapError ''backup: refused'' e)
      | None \<Rightarrow>
     (case encryptFile (re_encrypt re) (re_age re) (re_sha256 re) plain of
        Inl e \<Rightarrow> Inl (wrapError ''backup: encrypt'' e)
      | Inr (sz, digest, cipher) \<Rightarrow>
     (case re_remove re of
        Some e \<Rightarrow> Inl (wrapError ''backup: remove snapshot'' e)
      | None \<Rightarrow>
     (case newID (re_random re) (re_now re) of
        Inl e \<Rightarrow> Inl (wrapError ''backup'' e)
      | Inr key \<Rightarrow>
     (case re_open re of
        Some e \<Rightarrow> Inl (wrapError ''backup'' e)
      | None \<Rightarrow> Inr (\<lparr>bi_id = key, bi_created_at = created_text (re_now re), bi_size = sz, bi_sha256 = digest, bi_chunks = 0\<rparr>, cipher))))))))"

definition Backup_Run ::
    "(nat \<Rightarrow> call_env) \<Rightarrow> runner \<Rightarrow> run_env \<Rightarrow> turso_world \<Rightarrow> ((run_result option \<times> error option) \<times> turso_world) option" where
  "Backup_Run env r re w =
     (case prepare_backup re of
        Inl e \<Rightarrow> Some ((None, Some e), w)
      | Inr (info, cipher) \<Rightarrow>
          (case Turso_Put env (r_client r) info \<lparr>rd_bytes = cipher, rd_fault = re_read_fault re\<rparr> (chunk_size_of r) w of
             None \<Rightarrow> None
           | Some (Inl e, w1) \<Rightarrow> Some ((None, Some (wrapError ''backup: store'' e)), w1)
           | Some (Inr n, w1) \<Rightarrow>
               (let res = \<lparr>rr_id = bi_id info, rr_size = bi_size info, rr_chunks = n\<rparr>
                in case Turso_Prune env (r_client r) (r_keep r) w1 of
                     (Some e, w2) \<Rightarrow> Some ((Some res, Some (wrapError ''backup: stored, but prune failed'' e)), w2)
                   | (None, w2) \<Rightarrow> Some ((Some res, None), w2))))"

subsection \<open>Restoring one\<close>

record restore_opts =
  ro_id :: string
  ro_out :: string

type_synonym files = "string \<Rightarrow> string option"

text \<open>
  The environment of a restore. \<open>se_before\<close> and \<open>se_meanwhile\<close> are what others do to the files before the
  temp file is made and before it is linked.
\<close>

record 'key restore_env =
  se_keyfile :: "string result"
  se_identities :: "string \<Rightarrow> 'key list result"
  se_lstat :: "error option"
  se_tempdir :: "error option"
  se_cipher :: "error option"
  se_write :: "nat \<Rightarrow> error option"
  se_seek :: "error option"
  se_sha256 :: "string \<Rightarrow> string"
  se_age :: "'key list \<Rightarrow> string \<Rightarrow> (string \<times> error option) result"
  se_before :: "files \<Rightarrow> files"
  se_temp :: "string result"
  se_copy :: "error option"
  se_close :: "error option"
  se_sqlite :: "string \<Rightarrow> sqlite_file result"
  se_meanwhile :: "files \<Rightarrow> files"
  se_link :: "error option"

definition readIdentities :: "'key restore_env \<Rightarrow> 'key list result" where
  "readIdentities se =
     (case se_keyfile se of
        Inl e \<Rightarrow> Inl (wrapError ''restore: key file'' e)
      | Inr f \<Rightarrow>
          (case se_identities se f of
             Inl _ \<Rightarrow> Inl (newError ''restore: key file holds no valid age identity'')
           | Inr ks \<Rightarrow> Inr ks))"

definition pick :: "backup_info list \<Rightarrow> string \<Rightarrow> backup_info result" where
  "pick infos key =
     (if infos = [] then Inl (newError ''restore: no backups stored'')
      else if key = [] then Inr (hd infos)
      else (case find (\<lambda>i. bi_id i = key) infos of
              Some i \<Rightarrow> Inr i
            | None \<Rightarrow> Inl (newError ''restore: no backup with that id'')))"

text \<open>\<open>os.Link\<close> of the verified file; the deferred \<open>os.Remove\<close> drops the temp name on every way out.\<close>

definition link_out :: "'key restore_env \<Rightarrow> string \<Rightarrow> string \<Rightarrow> (string \<times> int64) list \<Rightarrow> files \<Rightarrow> (string \<times> int64) list result \<times> files" where
  "link_out se tmp out tables fs =
     (case (case se_link se of Some e \<Rightarrow> Some e | None \<Rightarrow> if fs out \<noteq> None then Some (newError ''file exists'') else None) of
        Some e \<Rightarrow> (Inl (wrapError ''write output file'' e), fs(tmp := None))
      | None \<Rightarrow> (Inr tables, fs(out := fs tmp, tmp := None)))"

definition decryptAndVerify ::
    "'key restore_env \<Rightarrow> 'key list \<Rightarrow> string \<Rightarrow> string \<Rightarrow> files \<Rightarrow> (string \<times> int64) list result \<times> files" where
  "decryptAndVerify se ks cipher out fs0 =
     (let fs = se_before se fs0
      in case se_age se ks cipher of
           Inl e \<Rightarrow> (Inl (wrapError ''decrypt'' e), fs)
         | Inr (plain, bad) \<Rightarrow>
             (case se_temp se of
                Inl e \<Rightarrow> (Inl e, fs)
              | Inr tmp \<Rightarrow>
                  if fs tmp \<noteq> None then (Inl (newError ''file exists''), fs)
                  else
                    (case (case bad of Some e \<Rightarrow> Some e | None \<Rightarrow> se_copy se) of
                       Some e \<Rightarrow> (Inl (wrapError ''decrypt'' e), fs)
                     | None \<Rightarrow>
                         (case se_close se of
                            Some e \<Rightarrow> (Inl e, fs)
                          | None \<Rightarrow>
                              (case Verify (se_sqlite se) plain of
                                 Inl e \<Rightarrow> (Inl e, fs)
                               | Inr tables \<Rightarrow> link_out se tmp out tables (se_meanwhile se (fs(tmp := Some plain))))))))"

definition Backup_Restore ::
    "(nat \<Rightarrow> call_env) \<Rightarrow> turso_client \<Rightarrow> 'key restore_env \<Rightarrow> restore_opts \<Rightarrow> files \<Rightarrow> turso_world \<Rightarrow>
     ((backup_info \<times> (string \<times> int64) list) result \<times> files) \<times> turso_world" where
  "Backup_Restore env t se opts fs w =
     (case readIdentities se of
        Inl e \<Rightarrow> ((Inl e, fs), w)
      | Inr ks \<Rightarrow>
     if se_lstat se = None \<and> fs (ro_out opts) \<noteq> None then ((Inl (newError ''restore: output file already exists''), fs), w)
     else
     (case se_lstat se of
        Some e \<Rightarrow> ((Inl (wrapError ''restore'' e), fs), w)
      | None \<Rightarrow>
     (case Turso_List env t w of
        (Inl e, w1) \<Rightarrow> ((Inl (wrapError ''restore'' e), fs), w1)
      | (Inr infos, w1) \<Rightarrow>
     (case pick infos (ro_id opts) of
        Inl e \<Rightarrow> ((Inl e, fs), w1)
      | Inr info \<Rightarrow>
     (case se_tempdir se of
        Some e \<Rightarrow> ((Inl (wrapError ''restore: temp dir'' e), fs), w1)
      | None \<Rightarrow>
     (case se_cipher se of
        Some e \<Rightarrow> ((Inl (wrapError ''restore'' e), fs), w1)
      | None \<Rightarrow>
     (case Turso_Fetch env t info (se_write se) w1 of
        ((Some e, _), w2) \<Rightarrow> ((Inl (wrapError ''restore'' e), fs), w2)
      | ((None, cipher), w2) \<Rightarrow>
     if of_nat (length cipher) \<noteq> bi_size info
     then ((Inl (newError (''restore: backup '' @ bi_id info @ '': got '' @ dec_int (sint (of_nat (length cipher) :: int64)) @
             '' bytes, want '' @ dec_int (sint (bi_size info)))), fs), w2)
     else if EncodeToString (se_sha256 se cipher) \<noteq> bi_sha256 info
     then ((Inl (newError (''restore: backup '' @ bi_id info @ '': sha256 mismatch'')), fs), w2)
     else
     (case se_seek se of
        Some e \<Rightarrow> ((Inl (wrapError ''restore'' e), fs), w2)
      | None \<Rightarrow>
     (case decryptAndVerify se ks cipher (ro_out opts) fs of
        (Inl e, fs1) \<Rightarrow> ((Inl (wrapError (''restore: backup '' @ bi_id info) e), fs1), w2)
      | (Inr tables, fs1) \<Rightarrow> ((Inr (info, tables), fs1), w2))))))))))"

end
