(* ===== verification/TursoLive.thy ===== *)
theory TursoLive
  imports TursoView
begin

text \<open>
  The operations of \<open>backup/turso.go\<close> succeed when the network and the server do: a call that is sent,
  served on its live stream and answered, with no other client holding the write lock.
\<close>

definition served :: "call_env \<Rightarrow> bool" where
  "served ce \<longleftrightarrow> \<not> ce_unsent ce \<and> \<not> ce_expired ce \<and> \<not> ce_dropped ce \<and> ce_baton ce \<noteq> [] \<and> (\<forall>i. ce_stmt ce i = None) \<and> ce_reply ce = Received"

text \<open>The client's stream \<open>b\<close>, in transaction \<open>tx\<close>, is the only one of the server.\<close>

definition alone :: "turso_world \<Rightarrow> string option \<Rightarrow> chunks option option \<Rightarrow> bool" where
  "alone w b tx \<longleftrightarrow> td_streams (tw_db w) = (case b of None \<Rightarrow> [] | Some x \<Rightarrow> [(x, tx)]) \<and> (b = None \<longrightarrow> tx = None)"

lemma first_error_oks [simp]: "first_error (map Inr xs) = None" "oks (map Inr xs) = xs"
  by (induction xs) simp_all

lemma call_served:
  assumes "served (env (tw_calls w))" and "alone w b tx"
    and "run_stmts (env (tw_calls w)) False 0 ss (world_table w, tx) = (map Inr rows, (d, tx'))"
  obtains w' where "turso_call env t b c ss w = ((Inr rows, if c then None else Some (ce_baton (env (tw_calls w)))), w')"
    "world_table w' = d" "tw_calls w' = Suc (tw_calls w)"
    "alone w' (if c then None else Some (ce_baton (env (tw_calls w)))) (if c then None else tx')"
proof -
  let ?ce = "env (tw_calls w)" and ?s = "td_streams (tw_db w)"
  have e: "\<not> ce_unsent ?ce" "\<not> ce_expired ?ce" "\<not> ce_dropped ?ce" "ce_reply ?ce = Received"
    using assms(1) by (simp_all add: served_def)
  have o: "tbl_delete (\<lambda>x _. Some x = b) ?s = []" "(case b of None \<Rightarrow> Some None | Some x \<Rightarrow> tbl_get ?s x) = Some tx"
    using assms(2) by (auto simp: alone_def tbl_delete_def split: option.splits)
  have n: "tbl_delete p [] = []" for p :: "string \<Rightarrow> chunks option option \<Rightarrow> bool" by (simp add: tbl_delete_def)
  have s: "serve ?ce b c ss (tw_db w) =
      (Some (map Inr rows, if c then None else Some (ce_baton ?ce)),
       \<lparr>td_table = d, td_streams = if c then [] else [(ce_baton ?ce, tx')]\<rparr>)"
    unfolding serve_def using e by (simp add: o assms(3) Let_def n)
  show ?thesis
    by (rule that [of "\<lparr>tw_db = \<lparr>td_table = d, td_streams = if c then [] else [(ce_baton ?ce, tx')]\<rparr>, tw_calls = Suc (tw_calls w)\<rparr>"])
      (simp_all add: turso_call_def pipeline_def s e Let_def alone_def)
qed

lemma run_one_served: "served ce \<Longrightarrow> exec_stmt ce l s st = (Inr r, st') \<Longrightarrow> run_stmts ce l 0 [s] st = (map Inr [r], st')"
  by (simp add: served_def)

lemma requireStream_served: "served ce \<Longrightarrow> requireStream t (Some (ce_baton ce)) = None"
  by (simp add: requireStream_def served_def)

lemma put_chunk_served:
  assumes "served (env (tw_calls w))" and "alone w b (Some (Some u))" and "tbl_get u (bi_id info, i) = None"
  obtains b' w' where "put_chunk env t info i c (b, w) = (None, (b', w'))" "world_table w' = world_table w"
    "alone w' b' (Some (Some (u @ chunk_rows info i [c])))"
proof -
  let ?ce = "env (tw_calls w)"
  let ?s = "InsertChunk (bi_id info) (bi_created_at info) (bi_size info) (bi_sha256 info) i c"
  have "exec_stmt ?ce False ?s (world_table w, Some (Some u)) = (Inr [], (world_table w, Some (Some (u @ chunk_rows info i [c]))))"
    using assms(3) by (simp add: exec_stmt_def)
  note run = run_one_served [OF assms(1) this]
  obtain w' where c: "turso_call env t b False [?s] w = ((Inr [[]], Some (ce_baton ?ce)), w')"
    "world_table w' = world_table w" "alone w' (Some (ce_baton ?ce)) (Some (Some (u @ chunk_rows info i [c])))"
    by (rule call_served [where env = env and w = w and c = False, OF assms(1,2) run]) auto
  show ?thesis
    by (rule that [of "Some (ce_baton ?ce)" w']) (simp_all add: put_chunk_def c requireStream_served [OF assms(1)] del: chunk_rows.simps)
qed

lemma run_chunks_served:
  assumes "\<And>k. served (env k)"
  shows "alone w b (Some (Some u)) \<Longrightarrow> (\<And>j. i \<le> j \<Longrightarrow> tbl_get u (bi_id info, j) = None) \<Longrightarrow>
    \<exists>b' w'. run_chunks (put_chunk env t info) i cs (b, w) = ((i + length cs, None), (b', w')) \<and>
      world_table w' = world_table w \<and> alone w' b' (Some (Some (u @ chunk_rows info i cs)))"
proof (induction cs arbitrary: i b w u)
  case Nil
  then show ?case by simp
next
  case (Cons c cs)
  obtain b1 w1 where p: "put_chunk env t info i c (b, w) = (None, (b1, w1))" "world_table w1 = world_table w"
    "alone w1 b1 (Some (Some (u @ chunk_rows info i [c])))"
    by (rule put_chunk_served [where env = env and w = w and info = info and i = i and c = c, OF assms Cons.prems(1)])
      (simp_all add: Cons.prems(2) del: chunk_rows.simps)
  have "tbl_get (u @ chunk_rows info i [c]) (bi_id info, j) = None" if "Suc i \<le> j" for j
    using that Cons.prems(2) [of j] by (simp add: tbl_get_append chunk_get del: chunk_rows.simps)
  from Cons.IH [where i = "Suc i", OF p(3) this] show ?case using p(1,2) by auto
qed

lemma put_served:
  assumes served: "\<And>k. served (env k)" and "alone w None None" and "0 < sz" and "rd_fault rd = None"
    and "\<And>j. tbl_get (rows_of (world_table w)) (bi_id info, j) = None"
  obtains w' where "Turso_Put env t info rd sz w = Some (Inr (length (chunks_of sz (rd_bytes rd))), w')" "alone w' None None"
proof -
  let ?t0 = "rows_of (world_table w)"
  have "exec_stmt (env (tw_calls w)) False CreateTable (world_table w, None) = (Inr [], (Some ?t0, None))"
    by (cases "world_table w") (simp_all add: exec_stmt_def)
  note run = run_one_served [OF served this]
  obtain w1 where c1: "turso_call env t None True [CreateTable] w = ((Inr [[]], None), w1)" "world_table w1 = Some ?t0"
    "alone w1 None None"
    by (rule call_served [where env = env and w = w and c = True, OF served assms(2) run]) auto
  have "exec_stmt (env (tw_calls w1)) False BeginImmediate (world_table w1, None) = (Inr [], (Some ?t0, Some (Some ?t0)))"
    by (simp add: exec_stmt_def c1(2))
  note run = run_one_served [OF served this]
  let ?b = "ce_baton (env (tw_calls w1))"
  obtain w2 where c2: "turso_call env t None False [BeginImmediate] w1 = ((Inr [[]], Some ?b), w2)"
    "alone w2 (Some ?b) (Some (Some ?t0))"
    by (rule call_served [where env = env and w = w1 and c = False, OF served c1(3) run]) auto
  let ?all = "?t0 @ chunk_rows info 0 (chunks_of sz (rd_bytes rd))"
  obtain b3 w3 where c3: "run_chunks (put_chunk env t info) 0 (chunks_of sz (rd_bytes rd)) (Some ?b, w2) =
      ((length (chunks_of sz (rd_bytes rd)), None), (b3, w3))" "alone w3 b3 (Some (Some ?all))"
    using run_chunks_served [where env = env and i = 0 and info = info and t = t and cs = "chunks_of sz (rd_bytes rd)", OF served c2(2)]
      assms(5) by auto
  have "exec_stmt (env (tw_calls w3)) False CommitTx (world_table w3, Some (Some ?all)) = (Inr [], (Some ?all, None))"
    by (simp add: exec_stmt_def)
  note run = run_one_served [OF served this]
  obtain w4 where c4: "turso_call env t b3 True [CommitTx] w3 = ((Inr [[]], None), w4)" "alone w4 None None"
    by (rule call_served [where env = env and w = w3 and c = True, OF served c3(2) run]) auto
  have "Turso_Put env t info rd sz w = Some (Inr (length (chunks_of sz (rd_bytes rd))), w4)"
    using assms(3,4) by (simp add: Turso_Put_def put_stream_def turso_exec_def c1(1) c2(1) requireStream_served [OF served]
        eachChunk_runs c3(1) c4(1) put_cleanup_def)
  then show ?thesis using c4(2) by (rule that)
qed

lemma exec_served:
  assumes "served (env (tw_calls w))" and "alone w None None"
    and "run_stmts (env (tw_calls w)) False 0 ss (world_table w, None) = (map Inr rows, (d, tx'))"
  obtains w' where "turso_exec env t ss w = (Inr rows, w')" "alone w' None None" "world_table w' = d"
proof -
  obtain w' where "turso_call env t None True ss w = ((Inr rows, None), w')" "alone w' None None" "world_table w' = d"
    by (rule call_served [where env = env and w = w and c = True, OF assms]) auto
  then show ?thesis by (intro that) (simp_all add: turso_exec_def)
qed

lemma prune_served:
  assumes "served (env (tw_calls w))" and "alone w None None" and "world_table w = Some d"
  obtains w' where "Turso_Prune env t keep w = (None, w')" "alone w' None None"
proof -
  have "exec_stmt (env (tw_calls w)) False (DeleteOld keep) (world_table w, None) =
      (Inr [], (Some (tbl_delete (\<lambda>(key, _) _. key \<notin> set (sql_limit keep (newest_first d))) d), None))"
    by (simp add: exec_stmt_def assms(3))
  note run = run_one_served [OF assms(1) this]
  obtain w' where "turso_exec env t [DeleteOld keep] w = (Inr [[]], w')" "alone w' None None"
    by (rule exec_served [where env = env and w = w, OF assms(1,2) run]) auto
  then show ?thesis by (intro that) (simp_all add: Turso_Prune_def)
qed

lemma list_served:
  assumes "served (env (tw_calls w))" and "alone w None None" and "stores (world_table w) bs"
  obtains w' where "Turso_List env t w = (Inr (map sb_info (newest_backups bs)), w')" "alone w' None None" "stores (world_table w') bs"
proof -
  let ?t0 = "rows_of (world_table w)"
  have s: "?t0 = backup_rows bs" "distinct (map sb_id bs)" "\<forall>b \<in> set bs. sound_backup b"
    using assms(3) by (simp_all add: stores_def)
  have "run_stmts (env (tw_calls w)) False 0 [CreateTable, SelectInfos] (world_table w, None) =
      (map Inr [[], map (info_row ?t0) (newest_first ?t0)], (Some ?t0, None))"
    using assms(1) by (cases "world_table w") (simp_all add: exec_stmt_def served_def)
  from exec_served [where env = env and w = w, OF assms(1,2) this] obtain w' where
    e: "turso_exec env t [CreateTable, SelectInfos] w = (Inr [[], map (info_row ?t0) (newest_first ?t0)], w')" "alone w' None None" by blast
  have "collect (info_of_row t) (map (info_row ?t0) (newest_first ?t0)) = Inr (map sb_info (newest_backups bs))"
    using info_of_row_backup [OF s(2)] s(3)
    by (simp add: collect_Inr_iff list_all2_conv_all_nth s(1) newest_first_backups [OF s(2,3)]) (metis nth_mem set_newest)
  with e have l: "Turso_List env t w = (Inr (map sb_info (newest_backups bs)), w')" by (simp add: Turso_List_def)
  from that [OF l e(2) list_stores(1) [OF assms(3) l]] show ?thesis .
qed

lemma fetch_from_served:
  assumes "\<And>k. served (env k)" and "b \<in> set bs" and "bi_id info = sb_id b" and "\<And>i. wfault i = None"
  shows "alone w None None \<Longrightarrow> stores (world_table w) bs \<Longrightarrow> i + k = length (sb_chunks b) \<Longrightarrow>
    fst (fst (fetch_from env t info wfault i k out w)) = None"
proof (induction k arbitrary: i out w)
  case (Suc k)
  let ?t0 = "rows_of (world_table w)"
  have s: "?t0 = backup_rows bs" "distinct (map sb_id bs)" using Suc.prems(2) by (simp_all add: stores_def)
  have g: "map_option cr_data (tbl_get ?t0 (sb_id b, i)) = Some (sb_chunks b ! i)"
    using backup_get [OF s(2) assms(2), of i] Suc.prems(3) by (simp add: s(1))
  then obtain a where a: "world_table w = Some a" by (cases "world_table w") auto
  with g have "exec_stmt (env (tw_calls w)) False (SelectData (sb_id b) i) (world_table w, None) =
      (Inr [[blob_value (env (tw_calls w)) (sb_chunks b ! i)]], (world_table w, None))"
    by (auto simp: exec_stmt_def)
  note run = run_one_served [OF assms(1) this]
  obtain w' where e: "turso_exec env t [SelectData (sb_id b) i] w = (Inr [[[blob_value (env (tw_calls w)) (sb_chunks b ! i)]]], w')"
    "alone w' None None" "world_table w' = world_table w"
    by (rule exec_served [where env = env and w = w, OF assms(1) Suc.prems(1) run]) auto
  then show ?case using Suc.IH [of w' "Suc i"] Suc.prems assms(3,4) by simp
qed simp

lemma fetch_served:
  assumes "\<And>k. served (env k)" and "alone w None None" and "stores (world_table w) bs" and "b \<in> set bs" and "\<And>i. wfault i = None"
  obtains w' where "Turso_Fetch env t (sb_info b) wfault w = ((None, concat (sb_chunks b)), w')"
proof -
  obtain e out w' where f: "Turso_Fetch env t (sb_info b) wfault w = ((e, out), w')" by (metis surj_pair)
  have "nat (sint (bi_chunks (sb_info b))) = length (sb_chunks b)"
    using assms(3,4) by (auto simp: stores_def sound_backup_def sint_of_nat_small)
  then have "e = None"
    using fetch_from_served [where env = env and wfault = wfault and i = 0 and t = t and out = "[]", OF assms(1,4) refl assms(5,2,3)] f
    by (auto simp: Turso_Fetch_def)
  with fetch_stores(2) [OF assms(3,4) f] f that show ?thesis by simp
qed

end
