(* ===== verification/BackupFacts.thy ===== *)
theory BackupFacts
  imports BackupRun TursoLive
begin

text \<open>
  What \<open>backup/backup.go\<close> promises: a run removes nothing unless it stored a sound snapshot, a restored file
  is a verified one, and what was backed up comes back.
\<close>

subsection \<open>What a run stores\<close>

lemma prepared_sound:
  assumes "prepare_backup re = Inr (info, cipher)"
  shows "\<exists>plain tables. re_snapshot re = Inr plain \<and> Verify (re_sqlite re) plain = Inr tables \<and>
      (\<exists>name n. (name, n) \<in> set tables \<and> name \<in> set mirrorTables \<and> 0 < sint n) \<and> re_age re plain = Inr cipher"
    and "bi_size info = of_nat (length cipher)" and "bi_sha256 info = EncodeToString (re_sha256 re cipher)"
    and "bi_created_at info = created_text (re_now re)"
  using assms
  by (auto simp: prepare_backup_def checkSnapshot_def encryptFile_def list_ex_iff
      split: option.splits sum.splits prod.splits if_splits)

text \<open>The backup a run of \<open>r\<close> stores.\<close>

definition run_reader :: "run_env \<Rightarrow> string \<Rightarrow> reader" where
  "run_reader re cipher = \<lparr>rd_bytes = cipher, rd_fault = re_read_fault re\<rparr>"

definition run_backup :: "runner \<Rightarrow> run_env \<Rightarrow> backup_info \<Rightarrow> string \<Rightarrow> stored_backup" where
  "run_backup r re info cipher = put_backup info (run_reader re cipher) (chunk_size_of r)"

lemma chunk_size_pos [simp]: "0 < chunk_size_of r"
  by (simp add: chunk_size_of_def DefaultChunkSize_def)

lemma run_backup_simps [simp]:
  "sb_id (run_backup r re info c) = bi_id info"
  "bi_created_at (sb_info (run_backup r re info c)) = bi_created_at info"
  "bi_size (sb_info (run_backup r re info c)) = bi_size info"
  "bi_sha256 (sb_info (run_backup r re info c)) = bi_sha256 info"
  "concat (sb_chunks (run_backup r re info c)) = c"
  by (simp_all add: run_backup_def put_backup_def run_reader_def Let_def concat_chunks_of)

definition fresh_backup :: "run_env \<Rightarrow> stored_backup list \<Rightarrow> bool" where
  "fresh_backup re bs \<longleftrightarrow>
     (case prepare_backup re of Inl _ \<Rightarrow> True | Inr (info, c) \<Rightarrow> bi_id info \<notin> set (map sb_id bs) \<and> Suc (length c) < 2 ^ 63)"

text \<open>How a run that prepared \<open>b\<close> may leave the backups \<open>bs\<close>.\<close>

definition run_left :: "stored_backup list \<Rightarrow> stored_backup \<Rightarrow> int \<Rightarrow> run_result option \<Rightarrow> error option \<Rightarrow> chunks option \<Rightarrow> bool" where
  "run_left bs b keep res e d \<longleftrightarrow>
     (case res of
        None \<Rightarrow> e \<noteq> None \<and> (stores d bs \<or> stores d (bs @ [b]))
      | Some x \<Rightarrow> rr_id x = sb_id b \<and> (stores d (retain keep (bs @ [b])) \<or> e \<noteq> None \<and> stores d (bs @ [b])))"

lemma run_retains:
  assumes "stores (world_table w) bs" and "fresh_backup re bs" and "prepare_backup re = Inr (info, c)"
  shows "\<exists>res e w'. Backup_Run env r re w = Some ((res, e), w') \<and>
    run_left bs (run_backup r re info c) (r_keep r) res e (world_table w')"
proof -
  let ?rd = "run_reader re c" and ?b = "run_backup r re info c"
  have f: "bi_id info \<notin> set (map sb_id bs)" "Suc (length (rd_bytes ?rd)) < 2 ^ 63"
    using assms(2,3) by (simp_all add: fresh_backup_def run_reader_def)
  obtain x w1 where p: "Turso_Put env (r_client r) info ?rd (chunk_size_of r) w = Some (x, w1)"
    and s: "case x of Inr n \<Rightarrow> rd_fault ?rd = None \<and> n = length (chunks_of (chunk_size_of r) (rd_bytes ?rd)) \<and> stores (world_table w1) (bs @ [?b])
      | Inl e \<Rightarrow> stores (world_table w1) bs \<or> rd_fault ?rd = None \<and> stores (world_table w1) (bs @ [?b])"
    using put_stores [OF assms(1) chunk_size_pos f] unfolding run_backup_def by blast
  show ?thesis
  proof (cases x)
    case (Inl e)
    with p s assms(3) show ?thesis by (auto simp: Backup_Run_def run_reader_def run_left_def)
  next
    case (Inr n)
    obtain e w2 where pr: "Turso_Prune env (r_client r) (r_keep r) w1 = (e, w2)" by (metis surj_pair)
    with s Inr have "stores (world_table w2) (retain (r_keep r) (bs @ [?b])) \<or> e \<noteq> None \<and> stores (world_table w2) (bs @ [?b])"
      using prune_stores by fastforce
    with p pr Inr assms(3) show ?thesis
      by (cases e) (auto simp: Backup_Run_def run_reader_def run_left_def Let_def)
  qed
qed

lemma newest_last:
  assumes "\<And>x. x \<in> set bs \<Longrightarrow> bi_created_at (sb_info x) < bi_created_at (sb_info b)"
  shows "\<exists>rest. newest_backups (bs @ [b]) = b # rest"
proof -
  let ?f = "\<lambda>b. (bi_created_at (sb_info b), sb_id b)"
  let ?l = "sort_key ?f (bs @ [b])"
  have ne: "?l \<noteq> []" by (metis Un_iff empty_iff list.set(1) list.set_intros(1) set_append set_sort)
  have "?f b \<le> ?f (last ?l)"
  proof -
    have "b \<in> set (butlast ?l) \<or> b = last ?l"
      using ne by (metis Un_iff append_butlast_last_id empty_iff empty_set list.set_intros(1) set_ConsD set_append set_sort)
    moreover have "sorted (map ?f (butlast ?l @ [last ?l]))" 
      by (subst append_butlast_last_id [OF ne]) (rule sorted_sort_key)
    ultimately show ?thesis by (auto simp: sorted_append)
  qed
  moreover have "last ?l \<in> set bs \<or> last ?l = b" using last_in_set [OF ne] by auto
  ultimately have "last ?l = b" by (auto simp: less_eq_prod_def dest!: assms dest: order.asym)
  then have "rev ?l = b # rev (butlast ?l)" using ne by (metis rev_eq_Cons_iff rev_rev_ident append_butlast_last_id)
  then show ?thesis unfolding newest_backups_def by blast
qed

lemma retained_newest:
  assumes "\<And>x. x \<in> set bs \<Longrightarrow> bi_created_at (sb_info x) < bi_created_at (sb_info b)" and "1 \<le> keep"
  shows "b \<in> set (retain keep (bs @ [b]))"
proof -
  obtain rest where n: "newest_backups (bs @ [b]) = b # rest" using newest_last assms(1) by blast
  have "nat keep = Suc (nat (keep - 1))" using assms(2) by simp
  with n assms(2) show ?thesis by (auto simp: retain_def sql_limit_def)
qed

subsection \<open>What a restore leaves\<close>

definition restored :: "'key restore_env \<Rightarrow> restore_opts \<Rightarrow> backup_info \<Rightarrow> (string \<times> int64) list \<Rightarrow> string \<Rightarrow> string \<Rightarrow> bool" where
  "restored se opts info tables cipher plain \<longleftrightarrow>
     of_nat (length cipher) = bi_size info \<and> EncodeToString (se_sha256 se cipher) = bi_sha256 info \<and>
     (\<exists>ks. readIdentities se = Inr ks \<and> se_age se ks cipher = Inr (plain, None)) \<and> Verify (se_sqlite se) plain = Inr tables"

text \<open>The files others leave, for a restore that got as far as its temp file or not.\<close>

definition others_left :: "'key restore_env \<Rightarrow> files \<Rightarrow> files \<Rightarrow> bool" where
  "others_left se fs g \<longleftrightarrow> g = fs \<or> g = se_before se fs \<or>
     (\<exists>tmp plain. se_temp se = Inr tmp \<and> se_before se fs tmp = None \<and> g = (se_meanwhile se ((se_before se fs)(tmp := Some plain)))(tmp := None))"

definition keeps_temp :: "'key restore_env \<Rightarrow> bool" where
  "keeps_temp se \<longleftrightarrow> (\<forall>tmp h. se_temp se = Inr tmp \<longrightarrow> se_meanwhile se h tmp = h tmp)"

lemma decryptAndVerify_left:
  assumes "keeps_temp se" and "decryptAndVerify se ks cipher out fs = (x, fs')"
  shows "case x of
      Inl e \<Rightarrow> others_left se fs fs'
    | Inr tables \<Rightarrow> \<exists>plain g. others_left se fs g \<and> g out = None \<and> fs' = g(out := Some plain) \<and>
        se_age se ks cipher = Inr (plain, None) \<and> Verify (se_sqlite se) plain = Inr tables"
proof (cases x)
  case (Inl e)
  with assms(2) show ?thesis
    by (auto simp: decryptAndVerify_def link_out_def others_left_def Let_def
        split: sum.splits prod.splits option.splits if_splits)
next
  case (Inr tables)
  with assms(2) obtain plain tmp where p: "se_age se ks cipher = Inr (plain, None)" "se_temp se = Inr tmp"
    "Verify (se_sqlite se) plain = Inr tables" and b: "se_before se fs tmp = None"
    and l: "link_out se tmp out tables (se_meanwhile se ((se_before se fs)(tmp := Some plain))) = (Inr tables, fs')"
    by (auto simp: decryptAndVerify_def link_out_def Let_def split: sum.splits prod.splits option.splits if_splits)
  let ?g = "(se_meanwhile se ((se_before se fs)(tmp := Some plain)))(tmp := None)"
  have m: "se_meanwhile se ((se_before se fs)(tmp := Some plain)) tmp = Some plain"
    using assms(1) p(2) by (simp add: keeps_temp_def)
  define h where "h = se_meanwhile se ((se_before se fs)(tmp := Some plain))"
  from l m have h: "h out = None" "out \<noteq> tmp" "fs' = h(out := Some plain, tmp := None)"
    unfolding h_def [symmetric] by (auto simp: link_out_def split: option.splits if_splits)
  then have "se_meanwhile se ((se_before se fs)(tmp := Some plain)) out = None" "out \<noteq> tmp" "fs' = ?g(out := Some plain)"
    unfolding h_def [symmetric] by (auto simp: fun_upd_twist)
  moreover have "others_left se fs ?g" using p(2) b by (auto simp: others_left_def)
  ultimately show ?thesis using p by (auto simp: Inr)
qed

lemma restore_left:
  assumes "keeps_temp se" and "Backup_Restore env t se opts fs w = ((r, fs'), w')"
  shows "case r of
      Inl e \<Rightarrow> others_left se fs fs'
    | Inr (info, tables) \<Rightarrow> \<exists>cipher plain g. others_left se fs g \<and> g (ro_out opts) = None \<and>
        fs' = g(ro_out opts := Some plain) \<and> restored se opts info tables cipher plain \<and>
        (\<exists>infos w1 w2. Turso_List env t w = (Inr infos, w1) \<and> pick infos (ro_id opts) = Inr info \<and>
           Turso_Fetch env t info (se_write se) w1 = ((None, cipher), w2))"
proof (cases r)
  case (Inl e)
  have o: "others_left se fs fs" by (simp add: others_left_def)
  with assms(2) Inl show ?thesis
    by (auto simp: Backup_Restore_def split: sum.splits prod.splits option.splits if_splits
        dest: decryptAndVerify_left [OF assms(1)])
next
  case (Inr it)
  obtain info tables where it: "it = (info, tables)" by fastforce
  from assms(2) Inr it obtain ks infos w1 w2 cipher where
    a: "readIdentities se = Inr ks" "Turso_List env t w = (Inr infos, w1)" "pick infos (ro_id opts) = Inr info"
    "Turso_Fetch env t info (se_write se) w1 = ((None, cipher), w2)" "of_nat (length cipher) = bi_size info"
    "EncodeToString (se_sha256 se cipher) = bi_sha256 info" "decryptAndVerify se ks cipher (ro_out opts) fs = (Inr tables, fs')"
    by (auto simp: Backup_Restore_def split: sum.splits prod.splits option.splits if_splits)
  with decryptAndVerify_left [OF assms(1) a(7)] show ?thesis
    by (auto simp: Inr it restored_def)
qed

subsection \<open>What was backed up comes back\<close>

definition unhindered :: "'key restore_env \<Rightarrow> 'key list \<Rightarrow> string \<Rightarrow> bool" where
  "unhindered se ks tmp \<longleftrightarrow>
     readIdentities se = Inr ks \<and> se_lstat se = None \<and> se_tempdir se = None \<and> se_cipher se = None \<and> (\<forall>i. se_write se i = None) \<and>
     se_seek se = None \<and> se_before se = (\<lambda>fs. fs) \<and> se_temp se = Inr tmp \<and> se_copy se = None \<and> se_close se = None \<and>
     se_meanwhile se = (\<lambda>fs. fs) \<and> se_link se = None"

lemma run_served:
  assumes "\<And>k. served (env k)" and "alone w None None" and "stores (world_table w) bs" and "fresh_backup re bs"
    and "prepare_backup re = Inr (info, c)" and "re_read_fault re = None"
  obtains res w' where "Backup_Run env r re w = Some ((Some res, None), w')" "rr_id res = bi_id info" "alone w' None None"
    "stores (world_table w') (retain (r_keep r) (bs @ [run_backup r re info c]))"
proof -
  let ?rd = "run_reader re c" and ?b = "run_backup r re info c"
  have f: "bi_id info \<notin> set (map sb_id bs)" "Suc (length (rd_bytes ?rd)) < 2 ^ 63"
    using assms(4,5) by (simp_all add: fresh_backup_def run_reader_def)
  have g: "tbl_get (rows_of (world_table w)) (bi_id info, j) = None" for j
    using assms(3) f(1) by (simp add: stores_def backup_get_other)
  obtain w1 where p: "Turso_Put env (r_client r) info ?rd (chunk_size_of r) w =
      Some (Inr (length (chunks_of (chunk_size_of r) (rd_bytes ?rd))), w1)" "alone w1 None None"
    by (rule put_served [where env = env and w = w and info = info and rd = "?rd", OF assms(1,2) chunk_size_pos _ g])
      (auto simp: run_reader_def assms(6))
  obtain w2 where pr: "Turso_Prune env (r_client r) (r_keep r) w1 = (None, w2)" "alone w2 None None"
  proof -
    have "put_done (rows_of (world_table w)) info ?rd (chunk_size_of r) (Inr (length (chunks_of (chunk_size_of r) (rd_bytes ?rd)))) w1"
      using put_atomic [OF chunk_size_pos [of r], where env = env and t = "r_client r" and info = info and rd = "?rd" and w = w] p(1) by fastforce
    then obtain d where "world_table w1 = Some d" by (auto simp: put_done_def)
    then show thesis
      by (rule prune_served [where env = env and w = w1 and t = "r_client r" and keep = "r_keep r", OF assms(1) p(2)]) (rule that)
  qed
  let ?res = "\<lparr>rr_id = bi_id info, rr_size = bi_size info, rr_chunks = length (chunks_of (chunk_size_of r) (rd_bytes ?rd))\<rparr>"
  have run: "Backup_Run env r re w = Some ((Some ?res, None), w2)"
    using p pr assms(5) by (simp add: Backup_Run_def run_reader_def Let_def)
  moreover have "run_left bs ?b (r_keep r) (Some ?res) None (world_table w2)"
    using run_retains [OF assms(3,4,5), of env r] run by auto
  ultimately show ?thesis using pr(2) by (intro that) (auto simp: run_left_def)
qed

lemma decrypt_unhindered:
  assumes "unhindered se ks tmp" and "se_age se ks cipher = Inr (plain, None)" and "Verify (se_sqlite se) plain = Inr tables"
    and "fs out = None" and "fs tmp = None" and "tmp \<noteq> out"
  shows "decryptAndVerify se ks cipher out fs = (Inr tables, fs(out := Some plain))"
  using assms by (auto simp: unhindered_def decryptAndVerify_def link_out_def Let_def fun_eq_iff)

lemma retain_last:
  assumes "\<And>x. x \<in> set bs \<Longrightarrow> bi_created_at (sb_info x) < bi_created_at (sb_info b)" and "1 \<le> keep"
  shows "\<exists>rest. newest_backups (retain keep (bs @ [b])) = b # rest"
proof -
  have "retain keep (bs @ [b]) = filter (\<lambda>x. sb_id x \<in> set (map sb_id (sql_limit keep (newest_backups (bs @ [b]))))) bs @ [b]"
  proof -
    have "sb_id b \<in> set (map sb_id (sql_limit keep (newest_backups (bs @ [b]))))"
    proof -
      have "b \<in> set (retain keep (bs @ [b]))" by (rule retained_newest) (use assms in auto)
      then show ?thesis by (simp only: retain_def set_filter mem_Collect_eq)
    qed
    then show ?thesis unfolding retain_def by (simp only: filter_append filter.simps if_True)
  qed
  also have "\<exists>rest. newest_backups (\<dots>) = b # rest" by (rule newest_last) (use assms(1) in auto)
  finally show ?thesis .
qed

lemma pick_newest:
  assumes "stores d bs" and "newest_backups bs = b # rest" and "key = [] \<or> key = sb_id b"
  shows "pick (map sb_info (newest_backups bs)) key = Inr (sb_info b)"
  using assms(2,3) by (auto simp: pick_def)

lemma restore_served:
  assumes "\<And>k. served (env k)" and "alone w None None" and "stores (world_table w) bs" and "newest_backups bs = b # rest"
    and "ro_id opts = [] \<or> ro_id opts = sb_id b" and u: "unhindered se ks tmp"
    and "bi_size (sb_info b) = of_nat (length (concat (sb_chunks b)))"
    and "bi_sha256 (sb_info b) = EncodeToString (se_sha256 se (concat (sb_chunks b)))"
    and "se_age se ks (concat (sb_chunks b)) = Inr (plain, None)" and "Verify (se_sqlite se) plain = Inr tables"
    and "fs (ro_out opts) = None" and "fs tmp = None" and "tmp \<noteq> ro_out opts"
  shows "\<exists>w'. Backup_Restore env t se opts fs w = ((Inr (sb_info b, tables), fs(ro_out opts := Some plain)), w')"
proof -
  obtain w1 where l: "Turso_List env t w = (Inr (map sb_info (newest_backups bs)), w1)" "alone w1 None None" "stores (world_table w1) bs"
    by (rule list_served [where env = env and w = w and t = t, OF assms(1,2,3)])
  have b: "b \<in> set bs" by (metis assms(4) list.set_intros(1) set_newest)
  have wr: "se_write se i = None" for i using u by (simp add: unhindered_def)
  obtain w2 where f: "Turso_Fetch env t (sb_info b) (se_write se) w1 = ((None, concat (sb_chunks b)), w2)"
    by (rule fetch_served [where env = env and w = w1 and wfault = "se_write se" and t = t, OF assms(1) l(2,3) b wr])
  have se: "readIdentities se = Inr ks" "se_lstat se = None" "se_tempdir se = None" "se_cipher se = None" "se_seek se = None"
    using u by (simp_all add: unhindered_def)
  from decrypt_unhindered [OF u assms(9-13)] show ?thesis
    by (simp add: Backup_Restore_def se l(1) f pick_newest [OF assms(3-5)] assms(7,8,11))
qed

lemma backup_comes_back:
  assumes "\<And>k. served (env k)" and "alone w None None" and "stores (world_table w) bs" and "fresh_backup re bs"
    and "prepare_backup re = Inr (info, c)" and "re_snapshot re = Inr plain" and "re_read_fault re = None"
    and "\<And>x. x \<in> set bs \<Longrightarrow> bi_created_at (sb_info x) < created_text (re_now re)" and "1 \<le> r_keep r"
    and "unhindered se ks tmp" and "se_age se ks c = Inr (plain, None)" and "se_sha256 se = re_sha256 re" and "se_sqlite se = re_sqlite re"
    and "ro_id opts = [] \<or> ro_id opts = bi_id info" and "fs (ro_out opts) = None" and "fs tmp = None" and "tmp \<noteq> ro_out opts"
  shows "\<exists>res w1 got tables w2. Backup_Run env r re w = Some ((Some res, None), w1) \<and>
    Backup_Restore env t se opts fs w1 = ((Inr (got, tables), fs(ro_out opts := Some plain)), w2) \<and> bi_id got = rr_id res"
proof -
  let ?b = "run_backup r re info c"
  note p = prepared_sound [OF assms(5)]
  obtain res w1 where r: "Backup_Run env r re w = Some ((Some res, None), w1)" "rr_id res = bi_id info" "alone w1 None None"
    "stores (world_table w1) (retain (r_keep r) (bs @ [?b]))"
    by (rule run_served [where env = env and w = w and re = re and r = r, OF assms(1-5,7)])
  obtain tables where v: "Verify (re_sqlite re) plain = Inr tables" using p(1) assms(6) by auto
  obtain rest where n: "newest_backups (retain (r_keep r) (bs @ [?b])) = ?b # rest"
    using retain_last [of bs ?b "r_keep r"] assms(8,9) p(4) by auto
  have "\<exists>w'. Backup_Restore env t se opts fs w1 = ((Inr (sb_info ?b, tables), fs(ro_out opts := Some plain)), w')"
    by (rule restore_served [where env = env and w = w1, OF assms(1) r(3,4) n _ assms(10) _ _ _ _ assms(15-17)])
      (simp_all add: assms(11-14) p(2,3) v)
  then obtain w2 where "Backup_Restore env t se opts fs w1 = ((Inr (sb_info ?b, tables), fs(ro_out opts := Some plain)), w2)" by blast
  with r(1,2) show ?thesis by (metis run_backup_simps(1))
qed

subsection \<open>A run and a restore of it\<close>

definition ex_sqlite :: "string \<Rightarrow> sqlite_file result" where
  "ex_sqlite _ = Inr \<lparr>sf_integrity = Inr ''ok'', sf_master = Inr [(''table'', ''accounts''), (''index'', ''i'')], sf_count = (\<lambda>_. Inr 2)\<rparr>"

definition ex_run :: run_env where
  "ex_run = \<lparr>re_tempdir = None, re_snapshot = Inr ''db'', re_sqlite = ex_sqlite,
     re_encrypt = \<lparr>ee_open_in = None, ee_open_out = None, ee_close = None\<rparr>, re_age = (\<lambda>p. Inr (''age:'' @ p)), re_sha256 = (\<lambda>c. c),
     re_remove = None, re_now = 0, re_random = Inr ''r'', re_open = None, re_read_fault = None\<rparr>"

definition ex_info :: backup_info where
  "ex_info = \<lparr>bi_id = id_time 0 @ ''-'' @ EncodeToString ''r'', bi_created_at = created_text 0, bi_size = of_nat (length ''age:db''),
     bi_sha256 = EncodeToString ''age:db'', bi_chunks = 0\<rparr>"

definition ex_restore :: "unit restore_env" where
  "ex_restore = \<lparr>se_keyfile = Inr ''key'', se_identities = (\<lambda>_. Inr [()]), se_lstat = None, se_tempdir = None, se_cipher = None,
     se_write = (\<lambda>_. None), se_seek = None, se_sha256 = (\<lambda>c. c), se_age = (\<lambda>_ c. Inr (drop 4 c, None)), se_before = (\<lambda>fs. fs),
     se_temp = Inr ''tmp'', se_copy = None, se_close = None, se_sqlite = ex_sqlite, se_meanwhile = (\<lambda>fs. fs), se_link = None\<rparr>"

definition ex_call :: call_env where
  "ex_call = \<lparr>ce_unsent = False, ce_expired = False, ce_stmt = (\<lambda>_. None), ce_dropped = False, ce_baton = ''b'', ce_reply = Received,
     ce_null_blob = True, ce_padding = 2\<rparr>"

definition ex_remote :: turso_world where
  "ex_remote = \<lparr>tw_db = \<lparr>td_table = None, td_streams = []\<rparr>, tw_calls = 0\<rparr>"

definition ex_runner :: runner where
  "ex_runner = \<lparr>r_client = \<lparr>tc_endpoint = [], tc_token = [], tc_secrets = []\<rparr>, r_keep = 1, r_chunk_size = 4, r_timeout = 0\<rparr>"

lemma ex_prepared: "prepare_backup ex_run = Inr (ex_info, ''age:db'')"
  by (simp add: prepare_backup_def ex_run_def ex_info_def checkSnapshot_def Verify_def ex_sqlite_def user_table_def mirrorTables_def
      encryptFile_def newID_def HasPrefix_def ToLower_def lower_char_def Let_def)

lemma ex_facts:
  "served ex_call" "alone ex_remote None None" "stores (world_table ex_remote) []" "fresh_backup ex_run []"
  "unhindered ex_restore [()] ''tmp''" "keeps_temp ex_restore"
  by (simp_all add: served_def ex_call_def alone_def ex_remote_def stores_def fresh_backup_def ex_prepared unhindered_def keeps_temp_def
      ex_restore_def readIdentities_def)

lemma ex_comes_back:
  "\<exists>res w1 got tables w2. Backup_Run (\<lambda>_. ex_call) ex_runner ex_run ex_remote = Some ((Some res, None), w1) \<and>
    Backup_Restore (\<lambda>_. ex_call) (r_client ex_runner) ex_restore \<lparr>ro_id = [], ro_out = ''out''\<rparr> (\<lambda>_. None) w1 =
      ((Inr (got, tables), [''out'' \<mapsto> ''db'']), w2) \<and> bi_id got = rr_id res"
  using backup_comes_back [where env = "\<lambda>_. ex_call" and w = ex_remote and bs = "[]" and re = ex_run and r = ex_runner
      and se = ex_restore and opts = "\<lparr>ro_id = [], ro_out = ''out''\<rparr>" and fs = "\<lambda>_. None" and t = "r_client ex_runner",
      OF ex_facts(1-4) ex_prepared _ _ _ _ ex_facts(5)]
  by (simp add: ex_run_def ex_restore_def ex_runner_def)

subsection \<open>The properties\<close>

text \<open>
  C28: a backup run on any network, for any snapshot, key and clock: it either prepares nothing, and then the
  remote is not even called; or what it stores is a snapshot that passed the integrity check and has mirror
  rows. Then it returns, and leaves the old backups, or the old ones and the new one whole, or the newest
  \<open>keep\<close> of those; without an error it is the last, and no backup goes unless the new one is stored.
\<close>

theorem run_retention:
  assumes "stores (world_table w) bs" and "fresh_backup re bs"
  shows "case prepare_backup re of
      Inl e \<Rightarrow> Backup_Run env r re w = Some ((None, Some e), w)
    | Inr (info, c) \<Rightarrow>
        (\<exists>plain tables. re_snapshot re = Inr plain \<and> Verify (re_sqlite re) plain = Inr tables \<and>
           (\<exists>name n. (name, n) \<in> set tables \<and> name \<in> set mirrorTables \<and> 0 < sint n) \<and> re_age re plain = Inr c) \<and>
        (\<exists>res e w'. Backup_Run env r re w = Some ((res, e), w') \<and>
           run_left bs (run_backup r re info c) (r_keep r) res e (world_table w'))"
proof (cases "prepare_backup re")
  case (Inl e)
  then show ?thesis by (simp add: Backup_Run_def)
next
  case (Inr x)
  obtain info c where "x = (info, c)" by fastforce
  with Inr have p: "prepare_backup re = Inr (info, c)" by simp
  from prepared_sound(1) [OF p] run_retains [OF assms p, of env r] show ?thesis by (simp add: p)
qed

theorem run_retention_witness:
  "\<exists>res e w'. Backup_Run (\<lambda>_. ex_call) ex_runner ex_run ex_remote = Some ((res, e), w') \<and>
     run_left [] (run_backup ex_runner ex_run ex_info ''age:db'') 1 res e (world_table w')"
  using run_retention [OF ex_facts(3,4), of "\<lambda>_. ex_call" ex_runner] by (simp add: ex_prepared) (simp add: ex_runner_def)

text \<open>
  C8: a restore on any network and file system, next to others who leave its temp file alone: at the end
  every file but \<open>Out\<close> is as the others left it, a file they put at \<open>Out\<close> is not replaced, and a failed restore
  leaves nothing. When it succeeds, \<open>Out\<close> holds the decryption of bytes whose size and SHA-256 are the
  listed ones, and that database passed \<open>Verify\<close>.
\<close>

theorem restore_safe:
  assumes "keeps_temp se" and "Backup_Restore env t se opts fs w = ((r, fs'), w')"
  shows "\<exists>g. others_left se fs g \<and> (\<forall>p. p \<noteq> ro_out opts \<longrightarrow> fs' p = g p) \<and> (g (ro_out opts) \<noteq> None \<longrightarrow> fs' = g) \<and>
    (case r of
       Inl e \<Rightarrow> fs' = g
     | Inr (info, tables) \<Rightarrow>
         g (ro_out opts) = None \<and> (\<exists>cipher plain. fs' (ro_out opts) = Some plain \<and> restored se opts info tables cipher plain))"
proof -
  note left = restore_left [OF assms]
  show ?thesis
  proof (cases r)
    case (Inl e)
    with left show ?thesis by auto
  next
    case (Inr it)
    obtain info tables where "it = (info, tables)" by fastforce
    with left Inr obtain cipher plain g where "others_left se fs g" "g (ro_out opts) = None" "fs' = g(ro_out opts := Some plain)"
      "restored se opts info tables cipher plain" by auto
    then show ?thesis by (intro exI [of _ g]) (auto simp: Inr \<open>it = _\<close>)
  qed
qed

theorem restore_safe_witness:
  "\<exists>w1 got tables fs' w2.
     Backup_Restore (\<lambda>_. ex_call) (r_client ex_runner) ex_restore \<lparr>ro_id = [], ro_out = ''out''\<rparr> (\<lambda>_. None) w1 =
       ((Inr (got, tables), fs'), w2) \<and>
     (\<exists>cipher plain. fs' ''out'' = Some plain \<and> restored ex_restore \<lparr>ro_id = [], ro_out = ''out''\<rparr> got tables cipher plain)"
proof -
  obtain w1 got tables w2 where r:
    "Backup_Restore (\<lambda>_. ex_call) (r_client ex_runner) ex_restore \<lparr>ro_id = [], ro_out = ''out''\<rparr> (\<lambda>_. None) w1 =
      ((Inr (got, tables), [''out'' \<mapsto> ''db'']), w2)" using ex_comes_back by blast
  from restore_safe [OF ex_facts(6) r] r show ?thesis by fastforce
qed

text \<open>
  C22: what was backed up comes back. When the network serves every call, the backups are older than the run
  and at least one is kept, a run of a sound snapshot returns its result, and a restore with a key that opens it, of
  the newest backup or of its id, writes exactly the snapshot to \<open>Out\<close> and no other file.
\<close>

theorem backup_restores:
  assumes "\<And>k. served (env k)" and "alone w None None" and "stores (world_table w) bs" and "fresh_backup re bs"
    and "prepare_backup re = Inr (info, c)" and "re_snapshot re = Inr plain" and "re_read_fault re = None"
    and "\<And>x. x \<in> set bs \<Longrightarrow> bi_created_at (sb_info x) < created_text (re_now re)" and "1 \<le> r_keep r"
    and "unhindered se ks tmp" and "se_age se ks c = Inr (plain, None)" and "se_sha256 se = re_sha256 re" and "se_sqlite se = re_sqlite re"
    and "ro_id opts = [] \<or> ro_id opts = bi_id info" and "fs (ro_out opts) = None" and "fs tmp = None" and "tmp \<noteq> ro_out opts"
  shows "\<exists>res w1 got tables w2. Backup_Run env r re w = Some ((Some res, None), w1) \<and>
    Backup_Restore env t se opts fs w1 = ((Inr (got, tables), fs(ro_out opts := Some plain)), w2) \<and> bi_id got = rr_id res"
  by (rule backup_comes_back) (fact assms)+

theorem backup_restores_witness:
  "\<exists>res w1 got tables w2. Backup_Run (\<lambda>_. ex_call) ex_runner ex_run ex_remote = Some ((Some res, None), w1) \<and>
    Backup_Restore (\<lambda>_. ex_call) (r_client ex_runner) ex_restore \<lparr>ro_id = [], ro_out = ''out''\<rparr> (\<lambda>_. None) w1 =
      ((Inr (got, tables), [''out'' \<mapsto> ''db'']), w2) \<and> bi_id got = rr_id res"
  using backup_restores [where env = "\<lambda>_. ex_call" and w = ex_remote and bs = "[]" and re = ex_run and r = ex_runner
      and se = ex_restore and opts = "\<lparr>ro_id = [], ro_out = ''out''\<rparr>" and fs = "\<lambda>_. None" and t = "r_client ex_runner",
      OF ex_facts(1-4) ex_prepared _ _ _ _ ex_facts(5)]
  by (simp add: ex_run_def ex_restore_def ex_runner_def)

end
