(* ===== verification/Migrate.thy ===== *)
theory Migrate
  imports GoText GoTime SqlTx
begin

text \<open>
  Schema migrations (\<open>store/migrate.go\<close>): the embedded files by version, each applied and recorded in one
  write transaction. What a script does to the schema is SQLite's, so it is an argument (\<open>run\<close>); what
  fails is the environment's.
\<close>

subsection \<open>The files\<close>

record migration =
  mg_version :: int64
  mg_name :: string
  mg_sql :: string

text \<open>The body of the loop: the version of a file, \<open>None\<close> when it is not \<open>NNNN_name.sql\<close>.\<close>

definition file_version :: "string \<Rightarrow> int64 option" where
  "file_version base =
     (case Cut CHR ''_'' base of
        (num, _, ok) \<Rightarrow>
          (case ParseInt64 num of
             None \<Rightarrow> None
           | Some v \<Rightarrow> if ok \<and> 0 < sint v then Some v else None))"

fun load_files :: "(int64 \<times> string) list \<Rightarrow> (string \<times> string result) list \<Rightarrow> migration list result" where
  "load_files seen [] = Inr []"
| "load_files seen ((f, content) # fs) =
     (let base = TrimPrefix f ''migrations/''
      in case file_version base of
           None \<Rightarrow> Inl (newError (''store: bad migration name '' @ Quote base @ '' (want NNNN_name.sql)''))
         | Some v \<Rightarrow>
             (case map_of seen v of
                Some prev \<Rightarrow> Inl (newError (''store: duplicate migration version '' @ dec_int (sint v) @ '': '' @ prev @ '' and '' @ base))
              | None \<Rightarrow>
                  (case content of
                     Inl e \<Rightarrow> Inl e
                   | Inr sql \<Rightarrow>
                       (case load_files ((v, base) # seen) fs of
                          Inl e \<Rightarrow> Inl e
                        | Inr ms \<Rightarrow> Inr (\<lparr>mg_version = v, mg_name = base, mg_sql = sql\<rparr> # ms)))))"

definition loadMigrations :: "(string \<times> string result) list result \<Rightarrow> migration list result" where
  "loadMigrations glob =
     (case glob of
        Inl e \<Rightarrow> Inl e
      | Inr files \<Rightarrow>
          (case load_files [] files of
             Inl e \<Rightarrow> Inl e
           | Inr ms \<Rightarrow> Inr (sort_key (\<lambda>m. sint (mg_version m)) ms)))"

subsection \<open>Applying them\<close>

text \<open>A database: what the scripts made of it, and \<open>schema_migrations\<close> (\<open>None\<close>: not created yet).\<close>

record 'd mig_db =
  md_data :: 'd
  md_applied :: "(int64, string \<times> string) tbl option"

record 'd mig_env =
  me_run :: "string \<Rightarrow> 'd \<Rightarrow> 'd result"
  me_fk :: "'d mig_db \<Rightarrow> bool"
  me_create :: "error option"
  me_read :: "error option"
  me_scan :: "error option"
  me_tx :: "nat \<Rightarrow> tx_faults"
  me_insert :: "nat \<Rightarrow> error option"
  me_now :: "nat \<Rightarrow> time"

definition versions :: "'d mig_db \<Rightarrow> int64 list" where
  "versions d = (case md_applied d of None \<Rightarrow> [] | Some t \<Rightarrow> tbl_keys t)"

definition migration_body :: "'d mig_env \<Rightarrow> nat \<Rightarrow> migration \<Rightarrow> 'd mig_db \<Rightarrow> 'd mig_db outcome" where
  "migration_body me i m d =
     (case me_run me (mg_sql m) (md_data d) of
        Inl e \<Rightarrow> Fails e
      | Inr x \<Rightarrow>
          (case me_insert me i of
             Some e \<Rightarrow> Fails e
           | None \<Rightarrow>
               (case md_applied d of
                  None \<Rightarrow> Fails (newError ''no such table: schema_migrations'')
                | Some t \<Rightarrow>
                    if tbl_get t (mg_version m) \<noteq> None then Fails (newError ''UNIQUE constraint failed: schema_migrations.version'')
                    else Returns \<lparr>md_data = x, md_applied = Some (t @ [(mg_version m, (mg_name m, formatTime (me_now me i)))])\<rparr>)))"

definition applyMigration :: "'d mig_env \<Rightarrow> nat \<Rightarrow> migration \<Rightarrow> 'd mig_db conn \<Rightarrow> error option \<times> 'd mig_db conn" where
  "applyMigration me i m c =
     (case writeTx (me_tx me i) (me_fk me) (migration_body me i m) c of
        (r, c') \<Rightarrow> (map_option (wrapError (''store: migration '' @ mg_name m)) (outcome_error r), c'))"

fun apply_pending :: "'d mig_env \<Rightarrow> int64 list \<Rightarrow> nat \<Rightarrow> migration list \<Rightarrow> 'd mig_db conn \<Rightarrow> error option \<times> 'd mig_db conn" where
  "apply_pending me applied i [] c = (None, c)"
| "apply_pending me applied i (m # ms) c =
     (if mg_version m \<in> set applied then apply_pending me applied (Suc i) ms c
      else (case applyMigration me i m c of
              (Some e, c') \<Rightarrow> (Some e, c')
            | (None, c') \<Rightarrow> apply_pending me applied (Suc i) ms c'))"

text \<open>\<open>CREATE TABLE IF NOT EXISTS schema_migrations\<close>, outside a transaction.\<close>

definition create_applied :: "'d mig_db \<Rightarrow> 'd mig_db" where
  "create_applied d = (case md_applied d of None \<Rightarrow> d\<lparr>md_applied := Some []\<rparr> | Some _ \<Rightarrow> d)"

definition migrateFS :: "'d mig_env \<Rightarrow> (string \<times> string result) list result \<Rightarrow> 'd mig_db conn \<Rightarrow> error option \<times> 'd mig_db conn" where
  "migrateFS me glob c =
     (case loadMigrations glob of
        Inl e \<Rightarrow> (Some e, c)
      | Inr ms \<Rightarrow>
          (case me_create me of
             Some e \<Rightarrow> (Some (wrapError ''store: create schema_migrations'' e), c)
           | None \<Rightarrow>
               (let c1 = c\<lparr>committed := create_applied (committed c)\<rparr>
                in case me_read me of
                     Some e \<Rightarrow> (Some (wrapError ''store: read schema_migrations'' e), c1)
                   | None \<Rightarrow>
                       (case me_scan me of
                          Some e \<Rightarrow> (Some e, c1)
                        | None \<Rightarrow> apply_pending me (versions (committed c1)) 0 ms c1))))"

subsection \<open>What loads is in order\<close>

lemma load_files_versions:
  "load_files seen fs = Inr ms \<Longrightarrow> distinct (map mg_version ms) \<and> set (map mg_version ms) \<inter> fst ` set seen = {} \<and>
     (\<forall>m \<in> set ms. 0 < sint (mg_version m)) \<and>
     list_all2 (\<lambda>f m. mg_name m = TrimPrefix (fst f) ''migrations/'' \<and> snd f = Inr (mg_sql m)) fs ms"
proof (induction seen fs arbitrary: ms rule: load_files.induct)
  case (2 seen f content fs)
  then obtain v sql ms' where v: "file_version (TrimPrefix f ''migrations/'') = Some v" "map_of seen v = None" "content = Inr sql"
    and l: "load_files ((v, TrimPrefix f ''migrations/'') # seen) fs = Inr ms'"
    and ms: "ms = \<lparr>mg_version = v, mg_name = TrimPrefix f ''migrations/'', mg_sql = sql\<rparr> # ms'"
    by (auto simp: Let_def split: option.splits sum.splits)
  have "0 < sint v" using v(1) by (auto simp: file_version_def split: prod.splits option.splits if_splits)
  moreover have "v \<notin> fst ` set seen" using v(2) by (simp add: map_of_eq_None_iff)
  ultimately show ?case using "2.IH" [OF refl v(1,2,3) l] by (auto simp: ms v(3))
qed simp

lemma loadMigrations_sorted:
  assumes "loadMigrations glob = Inr ms"
  shows "distinct (map mg_version ms)" and "sorted (map (\<lambda>m. sint (mg_version m)) ms)"
  using assms load_files_versions
  by (fastforce simp: loadMigrations_def distinct_map inj_on_def split: sum.splits)+

subsection \<open>What a run leaves\<close>

fun run_all :: "(string \<Rightarrow> 'd \<Rightarrow> 'd result) \<Rightarrow> migration list \<Rightarrow> 'd \<Rightarrow> 'd result" where
  "run_all run [] s = Inr s"
| "run_all run (m # ms) s = (case run (mg_sql m) s of Inl e \<Rightarrow> Inl e | Inr s' \<Rightarrow> run_all run ms s')"

definition pending :: "int64 set \<Rightarrow> migration list \<Rightarrow> migration list" where
  "pending V ms = filter (\<lambda>m. mg_version m \<notin> V) ms"

text \<open>\<open>d\<close> is \<open>d0\<close> with the migrations \<open>pre\<close> applied in their order and recorded.\<close>

definition progress :: "(string \<Rightarrow> 'd \<Rightarrow> 'd result) \<Rightarrow> 'd mig_db \<Rightarrow> migration list \<Rightarrow> 'd mig_db \<Rightarrow> bool" where
  "progress run d0 pre d \<longleftrightarrow>
     run_all run pre (md_data d0) = Inr (md_data d) \<and> set (versions d) = set (versions d0) \<union> set (map mg_version pre)"

lemma run_all_append: "run_all run (xs @ ys) s = (case run_all run xs s of Inl e \<Rightarrow> Inl e | Inr s' \<Rightarrow> run_all run ys s')"
  by (induction xs arbitrary: s) (auto split: sum.split)

lemma progress_refl [simp]: "progress run d [] d"
  by (simp add: progress_def)

lemma progress_trans: "progress run d0 xs d1 \<Longrightarrow> progress run d1 ys d2 \<Longrightarrow> progress run d0 (xs @ ys) d2"
  by (auto simp: progress_def run_all_append)

lemma pending_progress:
  assumes "pending (set (versions d0)) ms = pre @ suf" and "distinct (map mg_version ms)" and "progress run d0 pre d"
  shows "pending (set (versions d)) ms = suf"
proof -
  let ?p = "pending (set (versions d0)) ms"
  have "distinct (map mg_version ?p)" using assms(2) by (simp add: pending_def distinct_map_filter)
  then have "distinct (map mg_version (pre @ suf))" by (simp only: assms(1))
  then have d: "mg_version ` set pre \<inter> mg_version ` set suf = {}" by simp
  have "pending (set (versions d)) ms = filter (\<lambda>m. mg_version m \<notin> mg_version ` set pre) ?p"
    using assms(3) by (auto simp: pending_def progress_def intro!: filter_cong)
  also have "\<dots> = suf" unfolding assms(1) using d by (auto simp: filter_empty_conv intro!: filter_True)
  finally show ?thesis .
qed

lemma migration_body_step:
  "migration_body me i m d = Returns d' \<Longrightarrow>
     progress (me_run me) d [m] d' \<and> md_applied d \<noteq> None \<and> md_applied d' \<noteq> None \<and> mg_version m \<notin> set (versions d)"
  by (auto simp: migration_body_def progress_def versions_def tbl_keys_def[symmetric] tbl_get_None_iff
      split: sum.splits option.splits if_splits) (auto simp: tbl_keys_def)

lemma applyMigration_exit:
  assumes "conn_idle c" and "applyMigration me i m c = (e, c')"
  shows "conn_idle c'" and "e \<noteq> None \<Longrightarrow> committed c' = committed c"
    and "e = None \<Longrightarrow> progress (me_run me) (committed c) [m] (committed c')"
proof -
  obtain r where w: "writeTx (me_tx me i) (me_fk me) (migration_body me i m) c = (r, c')"
    and e: "e = map_option (wrapError (''store: migration '' @ mg_name m)) (outcome_error r)"
    using assms(2) by (auto simp: applyMigration_def split: prod.splits)
  note x = writeTx_exit [OF assms(1), of "me_tx me i" "me_fk me" "migration_body me i m", unfolded w fst_conv snd_conv]
  show "conn_idle c'" by (rule x(1))
  show "e \<noteq> None \<Longrightarrow> committed c' = committed c" using x(3) by (auto simp: e)
  show "e = None \<Longrightarrow> progress (me_run me) (committed c) [m] (committed c')"
    using x(2) migration_body_step by (fastforce simp: e)
qed

lemma apply_pending_prefix:
  assumes "conn_idle c" and "apply_pending me applied i ms c = (e, c')"
  shows "\<exists>pre suf. pending (set applied) ms = pre @ suf \<and> progress (me_run me) (committed c) pre (committed c') \<and> (e = None \<longrightarrow> suf = [])"
  using assms
proof (induction ms arbitrary: i c)
  case Nil
  then show ?case by (simp add: pending_def)
next
  case (Cons m ms)
  show ?case
  proof (cases "mg_version m \<in> set applied")
    case True
    with Cons.prems Cons.IH [of c "Suc i"] show ?thesis by (simp add: pending_def)
  next
    case False
    then have p: "pending (set applied) (m # ms) = m # pending (set applied) ms" by (simp add: pending_def)
    obtain x c1 where a: "applyMigration me i m c = (x, c1)" by (metis surj_pair)
    note step = applyMigration_exit [OF Cons.prems(1) a]
    show ?thesis
    proof (cases x)
      case (Some y)
      then have "c' = c1" "e = Some y" using Cons.prems(2) False a by simp_all
      then have "progress (me_run me) (committed c) [] (committed c')" using step(2) Some by simp
      then show ?thesis using \<open>e = Some y\<close> by (intro exI [of _ "[]"] exI [of _ "pending (set applied) (m # ms)"]) simp
    next
      case None
      with Cons.prems(2) False a have "apply_pending me applied (Suc i) ms c1 = (e, c')" by simp
      from Cons.IH [OF step(1) this] obtain pre suf where
        "pending (set applied) ms = pre @ suf" "progress (me_run me) (committed c1) pre (committed c')" "e = None \<longrightarrow> suf = []" by blast
      with progress_trans [OF step(3) [OF None]] p show ?thesis
        by (intro exI [of _ "m # pre"] exI [of _ suf]) simp
    qed
  qed
qed

lemma create_applied_simps [simp]:
  "md_data (create_applied d) = md_data d" "versions (create_applied d) = versions d"
  by (simp_all add: create_applied_def versions_def split: option.split)

lemma progress_created [simp]: "progress run (create_applied d) pre d' = progress run d pre d'"
  "progress run d [] (create_applied d)"
  by (simp_all add: progress_def)

text \<open>One run applies the pending migrations in version order, or stops after some of them.\<close>

lemma migrateFS_prefix:
  assumes "conn_idle c" and "loadMigrations glob = Inr ms" and "migrateFS me glob c = (e, c')"
  shows "\<exists>pre suf. pending (set (versions (committed c))) ms = pre @ suf \<and>
    progress (me_run me) (committed c) pre (committed c') \<and> (e = None \<longrightarrow> suf = [])"
proof -
  let ?c1 = "c\<lparr>committed := create_applied (committed c)\<rparr>"
  have stop: ?thesis if "e \<noteq> None" "committed c' = committed c \<or> committed c' = create_applied (committed c)"
    using that by (intro exI [of _ "[]"] exI [of _ "pending (set (versions (committed c))) ms"]) auto
  show ?thesis
  proof (cases "me_create me = None \<and> me_read me = None \<and> me_scan me = None")
    case True
    then have "apply_pending me (versions (committed ?c1)) 0 ms ?c1 = (e, c')"
      using assms(2,3) by (simp add: migrateFS_def Let_def)
    from apply_pending_prefix [OF _ this] assms(1) show ?thesis by (simp add: conn_idle_def)
  next
    case False
    with assms(2,3) have "e \<noteq> None \<and> (committed c' = committed c \<or> committed c' = create_applied (committed c))"
      by (cases "me_create me"; cases "me_read me"; cases "me_scan me") (auto simp: migrateFS_def Let_def)
    then show ?thesis using stop by blast
  qed
qed

text \<open>Runs that may fail, each on a new connection.\<close>

definition migrate_run :: "(string \<times> string result) list result \<Rightarrow> 'd mig_env \<Rightarrow> 'd mig_db \<Rightarrow> 'd mig_db" where
  "migrate_run glob me d = committed (snd (migrateFS me glob (fresh_conn d)))"

lemma runs_progress:
  assumes "loadMigrations glob = Inr ms" and "\<And>me. me \<in> set mes \<Longrightarrow> me_run me = run"
  shows "\<exists>pre suf. pending (set (versions d)) ms = pre @ suf \<and> progress run d pre (fold (migrate_run glob) mes d)"
  using assms(2)
proof (induction mes arbitrary: d)
  case Nil
  show ?case by (intro exI [of _ "[]"] exI [of _ "pending (set (versions d)) ms"]) simp
next
  case (Cons me mes)
  obtain e c' where m: "migrateFS me glob (fresh_conn d) = (e, c')" by (metis surj_pair)
  obtain pre suf where p: "pending (set (versions d)) ms = pre @ suf" "progress run d pre (committed c')"
    using migrateFS_prefix [OF _ assms(1) m] Cons.prems by auto
  obtain pre2 suf2 where q: "pending (set (versions (committed c'))) ms = pre2 @ suf2"
    "progress run (committed c') pre2 (fold (migrate_run glob) mes (committed c'))" using Cons.IH Cons.prems by (metis list.set_intros(2))
  have "suf = pre2 @ suf2" using pending_progress [OF p(1) loadMigrations_sorted(1) [OF assms(1)] p(2)] q(1) by simp
  then have "pending (set (versions d)) ms = (pre @ pre2) @ suf2" using p(1) by simp
  moreover have "fold (migrate_run glob) (me # mes) d = fold (migrate_run glob) mes (committed c')"
    by (simp add: migrate_run_def m)
  ultimately show ?case using progress_trans [OF p(2) q(2)] by (rule_tac exI [of _ "pre @ pre2"]) auto
qed

subsection \<open>The property\<close>

text \<open>
  C30: migrations are applied once each, in the order of their versions, however often the process stops on
  the way. After any number of runs, each of which may fail anywhere, a run that returns no error leaves the
  schema of one clean pass over the pending files and records exactly them; any further run changes nothing.
\<close>

theorem migrations_resume:
  assumes "loadMigrations glob = Inr ms" and "\<And>me. me \<in> set mes \<Longrightarrow> me_run me = run" and "me_run me = run" and "me_run again = run"
    and "migrateFS me glob (fresh_conn (fold (migrate_run glob) mes d)) = (None, c)"
  shows "run_all run (pending (set (versions d)) ms) (md_data d) = Inr (md_data (committed c)) \<and>
    set (versions (committed c)) = set (versions d) \<union> set (map mg_version ms) \<and>
    sorted (map (\<lambda>m. sint (mg_version m)) (pending (set (versions d)) ms)) \<and> distinct (map mg_version ms) \<and>
    md_data (migrate_run glob again (committed c)) = md_data (committed c) \<and>
    set (versions (migrate_run glob again (committed c))) = set (versions (committed c))"
proof -
  let ?d1 = "fold (migrate_run glob) mes d"
  note sorted = loadMigrations_sorted [OF assms(1)]
  obtain pre suf where p: "pending (set (versions d)) ms = pre @ suf" "progress run d pre ?d1"
    using runs_progress [OF assms(1,2), of mes d] by auto
  have suf: "pending (set (versions ?d1)) ms = suf" by (rule pending_progress [OF p(1) sorted(1) p(2)])
  obtain pre2 suf2 where "pending (set (versions ?d1)) ms = pre2 @ suf2" "progress (me_run me) ?d1 pre2 (committed c)" "suf2 = []"
    using migrateFS_prefix [OF conn_idle_simps(1) assms(1,5)] unfolding conn_idle_simps(2) by blast
  then have q: "suf = pre2" "progress run ?d1 pre2 (committed c)" unfolding suf assms(3) by simp_all
  have whole: "progress run d (pending (set (versions d)) ms) (committed c)"
    using progress_trans [OF p(2) q(2)] by (simp only: p(1) q(1))
  then have v: "set (versions (committed c)) = set (versions d) \<union> set (map mg_version ms)"
    by (auto simp: progress_def pending_def)
  then have none: "pending (set (versions (committed c))) ms = []" by (auto simp: pending_def filter_empty_conv)
  obtain e c2 where m: "migrateFS again glob (fresh_conn (committed c)) = (e, c2)" by (metis surj_pair)
  have "progress run (committed c) [] (committed c2)"
    using migrateFS_prefix [OF _ assms(1) m] none assms(4) by simp
  moreover have "sorted (map (\<lambda>m. sint (mg_version m)) (pending (set (versions d)) ms))"
    using sorted(2) by (simp add: pending_def sorted_filter)
  ultimately show ?thesis
    using whole v sorted(1) by (simp add: progress_def migrate_run_def m)
qed

definition ex_glob :: "(string \<times> string result) list result" where
  "ex_glob = Inr [(''migrations/0001_a.sql'', Inr ''one''), (''migrations/0002_b.sql'', Inr ''two'')]"

definition ex_mig_env :: "(nat \<Rightarrow> error option) \<Rightarrow> string list mig_env" where
  "ex_mig_env ins = \<lparr>me_run = (\<lambda>q d. Inr (d @ [q])), me_fk = (\<lambda>_. True), me_create = None, me_read = None, me_scan = None,
     me_tx = (\<lambda>_. no_faults), me_insert = ins, me_now = (\<lambda>_. 0)\<rparr>"

definition ex_empty :: "string list mig_db" where
  "ex_empty = \<lparr>md_data = [], md_applied = None\<rparr>"

definition ex_stops :: "string list mig_env" where
  "ex_stops = ex_mig_env (\<lambda>i. if i = 1 then Some (newError ''disk full'') else None)"

definition ex_works :: "string list mig_env" where
  "ex_works = ex_mig_env (\<lambda>_. None)"

lemma ex_versions: "ParseInt64 ''0001'' = Some 1" "ParseInt64 ''0002'' = Some 2"
  by (simp_all add: ParseInt64_def HasPrefix_def digit_val_def)

lemma ex_load: "loadMigrations ex_glob =
    Inr [\<lparr>mg_version = 1, mg_name = ''0001_a.sql'', mg_sql = ''one''\<rparr>, \<lparr>mg_version = 2, mg_name = ''0002_b.sql'', mg_sql = ''two''\<rparr>]"
  by (simp add: loadMigrations_def ex_glob_def file_version_def ex_versions TrimPrefix_def HasPrefix_def Let_def)

lemma ex_runs:
  "md_data (migrate_run ex_glob ex_stops ex_empty) = [''one'']"
  "fst (migrateFS ex_works ex_glob (fresh_conn (migrate_run ex_glob ex_stops ex_empty))) = None"
  by (simp_all add: migrate_run_def migrateFS_def ex_load ex_stops_def ex_works_def ex_mig_env_def ex_empty_def Let_def versions_def
      create_applied_def applyMigration_def migration_body_def tx_defs fresh_conn_def no_faults_def)

theorem migrations_resume_witness:
  "md_data (committed (snd (migrateFS ex_works ex_glob (fresh_conn (migrate_run ex_glob ex_stops ex_empty))))) = [''one'', ''two'']"
proof -
  obtain c where c: "migrateFS ex_works ex_glob (fresh_conn (migrate_run ex_glob ex_stops ex_empty)) = (None, c)"
    using ex_runs(2) by (metis prod.collapse)
  have run: "me_run ex_stops = (\<lambda>q d. Inr (d @ [q]))" "me_run ex_works = (\<lambda>q d. Inr (d @ [q]))"
    by (simp_all add: ex_stops_def ex_works_def ex_mig_env_def)
  from migrations_resume [OF ex_load, of "[ex_stops]" "\<lambda>q d. Inr (d @ [q])" ex_works ex_works ex_empty c] c run
  show ?thesis by (simp add: ex_empty_def versions_def pending_def)
qed

end
