(* ===== verification/StoreOpen.thy ===== *)
theory StoreOpen
  imports Migrate
begin

text \<open>
  Opening the database (\<open>store/store.go\<close>: \<open>Open\<close>, \<open>makePrivate\<close>, \<open>openPool\<close>, \<open>verifyPragmas\<close>, \<open>dsn\<close>), \<open>Close\<close> and \<open>Snapshot\<close>. The file
  system is the mode of each file that exists; the driver's answers and \<open>filepath.Clean\<close> are arguments.
\<close>

subsection \<open>The connection string\<close>

definition uri_char :: "char \<Rightarrow> string" where
  "uri_char c = (if c = CHR ''%'' then ''%25'' else if c = CHR ''?'' then ''%3f'' else if c = CHR ''#'' then ''%23'' else [c])"

definition uriPath :: "(string \<Rightarrow> string) \<Rightarrow> string \<Rightarrow> string" where
  "uriPath clean path = concat (map uri_char (if path \<noteq> '':memory:'' then clean path else path))"

definition BusyTimeout_ms :: nat where
  "BusyTimeout_ms = 5000"

text \<open>\<open>url.QueryEscape\<close>, and the values of one key in their order.\<close>

definition query_char :: "char \<Rightarrow> string" where
  "query_char c =
     (let n = of_char c :: nat; hex = (\<lambda>k. if k < 10 then char_of (48 + k) else char_of (55 + k))
      in if (48 \<le> n \<and> n \<le> 57) \<or> (65 \<le> n \<and> n \<le> 90) \<or> (97 \<le> n \<and> n \<le> 122) \<or> n \<in> {45, 46, 95, 126} then [c]
         else if n = 32 then ''+''
         else [CHR ''%'', hex (n div 16), hex (n mod 16)])"

definition dsn :: "(string \<Rightarrow> string) \<Rightarrow> string \<Rightarrow> bool \<Rightarrow> string" where
  "dsn clean path readOnly =
     ''file:'' @ uriPath clean path @ ''?'' @
     Join ''&'' (map (\<lambda>v. ''_pragma='' @ concat (map query_char v))
       ([''busy_timeout('' @ dec BusyTimeout_ms @ '')'', ''journal_mode(WAL)'', ''foreign_keys(ON)'', ''synchronous(NORMAL)''] @
        (if readOnly then [''query_only(ON)''] else [])))"

subsection \<open>Pools\<close>

definition wanted_pragmas :: "bool \<Rightarrow> (string \<times> string) list" where
  "wanted_pragmas readOnly =
     [(''journal_mode'', ''wal''), (''busy_timeout'', dec BusyTimeout_ms), (''foreign_keys'', ''1''), (''synchronous'', ''1'')] @
     (if readOnly then [(''query_only'', ''1'')] else [])"

fun check_pragmas :: "(string \<Rightarrow> string result) \<Rightarrow> (string \<times> string) list \<Rightarrow> error option" where
  "check_pragmas read [] = None"
| "check_pragmas read ((p, v) # want) =
     (case read p of
        Inl e \<Rightarrow> Some (wrapError (''store: read pragma '' @ p) e)
      | Inr got \<Rightarrow>
          if got \<noteq> v then Some (newError (''store: pragma '' @ p @ '' = '' @ Quote got @ '', want '' @ Quote v))
          else check_pragmas read want)"

definition verifyPragmas :: "(string \<Rightarrow> string result) \<Rightarrow> bool \<Rightarrow> error option" where
  "verifyPragmas read readOnly = check_pragmas read (wanted_pragmas readOnly)"

text \<open>\<open>open_db dsn\<close> is the driver's: an error, or what a connection of the pool answers to \<open>PRAGMA\<close>.\<close>

definition openPool :: "(string \<Rightarrow> (string \<Rightarrow> string result) result) \<Rightarrow> (string \<Rightarrow> string) \<Rightarrow> string \<Rightarrow> bool \<Rightarrow> error option" where
  "openPool open_db clean path readOnly =
     (case open_db (dsn clean path readOnly) of
        Inl e \<Rightarrow> Some (wrapError ''store: open'' e)
      | Inr read \<Rightarrow> verifyPragmas read readOnly)"

subsection \<open>The files\<close>

type_synonym modes = "string \<Rightarrow> nat option"

definition mode_private :: nat where
  "mode_private = 384"

text \<open>\<open>os.Chmod\<close>: a missing file is \<open>fs.ErrNotExist\<close> (\<open>Some None\<close>), another failure \<open>Some (Some e)\<close>.\<close>

definition chmod :: "(string \<Rightarrow> error option) \<Rightarrow> string \<Rightarrow> modes \<Rightarrow> error option option \<times> modes" where
  "chmod flt p fs =
     (case flt p of
        Some e \<Rightarrow> (Some (Some e), fs)
      | None \<Rightarrow> if fs p = None then (Some None, fs) else (None, fs(p := Some mode_private)))"

fun chmod_sidecars :: "(string \<Rightarrow> error option) \<Rightarrow> string \<Rightarrow> string list \<Rightarrow> modes \<Rightarrow> error option \<times> modes" where
  "chmod_sidecars flt path [] fs = (None, fs)"
| "chmod_sidecars flt path (s # ss) fs =
     (case chmod flt (path @ s) fs of
        (Some (Some e), fs') \<Rightarrow> (Some (wrapError ''store: restrict database file'' e), fs')
      | (_, fs') \<Rightarrow> chmod_sidecars flt path ss fs')"

definition makePrivate :: "error option \<Rightarrow> (string \<Rightarrow> error option) \<Rightarrow> string \<Rightarrow> modes \<Rightarrow> error option \<times> modes" where
  "makePrivate create flt path fs =
     (if path = '':memory:'' then (None, fs)
      else (case create of
              Some e \<Rightarrow> (Some (wrapError ''store: create database file'' e), fs)
            | None \<Rightarrow>
                (let fs1 = (if fs path = None then fs(path := Some mode_private) else fs)
                 in case chmod flt path fs1 of
                      (Some e, fs2) \<Rightarrow>
                        (Some (wrapError ''store: restrict database file'' (case e of None \<Rightarrow> newError ''file does not exist'' | Some x \<Rightarrow> x)), fs2)
                    | (None, fs2) \<Rightarrow> chmod_sidecars flt path [''-wal'', ''-shm''] fs2)))"

record 'd open_env =
  oe_create :: "error option"
  oe_chmod :: "string \<Rightarrow> error option"
  oe_clean :: "string \<Rightarrow> string"
  oe_open :: "string \<Rightarrow> (string \<Rightarrow> string result) result"
  oe_migrate :: "'d mig_env"
  oe_files :: "(string \<times> string result) list result"

definition Store_Open :: "'d open_env \<Rightarrow> string \<Rightarrow> modes \<Rightarrow> 'd mig_db conn \<Rightarrow> error option \<times> modes \<times> 'd mig_db conn" where
  "Store_Open oe path fs c =
     (case makePrivate (oe_create oe) (oe_chmod oe) path fs of
        (Some e, fs') \<Rightarrow> (Some e, fs', c)
      | (None, fs') \<Rightarrow>
          (case openPool (oe_open oe) (oe_clean oe) path False of
             Some e \<Rightarrow> (Some e, fs', c)
           | None \<Rightarrow>
               (case migrateFS (oe_migrate oe) (oe_files oe) c of
                  (Some e, c') \<Rightarrow> (Some e, fs', c')
                | (None, c') \<Rightarrow> (openPool (oe_open oe) (oe_clean oe) path True, fs', c'))))"

text \<open>An open database is private, migrated, and its pools have every pragma the store relies on.\<close>

definition private_file :: "modes \<Rightarrow> string \<Rightarrow> bool" where
  "private_file fs p \<longleftrightarrow> fs p = None \<or> fs p = Some mode_private"

lemma chmod_private:
  assumes "chmod flt p fs = (x, fs')"
  shows "x = None \<or> x = Some None \<Longrightarrow> private_file fs' p" and "q \<noteq> p \<Longrightarrow> fs' q = fs q"
  using assms by (auto simp: chmod_def private_file_def split: option.splits if_splits)

lemma makePrivate_ok:
  assumes "makePrivate create flt path fs = (None, fs')" and "path \<noteq> '':memory:''"
  shows "fs' path = Some mode_private \<and> private_file fs' (path @ ''-wal'') \<and> private_file fs' (path @ ''-shm'') \<and>
    (\<forall>q. q \<notin> {path, path @ ''-wal'', path @ ''-shm''} \<longrightarrow> fs' q = fs q)"
  using assms
  by (auto simp: makePrivate_def Let_def chmod_def private_file_def split: option.splits if_splits)

lemma check_pragmas_None: "check_pragmas read want = None \<longleftrightarrow> (\<forall>(p, v) \<in> set want. read p = Inr v)"
  by (induction read want rule: check_pragmas.induct) (auto split: sum.splits)

lemma openPool_None:
  "openPool open_db clean path readOnly = None \<longleftrightarrow>
     (\<exists>read. open_db (dsn clean path readOnly) = Inr read \<and> (\<forall>(p, v) \<in> set (wanted_pragmas readOnly). read p = Inr v))"
  by (auto simp: openPool_def verifyPragmas_def check_pragmas_None split: sum.splits)

lemma Store_Open_ok:
  assumes "Store_Open oe path fs c = (None, fs', c')" and "path \<noteq> '':memory:''"
  shows "fs' path = Some mode_private" "private_file fs' (path @ ''-wal'')" "private_file fs' (path @ ''-shm'')"
    "migrateFS (oe_migrate oe) (oe_files oe) c = (None, c')"
    "\<exists>read. oe_open oe (dsn (oe_clean oe) path True) = Inr read \<and> read ''query_only'' = Inr ''1''"
proof -
  have parts: "makePrivate (oe_create oe) (oe_chmod oe) path fs = (None, fs')" "migrateFS (oe_migrate oe) (oe_files oe) c = (None, c')"
    "openPool (oe_open oe) (oe_clean oe) path True = None"
    using assms(1) by (auto simp: Store_Open_def split: prod.splits option.splits)
  from makePrivate_ok [OF parts(1) assms(2)] show "fs' path = Some mode_private" "private_file fs' (path @ ''-wal'')" "private_file fs' (path @ ''-shm'')"
    by simp_all
  show "migrateFS (oe_migrate oe) (oe_files oe) c = (None, c')" by (rule parts(2))
  show "\<exists>read. oe_open oe (dsn (oe_clean oe) path True) = Inr read \<and> read ''query_only'' = Inr ''1''"
    using parts(3) unfolding openPool_None by (auto simp: wanted_pragmas_def)
qed

subsection \<open>Closing and copying\<close>

text \<open>\<open>Close\<close>: both pools are closed whatever fails; the writer's error comes first. \<open>Snapshot\<close> is one \<open>VACUUM INTO\<close>.\<close>

definition Store_Close :: "error option \<Rightarrow> error option \<Rightarrow> error option" where
  "Store_Close reader writer = (case writer of Some e \<Rightarrow> Some e | None \<Rightarrow> reader)"

definition Snapshot :: "(string \<Rightarrow> error option) \<Rightarrow> string \<Rightarrow> error option" where
  "Snapshot vacuum_into path = map_option (wrapError ''store: snapshot'') (vacuum_into path)"

end
