(* ===== verification/Config.thy ===== *)
theory Config
  imports GoText GoTime
begin

text \<open>
  The settings (\<open>config/config.go\<close>), read from an environment (\<open>getenv\<close>; an unset variable is empty).
  \<open>url.Parse\<close>, \<open>net.ParseIP\<close>, \<open>time.ParseDuration\<close> and age's recipient parser are arguments.
\<close>

subsection \<open>Parsers of the standard library\<close>

text \<open>\<open>time.Parse("15:04", v)\<close>: an hour of one or two digits, a minute of two.\<close>

definition parse_minute :: "string \<Rightarrow> nat option" where
  "parse_minute s =
     (if length s = 3 \<and> hd s = CHR '':'' then (case read_dec 0 (tl s) of Some m \<Rightarrow> if m < 60 then Some m else None | None \<Rightarrow> None)
      else None)"

definition parse_clock :: "string \<Rightarrow> (nat \<times> nat) option" where
  "parse_clock s =
     (let hs = take 2 (takeWhile (\<lambda>c. digit_val c \<noteq> None) s)
      in case (if hs = [] then None else read_dec 0 hs) of
           None \<Rightarrow> None
         | Some h \<Rightarrow> if 24 \<le> h then None else map_option (Pair h) (parse_minute (drop (length hs) s)))"

definition ParseBool :: "string \<Rightarrow> bool option" where
  "ParseBool s =
     (if s \<in> {''1'', ''t'', ''T'', ''TRUE'', ''true'', ''True''} then Some True
      else if s \<in> {''0'', ''f'', ''F'', ''FALSE'', ''false'', ''False''} then Some False else None)"

text \<open>\<open>slog.Level.UnmarshalText\<close>: a name in any case, and an offset from its first sign on.\<close>

definition level_of_name :: "string \<Rightarrow> int64 option" where
  "level_of_name s =
     (let n = ToLower s
      in if n = ''debug'' then Some (- 4) else if n = ''info'' then Some 0 else if n = ''warn'' then Some 4
         else if n = ''error'' then Some 8 else None)"

definition parse_level :: "string \<Rightarrow> int64 option" where
  "parse_level s =
     (let name = takeWhile (\<lambda>c. c \<noteq> CHR ''+'' \<and> c \<noteq> CHR ''-'') s; rest = drop (length name) s
      in case (if rest = [] then Some 0 else ParseInt64 rest) of
           None \<Rightarrow> None
         | Some offset \<Rightarrow> map_option (\<lambda>l. l + offset) (level_of_name name))"

subsection \<open>The settings\<close>

record mcp_config =
  mc_listen_addr :: string
  mc_public_url :: string
  mc_google_client_id :: string
  mc_google_client_secret :: string
  mc_allowed_emails :: string

definition MCP_Missing :: "mcp_config \<Rightarrow> string list" where
  "MCP_Missing m = map fst (filter (\<lambda>(_, v). v = [])
     [(''MCP_PUBLIC_URL'', mc_public_url m), (''GOOGLE_OAUTH_CLIENT_ID'', mc_google_client_id m),
      (''GOOGLE_OAUTH_CLIENT_SECRET'', mc_google_client_secret m), (''MCP_ALLOWED_EMAILS'', Trim (mc_allowed_emails m) '', '')])"

definition Emails :: "mcp_config \<Rightarrow> string list" where
  "Emails m = filter (\<lambda>e. e \<noteq> []) (map TrimSpace (Split CHR '','' (mc_allowed_emails m)))"

record config_env =
  ce_getenv :: "string \<Rightarrow> string"
  ce_parse_url :: "string \<Rightarrow> url option"
  ce_loopback_ip :: "string \<Rightarrow> bool"
  ce_duration :: "string \<Rightarrow> duration option"
  ce_recipient :: "string \<Rightarrow> bool"

definition isLoopback_host :: "config_env \<Rightarrow> string \<Rightarrow> bool" where
  "isLoopback_host ce host \<longleftrightarrow> host = ''localhost'' \<or> ce_loopback_ip ce host"

definition defaultDBPath :: string where
  "defaultDBPath = ''/data/finbot.db''"

definition DefaultHTTPAddr :: string where
  "DefaultHTTPAddr = ''127.0.0.1:8081''"

definition defaultMCPListenAddr :: string where
  "defaultMCPListenAddr = '':8080''"

definition public_origin :: "config_env \<Rightarrow> string \<Rightarrow> bool" where
  "public_origin ce s =
     (case ce_parse_url ce s of
        None \<Rightarrow> False
      | Some u \<Rightarrow> u_host u \<noteq> [] \<and> u_path u = [] \<and> u_raw_query u = [] \<and> u_fragment u = [] \<and> \<not> u_user u \<and>
          (u_scheme u = ''https'' \<or> u_scheme u = ''http'' \<and> isLoopback_host ce (u_hostname u)))"

definition mcpFrom :: "config_env \<Rightarrow> mcp_config result" where
  "mcpFrom ce =
     (let addr = ce_getenv ce ''MCP_LISTEN_ADDR'';
          m = \<lparr>mc_listen_addr = (if addr = [] then defaultMCPListenAddr else addr),
               mc_public_url = TrimRight (ce_getenv ce ''MCP_PUBLIC_URL'') ''/'',
               mc_google_client_id = ce_getenv ce ''GOOGLE_OAUTH_CLIENT_ID'',
               mc_google_client_secret = ce_getenv ce ''GOOGLE_OAUTH_CLIENT_SECRET'',
               mc_allowed_emails = ce_getenv ce ''MCP_ALLOWED_EMAILS''\<rparr>
      in if mc_public_url m \<noteq> [] \<and> \<not> public_origin ce (mc_public_url m)
         then Inl (newError ''config: MCP_PUBLIC_URL must be a bare https:// origin (http:// only on loopback)'')
         else Inr m)"

definition LoadDBPath :: "config_env \<Rightarrow> string" where
  "LoadDBPath ce = (let p = ce_getenv ce ''FINBOT_DB_PATH'' in if p \<noteq> [] then p else defaultDBPath)"

record backup_config =
  bc_age_recipient :: string
  bc_turso_url :: string
  bc_turso_token :: string
  bc_at_hour :: nat
  bc_at_minute :: nat
  bc_keep :: int64
  bc_db_path :: string

definition Backup_Missing :: "backup_config \<Rightarrow> string list" where
  "Backup_Missing b = map fst (filter (\<lambda>(_, v). v = [])
     [(''BACKUP_AGE_RECIPIENT'', bc_age_recipient b), (''BACKUP_TURSO_URL'', bc_turso_url b), (''BACKUP_TURSO_TOKEN'', bc_turso_token b)])"

definition Backup_At :: "backup_config \<Rightarrow> string" where
  "Backup_At b = pad_dec 2 (bc_at_hour b) @ '':'' @ pad_dec 2 (bc_at_minute b)"

definition turso_url_ok :: "config_env \<Rightarrow> string \<Rightarrow> bool" where
  "turso_url_ok ce s =
     (case ce_parse_url ce s of
        None \<Rightarrow> False
      | Some u \<Rightarrow> u_host u \<noteq> [] \<and> u_scheme u \<in> {''libsql'', ''https'', ''http''})"

definition BackupFrom :: "config_env \<Rightarrow> backup_config result" where
  "BackupFrom ce =
     (let get = ce_getenv ce;
          b = \<lparr>bc_age_recipient = get ''BACKUP_AGE_RECIPIENT'', bc_turso_url = get ''BACKUP_TURSO_URL'',
               bc_turso_token = get ''BACKUP_TURSO_TOKEN'', bc_at_hour = 3, bc_at_minute = 17, bc_keep = 14, bc_db_path = LoadDBPath ce\<rparr>;
          at = get ''BACKUP_AT''; keep = get ''BACKUP_KEEP''
      in if bc_age_recipient b \<noteq> [] \<and> \<not> ce_recipient ce (bc_age_recipient b)
         then Inl (newError ''config: BACKUP_AGE_RECIPIENT must be an age public key'')
         else if bc_turso_url b \<noteq> [] \<and> \<not> turso_url_ok ce (bc_turso_url b)
         then Inl (newError ''config: BACKUP_TURSO_URL must be a libsql:// or https:// URL'')
         else
           (case (if at = [] then Some (3, 17) else parse_clock at) of
              None \<Rightarrow> Inl (newError ''config: BACKUP_AT must be a time of day such as 03:17'')
            | Some (h, m) \<Rightarrow>
                (case (if keep = [] then Some 14 else ParseInt64 keep) of
                   None \<Rightarrow> Inl (newError ''config: BACKUP_KEEP must be a positive integer'')
                 | Some k \<Rightarrow>
                     if sint k < 1 then Inl (newError ''config: BACKUP_KEEP must be a positive integer'')
                     else Inr (b\<lparr>bc_at_hour := h, bc_at_minute := m, bc_keep := k\<rparr>))))"

record config =
  c_ynab_access_token :: string
  c_ynab_budget_id :: string
  c_db_path :: string
  c_sync_interval :: duration
  c_import_interval :: duration
  c_import_enabled :: bool
  c_http_addr :: string
  c_log_level :: int64
  c_healthcheck_ping_url :: string
  c_slack_bot_token :: string
  c_slack_status_channel :: string
  c_backup :: backup_config
  c_mcp :: mcp_config

definition env_or :: "config_env \<Rightarrow> string \<Rightarrow> string \<Rightarrow> string" where
  "env_or ce key dflt = (let v = ce_getenv ce key in if v \<noteq> [] then v else dflt)"

definition config_duration :: "config_env \<Rightarrow> string \<Rightarrow> string \<Rightarrow> duration result" where
  "config_duration ce key dflt =
     (case ce_duration ce (env_or ce key dflt) of
        None \<Rightarrow> Inl (newError (''config: '' @ key @ '' must be a Go duration such as 15m''))
      | Some d \<Rightarrow> if d \<le> 0 then Inl (newError (''config: '' @ key @ '' must be positive'')) else Inr d)"

definition config_of :: "config_env \<Rightarrow> backup_config \<Rightarrow> mcp_config \<Rightarrow> duration \<Rightarrow> duration \<Rightarrow> bool \<Rightarrow> int64 \<Rightarrow> config" where
  "config_of ce b m sync imp enabled level =
     \<lparr>c_ynab_access_token = ce_getenv ce ''YNAB_ACCESS_TOKEN'', c_ynab_budget_id = ce_getenv ce ''YNAB_BUDGET_ID'',
      c_db_path = env_or ce ''FINBOT_DB_PATH'' defaultDBPath, c_sync_interval = sync, c_import_interval = imp,
      c_import_enabled = enabled, c_http_addr = env_or ce ''HTTP_ADDR'' DefaultHTTPAddr, c_log_level = level,
      c_healthcheck_ping_url = ce_getenv ce ''HEALTHCHECK_PING_URL'', c_slack_bot_token = ce_getenv ce ''SLACK_BOT_TOKEN'',
      c_slack_status_channel = TrimPrefix (env_or ce ''SLACK_STATUS_CHANNEL'' ''finbot-finances'') ''#'',
      c_backup = b, c_mcp = m\<rparr>"

definition LoadFrom :: "config_env \<Rightarrow> config result" where
  "LoadFrom ce =
     (case find (\<lambda>key. ce_getenv ce key = []) [''YNAB_ACCESS_TOKEN'', ''YNAB_BUDGET_ID''] of
        Some key \<Rightarrow> Inl (newError (''config: '' @ key @ '' is required''))
      | None \<Rightarrow>
     (case BackupFrom ce of
        Inl e \<Rightarrow> Inl e
      | Inr b \<Rightarrow>
     (case mcpFrom ce of
        Inl e \<Rightarrow> Inl e
      | Inr m \<Rightarrow>
     (case config_duration ce ''SYNC_INTERVAL'' ''15m'' of
        Inl e \<Rightarrow> Inl e
      | Inr sync \<Rightarrow>
     (case config_duration ce ''IMPORT_INTERVAL'' ''6h'' of
        Inl e \<Rightarrow> Inl e
      | Inr imp \<Rightarrow>
     (case ParseBool (env_or ce ''IMPORT_ENABLED'' ''false'') of
        None \<Rightarrow> Inl (newError ''config: IMPORT_ENABLED must be true or false'')
      | Some enabled \<Rightarrow>
     (case parse_level (env_or ce ''LOG_LEVEL'' ''info'') of
        None \<Rightarrow> Inl (newError ''config: LOG_LEVEL must be debug, info, warn or error'')
      | Some level \<Rightarrow>
          Inr (config_of ce b m sync imp enabled level))))))))"

subsection \<open>What loads, and what an error may say\<close>

definition config_ok :: "config_env \<Rightarrow> config \<Rightarrow> bool" where
  "config_ok ce c \<longleftrightarrow>
     c_ynab_access_token c \<noteq> [] \<and> c_ynab_budget_id c \<noteq> [] \<and> c_db_path c \<noteq> [] \<and> c_http_addr c \<noteq> [] \<and>
     0 < c_sync_interval c \<and> 0 < c_import_interval c \<and>
     1 \<le> sint (bc_keep (c_backup c)) \<and> bc_at_hour (c_backup c) < 24 \<and> bc_at_minute (c_backup c) < 60 \<and>
     (Backup_Missing (c_backup c) = [] \<longrightarrow> ce_recipient ce (bc_age_recipient (c_backup c)) \<and> turso_url_ok ce (bc_turso_url (c_backup c))) \<and>
     (MCP_Missing (c_mcp c) = [] \<longrightarrow> public_origin ce (mc_public_url (c_mcp c)))"

text \<open>Every message is one of these, whatever the variables hold.\<close>

definition config_messages :: "string list" where
  "config_messages =
     [''config: YNAB_ACCESS_TOKEN is required'', ''config: YNAB_BUDGET_ID is required'',
      ''config: BACKUP_AGE_RECIPIENT must be an age public key'', ''config: BACKUP_TURSO_URL must be a libsql:// or https:// URL'',
      ''config: BACKUP_AT must be a time of day such as 03:17'', ''config: BACKUP_KEEP must be a positive integer'',
      ''config: MCP_PUBLIC_URL must be a bare https:// origin (http:// only on loopback)'',
      ''config: SYNC_INTERVAL must be a Go duration such as 15m'', ''config: SYNC_INTERVAL must be positive'',
      ''config: IMPORT_INTERVAL must be a Go duration such as 15m'', ''config: IMPORT_INTERVAL must be positive'',
      ''config: IMPORT_ENABLED must be true or false'', ''config: LOG_LEVEL must be debug, info, warn or error'']"

lemma parse_clock_bounds: "parse_clock s = Some (h, m) \<Longrightarrow> h < 24 \<and> m < 60"
  by (auto simp: parse_clock_def parse_minute_def Let_def split: option.splits if_splits)

lemma BackupFrom_checked:
  "case BackupFrom ce of
     Inl e \<Rightarrow> err_msg e \<in> set config_messages
   | Inr b \<Rightarrow> 1 \<le> sint (bc_keep b) \<and> bc_at_hour b < 24 \<and> bc_at_minute b < 60 \<and>
       (bc_age_recipient b \<noteq> [] \<longrightarrow> ce_recipient ce (bc_age_recipient b)) \<and> (bc_turso_url b \<noteq> [] \<longrightarrow> turso_url_ok ce (bc_turso_url b))"
proof -
  let ?at = "if ce_getenv ce ''BACKUP_AT'' = [] then Some (3, 17) else parse_clock (ce_getenv ce ''BACKUP_AT'')"
  have at: "h < 24 \<and> m < 60" if "?at = Some (h, m)" for h m
    using that parse_clock_bounds by (auto split: if_splits)
  show ?thesis
    by (cases ?at) (use at in \<open>auto simp: BackupFrom_def Let_def newError_def config_messages_def split: option.split\<close>)
qed

lemma mcpFrom_checked:
  "case mcpFrom ce of
     Inl e \<Rightarrow> err_msg e \<in> set config_messages
   | Inr m \<Rightarrow> mc_public_url m \<noteq> [] \<longrightarrow> public_origin ce (mc_public_url m)"
  by (auto simp: mcpFrom_def Let_def newError_def config_messages_def)

lemma config_duration_checked:
  "case config_duration ce key dflt of
     Inl e \<Rightarrow> err_msg e \<in> {''config: '' @ key @ '' must be a Go duration such as 15m'', ''config: '' @ key @ '' must be positive''}
   | Inr d \<Rightarrow> 0 < d"
  by (auto simp: config_duration_def newError_def split: option.split)

lemma missing_required:
  "find (\<lambda>key. ce_getenv ce key = []) [''YNAB_ACCESS_TOKEN'', ''YNAB_BUDGET_ID''] = Some key \<Longrightarrow>
     key = ''YNAB_ACCESS_TOKEN'' \<or> key = ''YNAB_BUDGET_ID''"
  by (auto split: if_splits)

text \<open>Where an error comes from.\<close>

lemma LoadFrom_Inl:
  assumes "LoadFrom ce = Inl e"
  shows "(\<exists>key. find (\<lambda>key. ce_getenv ce key = []) [''YNAB_ACCESS_TOKEN'', ''YNAB_BUDGET_ID''] = Some key \<and>
      e = newError (''config: '' @ key @ '' is required'')) \<or>
    BackupFrom ce = Inl e \<or> mcpFrom ce = Inl e \<or> config_duration ce ''SYNC_INTERVAL'' ''15m'' = Inl e \<or>
    config_duration ce ''IMPORT_INTERVAL'' ''6h'' = Inl e \<or> e = newError ''config: IMPORT_ENABLED must be true or false'' \<or>
    e = newError ''config: LOG_LEVEL must be debug, info, warn or error''"
  using assms unfolding LoadFrom_def
  by (simp del: find.simps split: option.splits sum.splits)

lemma config_message:
  "key = ''YNAB_ACCESS_TOKEN'' \<or> key = ''YNAB_BUDGET_ID'' \<Longrightarrow> ''config: '' @ key @ '' is required'' \<in> set config_messages"
  "key = ''SYNC_INTERVAL'' \<or> key = ''IMPORT_INTERVAL'' \<Longrightarrow> ''config: '' @ key @ '' must be a Go duration such as 15m'' \<in> set config_messages"
  "key = ''SYNC_INTERVAL'' \<or> key = ''IMPORT_INTERVAL'' \<Longrightarrow> ''config: '' @ key @ '' must be positive'' \<in> set config_messages"
  "''config: IMPORT_ENABLED must be true or false'' \<in> set config_messages"
  "''config: LOG_LEVEL must be debug, info, warn or error'' \<in> set config_messages"
  by (auto simp: config_messages_def)

lemma config_duration_message:
  "config_duration ce key dflt = Inl e \<Longrightarrow> key = ''SYNC_INTERVAL'' \<or> key = ''IMPORT_INTERVAL'' \<Longrightarrow> err_msg e \<in> set config_messages"
  using config_duration_checked [where ce = ce and key = key and dflt = dflt] config_message(2,3) [of key] by fastforce

lemma LoadFrom_message:
  assumes "LoadFrom ce = Inl e"
  shows "err_msg e \<in> set config_messages"
proof -
  from LoadFrom_Inl [OF assms] consider key where
      "find (\<lambda>key. ce_getenv ce key = []) [''YNAB_ACCESS_TOKEN'', ''YNAB_BUDGET_ID''] = Some key" "e = newError (''config: '' @ key @ '' is required'')"
    | "BackupFrom ce = Inl e" | "mcpFrom ce = Inl e" | "config_duration ce ''SYNC_INTERVAL'' ''15m'' = Inl e"
    | "config_duration ce ''IMPORT_INTERVAL'' ''6h'' = Inl e" | "e = newError ''config: IMPORT_ENABLED must be true or false''"
    | "e = newError ''config: LOG_LEVEL must be debug, info, warn or error''" by blast
  then show ?thesis
  proof cases
    case 1
    with config_message(1) [OF missing_required [OF 1(1)]] show ?thesis by (simp add: newError_def)
  next
    case 2
    with BackupFrom_checked [of ce] show ?thesis by simp
  next
    case 3
    with mcpFrom_checked [of ce] show ?thesis by simp
  next
    case 4
    then show ?thesis by (rule config_duration_message) simp
  next
    case 5
    then show ?thesis by (rule config_duration_message) simp
  qed (simp_all add: newError_def config_message(4,5))
qed

text \<open>
  C23: reading the settings from any environment. An error is one of a fixed list of messages that name the
  variable, so no value of the environment can be in it. Settings that load have the required values, positive
  intervals, at least one backup to keep and a time of day that exists; when backups are on their key and URL
  were accepted, and when MCP is on its public URL is a bare https origin, or http on loopback only.
\<close>

theorem config_checked:
  "case LoadFrom ce of Inl e \<Rightarrow> err_msg e \<in> set config_messages | Inr c \<Rightarrow> config_ok ce c"
proof (cases "LoadFrom ce")
  case (Inl e)
  with LoadFrom_message [OF Inl] show ?thesis by simp
next
  case (Inr c)
  note d = config_duration_checked [where ce = ce and key = "''SYNC_INTERVAL''" and dflt = "''15m''"]
    config_duration_checked [where ce = ce and key = "''IMPORT_INTERVAL''" and dflt = "''6h''"]
  from Inr obtain b m sync imp enabled level where
    req: "find (\<lambda>key. ce_getenv ce key = []) [''YNAB_ACCESS_TOKEN'', ''YNAB_BUDGET_ID''] = None"
    and parts: "BackupFrom ce = Inr b" "mcpFrom ce = Inr m" "config_duration ce ''SYNC_INTERVAL'' ''15m'' = Inr sync"
      "config_duration ce ''IMPORT_INTERVAL'' ''6h'' = Inr imp"
    and c: "c = config_of ce b m sync imp enabled level"
    unfolding LoadFrom_def by (auto simp del: find.simps split: option.splits sum.splits)
  have set: "ce_getenv ce ''YNAB_ACCESS_TOKEN'' \<noteq> []" "ce_getenv ce ''YNAB_BUDGET_ID'' \<noteq> []" using req by (simp_all split: if_splits)
  have env: "env_or ce ''FINBOT_DB_PATH'' defaultDBPath \<noteq> []" "env_or ce ''HTTP_ADDR'' DefaultHTTPAddr \<noteq> []"
    by (simp_all add: env_or_def Let_def defaultDBPath_def DefaultHTTPAddr_def)
  have b: "Backup_Missing b = [] \<longrightarrow> bc_age_recipient b \<noteq> [] \<and> bc_turso_url b \<noteq> []" by (simp add: Backup_Missing_def)
  have m: "MCP_Missing m = [] \<longrightarrow> mc_public_url m \<noteq> []" by (simp add: MCP_Missing_def)
  have "config_ok ce c"
    using BackupFrom_checked [of ce] mcpFrom_checked [of ce] d b m set env by (simp add: config_ok_def c parts config_of_def)
  with Inr show ?thesis by simp
qed

end
