(* ===== verification/Scheduler.thy ===== *)
theory Scheduler
  imports GoText GoTime
begin

text \<open>
  The daemon's loop (\<open>cmd/scheduler.go\<close>) and its health (\<open>cmd/health.go\<close>). All jobs run on one
  goroutine, so a run of the loop is a sequence of events: a ticker's channel, which holds one tick, gets
  one; the context ends; the select takes a ready case. What happens while a job runs is part of its event.
\<close>

subsection \<open>Health\<close>

record health =
  h_stale_after :: duration
  h_token :: string
  h_last_ok :: time
  h_last_err :: string

definition Health_OK :: "time \<Rightarrow> health \<Rightarrow> health" where
  "Health_OK now h = h\<lparr>h_last_ok := now, h_last_err := []\<rparr>"

definition Health_Fail :: "error \<Rightarrow> health \<Rightarrow> health" where
  "Health_Fail e h = h\<lparr>h_last_err := scrub (err_msg e) [h_token h]\<rparr>"



subsection \<open>The loop\<close>

datatype job = SyncJob | ImportJob | BackupJob | PruneJob

text \<open>Which of the optional functions are set.\<close>

record sched_config =
  sc_import :: bool
  sc_backup :: bool
  sc_prune :: bool
  sc_health :: bool

fun enabled :: "sched_config \<Rightarrow> job \<Rightarrow> bool" where
  "enabled cfg SyncJob = True"
| "enabled cfg ImportJob = sc_import cfg"
| "enabled cfg BackupJob = sc_backup cfg"
| "enabled cfg PruneJob = sc_prune cfg"

text \<open>
  One run of a job: its error, the ticks that came due meanwhile, whether the context ended by its end,
  and the time then.
\<close>

record job_run =
  jr_job :: job
  jr_err :: "error option"
  jr_due :: "job list"
  jr_ended :: bool
  jr_now :: time

record sched_state =
  sd_pending :: "job \<Rightarrow> bool"
  sd_cancelled :: bool
  sd_stopped :: bool
  sd_health :: health
  sd_runs :: "job_run list"

text \<open>\<open>runSync\<close>, after the sync itself.\<close>

definition runSync :: "sched_config \<Rightarrow> bool \<Rightarrow> job_run \<Rightarrow> health \<Rightarrow> health" where
  "runSync cfg cancelled r h =
     (if \<not> sc_health cfg \<or> cancelled then h
      else (case jr_err r of Some e \<Rightarrow> Health_Fail e h | None \<Rightarrow> Health_OK (jr_now r) h))"

text \<open>
  A job runs and its own tick is drained; a new backup ticker replaces the old one with whatever its
  channel held.
\<close>

definition run_job :: "sched_config \<Rightarrow> job_run \<Rightarrow> sched_state \<Rightarrow> sched_state" where
  "run_job cfg r s =
     (let cancelled = sd_cancelled s \<or> jr_ended r
      in s\<lparr>sd_pending := (\<lambda>j. (sd_pending s j \<or> j \<in> set (jr_due r) \<and> enabled cfg j) \<and> j \<noteq> jr_job r),
           sd_cancelled := cancelled,
           sd_health := (if jr_job r = SyncJob then runSync cfg cancelled r (sd_health s) else sd_health s),
           sd_runs := sd_runs s @ [r\<lparr>jr_ended := cancelled\<rparr>]\<rparr>)"

text \<open>Before the loop: the prune job when there is one, and a sync.\<close>

definition sched_start :: "sched_config \<Rightarrow> health \<Rightarrow> bool \<Rightarrow> job_run \<Rightarrow> job_run \<Rightarrow> sched_state" where
  "sched_start cfg h cancelled prune sync =
     (let s0 = \<lparr>sd_pending = (\<lambda>_. False), sd_cancelled = cancelled, sd_stopped = False, sd_health = h, sd_runs = []\<rparr>;
          s1 = (if sc_prune cfg then run_job cfg (prune\<lparr>jr_job := PruneJob\<rparr>) s0 else s0)
      in run_job cfg (sync\<lparr>jr_job := SyncJob\<rparr>) s1)"

datatype event = Due job | CtxDone | RunJob job_run | Leave

text \<open>\<open>None\<close>: the event cannot happen. A ready channel and a done context leave the choice to the select.\<close>

fun sched_event :: "sched_config \<Rightarrow> event \<Rightarrow> sched_state \<Rightarrow> sched_state option" where
  "sched_event cfg (Due j) s = (if sd_stopped s \<or> \<not> enabled cfg j then None else Some (s\<lparr>sd_pending := (sd_pending s)(j := True)\<rparr>))"
| "sched_event cfg CtxDone s = Some (s\<lparr>sd_cancelled := True\<rparr>)"
| "sched_event cfg (RunJob r) s = (if sd_stopped s \<or> \<not> sd_pending s (jr_job r) then None else Some (run_job cfg r s))"
| "sched_event cfg Leave s = (if sd_cancelled s \<and> \<not> sd_stopped s then Some (s\<lparr>sd_stopped := True\<rparr>) else None)"

fun sched_events :: "sched_config \<Rightarrow> event list \<Rightarrow> sched_state \<Rightarrow> sched_state option" where
  "sched_events cfg [] s = Some s"
| "sched_events cfg (e # es) s = Option.bind (sched_event cfg e s) (sched_events cfg es)"

lemma sched_events_append: "sched_events cfg (xs @ ys) s = Option.bind (sched_events cfg xs s) (sched_events cfg ys)"
  by (induction xs arbitrary: s) (auto split: Option.bind_split)

lemma sched_events_snoc: "sched_events cfg (es @ [e]) s = Some s' \<longleftrightarrow> (\<exists>s1. sched_events cfg es s = Some s1 \<and> sched_event cfg e s1 = Some s')"
  by (auto simp: sched_events_append bind_eq_Some_conv)

subsection \<open>Ticks and runs\<close>

definition runs_of :: "job \<Rightarrow> sched_state \<Rightarrow> nat" where
  "runs_of j s = length (filter (\<lambda>r. jr_job r = j) (sd_runs s))"

text \<open>The ticks of \<open>j\<close> that an event brings, outside a run of \<open>j\<close> itself.\<close>

fun ticks_of :: "job \<Rightarrow> event \<Rightarrow> nat" where
  "ticks_of j (Due k) = (if k = j then 1 else 0)"
| "ticks_of j (RunJob r) = (if jr_job r \<noteq> j \<and> j \<in> set (jr_due r) then 1 else 0)"
| "ticks_of j e = 0"

lemma run_job_simps [simp]:
  "sd_stopped (run_job cfg r s) = sd_stopped s"
  "sd_pending (run_job cfg r s) = (\<lambda>j. (sd_pending s j \<or> j \<in> set (jr_due r) \<and> enabled cfg j) \<and> j \<noteq> jr_job r)"
  "runs_of j (run_job cfg r s) = runs_of j s + (if jr_job r = j then 1 else 0)"
  "sd_runs (run_job cfg r s) = sd_runs s @ [r\<lparr>jr_ended := sd_cancelled s \<or> jr_ended r\<rparr>]"
  by (auto simp: run_job_def runs_of_def Let_def)

lemma event_runs:
  assumes "sched_event cfg e s = Some s'"
  shows "runs_of j s' + (if sd_pending s' j then 1 else 0) \<le> runs_of j s + (if sd_pending s j then 1 else 0) + ticks_of j e"
    and "sd_pending s' j \<longrightarrow> sd_pending s j \<or> enabled cfg j"
    and "runs_of j s' = runs_of j s + (case e of RunJob r \<Rightarrow> if jr_job r = j then 1 else 0 | _ \<Rightarrow> 0)"
  using assms by (cases e; auto split: if_splits simp: runs_of_def)+

lemma events_runs:
  assumes "sched_events cfg es s = Some s'"
  shows "runs_of j s' + (if sd_pending s' j then 1 else 0) \<le> runs_of j s + (if sd_pending s j then 1 else 0) + (\<Sum>e\<leftarrow>es. ticks_of j e)"
  using assms
proof (induction es arbitrary: s)
  case (Cons e es)
  then obtain s1 where e: "sched_event cfg e s = Some s1" and r: "sched_events cfg es s1 = Some s'"
    by (auto simp: bind_eq_Some_conv)
  from Cons.IH [OF r] event_runs(1) [OF e, of j] show ?case by simp
qed simp

text \<open>A job that is not set is never pending and never runs.\<close>

definition none_disabled :: "sched_config \<Rightarrow> sched_state \<Rightarrow> bool" where
  "none_disabled cfg s \<longleftrightarrow> (\<forall>j. \<not> enabled cfg j \<longrightarrow> \<not> sd_pending s j \<and> runs_of j s = 0)"

lemma none_disabled_events: "sched_events cfg es s = Some s' \<Longrightarrow> none_disabled cfg s \<Longrightarrow> none_disabled cfg s'"
proof (induction es arbitrary: s)
  case (Cons e es)
  then obtain s1 where e: "sched_event cfg e s = Some s1" and r: "sched_events cfg es s1 = Some s'"
    by (auto simp: bind_eq_Some_conv)
  have "none_disabled cfg s1"
    using e Cons.prems(2) by (cases e) (auto simp: none_disabled_def runs_of_def split: if_splits)
  with Cons.IH [OF r] show ?case .
qed simp

lemma none_disabled_start: "none_disabled cfg (sched_start cfg h c p y)"
  by (auto simp: sched_start_def none_disabled_def Let_def runs_of_def [of _ "\<lparr>sd_pending = _, sd_cancelled = _, sd_stopped = _, sd_health = _, sd_runs = _\<rparr>"]
      elim: enabled.elims)

lemma stopped_stays: "sched_events cfg es s = Some s' \<Longrightarrow> sd_stopped s \<Longrightarrow> sd_stopped s'"
proof (induction es arbitrary: s)
  case (Cons e es)
  then obtain s1 where e: "sched_event cfg e s = Some s1" and r: "sched_events cfg es s1 = Some s'"
    by (auto simp: bind_eq_Some_conv)
  have "sd_stopped s1" using e Cons.prems(2) by (cases e) (auto split: if_splits)
  with Cons.IH [OF r] show ?case .
qed simp

lemma split_events:
  assumes "sched_events cfg (es1 @ e # es2) s = Some s'"
  obtains s1 s2 where "sched_events cfg es1 s = Some s1" "sched_event cfg e s1 = Some s2" "sched_events cfg es2 s2 = Some s'"
  using assms by (auto simp: sched_events_append bind_eq_Some_conv)

subsection \<open>The specification of the loop\<close>

text \<open>The two runs before the loop as events: what they bring of ticks counts like any other.\<close>

definition start_events :: "sched_config \<Rightarrow> job_run \<Rightarrow> job_run \<Rightarrow> event list" where
  "start_events cfg prune sync =
     (if sc_prune cfg then [RunJob (prune\<lparr>jr_job := PruneJob\<rparr>)] else []) @ [RunJob (sync\<lparr>jr_job := SyncJob\<rparr>)]"

fun job_of :: "event \<Rightarrow> job option" where
  "job_of (RunJob r) = Some (jr_job r)"
| "job_of _ = None"

text \<open>A tick of \<open>j\<close> that no run of \<open>j\<close> has answered yet; the newest event comes first.\<close>

fun unanswered :: "job \<Rightarrow> event list \<Rightarrow> bool" where
  "unanswered j [] = False"
| "unanswered j (e # es) = (0 < ticks_of j e \<or> job_of e \<noteq> Some j \<and> unanswered j es)"

lemma run_job_unanswered:
  assumes "\<forall>j. sd_pending s j \<longleftrightarrow> enabled cfg j \<and> unanswered j es"
  shows "\<forall>j. sd_pending (run_job cfg r s) j \<longleftrightarrow> enabled cfg j \<and> unanswered j (RunJob r # es)"
  using assms by auto

lemma start_unanswered:
  "sd_pending (sched_start cfg h c p y) j \<longleftrightarrow> enabled cfg j \<and> unanswered j (rev (start_events cfg p y))"
proof -
  let ?s0 = "\<lparr>sd_pending = (\<lambda>_. False), sd_cancelled = c, sd_stopped = False, sd_health = h, sd_runs = []\<rparr>"
  let ?p = "p\<lparr>jr_job := PruneJob\<rparr>" and ?y = "y\<lparr>jr_job := SyncJob\<rparr>"
  have 0: "\<forall>j. sd_pending ?s0 j \<longleftrightarrow> enabled cfg j \<and> unanswered j []" by simp
  show ?thesis
  proof (cases "sc_prune cfg")
    case True
    with run_job_unanswered [OF run_job_unanswered [OF 0, of ?p], of ?y] show ?thesis
      by (simp add: sched_start_def start_events_def Let_def del: run_job_simps unanswered.simps)
  next
    case False
    with run_job_unanswered [OF 0, of ?y] show ?thesis
      by (simp add: sched_start_def start_events_def Let_def del: run_job_simps unanswered.simps)
  qed
qed

lemma event_unanswered:
  assumes "\<forall>j. sd_pending s j \<longleftrightarrow> enabled cfg j \<and> unanswered j es" and "sched_event cfg e s = Some s'"
  shows "\<forall>j. sd_pending s' j \<longleftrightarrow> enabled cfg j \<and> unanswered j (e # es)"
proof (cases e)
  case (RunJob r)
  with assms(2) have "s' = run_job cfg r s" by (simp split: if_splits)
  with run_job_unanswered [OF assms(1), of r] RunJob show ?thesis by blast
next
  case (Due k)
  with assms(2) have "s' = s\<lparr>sd_pending := (sd_pending s)(k := True)\<rparr>" "enabled cfg k" by (auto split: if_splits)
  with assms(1) show ?thesis by (simp add: Due)
next
  case CtxDone
  with assms(2) have "s' = s\<lparr>sd_cancelled := True\<rparr>" by simp
  with assms(1) show ?thesis by (simp add: CtxDone)
next
  case Leave
  with assms(2) have "s' = s\<lparr>sd_stopped := True\<rparr>" by (simp split: if_splits)
  with assms(1) show ?thesis by (simp add: Leave)
qed

lemma events_unanswered:
  assumes "sched_events cfg es s = Some s'" and "\<forall>j. sd_pending s j \<longleftrightarrow> enabled cfg j \<and> unanswered j past"
  shows "\<forall>j. sd_pending s' j \<longleftrightarrow> enabled cfg j \<and> unanswered j (rev es @ past)"
  using assms
proof (induction es arbitrary: s past)
  case (Cons e es)
  then obtain s1 where e: "sched_event cfg e s = Some s1" and r: "sched_events cfg es s1 = Some s'"
    by (auto simp: bind_eq_Some_conv)
  from Cons.IH [OF r event_unanswered [OF Cons.prems(2) e]] show ?case by simp
qed simp

lemma start_jobs: "map jr_job (sd_runs (sched_start cfg h c p y)) = (if sc_prune cfg then [PruneJob] else []) @ [SyncJob]"
  by (simp add: sched_start_def Let_def)

lemma events_jobs:
  "sched_events cfg es s = Some s' \<Longrightarrow> map jr_job (sd_runs s') = map jr_job (sd_runs s) @ List.map_filter job_of es"
proof (induction es arbitrary: s)
  case (Cons e es)
  then obtain s1 where e: "sched_event cfg e s = Some s1" and r: "sched_events cfg es s1 = Some s'"
    by (auto simp: bind_eq_Some_conv)
  from Cons.IH [OF r] e show ?case by (cases e) (auto simp: List.map_filter_def split: if_splits)
qed (simp add: List.map_filter_def)

text \<open>The ticks of the two runs before the loop bound the runs as those of the loop do.\<close>

lemma start_bound:
  "runs_of j (sched_start cfg h c p y) + (if sd_pending (sched_start cfg h c p y) j then 1 else 0) \<le>
     (if j = SyncJob \<or> j = PruneJob \<and> sc_prune cfg then 1 else 0) + (\<Sum>e\<leftarrow>start_events cfg p y. ticks_of j e)"
  by (cases j)
    (auto simp: sched_start_def start_events_def Let_def runs_of_def [of _ "\<lparr>sd_pending = _, sd_cancelled = _, sd_stopped = _, sd_health = _, sd_runs = _\<rparr>"])

lemma left_is_quiet:
  assumes "sched_events cfg (es1 @ Leave # es2) s = Some s'"
  shows "RunJob r \<notin> set es2"
proof
  assume r: "RunJob r \<in> set es2"
  obtain es3 es4 where es2: "es2 = es3 @ RunJob r # es4" using split_list [OF r] by blast
  obtain s1 s2 where a: "sched_event cfg Leave s1 = Some s2" "sched_events cfg es2 s2 = Some s'"
    by (rule split_events [OF assms])
  obtain s3 s4 where b: "sched_events cfg es3 s2 = Some s3" "sched_event cfg (RunJob r) s3 = Some s4"
    by (rule split_events [OF a(2) [unfolded es2]])
  have "sd_stopped s2" using a(1) by (auto split: if_splits)
  from stopped_stays [OF b(1) this] b(2) show False by simp
qed

subsection \<open>What /healthz says\<close>

text \<open>The syncs whose outcome counts, and the times of the successful ones.\<close>

definition counted :: "job_run list \<Rightarrow> job_run list" where
  "counted rs = filter (\<lambda>r. jr_job r = SyncJob \<and> \<not> jr_ended r) rs"

definition ok_times :: "job_run list \<Rightarrow> time list" where
  "ok_times rs = map jr_now (filter (\<lambda>r. jr_err r = None) (counted rs))"

definition health_of :: "health \<Rightarrow> job_run list \<Rightarrow> health" where
  "health_of h rs =
     h\<lparr>h_last_ok := (if ok_times rs = [] then h_last_ok h else last (ok_times rs)),
       h_last_err := (if counted rs = [] then h_last_err h
                      else (case jr_err (last (counted rs)) of None \<Rightarrow> [] | Some e \<Rightarrow> scrub (err_msg e) [h_token h]))\<rparr>"





lemma health_of_Nil [simp]: "health_of h [] = h"
  by (simp add: health_of_def counted_def ok_times_def)


subsection \<open>The properties\<close>

text \<open>
  C34: the loop over the tickers runs what its ticks ask for, job by job. Before the loop there are exactly a prune, if
  pruning is set, and one sync; then exactly the runs of the loop, in order, and each of those answers a tick of its own
  job that came due since the job last began to end (an import or a backup therefore never runs at start-up without one).
  At any moment a job is waiting exactly when it is set and such a tick has not been answered, so no tick of another job
  is lost and its own ticks during a run are dropped; a job runs at most once per tick, besides the start. A job that
  is not set never runs, and after the loop is left nothing does.
\<close>

theorem scheduler_ticks:
  assumes "sched_events cfg es (sched_start cfg h c p y) = Some s"
  shows "map jr_job (sd_runs s) = (if sc_prune cfg then [PruneJob] else []) @ SyncJob # List.map_filter job_of es \<and>
    (\<forall>es1 r es2. es = es1 @ RunJob r # es2 \<longrightarrow>
       enabled cfg (jr_job r) \<and> unanswered (jr_job r) (rev (start_events cfg p y @ es1)) \<and> Leave \<notin> set es1) \<and>
    (\<forall>j. sd_pending s j \<longleftrightarrow> enabled cfg j \<and> unanswered j (rev (start_events cfg p y @ es))) \<and>
    (\<forall>j. runs_of j s \<le> (if j = SyncJob \<or> j = PruneJob \<and> sc_prune cfg then 1 else 0) +
       (\<Sum>e\<leftarrow>start_events cfg p y @ es. ticks_of j e)) \<and>
    (\<forall>j. \<not> enabled cfg j \<longrightarrow> runs_of j s = 0)"
proof (intro conjI allI)
  let ?s0 = "sched_start cfg h c p y" and ?past = "rev (start_events cfg p y)"
  have start: "\<forall>j. sd_pending ?s0 j \<longleftrightarrow> enabled cfg j \<and> unanswered j ?past" using start_unanswered by blast
  show "map jr_job (sd_runs s) = (if sc_prune cfg then [PruneJob] else []) @ SyncJob # List.map_filter job_of es"
    using events_jobs [OF assms] start_jobs by simp
  show "es = es1 @ RunJob r # es2 \<longrightarrow>
      enabled cfg (jr_job r) \<and> unanswered (jr_job r) (rev (start_events cfg p y @ es1)) \<and> Leave \<notin> set es1" for es1 r es2
  proof
    assume es: "es = es1 @ RunJob r # es2"
    obtain s1 s2 where a: "sched_events cfg es1 ?s0 = Some s1" "sched_event cfg (RunJob r) s1 = Some s2"
      by (rule split_events [OF assms [unfolded es]])
    have "Leave \<notin> set es1"
    proof
      assume "Leave \<in> set es1"
      then obtain es3 es4 where "es1 = es3 @ Leave # es4" by (meson split_list)
      with left_is_quiet [of cfg es3 "es4 @ RunJob r # es2" ?s0 s r] assms es show False by simp
    qed
    with a(2) events_unanswered [OF a(1) start] show "enabled cfg (jr_job r) \<and>
        unanswered (jr_job r) (rev (start_events cfg p y @ es1)) \<and> Leave \<notin> set es1"
      by (auto split: if_splits)
  qed
  show "sd_pending s j \<longleftrightarrow> enabled cfg j \<and> unanswered j (rev (start_events cfg p y @ es))" for j
    using events_unanswered [OF assms start] by simp
  show "runs_of j s \<le> (if j = SyncJob \<or> j = PruneJob \<and> sc_prune cfg then 1 else 0) +
      (\<Sum>e\<leftarrow>start_events cfg p y @ es. ticks_of j e)" for j
    using events_runs [OF assms, of j] start_bound [of j cfg h c p y] by simp
  show "\<not> enabled cfg j \<longrightarrow> runs_of j s = 0" for j
    using none_disabled_events [OF assms none_disabled_start] by (simp add: none_disabled_def)
qed


definition ex_sched :: sched_config where
  "ex_sched = \<lparr>sc_import = True, sc_backup = False, sc_prune = False, sc_health = True\<rparr>"

definition ex_job :: "job \<Rightarrow> error option \<Rightarrow> job list \<Rightarrow> time \<Rightarrow> job_run" where
  "ex_job j e due now = \<lparr>jr_job = j, jr_err = e, jr_due = due, jr_ended = False, jr_now = now\<rparr>"

definition ex_health :: health where
  "ex_health = \<lparr>h_stale_after = 10, h_token = ''t'', h_last_ok = 0, h_last_err = []\<rparr>"

definition ex_first_run :: job_run where
  "ex_first_run = ex_job SyncJob None [ImportJob, SyncJob] 5"

definition ex_events :: "event list" where
  "ex_events = [RunJob (ex_job ImportJob None [SyncJob] 6), RunJob (ex_job SyncJob (Some (newError ''t failed'')) [] 7), CtxDone, Leave]"

lemma ex_loop: "\<exists>s. sched_events ex_sched ex_events (sched_start ex_sched ex_health False ex_first_run ex_first_run) = Some s \<and>
    sd_runs s = [ex_first_run, ex_job ImportJob None [SyncJob] 6, ex_job SyncJob (Some (newError ''t failed'')) [] 7]"
  by (simp add: ex_events_def sched_start_def ex_sched_def ex_job_def ex_first_run_def Let_def run_job_def)

theorem scheduler_ticks_witness:
  "\<exists>s. sched_events ex_sched ex_events (sched_start ex_sched ex_health False ex_first_run ex_first_run) = Some s \<and>
     map jr_job (sd_runs s) = [SyncJob, ImportJob, SyncJob] \<and> \<not> sd_pending s ImportJob \<and> runs_of BackupJob s = 0"
proof -
  obtain s where s: "sched_events ex_sched ex_events (sched_start ex_sched ex_health False ex_first_run ex_first_run) = Some s"
    using ex_loop by blast
  from scheduler_ticks [OF s]
  have "map jr_job (sd_runs s) = [] @ SyncJob # List.map_filter job_of ex_events" "runs_of BackupJob s = 0"
    "sd_pending s ImportJob \<longleftrightarrow> enabled ex_sched ImportJob \<and> unanswered ImportJob (rev (start_events ex_sched ex_first_run ex_first_run @ ex_events))"
    by (auto simp: ex_sched_def)
  with s show ?thesis by (auto simp: ex_events_def ex_job_def ex_sched_def start_events_def List.map_filter_def)
qed


end
