(* ===== verification/Commands.thy ===== *)
theory Commands
  imports SyncTick StatusUpdater AuthServer BackupRun Config Scheduler
begin

text \<open>
  What the subcommands decide (\<open>cmd/app.go\<close>, \<open>cmd/ping.go\<close>, \<open>cmd/status.go\<close>, \<open>cmd/backup.go\<close>, \<open>cmd/mcp.go\<close>,
  \<open>cmd/revoke.go\<close>, \<open>cmd/probe.go\<close>): the outcome of a tick and who is told, exit codes and what is printed.
  Flags and dispatch are in \<open>Cli\<close>, the life of the daemon in \<open>Serve\<close>; \<open>url.Parse\<close>, \<open>URL.JoinPath\<close>, \<open>net.SplitHostPort\<close> and the
  HTTP exchange are arguments.
\<close>

subsection \<open>Secrets\<close>

definition secrets :: "config \<Rightarrow> string list" where
  "secrets cfg =
     [c_ynab_access_token cfg, c_healthcheck_ping_url cfg, TrimRight (c_healthcheck_ping_url cfg) ''/'', c_slack_bot_token cfg,
      bc_turso_token (c_backup cfg), bc_turso_url (c_backup cfg), mc_google_client_secret (c_mcp cfg)] @ Emails (c_mcp cfg)"

definition app_redact :: "config \<Rightarrow> string \<Rightarrow> string" where
  "app_redact cfg s = scrub s (secrets cfg)"

subsection \<open>One tick and who hears of it\<close>

definition errSkipped :: error where
  "errSkipped = sentinelError ''sync skipped: rate budget exhausted'' ErrSkipped"

text \<open>\<open>syncPlan\<close>: the error of a tick, and the line it logs on a failure.\<close>

definition syncPlan :: "config \<Rightarrow> tick_result result \<Rightarrow> error option \<times> string option" where
  "syncPlan cfg tick =
     (case tick of
        Inl e \<Rightarrow> (Some e, Some (app_redact cfg (err_msg e)))
      | Inr res \<Rightarrow> (if tr_skipped res then Some errSkipped else None, None))"

record ping =
  pg_target :: "string option"
  pg_log :: "(string \<times> string) option"

record ping_env =
  pe_fail_url :: "string \<Rightarrow> string result"
  pe_reply :: "string \<Rightarrow> nat result"

definition Pinger_scrub :: "string \<Rightarrow> string \<Rightarrow> string" where
  "Pinger_scrub url s = scrub s [url, TrimRight url ''/'']"

definition ping_get :: "ping_env \<Rightarrow> string \<Rightarrow> error option" where
  "ping_get pe target =
     (case pe_reply pe target of
        Inl e \<Rightarrow> Some e
      | Inr code \<Rightarrow> if code div 100 \<noteq> 2 then Some (newError (''ping: status '' @ dec code)) else None)"

definition Pinger_After :: "ping_env \<Rightarrow> string \<Rightarrow> error option \<Rightarrow> ping" where
  "Pinger_After pe url err =
     (let logged = (\<lambda>outcome e. Some (outcome, Pinger_scrub url (err_msg e)));
          send = (\<lambda>outcome target. \<lparr>pg_target = Some target,
                    pg_log = (case ping_get pe target of None \<Rightarrow> None | Some e \<Rightarrow> logged outcome e)\<rparr>)
      in if url = [] \<or> (case err of None \<Rightarrow> False | Some e \<Rightarrow> errors_Is e ErrSkipped) then \<lparr>pg_target = None, pg_log = None\<rparr>
         else (case err of
                 None \<Rightarrow> send ''ok'' url
               | Some _ \<Rightarrow>
                   (case pe_fail_url pe url of
                      Inl e \<Rightarrow> \<lparr>pg_target = None, pg_log = logged ''fail'' e\<rparr>
                    | Inr target \<Rightarrow> send ''fail'' target)))"

text \<open>
  The sync job of \<open>newScheduler\<close> with \<open>addStatus\<close> around it: its error, the ping, and what \<open>SyncDone\<close> is
  given (\<open>None\<close>: not called). \<open>ended\<close> is \<open>ctx.Err() != nil\<close>.
\<close>

record sync_job =
  sj_err :: "error option"
  sj_ping :: ping
  sj_status :: "error option option"

definition run_sync_job :: "config \<Rightarrow> ping_env \<Rightarrow> bool \<Rightarrow> tick_result result \<Rightarrow> sync_job" where
  "run_sync_job cfg pe ended tick =
     (let err = fst (syncPlan cfg tick)
      in \<lparr>sj_err = err,
          sj_ping = (if ended then \<lparr>pg_target = None, pg_log = None\<rparr> else Pinger_After pe (c_healthcheck_ping_url cfg) err),
          sj_status = (if ended \<or> c_slack_bot_token cfg = [] then None else Some err)\<rparr>)"

text \<open>The backup job of \<open>addStatus\<close>: what \<open>BackupDone\<close> is given.\<close>

definition backup_told :: "config \<Rightarrow> bool \<Rightarrow> error option \<Rightarrow> error option option" where
  "backup_told cfg ended err = (if ended \<or> c_slack_bot_token cfg = [] then None else Some err)"

text \<open>
  \<open>addStatus\<close> with \<open>status.New\<close>: the updater's settings, \<open>None\<close> without a token. \<open>has_backup\<close> is
  \<open>sched.Backup != nil\<close>.
\<close>

definition addStatus :: "string \<Rightarrow> config \<Rightarrow> bool \<Rightarrow> upd_config option" where
  "addStatus version cfg has_backup =
     (if c_slack_bot_token cfg = [] then None
      else Some \<lparr>cf_token = c_slack_bot_token cfg, cf_redact = Some (app_redact cfg), cf_channel = c_slack_status_channel cfg,
             cf_plan = c_ynab_budget_id cfg, cf_version = version, cf_import_enabled = c_import_enabled cfg,
             cf_backup_enabled = has_backup, cf_stale_after = 2 * c_sync_interval cfg\<rparr>)"

text \<open>\<open>newScheduler\<close>, \<open>addBackup\<close> and \<open>addPrune\<close>: which jobs exist, and the health they report to.\<close>

definition newBackupRunner ::
    "config_env \<Rightarrow> (string \<Rightarrow> string) \<Rightarrow> (string \<Rightarrow> url \<Rightarrow> string) \<Rightarrow> backup_config \<Rightarrow> runner result" where
  "newBackupRunner ce userinfo show_url b =
     (if \<not> ce_recipient ce (bc_age_recipient b) then Inl (newError ''BACKUP_AGE_RECIPIENT must be an age public key'')
      else (case NewTurso (ce_parse_url ce) userinfo show_url (bc_turso_url b) (bc_turso_token b) of
              Inl e \<Rightarrow> Inl e
            | Inr t \<Rightarrow> Inr \<lparr>r_client = t, r_keep = sint (bc_keep b), r_chunk_size = 0, r_timeout = 0\<rparr>))"

definition addBackup :: "config_env \<Rightarrow> (string \<Rightarrow> string) \<Rightarrow> (string \<Rightarrow> url \<Rightarrow> string) \<Rightarrow> config \<Rightarrow> runner option" where
  "addBackup ce userinfo show_url cfg =
     (if Backup_Missing (c_backup cfg) \<noteq> [] then None
      else (case newBackupRunner ce userinfo show_url (c_backup cfg) of Inl _ \<Rightarrow> None | Inr r \<Rightarrow> Some r))"

definition newScheduler :: "config_env \<Rightarrow> (string \<Rightarrow> string) \<Rightarrow> (string \<Rightarrow> url \<Rightarrow> string) \<Rightarrow> config \<Rightarrow> sched_config \<times> health" where
  "newScheduler ce userinfo show_url cfg =
     (\<lparr>sc_import = c_import_enabled cfg, sc_backup = addBackup ce userinfo show_url cfg \<noteq> None,
       sc_prune = (MCP_Missing (c_mcp cfg) = []), sc_health = True\<rparr>,
      \<lparr>h_stale_after = 2 * c_sync_interval cfg, h_token = c_ynab_access_token cfg, h_last_ok = 0, h_last_err = []\<rparr>)"

text \<open>
  \<open>nextDaily\<close>, in a zone that reads times as \<open>civil\<close> does and whose \<open>time.Date\<close> of a civil day and time is \<open>date_at\<close>;
  \<open>BackupDelay\<close> is the time until it.
\<close>

definition nextDaily :: "(time \<Rightarrow> date) \<Rightarrow> (date \<Rightarrow> nat \<Rightarrow> nat \<Rightarrow> time) \<Rightarrow> time \<Rightarrow> nat \<Rightarrow> nat \<Rightarrow> time" where
  "nextDaily civil date_at now hour minute =
     (let t = date_at (civil now) hour minute
      in if now < t then t else date_at (date_of_day (day_number (civil now) + 1)) hour minute)"

definition fixed_zone :: "duration \<Rightarrow> (time \<Rightarrow> date) \<times> (date \<Rightarrow> nat \<Rightarrow> nat \<Rightarrow> time)" where
  "fixed_zone offset =
     (\<lambda>t. date_of_day ((t + offset) div ns_day), \<lambda>d h m. date_time d + int h * ns_hour + int m * ns_minute - offset)"

subsection \<open>The one-shot syncs\<close>

definition sync_kind :: "tick_result \<Rightarrow> string" where
  "sync_kind res = (if tr_initial res then ''initial'' else ''delta'')"

definition total_rows :: "(string \<times> nat) list \<Rightarrow> nat" where
  "total_rows rows = sum_list (map snd rows)"

text \<open>\<open>%v\<close> of a map: its keys sorted.\<close>

definition show_rows :: "(string \<times> nat) list \<Rightarrow> string" where
  "show_rows rows = ''map['' @ Join '' '' (map (\<lambda>(k, n). k @ '':'' @ dec n) (sort_key fst rows)) @ '']''"

definition summary :: "tick_result \<Rightarrow> string" where
  "summary res =
     (if tr_skipped res then ''skipped (rate budget exhausted)''
      else sync_kind res @ '', '' @ dec (total_rows (tr_rows res)) @ '' rows '' @ show_rows (tr_rows res) @ '', '' @
        dec (tr_orphans res) @ '' orphans, '' @ dec (length (tr_link_events res)) @ '' link events'')"

definition failed_tick :: "config \<Rightarrow> tick_result result \<Rightarrow> error option" where
  "failed_tick cfg tick =
     (case fst (syncPlan cfg tick) of None \<Rightarrow> None | Some e \<Rightarrow> if errors_Is e ErrSkipped then None else Some e)"

text \<open>\<open>syncOnce\<close>; a failed tick's result is the zero one, which is not printed.\<close>

definition syncOnce :: "config \<Rightarrow> tick_result result \<Rightarrow> error option \<times> string list" where
  "syncOnce cfg tick =
     (case failed_tick cfg tick of
        Some e \<Rightarrow> (Some e, [])
      | None \<Rightarrow> (None, case tick of Inr res \<Rightarrow> [''sync: active plan: '' @ summary res] | Inl _ \<Rightarrow> []))"

text \<open>The loop of \<open>syncArchived\<close> over the plans found: how many failed, what is printed, and the ticks' effects.\<close>

fun sync_plans ::
    "config \<Rightarrow> (plan_summary \<Rightarrow> 's \<Rightarrow> tick_result result \<times> 's) \<Rightarrow> plan_summary list \<Rightarrow> 's \<Rightarrow> (nat \<times> string list) \<times> 's" where
  "sync_plans cfg sync [] s = ((0, []), s)"
| "sync_plans cfg sync (p # ps) s =
     (case sync p s of
        (tick, s1) \<Rightarrow>
          (case sync_plans cfg sync ps s1 of
             ((failed, lines), s2) \<Rightarrow>
               (case failed_tick cfg tick of
                  Some e \<Rightarrow> ((Suc failed, (''sync: '' @ pl_name p @ '': failed: '' @ app_redact cfg (err_msg e)) # lines), s2)
                | None \<Rightarrow> ((failed, (case tick of Inr res \<Rightarrow> [''sync: '' @ pl_name p @ '': '' @ summary res] | Inl _ \<Rightarrow> []) @ lines), s2))))"

definition archived_error :: "nat \<Rightarrow> bool \<Rightarrow> error option" where
  "archived_error failed scan_failed =
     (if 0 < failed \<or> scan_failed
      then Some (newError (''archived sync: '' @ dec failed @ '' plan syncs failed'' @ (if scan_failed then ''; scan had failures'' else [])))
      else None)"

definition syncArchived ::
    "config \<Rightarrow> ('s \<Rightarrow> (plan_summary list \<times> scan_error option) result \<times> 's) \<Rightarrow> ('s \<Rightarrow> nat result) \<Rightarrow>
     (plan_summary \<Rightarrow> 's \<Rightarrow> tick_result result \<times> 's) \<Rightarrow> 's \<Rightarrow> (error option \<times> string list) \<times> 's" where
  "syncArchived cfg scan stored sync s =
     (case scan s of
        (Inl e, s1) \<Rightarrow> ((Some e, []), s1)
      | (Inr (plans, bad), s1) \<Rightarrow>
          (case (case bad of
                   Some se \<Rightarrow> Inr ((''scan: '' @ dec (se_scanned se) @ '' plans scanned, '' @ dec (length plans) @
                       '' with Discretionary, '' @ dec (length (se_failed se)) @ '' failed'')
                     # map (\<lambda>f. ''scan: failed: '' @ sf_name f @ '': '' @ app_redact cfg (sf_err f)) (se_failed se))
                 | None \<Rightarrow>
                     (case stored s1 of
                        Inl e \<Rightarrow> Inl e
                      | Inr n \<Rightarrow> Inr [''scan: '' @ dec n @ '' plans scanned, '' @ dec (length plans) @ '' with Discretionary, 0 failed''])) of
             Inl e \<Rightarrow> ((Some e, []), s1)
           | Inr out \<Rightarrow>
               (case sync_plans cfg sync plans s1 of
                  ((failed, lines), s2) \<Rightarrow> ((archived_error failed (bad \<noteq> None), out @ lines), s2))))"

subsection \<open>Backup, restore and revoke\<close>

definition remoteFrom :: "config_env \<Rightarrow> (string \<Rightarrow> string) \<Rightarrow> (string \<Rightarrow> url \<Rightarrow> string) \<Rightarrow> backup_config \<Rightarrow> turso_client result" where
  "remoteFrom ce userinfo show_url b =
     (let missing = filter (\<lambda>k. k \<noteq> ''BACKUP_AGE_RECIPIENT'') (Backup_Missing b)
      in if missing \<noteq> [] then Inl (newError (Join '', '' missing @ '' not set''))
         else NewTurso (ce_parse_url ce) userinfo show_url (bc_turso_url b) (bc_turso_token b))"

definition listBackups :: "(turso_client \<Rightarrow> 'w \<Rightarrow> backup_info list result \<times> 'w) \<Rightarrow> turso_client result \<Rightarrow> 'w \<Rightarrow> string list result \<times> 'w" where
  "listBackups lister remote w =
     (case remote of
        Inl e \<Rightarrow> (Inl e, w)
      | Inr t \<Rightarrow>
          (case lister t w of
             (Inl e, w') \<Rightarrow> (Inl e, w')
           | (Inr infos, w') \<Rightarrow>
               (Inr (map (\<lambda>i. bi_id i @ [CHR 0x09] @ bi_created_at i @ [CHR 0x09] @ dec_int (sint (bi_size i))) infos), w')))"

text \<open>\<open>backupOnce\<close> up to the run: \<open>stat\<close> and \<open>opened\<close> are the answers of \<open>os.Stat\<close> and \<open>store.Open\<close>.\<close>

definition backup_runner ::
    "config_env \<Rightarrow> (string \<Rightarrow> string) \<Rightarrow> (string \<Rightarrow> url \<Rightarrow> string) \<Rightarrow> backup_config \<Rightarrow> error option \<Rightarrow> error option \<Rightarrow> runner result" where
  "backup_runner ce userinfo show_url b stat opened =
     (if Backup_Missing b \<noteq> [] then Inl (newError (''backups disabled: '' @ Join '', '' (Backup_Missing b) @ '' not set''))
      else (case stat of
              Some e \<Rightarrow> Inl (wrapError ''database file'' e)
            | None \<Rightarrow> (case opened of Some e \<Rightarrow> Inl e | None \<Rightarrow> newBackupRunner ce userinfo show_url b)))"

text \<open>The rest of \<open>backupOnce\<close>; a run that stored a backup but could not prune prints nothing and fails.\<close>

definition backupOnce ::
    "(runner \<Rightarrow> 'w \<Rightarrow> (run_result option \<times> error option) \<times> 'w) \<Rightarrow> runner result \<Rightarrow> 'w \<Rightarrow> string list result \<times> 'w" where
  "backupOnce run r w =
     (case r of
        Inl e \<Rightarrow> (Inl e, w)
      | Inr b \<Rightarrow>
          (case run b w of
             ((_, Some e), w') \<Rightarrow> (Inl e, w')
           | ((res, None), w') \<Rightarrow>
               (Inr (case res of None \<Rightarrow> [] | Some x \<Rightarrow>
                  [''backup '' @ rr_id x @ '': '' @ dec_int (sint (rr_size x)) @ '' bytes, '' @ dec (rr_chunks x) @ '' chunks'']), w')))"

definition restoredLines :: "backup_info \<times> (string \<times> int64) list \<Rightarrow> string list" where
  "restoredLines r =
     (''restored '' @ bi_id (fst r) @ '' ('' @ bi_created_at (fst r) @ '', '' @ dec_int (sint (bi_size (fst r))) @
        '' bytes encrypted): integrity_check ok'')
     # map (\<lambda>(t, n). t @ [CHR 0x09] @ dec_int (sint n)) (snd r)"

text \<open>\<open>^u_[0-9a-f]{12}$\<close>.\<close>

definition is_subject :: "string \<Rightarrow> bool" where
  "is_subject s \<longleftrightarrow> length s = 14 \<and> HasPrefix s ''u_'' \<and>
     list_all (\<lambda>c. let n = of_char c :: nat in (48 \<le> n \<and> n \<le> 57) \<or> (97 \<le> n \<and> n \<le> 102)) (drop 2 s)"

definition revokeTarget :: "(string \<Rightarrow> string) \<Rightarrow> string \<Rightarrow> string result" where
  "revokeTarget sha256 arg =
     (if arg = ''--all'' then Inr AllUsers
      else if is_subject arg then Inr arg
      else if HasPrefix arg ''-'' \<or> \<not> Contains arg ''@'' then Inl (newError ''expected an email, a u_ hash or --all'')
      else Inr (UserID sha256 arg))"

record revoke_env =
  rv_stat :: "error option"
  rv_open :: "error option"
  rv_count :: "token_table \<Rightarrow> error option"
  rv_gen :: "string \<Rightarrow> error option"
  rv_bump :: "error option"
  rv_now :: time

text \<open>\<open>revokeCmd\<close> with its one argument: the exit code, what it prints, and the database.\<close>

definition revoke_line :: "string \<Rightarrow> nat result \<Rightarrow> string" where
  "revoke_line user active =
     (let who = (if user = AllUsers then ''all users'' else user)
      in case active of
           Inl _ \<Rightarrow> ''revoked tokens for '' @ who @ '' (couldn't count them)''
         | Inr n \<Rightarrow>
             if n = 0 \<and> user = AllUsers then ''no active tokens for any user, so nobody was signed out''
             else if n = 0 then ''no active tokens for '' @ who @ '', so nobody was signed out. If you expected some, check for a typo.''
             else ''revoked '' @ dec n @ '' active tokens for '' @ who)"

definition revokeCmd :: "revoke_env \<Rightarrow> (string \<Rightarrow> string) \<Rightarrow> string \<Rightarrow> auth_ctx \<Rightarrow> (nat \<times> string) \<times> auth_ctx" where
  "revokeCmd rv sha256 arg x =
     (case revokeTarget sha256 arg of
        Inl e \<Rightarrow> ((2, ''finbot revoke: '' @ err_msg e), x)
      | Inr user \<Rightarrow>
          (case rv_stat rv of
             Some _ \<Rightarrow> ((1, ''finbot revoke: no database at FINBOT_DB_PATH; nothing was revoked''), x)
           | None \<Rightarrow>
               (case rv_open rv of
                  Some e \<Rightarrow> ((1, ''finbot revoke: open database: '' @ scrub (err_msg e) [arg]), x)
                | None \<Rightarrow>
                    (let active = ActiveTokens (rv_count rv) (rv_gen rv) (rv_now rv) user x
                     in case BumpGeneration (rv_bump rv) user x of
                          (Inl e, x') \<Rightarrow> ((1, ''finbot revoke: '' @ scrub (err_msg e) [arg]), x')
                        | (Inr _, x') \<Rightarrow> ((0, revoke_line user active), x')))))"

subsection \<open>The container healthcheck and the MCP routes\<close>

definition probe_url :: "(string \<Rightarrow> (string \<times> string) option) \<Rightarrow> (string \<Rightarrow> string \<Rightarrow> string) \<Rightarrow> string \<Rightarrow> string option" where
  "probe_url split join addr =
     (case split (if addr = [] then DefaultHTTPAddr else addr) of
        None \<Rightarrow> None
      | Some (host, port) \<Rightarrow>
          Some (''http://'' @ join (if host \<in> {[], ''0.0.0.0'', ''::''} then ''127.0.0.1'' else host) port @ ''/healthz''))"

definition probe :: "(string \<Rightarrow> (string \<times> string) option) \<Rightarrow> (string \<Rightarrow> string \<Rightarrow> string) \<Rightarrow> (string \<Rightarrow> nat result) \<Rightarrow> string \<Rightarrow> nat" where
  "probe split join get addr =
     (case probe_url split join addr of
        None \<Rightarrow> 1
      | Some u \<Rightarrow> (case get u of Inl _ \<Rightarrow> 1 | Inr code \<Rightarrow> if code = 200 then 0 else 1))"

text \<open>\<open>swappable\<close>: 503 until it has a handler.\<close>

definition swappable_ServeHTTP :: "('req \<Rightarrow> nat \<times> string) option \<Rightarrow> 'req \<Rightarrow> nat \<times> string" where
  "swappable_ServeHTTP h req = (case h of None \<Rightarrow> (503, ''finbot is starting'') | Some f \<Rightarrow> f req)"

text \<open>
  The loop of \<open>buildMCP\<close>: Google's discovery is retried until it succeeds or the context ends; \<open>ended k\<close> says
  whether it had ended when the \<open>k\<close>-th wait did.
\<close>

partial_function (option) discover :: "(nat \<Rightarrow> 'idp result) \<Rightarrow> (nat \<Rightarrow> bool) \<Rightarrow> nat \<Rightarrow> 'idp option option" where
  "discover new_idp ended k =
     (case new_idp k of
        Inr idp \<Rightarrow> Some (Some idp)
      | Inl _ \<Rightarrow> if ended k then Some None else discover new_idp ended (Suc k))"

subsection \<open>What they come to\<close>

text \<open>A skipped tick is no failure to the dead-man switch and no success to health; a failed one is told to all.\<close>

lemma sync_told:
  "fst (syncPlan cfg tick) = None \<longleftrightarrow> (\<exists>res. tick = Inr res \<and> \<not> tr_skipped res)"
  "tick = Inr res \<Longrightarrow> tr_skipped res \<Longrightarrow> sj_ping (run_sync_job cfg pe ended tick) = \<lparr>pg_target = None, pg_log = None\<rparr>"
  "tick = Inr res \<Longrightarrow> \<not> tr_skipped res \<Longrightarrow> \<not> ended \<Longrightarrow> c_healthcheck_ping_url cfg \<noteq> [] \<Longrightarrow>
     pg_target (sj_ping (run_sync_job cfg pe ended tick)) = Some (c_healthcheck_ping_url cfg)"
  "pg_log (sj_ping (run_sync_job cfg pe ended tick)) = Some (outcome, msg) \<Longrightarrow> \<not> has_uuid msg"
  using scrub_clean
  by (auto simp: syncPlan_def run_sync_job_def Pinger_After_def Pinger_scrub_def errSkipped_def Let_def
      split: sum.splits option.splits if_splits)

text \<open>The next backup is within a day, and at the configured time, in a zone with a fixed offset.\<close>

lemma nextDaily_soon:
  assumes "hour < 24" and "minute < 60" and "(civil, date_at) = fixed_zone offset"
  shows "let t = nextDaily civil date_at now hour minute in now < t \<and> t \<le> now + ns_day \<and> (t + offset) mod ns_day = int hour * ns_hour + int minute * ns_minute"
proof -
  define t where "t = nextDaily civil date_at now hour minute"
  define c where "c = int hour * ns_hour + int minute * ns_minute"
  have c: "0 \<le> c" "c < ns_day" using assms(1,2) by (simp_all add: c_def)
  define k where "k = (now + offset) div ns_day"
  have k: "k * ns_day \<le> now + offset" "now + offset < (k + 1) * ns_day"
    using time_split [of "now + offset"] mod_day_bounds [of "now + offset"] by (simp_all add: k_def)
  have z: "civil t' = date_of_day ((t' + offset) div ns_day)" "date_at d h m = date_time d + int h * ns_hour + int m * ns_minute - offset" for t' d h m
    using assms(3) by (simp_all add: fixed_zone_def)
  have at: "date_at (date_of_day j) hour minute = j * ns_day + c - offset" for j
    by (simp add: z date_time_def c_def)
  have civil: "civil now = date_of_day k" by (simp add: z k_def)
  have t: "t = (if now < k * ns_day + c - offset then k * ns_day + c - offset else (k + 1) * ns_day + c - offset)"
    by (simp only: t_def nextDaily_def Let_def civil at day_number_date_of_day)
  have day: "(j * ns_day + c) mod ns_day = c" for j using c by simp
  have "(t + offset) mod ns_day = c"
    using day [of k] day [of "k + 1"] by (cases "now < k * ns_day + c - offset") (simp_all only: t if_True if_False diff_add_cancel)
  moreover have "now < t" "t \<le> now + ns_day" using k c by (simp_all add: t algebra_simps)
  ultimately show ?thesis by (simp add: c_def Let_def t_def)
qed

text \<open>What is revoked is everyone, a whole subject or the subject of an email, never a mistyped flag.\<close>

lemma revokeTarget_Inr:
  assumes "revokeTarget sha256 arg = Inr user"
  shows "user = AllUsers \<or> is_subject user \<or> Contains arg ''@'' \<and> user = UserID sha256 arg"
  using assms by (auto simp: revokeTarget_def split: if_splits)

text \<open>A backup runner of settings that load keeps at least one backup.\<close>

lemma addBackup_keeps:
  assumes "LoadFrom ce = Inr cfg" and "addBackup ce userinfo show_url cfg = Some r"
  shows "1 \<le> r_keep r"
proof -
  have "r_keep r = sint (bc_keep (c_backup cfg))"
    using assms(2) by (auto simp: addBackup_def newBackupRunner_def split: if_splits sum.splits)
  moreover have "BackupFrom ce = Inr (c_backup cfg)"
    using assms(1) by (auto simp: LoadFrom_def config_of_def simp del: find.simps split: option.splits sum.splits)
  ultimately show ?thesis using BackupFrom_checked [of ce] by simp
qed

text \<open>Discovery returns once Google answers or the context has ended.\<close>

lemma discover_returns:
  assumes "\<exists>j \<ge> k. (\<exists>idp. new_idp j = Inr idp) \<or> ended j"
  shows "\<exists>x. discover new_idp ended k = Some x"
proof -
  obtain j where j: "k \<le> j" "(\<exists>idp. new_idp j = Inr idp) \<or> ended j" using assms by blast
  then show ?thesis
  proof (induction "j - k" arbitrary: k)
    case 0
    then show ?case by (subst discover.simps) (auto split: sum.split)
  next
    case (Suc n)
    then have "\<exists>x. discover new_idp ended (Suc k) = Some x" by (intro Suc.hyps(1)) auto
    then show ?case by (subst discover.simps) (auto split: sum.split)
  qed
qed

end
