(* ===== verification/Cli.thy ===== *)
theory Cli
  imports Commands
begin

text \<open>
  The command line (\<open>cmd/app.go\<close>: \<open>Main\<close>, \<open>withApp\<close>; \<open>cmd/backup.go\<close>: \<open>backupCmd\<close>, \<open>restoreCmd\<close>,
  \<open>runBackupCommand\<close>) over Go's \<open>flag\<close> package: which command runs, with what, its exit code and what it
  prints. What the commands do to the world is an argument per operation they call.
\<close>

subsection \<open>Flags\<close>

datatype flag_kind = BoolFlag | StringFlag

type_synonym flag_values = "string \<Rightarrow> string option"

definition bool_text :: "bool \<Rightarrow> string" where
  "bool_text b = (if b then ''true'' else ''false'')"

text \<open>
  \<open>FlagSet.Parse\<close>: the flags set and the arguments after them; \<open>None\<close> for every error, \<open>-help\<close> included. A
  flag's text has one or two dashes; a bare \<open>--\<close> ends the flags.
\<close>

fun Flag_Parse :: "(string \<Rightarrow> flag_kind option) \<Rightarrow> flag_values \<Rightarrow> string list \<Rightarrow> (flag_values \<times> string list) option" where
  "Flag_Parse formal vals [] = Some (vals, [])"
| "Flag_Parse formal vals (s # args) =
     (if length s < 2 \<or> hd s \<noteq> CHR ''-'' then Some (vals, s # args)
      else if s = ''--'' then Some (vals, args)
      else (let name = drop (if s ! 1 = CHR ''-'' then 2 else 1) s
            in if name = [] \<or> hd name = CHR ''-'' \<or> hd name = CHR ''='' then None
               else (case Cut (CHR ''='') name of
                       (n, v, has_value) \<Rightarrow>
                         (case formal n of
                            None \<Rightarrow> None
                          | Some BoolFlag \<Rightarrow>
                              (case ParseBool (if has_value then v else ''true'') of
                                 None \<Rightarrow> None
                               | Some b \<Rightarrow> Flag_Parse formal (vals(n \<mapsto> bool_text b)) args)
                          | Some StringFlag \<Rightarrow>
                              if has_value then Flag_Parse formal (vals(n \<mapsto> v)) args
                              else (case args of [] \<Rightarrow> None | v' # args' \<Rightarrow> Flag_Parse formal (vals(n \<mapsto> v')) args')))))"

definition flag_set :: "flag_values \<Rightarrow> string \<Rightarrow> bool" where
  "flag_set vals n = (vals n = Some ''true'')"

definition flag_text :: "flag_values \<Rightarrow> string \<Rightarrow> string" where
  "flag_text vals n = (case vals n of None \<Rightarrow> [] | Some v \<Rightarrow> v)"

subsection \<open>What a command ends with\<close>

record outcome =
  oc_exit :: nat
  oc_stdout :: "string list"
  oc_stderr :: "string list"

definition usage :: string where
  "usage = Join [CHR 0x0A]
     [''usage: finbot <command> [flags]'', [],
      ''commands:'',
      ''  serve             run the daemon: delta sync every SYNC_INTERVAL, /healthz on HTTP_ADDR'',
      ''  sync              run one delta sync of the active plan and exit'',
      ''  sync --archived   scan every plan for Discretionary (persisted), then sync each plan that has it'',
      ''  health            GET /healthz on the local server (HTTP_ADDR); exit 0 on 200, else 1'',
      ''  backup            store one encrypted backup off-site now'',
      ''  backup --list     list stored backups (id, time, size)'',
      ''  restore --key <path> [--id <id>] --out <path>'',
      ''                    download and decrypt a backup (newest by default) to a new file, then verify it'',
      ''  revoke <email | u_hash | --all>'',
      ''                    sign a user (or everyone) out of MCP at once, with no restart'',
      []]"

definition with_usage :: "string \<Rightarrow> string" where
  "with_usage s = s @ [CHR 0x0A, CHR 0x0A] @ usage"

definition misuse :: "string list \<Rightarrow> outcome" where
  "misuse err = \<lparr>oc_exit = 2, oc_stdout = [], oc_stderr = err\<rparr>"

text \<open>
  \<open>withApp\<close>: parse the flags, load the settings, open the store, run. What \<open>slog\<close> writes of an error is its
  text; the \<open>flag\<close> package's own messages are left out.
\<close>

definition withApp ::
    "config_env \<Rightarrow> (string \<Rightarrow> 'w \<Rightarrow> error option \<times> 'w) \<Rightarrow> (string \<Rightarrow> flag_kind option) \<Rightarrow> string \<Rightarrow>
     (flag_values \<Rightarrow> config \<Rightarrow> 'w \<Rightarrow> (error option \<times> string list) \<times> 'w) \<Rightarrow> string list \<Rightarrow> 'w \<Rightarrow> outcome \<times> 'w" where
  "withApp ce open_store formal name run args w =
     (case Flag_Parse formal Map.empty args of
        None \<Rightarrow> (misuse [], w)
      | Some (vals, rest) \<Rightarrow>
          if rest \<noteq> [] then (misuse [with_usage (''finbot '' @ name @ '': unexpected arguments'')], w)
          else (case LoadFrom ce of
                  Inl e \<Rightarrow> (\<lparr>oc_exit = 1, oc_stdout = [], oc_stderr = [''finbot: '' @ err_msg e]\<rparr>, w)
                | Inr cfg \<Rightarrow>
                    (case open_store (c_db_path cfg) w of
                       (Some e, w1) \<Rightarrow> (\<lparr>oc_exit = 1, oc_stdout = [], oc_stderr = [scrub (err_msg e) (secrets cfg)]\<rparr>, w1)
                     | (None, w1) \<Rightarrow>
                         (case run vals cfg w1 of
                            ((Some e, out), w2) \<Rightarrow> (\<lparr>oc_exit = 1, oc_stdout = out, oc_stderr = [scrub (err_msg e) (secrets cfg)]\<rparr>, w2)
                          | ((None, out), w2) \<Rightarrow> (\<lparr>oc_exit = 0, oc_stdout = out, oc_stderr = []\<rparr>, w2)))))"

definition runBackupCommand :: "config_env \<Rightarrow> (backup_config \<Rightarrow> 'w \<Rightarrow> string list result \<times> 'w) \<Rightarrow> 'w \<Rightarrow> outcome \<times> 'w" where
  "runBackupCommand ce fn w =
     (case BackupFrom ce of
        Inl e \<Rightarrow> (\<lparr>oc_exit = 1, oc_stdout = [], oc_stderr = [''finbot: '' @ err_msg e]\<rparr>, w)
      | Inr b \<Rightarrow>
          (case fn b w of
             (Inl e, w') \<Rightarrow>
               (\<lparr>oc_exit = 1, oc_stdout = [], oc_stderr = [''finbot: '' @ scrub (err_msg e) [bc_turso_token b, bc_turso_url b]]\<rparr>, w')
           | (Inr out, w') \<Rightarrow> (\<lparr>oc_exit = 0, oc_stdout = out, oc_stderr = []\<rparr>, w')))"

subsection \<open>The commands\<close>

text \<open>
  What the commands call: the store, the daemon, a tick, the scan, the remote's operations, the health
  probe and \<open>revokeCmd\<close> on its one argument. A key file's path goes with the restore's options.
\<close>

record 'w cli_env =
  cl_config :: config_env
  cl_userinfo :: "string \<Rightarrow> string"
  cl_show_url :: "string \<Rightarrow> url \<Rightarrow> string"
  cl_open :: "string \<Rightarrow> 'w \<Rightarrow> error option \<times> 'w"
  cl_serve :: "config \<Rightarrow> 'w \<Rightarrow> error option \<times> 'w"
  cl_tick :: "config \<Rightarrow> string \<Rightarrow> 'w \<Rightarrow> tick_result result \<times> 'w"
  cl_scan :: "config \<Rightarrow> 'w \<Rightarrow> (plan_summary list \<times> scan_error option) result \<times> 'w"
  cl_scanned :: "'w \<Rightarrow> nat result"
  cl_stat :: "string \<Rightarrow> 'w \<Rightarrow> error option"
  cl_list :: "turso_client \<Rightarrow> 'w \<Rightarrow> backup_info list result \<times> 'w"
  cl_backup :: "runner \<Rightarrow> 'w \<Rightarrow> (run_result option \<times> error option) \<times> 'w"
  cl_restore :: "turso_client \<Rightarrow> string \<Rightarrow> restore_opts \<Rightarrow> 'w \<Rightarrow> (backup_info \<times> (string \<times> int64) list) result \<times> 'w"
  cl_probe :: "string \<Rightarrow> nat"
  cl_revoke :: "string \<Rightarrow> 'w \<Rightarrow> (nat \<times> string) \<times> 'w"

definition sync_flags :: "string \<Rightarrow> flag_kind option" where
  "sync_flags = [''archived'' \<mapsto> BoolFlag]"

definition run_sync :: "'w cli_env \<Rightarrow> flag_values \<Rightarrow> config \<Rightarrow> 'w \<Rightarrow> (error option \<times> string list) \<times> 'w" where
  "run_sync cl vals cfg w =
     (if flag_set vals ''archived''
      then syncArchived cfg (cl_scan cl cfg) (cl_scanned cl) (\<lambda>p. cl_tick cl cfg (pl_id p)) w
      else (case cl_tick cl cfg (c_ynab_budget_id cfg) w of (tick, w') \<Rightarrow> (syncOnce cfg tick, w')))"

definition run_serve :: "'w cli_env \<Rightarrow> flag_values \<Rightarrow> config \<Rightarrow> 'w \<Rightarrow> (error option \<times> string list) \<times> 'w" where
  "run_serve cl vals cfg w = (case cl_serve cl cfg w of (e, w') \<Rightarrow> ((e, []), w'))"

text \<open>\<open>backupOnce\<close> opens the store only when the settings are complete and the file is there.\<close>

definition open_for_backup :: "'w cli_env \<Rightarrow> backup_config \<Rightarrow> 'w \<Rightarrow> runner result \<times> 'w" where
  "open_for_backup cl b w =
     (let runner = (\<lambda>opened. backup_runner (cl_config cl) (cl_userinfo cl) (cl_show_url cl) b (cl_stat cl (bc_db_path b) w) opened)
      in if Backup_Missing b \<noteq> [] \<or> cl_stat cl (bc_db_path b) w \<noteq> None then (runner None, w)
         else (case cl_open cl (bc_db_path b) w of (e, w') \<Rightarrow> (runner e, w')))"

definition backupCmd :: "'w cli_env \<Rightarrow> string list \<Rightarrow> 'w \<Rightarrow> outcome \<times> 'w" where
  "backupCmd cl args w =
     (case Flag_Parse [''list'' \<mapsto> BoolFlag] Map.empty args of
        None \<Rightarrow> (misuse [], w)
      | Some (vals, rest) \<Rightarrow>
          if rest \<noteq> [] then (misuse [with_usage ''finbot backup: unexpected arguments''], w)
          else runBackupCommand (cl_config cl)
                 (\<lambda>b w. if flag_set vals ''list''
                    then listBackups (cl_list cl) (remoteFrom (cl_config cl) (cl_userinfo cl) (cl_show_url cl) b) w
                    else (case open_for_backup cl b w of (r, w1) \<Rightarrow> backupOnce (cl_backup cl) r w1)) w)"

definition restore_flags :: "string \<Rightarrow> flag_kind option" where
  "restore_flags = [''key'' \<mapsto> StringFlag, ''id'' \<mapsto> StringFlag, ''out'' \<mapsto> StringFlag]"

definition restoreCmd :: "'w cli_env \<Rightarrow> string list \<Rightarrow> 'w \<Rightarrow> outcome \<times> 'w" where
  "restoreCmd cl args w =
     (case Flag_Parse restore_flags Map.empty args of
        None \<Rightarrow> (misuse [], w)
      | Some (vals, rest) \<Rightarrow>
          if rest \<noteq> [] \<or> flag_text vals ''key'' = [] \<or> flag_text vals ''out'' = []
          then (misuse [with_usage ''finbot restore: --key and --out are required''], w)
          else runBackupCommand (cl_config cl)
                 (\<lambda>b w. case remoteFrom (cl_config cl) (cl_userinfo cl) (cl_show_url cl) b of
                    Inl e \<Rightarrow> (Inl e, w)
                  | Inr t \<Rightarrow>
                      (case cl_restore cl t (flag_text vals ''key'') \<lparr>ro_id = flag_text vals ''id'', ro_out = flag_text vals ''out''\<rparr> w of
                         (Inl e, w') \<Rightarrow> (Inl e, w')
                       | (Inr r, w') \<Rightarrow> (Inr (restoredLines r), w'))) w)"

text \<open>\<open>revokeCmd\<close>: its exit code and the text it prints, to stdout on success.\<close>

definition revoke_args :: "'w cli_env \<Rightarrow> string list \<Rightarrow> 'w \<Rightarrow> outcome \<times> 'w" where
  "revoke_args cl args w =
     (case args of
        [arg] \<Rightarrow>
          (case cl_revoke cl arg w of
             ((code, s), w') \<Rightarrow>
               (if code = 0 then \<lparr>oc_exit = 0, oc_stdout = [s], oc_stderr = []\<rparr>
                else \<lparr>oc_exit = code, oc_stdout = [], oc_stderr = [if code = 2 then with_usage s else s]\<rparr>, w'))
      | _ \<Rightarrow> (misuse [with_usage ''finbot revoke: expected one argument''], w))"

definition Main :: "'w cli_env \<Rightarrow> string list \<Rightarrow> 'w \<Rightarrow> outcome \<times> 'w" where
  "Main cl args w =
     (case args of
        [] \<Rightarrow> (misuse [usage], w)
      | c # rest \<Rightarrow>
          if c = ''serve'' then withApp (cl_config cl) (cl_open cl) Map.empty ''serve'' (run_serve cl) rest w
          else if c = ''sync'' then withApp (cl_config cl) (cl_open cl) sync_flags ''sync'' (run_sync cl) rest w
          else if c = ''health'' then
            (if rest \<noteq> [] then (misuse [with_usage ''finbot health: unexpected arguments''], w)
             else (\<lparr>oc_exit = cl_probe cl (ce_getenv (cl_config cl) ''HTTP_ADDR''), oc_stdout = [], oc_stderr = []\<rparr>, w))
          else if c = ''backup'' then backupCmd cl rest w
          else if c = ''restore'' then restoreCmd cl rest w
          else if c = ''revoke'' then revoke_args cl rest w
          else (misuse [with_usage (''finbot: unknown command '' @ Quote c)], w))"

subsection \<open>What the user gets\<close>

text \<open>Flags given one after the other, each with its value, are read as given; the last of a name counts.\<close>

lemma Cut_absent: "sep \<notin> set s \<Longrightarrow> Cut sep s = (s, [], False)"
  by (induction s) auto

definition flag_name :: "string \<Rightarrow> bool" where
  "flag_name n \<longleftrightarrow> n \<noteq> [] \<and> hd n \<noteq> CHR ''-'' \<and> CHR ''='' \<notin> set n"

lemma Flag_Parse_pair:
  assumes "flag_name n" and "formal n = Some StringFlag"
  shows "Flag_Parse formal vals ((''--'' @ n) # v # args) = Flag_Parse formal (vals(n \<mapsto> v)) args"
proof -
  have "hd n \<noteq> CHR ''=''" using assms(1) by (cases n) (auto simp: flag_name_def)
  with assms Cut_absent [of "CHR ''=''" n] show ?thesis by (simp add: flag_name_def Let_def)
qed

lemma Flag_Parse_pairs:
  "\<forall>(n, v)\<in>set fs. flag_name n \<and> formal n = Some StringFlag \<Longrightarrow>
    Flag_Parse formal vals (concat (map (\<lambda>(n, v). [''--'' @ n, v]) fs)) = Some (vals ++ map_of (rev fs), [])"
proof (induction fs arbitrary: vals)
  case (Cons f fs)
  obtain n v where f: "f = (n, v)" by fastforce
  let ?rest = "concat (map (\<lambda>(n, v). [''--'' @ n, v]) fs)"
  have "Flag_Parse formal vals (concat (map (\<lambda>(n, v). [''--'' @ n, v]) (f # fs))) = Flag_Parse formal vals ((''--'' @ n) # v # ?rest)"
    by (simp only: f list.map concat.simps prod.case append_Cons append_Nil)
  also have "\<dots> = Flag_Parse formal (vals(n \<mapsto> v)) ?rest" by (rule Flag_Parse_pair) (use Cons.prems f in auto)
  also have "\<dots> = Some (vals(n \<mapsto> v) ++ map_of (rev fs), [])" by (rule Cons.IH) (use Cons.prems in auto)
  finally show ?case by (simp add: f map_add_def fun_eq_iff split: option.split)
qed simp

lemma restore_reads_flags:
  assumes "key \<noteq> []" and "out \<noteq> []"
  shows "fst (restoreCmd cl [''--key'', key, ''--id'', i, ''--out'', out] w) =
    fst (runBackupCommand (cl_config cl)
      (\<lambda>b w. case remoteFrom (cl_config cl) (cl_userinfo cl) (cl_show_url cl) b of
         Inl e \<Rightarrow> (Inl e, w)
       | Inr t \<Rightarrow> (case cl_restore cl t key \<lparr>ro_id = i, ro_out = out\<rparr> w of (Inl e, w') \<Rightarrow> (Inl e, w') | (Inr r, w') \<Rightarrow> (Inr (restoredLines r), w'))) w)"
proof -
  have "Flag_Parse restore_flags Map.empty [''--key'', key, ''--id'', i, ''--out'', out] =
    Some (Map.empty ++ map_of (rev [(''key'', key), (''id'', i), (''out'', out)]), [])"
    using Flag_Parse_pairs [of "[(''key'', key), (''id'', i), (''out'', out)]" restore_flags Map.empty]
    by (simp add: flag_name_def restore_flags_def)
  with assms show ?thesis by (simp add: restoreCmd_def flag_text_def cong: sum.case_cong)
qed

text \<open>A line is one of the fixed messages about the settings, or does not show \<open>tok\<close>.\<close>

definition hides :: "string \<Rightarrow> string \<Rightarrow> bool" where
  "hides tok shown \<longleftrightarrow> \<not> Contains shown tok \<or> (\<exists>m\<in>set config_messages. shown = ''finbot: '' @ m)"

lemma scrub_hides:
  assumes "plain_secret tok" and "tok \<in> set toks"
  shows "hides tok (scrub s toks)"
  using scrub_keeps_clean [OF secret_barriers(1,2) [OF assms(1)] plain_secretD(1) [OF assms(1)]] assms(2)
  by (simp add: hides_def)

lemma prefixed_hides:
  assumes "plain_secret tok" and "tok \<in> set toks"
  shows "hides tok (''finbot: '' @ scrub s toks)"
proof -
  have clean: "\<not> Contains (scrub s toks) tok"
    using assms plain_secretD(1) secret_barriers [OF assms(1)] by (intro scrub_keeps_clean) auto
  have "\<not> Contains (''finbot:'' @ CHR '' '' # scrub s toks) tok"
  proof
    assume "Contains (''finbot:'' @ CHR '' '' # scrub s toks) tok"
    then have "Contains ''finbot:'' tok \<or> Contains (scrub s toks) tok"
      by (rule Contains_barrier) (rule plain_secretD(4) [OF assms(1)])
    with clean have "Contains ''finbot:'' tok" by blast
    then obtain a b where "''finbot:'' = a @ tok @ b" by (auto simp: Contains_iff)
    from arg_cong [OF this, of length] have "length tok \<le> 7" by simp
    with assms(1) show False by (simp add: plain_secret_def)
  qed
  then show ?thesis by (simp add: hides_def)
qed

lemma LoadFrom_backup: "LoadFrom ce = Inr cfg \<Longrightarrow> BackupFrom ce = Inr (c_backup cfg)"
  by (auto simp: LoadFrom_def config_of_def simp del: find.simps split: option.splits sum.splits)

lemma BackupFrom_token: "BackupFrom ce = Inr b \<Longrightarrow> bc_turso_token b = ce_getenv ce ''BACKUP_TURSO_TOKEN''"
  by (auto simp: BackupFrom_def Let_def split: if_splits option.splits)

lemma withApp_outcome:
  assumes "withApp ce open_store formal name run args w = (oc, w')"
  shows "(oc_exit oc = 2 \<and> w' = w \<and> oc_stdout oc = []) \<or>
    (oc_exit oc = 0 \<and> oc_stderr oc = []) \<or>
    (oc_exit oc = 1 \<and> ((\<exists>m\<in>set config_messages. oc_stderr oc = [''finbot: '' @ m] \<and> w' = w \<and> oc_stdout oc = []) \<or>
       (\<exists>cfg s. LoadFrom ce = Inr cfg \<and> oc_stderr oc = [scrub s (secrets cfg)])))"
  using assms LoadFrom_message [of ce]
  by (auto simp: withApp_def misuse_def split: option.splits sum.splits if_splits prod.splits)

lemma runBackupCommand_outcome:
  assumes "runBackupCommand ce fn w = (oc, w')"
  shows "(oc_exit oc = 0 \<and> oc_stderr oc = []) \<or>
    (oc_exit oc = 1 \<and> ((\<exists>m\<in>set config_messages. oc_stderr oc = [''finbot: '' @ m] \<and> w' = w \<and> oc_stdout oc = []) \<or>
       (\<exists>s b. BackupFrom ce = Inr b \<and> oc_stderr oc = [''finbot: '' @ scrub s [bc_turso_token b, bc_turso_url b]])))"
  using assms BackupFrom_checked [of ce]
  by (auto simp: runBackupCommand_def split: sum.splits prod.splits)

text \<open>The secrets a command line may not show: those \<open>withApp\<close> knows, or the remote's token.\<close>

definition guarded :: "config_env \<Rightarrow> string list \<Rightarrow> string \<Rightarrow> bool" where
  "guarded ce args tok \<longleftrightarrow>
     plain_secret tok \<and>
     (if hd args \<in> {''serve'', ''sync''} then \<exists>cfg. LoadFrom ce = Inr cfg \<and> tok \<in> set (secrets cfg)
      else hd args \<in> {''backup'', ''restore''} \<and> tok = ce_getenv ce ''BACKUP_TURSO_TOKEN'')"

text \<open>
  What a run of the program comes to, for every command line, environment and failure. Exit code 2 means it was
  misused, and then nothing was opened, called or printed to stdout; on exit code 0 it printed no error; on exit code 1 of
  \<open>serve\<close>, \<open>sync\<close>, \<open>backup\<close> and \<open>restore\<close> the error shows none of their secrets.
\<close>

theorem main_outcome:
  assumes "Main cl args w = (oc, w')" and "args \<noteq> []" and "\<And>arg w s w'. cl_revoke cl arg w = ((2, s), w') \<Longrightarrow> w' = w"
  shows "(oc_exit oc = 2 \<longrightarrow> w' = w \<and> oc_stdout oc = []) \<and> (oc_exit oc = 0 \<longrightarrow> oc_stderr oc = []) \<and>
    (\<forall>tok. oc_exit oc = 1 \<and> guarded (cl_config cl) args tok \<longrightarrow> (\<forall>s\<in>set (oc_stderr oc). hides tok s))"
proof -
  obtain c rest where args: "args = c # rest" using assms(2) by (cases args) auto
  have app: ?thesis if "withApp (cl_config cl) (cl_open cl) formal name run rest w = (oc, w')" "c \<in> {''serve'', ''sync''}" for formal name run
  proof -
    have "hides tok s" if "oc_exit oc = 1" "guarded (cl_config cl) args tok" "s \<in> set (oc_stderr oc)" for tok s
    proof -
      from that(2) \<open>c \<in> _\<close> obtain cfg where "plain_secret tok" "LoadFrom (cl_config cl) = Inr cfg" "tok \<in> set (secrets cfg)"
        unfolding guarded_def args list.sel by (simp only: if_True) blast
      with withApp_outcome [OF \<open>withApp _ _ _ _ _ _ _ = _\<close>] that(1,3) scrub_hides show ?thesis
        by (elim disjE) (auto simp: hides_def)
    qed
    moreover have "(oc_exit oc = 2 \<longrightarrow> w' = w \<and> oc_stdout oc = []) \<and> (oc_exit oc = 0 \<longrightarrow> oc_stderr oc = [])"
      using withApp_outcome [OF that(1)] by (elim disjE) auto
    ultimately show ?thesis by blast
  qed
  have backup: ?thesis if "runBackupCommand (cl_config cl) fn w = (oc, w')" "c \<in> {''backup'', ''restore''}" for fn
  proof -
    have "hides tok s" if "oc_exit oc = 1" "guarded (cl_config cl) args tok" "s \<in> set (oc_stderr oc)" for tok s
    proof -
      from \<open>c \<in> _\<close> have "c \<notin> {''serve'', ''sync''}" by auto
      from that(2) have "plain_secret tok \<and> c \<in> {''backup'', ''restore''} \<and> tok = ce_getenv (cl_config cl) ''BACKUP_TURSO_TOKEN''"
        unfolding guarded_def args list.sel if_not_P [OF \<open>c \<notin> {''serve'', ''sync''}\<close>] .
      then have tok: "plain_secret tok" "tok = ce_getenv (cl_config cl) ''BACKUP_TURSO_TOKEN''" by blast+
      from runBackupCommand_outcome [OF \<open>runBackupCommand _ _ _ = _\<close>] that(1,3) consider
          m where "m \<in> set config_messages" "s = ''finbot: '' @ m"
        | t b where "BackupFrom (cl_config cl) = Inr b" "s = ''finbot: '' @ scrub t [bc_turso_token b, bc_turso_url b]"
        by (elim disjE) auto
      then show ?thesis
      proof cases
        case 1
        then show ?thesis by (auto simp: hides_def)
      next
        case 2
        with tok BackupFrom_token have "tok \<in> set [bc_turso_token b, bc_turso_url b]" by simp
        with 2(2) prefixed_hides [OF tok(1)] show ?thesis by blast
      qed
    qed
    moreover have "oc_exit oc \<noteq> 2 \<and> (oc_exit oc = 0 \<longrightarrow> oc_stderr oc = [])"
      using runBackupCommand_outcome [OF that(1)] by (elim disjE) auto
    ultimately show ?thesis by blast
  qed
  have misused: ?thesis if "(oc, w') = (misuse err, w)" for err
    using that by (simp add: misuse_def)
  consider "c = ''serve''" | "c = ''sync''" | "c = ''health''" | "c = ''backup''" | "c = ''restore''" | "c = ''revoke''"
    | "c \<noteq> ''serve''" "c \<noteq> ''sync''" "c \<noteq> ''health''" "c \<noteq> ''backup''" "c \<noteq> ''restore''" "c \<noteq> ''revoke''"
    by argo
  then show ?thesis
  proof cases
    case 1
    with assms(1) show ?thesis by (intro app) (simp_all add: Main_def args)
  next
    case 2
    with assms(1) show ?thesis by (intro app) (simp_all add: Main_def args)
  next
    case 3
    with assms(1) misused show ?thesis by (auto simp: Main_def args guarded_def split: if_splits)
  next
    case 4
    with assms(1) have "backupCmd cl rest w = (oc, w')" by (simp add: Main_def args)
    with 4 misused backup show ?thesis by (auto simp: backupCmd_def split: option.splits if_splits)
  next
    case 5
    with assms(1) have "restoreCmd cl rest w = (oc, w')" by (simp add: Main_def args)
    with 5 misused backup show ?thesis by (auto simp: restoreCmd_def split: option.splits if_splits)
  next
    case 6
    with assms(1) have "revoke_args cl rest w = (oc, w')" by (simp add: Main_def args)
    with 6 misused assms(3) show ?thesis
      by (auto simp: revoke_args_def guarded_def args split: list.splits prod.splits if_splits)
  next
    case 7
    with assms(1) misused show ?thesis by (auto simp: Main_def args)
  qed
qed

definition ex_settings :: config_env where
  "ex_settings = \<lparr>ce_getenv = (\<lambda>k. if k = ''YNAB_ACCESS_TOKEN'' then ''ynab-token'' else if k = ''YNAB_BUDGET_ID'' then ''p'' else []),
     ce_parse_url = (\<lambda>_. None), ce_loopback_ip = (\<lambda>_. False), ce_duration = (\<lambda>_. Some 900), ce_recipient = (\<lambda>_. True)\<rparr>"

definition ex_cli :: "unit cli_env" where
  "ex_cli = \<lparr>cl_config = ex_settings, cl_userinfo = (\<lambda>_. []), cl_show_url = (\<lambda>_ _. []),
     cl_open = (\<lambda>_ w. (Some (newError ''refused ynab-token''), w)), cl_serve = (\<lambda>_ w. (None, w)),
     cl_tick = (\<lambda>_ _ w. (Inl (newError []), w)), cl_scan = (\<lambda>_ w. (Inl (newError []), w)), cl_scanned = (\<lambda>_. Inr 0),
     cl_stat = (\<lambda>_ _. None), cl_list = (\<lambda>_ w. (Inr [], w)), cl_backup = (\<lambda>_ w. ((None, None), w)),
     cl_restore = (\<lambda>_ _ _ w. (Inl (newError []), w)), cl_probe = (\<lambda>_. 0), cl_revoke = (\<lambda>_ w. ((0, []), w))\<rparr>"

lemma ex_loads: "\<exists>cfg. LoadFrom ex_settings = Inr cfg \<and> c_ynab_access_token cfg = ''ynab-token''"
proof -
  have "case LoadFrom ex_settings of Inl _ \<Rightarrow> False | Inr cfg \<Rightarrow> c_ynab_access_token cfg = ''ynab-token''" by code_simp
  then show ?thesis by (auto split: sum.splits)
qed

theorem main_outcome_witness:
  "\<exists>oc. fst (Main ex_cli [''sync''] ()) = oc \<and> oc_exit oc = 1 \<and> (\<forall>s\<in>set (oc_stderr oc). hides ''ynab-token'' s)"
proof -
  obtain oc w' where m: "Main ex_cli [''sync''] () = (oc, w')" by (rule prod.exhaust)
  obtain cfg where cfg: "LoadFrom ex_settings = Inr cfg" "c_ynab_access_token cfg = ''ynab-token''" using ex_loads by blast
  have "oc_exit oc = 1"
    using m cfg by (auto simp: Main_def withApp_def ex_cli_def)
  moreover have "plain_secret ''ynab-token''" by code_simp
  with cfg have "guarded (cl_config ex_cli) [''sync''] ''ynab-token''"
    by (simp add: guarded_def ex_cli_def secrets_def)
  moreover have "cl_revoke ex_cli arg w = ((2, s), w') \<Longrightarrow> w' = w" for arg w s w' by (simp add: ex_cli_def)
  ultimately show ?thesis using main_outcome [OF m] m by simp
qed

end
