(* ===== verification/Serve.thy ===== *)
theory Serve
  imports Commands
begin

text \<open>
  The life of the daemon (\<open>cmd/app.go\<close>: \<open>serve\<close>, \<open>shutdown\<close>; \<open>cmd/mcp.go\<close>: \<open>addPrune\<close>, \<open>startMCP\<close>, \<open>buildMCP\<close>): the
  health server, the MCP server, the goroutine that builds the MCP routes and the scheduler's goroutine,
  as steps of one relation. The scheduler's steps are the events of \<open>Scheduler\<close>.
\<close>

subsection \<open>Starting\<close>

datatype server = Absent | Serving | Closed

text \<open>Where \<open>serve\<close> itself is: at its select, waiting for the two goroutines, shutting down, or back.\<close>

datatype serve_pc = Selecting | Joining | Draining | Returned "error option"

record daemon =
  dm_ctx_done :: bool
  dm_cancelled :: bool
  dm_sched :: "sched_state option"
  dm_building :: bool
  dm_ready :: bool
  dm_health :: server
  dm_mcp :: server
  dm_srv_err :: "error list"
  dm_err :: "error option"
  dm_pc :: serve_pc

text \<open>\<open>startMCP\<close>: the server and whether the routes are being built.\<close>

definition startMCP :: "mcp_config \<Rightarrow> (string \<Rightarrow> error option) \<Rightarrow> (server \<times> bool) result" where
  "startMCP m listen =
     (if MCP_Missing m \<noteq> [] then Inr (Absent, False)
      else (case listen (mc_listen_addr m) of Some e \<Rightarrow> Inl e | None \<Rightarrow> Inr (Serving, True)))"

definition daemon_at :: "server \<Rightarrow> server \<Rightarrow> bool \<Rightarrow> serve_pc \<Rightarrow> daemon" where
  "daemon_at health mcp building pc =
     \<lparr>dm_ctx_done = False, dm_cancelled = False, dm_sched = None, dm_building = building, dm_ready = False,
      dm_health = health, dm_mcp = mcp, dm_srv_err = [], dm_err = None, dm_pc = pc\<rparr>"

text \<open>\<open>serve\<close> up to its select: it returns if a listener cannot be had.\<close>

definition serve_start :: "config \<Rightarrow> (string \<Rightarrow> error option) \<Rightarrow> daemon" where
  "serve_start cfg listen =
     (case listen (c_http_addr cfg) of
        Some e \<Rightarrow> daemon_at Absent Absent False (Returned (Some (wrapError ''listen'' e)))
      | None \<Rightarrow>
          (case startMCP (c_mcp cfg) listen of
             Inl e \<Rightarrow> daemon_at Closed Absent False (Returned (Some e))
           | Inr (mcp, building) \<Rightarrow> daemon_at Serving mcp building Selecting))"

text \<open>
  \<open>buildMCP\<close>: the identity provider, then the OAuth server; no handler when the context ended first. The
  result is \<open>None\<close> while Google's discovery neither succeeds nor is given up.
\<close>

definition buildMCP :: "(nat \<Rightarrow> 'idp result) \<Rightarrow> (nat \<Rightarrow> bool) \<Rightarrow> ('idp \<Rightarrow> 'srv result) \<Rightarrow> 'srv option result option" where
  "buildMCP new_idp ended new_server =
     (case discover new_idp ended 0 of
        None \<Rightarrow> None
      | Some None \<Rightarrow> Some (Inr None)
      | Some (Some idp) \<Rightarrow> Some (case new_server idp of Inl e \<Rightarrow> Inl e | Inr s \<Rightarrow> Inr (Some s)))"

text \<open>\<open>shutdown\<close>: a server that does not drain in time is closed, so either way it stops.\<close>

definition shutdown_server :: "server \<Rightarrow> server" where
  "shutdown_server s = (if s = Absent then Absent else Closed)"

text \<open>
  \<open>addPrune\<close>: how often the OAuth tables are pruned, if they are at all, and one run of the job: its error and the line
  that is logged of an error.
\<close>

definition pruneEvery :: duration where
  "pruneEvery = 24 * 3600 * ns_second"

definition addPrune :: "config \<Rightarrow> duration option" where
  "addPrune cfg = (if MCP_Missing (c_mcp cfg) \<noteq> [] then None else Some pruneEvery)"

definition prune_job ::
    "config \<Rightarrow> tx_faults \<Rightarrow> (token_table \<Rightarrow> error option) \<Rightarrow> time \<Rightarrow> auth_db conn \<Rightarrow> (error \<times> string) option \<times> auth_db conn" where
  "prune_job cfg tf flt now db =
     (case Prune tf flt now (pool_ctx db) of
        (Inl e, x) \<Rightarrow> (Some (e, app_redact cfg (err_msg e)), ax_conn x)
      | (Inr _, x) \<Rightarrow> (None, ax_conn x))"

text \<open>What \<open>serve\<close> returns of the error it saw.\<close>

definition serve_result :: "error option \<Rightarrow> error option" where
  "serve_result err = (case err of Some e \<Rightarrow> if errors_Is e ErrServerClosed then None else Some e | None \<Rightarrow> None)"

subsection \<open>Running\<close>

text \<open>
  An event of the scheduler can end its context only when it has been cancelled, and so can the wait of
  \<open>buildMCP\<close>; what provider and server it builds is left out. The scheduler's goroutine is started right before
  \<open>serve\<close> waits, so it begins while \<open>serve\<close> selects or joins.
\<close>

fun event_ok :: "bool \<Rightarrow> event \<Rightarrow> bool" where
  "event_ok cancelled CtxDone = cancelled"
| "event_ok cancelled (RunJob r) = (jr_ended r \<longrightarrow> cancelled)"
| "event_ok cancelled e = True"

definition sched_over :: "daemon \<Rightarrow> bool" where
  "sched_over d = (case dm_sched d of None \<Rightarrow> False | Some s \<Rightarrow> sd_stopped s)"

inductive serve_step :: "sched_config \<Rightarrow> health \<Rightarrow> daemon \<Rightarrow> daemon \<Rightarrow> bool" for cfg h where
  signalled: "serve_step cfg h d (d\<lparr>dm_ctx_done := True, dm_cancelled := True\<rparr>)"
| health_stops: "dm_health d = Serving \<Longrightarrow>
    serve_step cfg h d (d\<lparr>dm_health := Closed, dm_srv_err := dm_srv_err d @ [e]\<rparr>)"
| mcp_stops: "dm_mcp d = Serving \<Longrightarrow>
    serve_step cfg h d (d\<lparr>dm_mcp := Closed, dm_srv_err := dm_srv_err d @ [e]\<rparr>)"
| built: "dm_building d \<Longrightarrow> buildMCP (new_idp :: nat \<Rightarrow> unit result) ended (new_server :: unit \<Rightarrow> unit result) = Some r \<Longrightarrow>
    (\<And>k. ended k \<Longrightarrow> dm_cancelled d) \<Longrightarrow>
    serve_step cfg h d (d\<lparr>dm_building := False, dm_ready := (case r of Inr (Some _) \<Rightarrow> True | _ \<Rightarrow> False)\<rparr>)"
| sched_begins: "dm_pc d \<in> {Selecting, Joining} \<Longrightarrow> dm_sched d = None \<Longrightarrow> (jr_ended prune \<or> jr_ended sync \<Longrightarrow> dm_cancelled d) \<Longrightarrow>
    (c \<Longrightarrow> dm_cancelled d) \<Longrightarrow> serve_step cfg h d (d\<lparr>dm_sched := Some (sched_start cfg h c prune sync)\<rparr>)"
| sched_acts: "dm_sched d = Some s \<Longrightarrow> event_ok (dm_cancelled d) ev \<Longrightarrow> sched_event cfg ev s = Some s' \<Longrightarrow>
    serve_step cfg h d (d\<lparr>dm_sched := Some s'\<rparr>)"
| sees_ctx: "dm_pc d = Selecting \<Longrightarrow> dm_ctx_done d \<Longrightarrow> serve_step cfg h d (d\<lparr>dm_cancelled := True, dm_pc := Joining\<rparr>)"
| sees_error: "dm_pc d = Selecting \<Longrightarrow> dm_srv_err d = e # es \<Longrightarrow>
    serve_step cfg h d (d\<lparr>dm_cancelled := True, dm_err := Some e, dm_srv_err := es, dm_pc := Joining\<rparr>)"
| joined: "dm_pc d = Joining \<Longrightarrow> sched_over d \<Longrightarrow> \<not> dm_building d \<Longrightarrow> serve_step cfg h d (d\<lparr>dm_pc := Draining\<rparr>)"
| drained: "dm_pc d = Draining \<Longrightarrow>
    serve_step cfg h d (d\<lparr>dm_health := shutdown_server (dm_health d), dm_mcp := shutdown_server (dm_mcp d),
      dm_pc := Returned (serve_result (dm_err d))\<rparr>)"

inductive_cases serve_stepE: "serve_step cfg h d d'"

inductive serve_reach :: "sched_config \<Rightarrow> health \<Rightarrow> daemon \<Rightarrow> daemon \<Rightarrow> bool" for cfg h where
  refl: "serve_reach cfg h d d"
| step: "serve_reach cfg h d d' \<Longrightarrow> serve_step cfg h d' d'' \<Longrightarrow> serve_reach cfg h d d''"

lemma serve_reach_trans: "serve_reach cfg h d' d'' \<Longrightarrow> serve_reach cfg h d d' \<Longrightarrow> serve_reach cfg h d d''"
  by (induction rule: serve_reach.induct) (auto intro: serve_reach.step)

text \<open>The scheduler once over stays as it is but for the end of its context.\<close>

lemma stopped_event: "sd_stopped s \<Longrightarrow> sched_event cfg ev s = Some s' \<Longrightarrow> sd_stopped s' \<and> sd_runs s' = sd_runs s"
  by (cases ev) (auto split: if_splits)

text \<open>What holds at every moment.\<close>

definition serving :: "server \<Rightarrow> nat" where
  "serving s = (if s = Serving then 1 else 0)"

definition serve_inv :: "config \<Rightarrow> (string \<Rightarrow> error option) \<Rightarrow> daemon \<Rightarrow> bool" where
  "serve_inv cfg listen d \<longleftrightarrow>
     length (dm_srv_err d) + serving (dm_health d) + serving (dm_mcp d) \<le> 2 \<and>
     (dm_ctx_done d \<longrightarrow> dm_cancelled d) \<and>
     (case dm_pc d of
        Selecting \<Rightarrow> dm_err d = None
      | Joining \<Rightarrow> dm_cancelled d \<and> (dm_err d = None \<longrightarrow> dm_ctx_done d)
      | Draining \<Rightarrow> dm_cancelled d \<and> (dm_err d = None \<longrightarrow> dm_ctx_done d) \<and> sched_over d \<and> \<not> dm_building d
      | Returned r \<Rightarrow>
          dm_health d \<noteq> Serving \<and> dm_mcp d \<noteq> Serving \<and> \<not> dm_building d \<and>
          (if dm_sched d = None
           then (\<exists>e. listen (c_http_addr cfg) = Some e \<and> r = Some (wrapError ''listen'' e)) \<or>
             MCP_Missing (c_mcp cfg) = [] \<and> listen (mc_listen_addr (c_mcp cfg)) = r \<and> r \<noteq> None
           else sched_over d \<and> r = serve_result (dm_err d) \<and> (dm_err d = None \<longrightarrow> dm_ctx_done d)))"

lemma serve_inv_start: "serve_inv cfg listen (serve_start cfg listen)"
  by (auto simp: serve_inv_def serve_start_def startMCP_def daemon_at_def serving_def split: option.splits sum.splits if_splits)

lemma serve_inv_step:
  assumes "serve_step scfg h d d'" and "serve_inv cfg listen d"
  shows "serve_inv cfg listen d'"
  using assms
proof cases
  case (sched_acts s ev s')
  with assms(2) stopped_event [of s scfg ev s'] show ?thesis
    by (auto simp: serve_inv_def sched_over_def split: serve_pc.splits)
next
  case drained
  with assms(2) show ?thesis
    by (auto simp: serve_inv_def sched_over_def serving_def shutdown_server_def split: serve_pc.splits option.splits)
qed (auto simp: serve_inv_def sched_over_def serving_def split: serve_pc.splits option.splits)

lemma serve_inv_reach:
  assumes "serve_reach scfg h (serve_start cfg listen) d"
  shows "serve_inv cfg listen d"
  using assms
proof (induction "serve_start cfg listen" d rule: serve_reach.induct)
  case refl
  show ?case by (rule serve_inv_start)
next
  case (step d' d'')
  from serve_inv_step [OF step(3)] step(2) show ?case by blast
qed

lemma addPrune_enabled: "addPrune cfg \<noteq> None \<longleftrightarrow> enabled (fst (newScheduler ce userinfo show_url cfg)) PruneJob"
  by (simp add: addPrune_def newScheduler_def)

text \<open>Once it has returned nothing is served and no job starts any more.\<close>

lemma returned_stays:
  assumes "serve_reach scfg h d d'" and "dm_pc d = Returned r" and "serve_inv cfg listen d"
  shows "dm_pc d' = Returned r \<and> serve_inv cfg listen d' \<and> map_option sd_runs (dm_sched d') = map_option sd_runs (dm_sched d)"
  using assms
proof induction
  case (step d d' d'')
  then have ih: "dm_pc d' = Returned r" "serve_inv cfg listen d'" "map_option sd_runs (dm_sched d') = map_option sd_runs (dm_sched d)"
    by blast+
  from serve_inv_step [OF step.hyps(2) ih(2)] have inv: "serve_inv cfg listen d''" .
  from step.hyps(2) have "dm_pc d'' = Returned r \<and> map_option sd_runs (dm_sched d'') = map_option sd_runs (dm_sched d')"
  proof cases
    case (sched_acts s ev s')
    with ih have "sd_stopped s" by (auto simp: serve_inv_def sched_over_def)
    with stopped_event [of s scfg ev s'] sched_acts ih show ?thesis by simp
  qed (use ih in \<open>auto simp: serve_inv_def\<close>)
  with ih(3) inv show ?case by simp
qed simp

text \<open>A cancelled daemon can always come to its end, whatever its goroutines were doing.\<close>

lemma sched_can_stop:
  assumes "dm_cancelled d" and "dm_pc d = Joining"
  shows "\<exists>d'. serve_reach scfg h d d' \<and> dm_cancelled d' \<and> dm_pc d' = Joining \<and> sched_over d' \<and> dm_building d' = dm_building d \<and> dm_err d' = dm_err d"
proof -
  obtain d1 s where 1: "serve_reach scfg h d d1" "dm_sched d1 = Some s"
    "dm_cancelled d1" "dm_pc d1 = Joining" "dm_building d1 = dm_building d" "dm_err d1 = dm_err d"
  proof (cases "dm_sched d")
    case None
    define r where "r = \<lparr>jr_job = SyncJob, jr_err = None, jr_due = [], jr_ended = False, jr_now = 0\<rparr>"
    have "serve_step scfg h d (d\<lparr>dm_sched := Some (sched_start scfg h True r r)\<rparr>)"
      using assms None by (intro serve_step.sched_begins) (auto simp: r_def)
    from serve_reach.step [OF serve_reach.refl this] show ?thesis by (rule that) (use assms in auto)
  next
    case (Some s)
    with assms show ?thesis by (intro that [OF serve_reach.refl]) auto
  qed
  show ?thesis
  proof (cases "sd_stopped s")
    case True
    with 1 show ?thesis by (intro exI [of _ d1]) (simp add: sched_over_def)
  next
    case False
    define s2 where "s2 = s\<lparr>sd_cancelled := True\<rparr>"
    have "serve_step scfg h d1 (d1\<lparr>dm_sched := Some s2\<rparr>)"
      using 1 by (intro serve_step.sched_acts [where ev = CtxDone]) (auto simp: s2_def)
    moreover have "serve_step scfg h (d1\<lparr>dm_sched := Some s2\<rparr>) (d1\<lparr>dm_sched := Some s2\<rparr>\<lparr>dm_sched := Some (s2\<lparr>sd_stopped := True\<rparr>)\<rparr>)"
      using False by (intro serve_step.sched_acts [where ev = Leave]) (auto simp: s2_def)
    ultimately have "serve_reach scfg h d (d1\<lparr>dm_sched := Some (s2\<lparr>sd_stopped := True\<rparr>)\<rparr>)"
      using 1(1) by (auto intro: serve_reach.step)
    with 1 show ?thesis by (intro exI [of _ "d1\<lparr>dm_sched := Some (s2\<lparr>sd_stopped := True\<rparr>)\<rparr>"]) (simp add: sched_over_def)
  qed
qed

lemma drained_returns:
  assumes "dm_pc d = Draining"
  shows "\<exists>d' r. serve_reach scfg h d d' \<and> dm_pc d' = Returned r"
proof -
  let ?d = "d\<lparr>dm_health := shutdown_server (dm_health d), dm_mcp := shutdown_server (dm_mcp d),
    dm_pc := Returned (serve_result (dm_err d))\<rparr>"
  have "serve_reach scfg h d ?d" by (rule serve_reach.step [OF serve_reach.refl serve_step.drained [OF assms]])
  moreover have "dm_pc ?d = Returned (serve_result (dm_err d))" by simp
  ultimately show ?thesis by blast
qed

lemma serve_can_end:
  assumes "dm_pc d = Selecting \<and> (dm_ctx_done d \<or> dm_srv_err d \<noteq> []) \<or> dm_pc d = Joining \<and> dm_cancelled d"
  shows "\<exists>d' r. serve_reach scfg h d d' \<and> dm_pc d' = Returned r"
proof -
  obtain d1 where 1: "serve_reach scfg h d d1" "dm_pc d1 = Joining" "dm_cancelled d1"
  proof (cases "dm_pc d = Joining")
    case True
    with assms that [OF serve_reach.refl] show ?thesis by simp
  next
    case False
    with assms have sel: "dm_pc d = Selecting" "dm_ctx_done d \<or> dm_srv_err d \<noteq> []" by auto
    show ?thesis
    proof (cases "dm_ctx_done d")
      case True
      from serve_reach.step [OF serve_reach.refl serve_step.sees_ctx [OF sel(1) True]] show ?thesis by (rule that) auto
    next
      case False
      with sel(2) obtain e es where "dm_srv_err d = e # es" by (cases "dm_srv_err d") auto
      from serve_reach.step [OF serve_reach.refl serve_step.sees_error [OF sel(1) this]] show ?thesis by (rule that) auto
    qed
  qed
  from sched_can_stop [OF 1(3,2)] obtain d2 where
    2: "serve_reach scfg h d1 d2" "dm_cancelled d2" "dm_pc d2 = Joining" "sched_over d2" by blast
  define d3 where "d3 = d2\<lparr>dm_building := False, dm_ready := dm_ready d2 \<and> \<not> dm_building d2\<rparr>"
  have 3: "serve_reach scfg h d2 d3"
  proof (cases "dm_building d2")
    case True
    have "discover (\<lambda>_. Inl (newError []) :: unit result) (\<lambda>_. True) 0 = Some None" by (subst discover.simps) simp
    then have "buildMCP (\<lambda>_. Inl (newError []) :: unit result) (\<lambda>_. True) (\<lambda>_ :: unit. Inr ()) = Some (Inr None)"
      by (simp add: buildMCP_def)
    from serve_reach.step [OF serve_reach.refl serve_step.built [OF True this 2(2)]] True show ?thesis by (simp add: d3_def)
  next
    case False
    then have "d3 = d2" by (simp add: d3_def)
    then show ?thesis by (simp add: serve_reach.refl)
  qed
  have over: "dm_pc d3 = Joining" "sched_over d3" "\<not> dm_building d3" using 2 by (simp_all add: d3_def sched_over_def)
  have "serve_reach scfg h d3 (d3\<lparr>dm_pc := Draining\<rparr>)"
    by (rule serve_reach.step [OF serve_reach.refl serve_step.joined [OF over]])
  moreover from drained_returns [of "d3\<lparr>dm_pc := Draining\<rparr>" scfg h] obtain d' r
    where "serve_reach scfg h (d3\<lparr>dm_pc := Draining\<rparr>) d'" "dm_pc d' = Returned r" by auto
  ultimately have "\<exists>d' r. serve_reach scfg h d3 d' \<and> dm_pc d' = Returned r" by (meson serve_reach_trans)
  then show ?thesis using 1(1) 2(1) 3 by (meson serve_reach_trans)
qed

text \<open>
  C7: How \<open>serve\<close> ends, in every interleaving of its goroutines, whatever fails. It returns only when the
  scheduler has left its loop, nothing builds the MCP routes any more and no server serves, and from then on no
  job runs; its result is the error of a listener it could not get, or the first server error it saw (none
  for a closed server), or nothing after the signal. The servers' error channel never holds more than two errors,
  so no server blocks on it. And a daemon that was signalled, or has seen a server fail, can always come to its end.
\<close>

theorem serve_ends:
  assumes "serve_reach scfg h (serve_start cfg listen) d"
  shows "length (dm_srv_err d) \<le> 2 \<and>
    (case dm_pc d of
       Returned r \<Rightarrow>
         dm_health d \<noteq> Serving \<and> dm_mcp d \<noteq> Serving \<and> \<not> dm_building d \<and> (dm_sched d \<noteq> None \<longrightarrow> sched_over d) \<and>
         (\<forall>d'. serve_reach scfg h d d' \<longrightarrow>
            dm_pc d' = Returned r \<and> map_option sd_runs (dm_sched d') = map_option sd_runs (dm_sched d)) \<and>
         (case r of
            Some e \<Rightarrow> (\<exists>e'. listen (c_http_addr cfg) = Some e' \<and> e = wrapError ''listen'' e') \<or>
              listen (mc_listen_addr (c_mcp cfg)) = Some e \<or> dm_err d = Some e
          | None \<Rightarrow> dm_ctx_done d \<or> (\<exists>e. dm_err d = Some e \<and> errors_Is e ErrServerClosed))
     | _ \<Rightarrow> dm_ctx_done d \<or> dm_err d \<noteq> None \<longrightarrow> (\<exists>d' r. serve_reach scfg h d d' \<and> dm_pc d' = Returned r))"
proof -
  from assms have inv: "serve_inv cfg listen d" by (rule serve_inv_reach)
  then have len: "length (dm_srv_err d) \<le> 2" by (simp add: serve_inv_def)
  show ?thesis
  proof (cases "dm_pc d")
    case (Returned r)
    have "dm_pc d' = Returned r \<and> map_option sd_runs (dm_sched d') = map_option sd_runs (dm_sched d)"
      if "serve_reach scfg h d d'" for d'
      using returned_stays [OF that Returned inv] by blast
    with inv len Returned show ?thesis
      by (auto simp: serve_inv_def serve_result_def split: option.splits if_splits)
  next
    case Draining
    with len drained_returns [OF Draining] show ?thesis by simp
  next
    case Selecting
    with inv have "dm_err d = None" by (simp add: serve_inv_def)
    with len Selecting serve_can_end [of d scfg h] show ?thesis by auto
  next
    case Joining
    with inv have "dm_cancelled d" by (simp add: serve_inv_def)
    with len Joining serve_can_end [of d scfg h] show ?thesis by simp
  qed
qed

definition ex_backup :: backup_config where
  "ex_backup = \<lparr>bc_age_recipient = [], bc_turso_url = [], bc_turso_token = [], bc_at_hour = 3, bc_at_minute = 17, bc_keep = 14,
     bc_db_path = ''db''\<rparr>"

definition ex_mcp :: mcp_config where
  "ex_mcp = \<lparr>mc_listen_addr = '':8090'', mc_public_url = [], mc_google_client_id = [], mc_google_client_secret = [],
     mc_allowed_emails = []\<rparr>"

definition ex_config :: config where
  "ex_config = \<lparr>c_ynab_access_token = ''ynab-token'', c_ynab_budget_id = ''p'', c_db_path = ''db'', c_sync_interval = 900 * ns_second,
     c_import_interval = 900 * ns_second, c_import_enabled = False, c_http_addr = '':8080'', c_log_level = 0, c_healthcheck_ping_url = [],
     c_slack_bot_token = [], c_slack_status_channel = [], c_backup = ex_backup, c_mcp = ex_mcp\<rparr>"

definition ex_daemon :: daemon where
  "ex_daemon = (serve_start ex_config (\<lambda>_. None))\<lparr>dm_ctx_done := True, dm_cancelled := True\<rparr>"

theorem serve_ends_witness:
  "\<exists>d r. serve_reach ex_sched ex_health ex_daemon d \<and> dm_pc d = Returned r \<and> dm_health d \<noteq> Serving"
proof -
  have start: "serve_reach ex_sched ex_health (serve_start ex_config (\<lambda>_. None)) ex_daemon"
    unfolding ex_daemon_def by (rule serve_reach.step [OF serve_reach.refl serve_step.signalled])
  have "dm_pc ex_daemon = Selecting" "dm_ctx_done ex_daemon"
    by (simp_all add: ex_daemon_def serve_start_def startMCP_def daemon_at_def ex_config_def ex_mcp_def MCP_Missing_def)
  with serve_ends [OF start] obtain d r where d: "serve_reach ex_sched ex_health ex_daemon d" "dm_pc d = Returned r" by auto
  from serve_ends [OF serve_reach_trans [OF d(1) start]] d show ?thesis by auto
qed

end
