(* ===== verification/AuthGoogle.thy ===== *)
theory AuthGoogle
  imports AuthServer
begin

text \<open>
  The Google sign-in (\<open>auth/google.go\<close>). Discovery, the code exchange and the check of an ID token's signature,
  issuer, audience and expiry are the oauth2 and oidc libraries', so they are arguments.
\<close>

definition googleIssuer :: string where
  "googleIssuer = ''https://accounts.google.com''"

record oauth_config =
  oc_client_id :: string
  oc_client_secret :: string
  oc_redirect_url :: string
  oc_scopes :: "string list"
  oc_issuer :: string

text \<open>
  \<open>lib_exchange\<close> answers a code with the \<open>id_token\<close> of the response, if any; \<open>lib_verify\<close> a token with its nonce
  and its claims.
\<close>

record oidc_lib =
  ol_discover :: "string \<Rightarrow> error option"
  ol_exchange :: "oauth_config \<Rightarrow> string \<Rightarrow> string \<Rightarrow> string option result"
  ol_verify :: "oauth_config \<Rightarrow> string \<Rightarrow> (string \<times> identity result) result"

definition newOIDCProvider :: "oidc_lib \<Rightarrow> string \<Rightarrow> string \<Rightarrow> string \<Rightarrow> string \<Rightarrow> oauth_config result" where
  "newOIDCProvider ol issuer clientID clientSecret redirectURL =
     (case ol_discover ol issuer of
        Some e \<Rightarrow> Inl (wrapError ''auth: oidc discovery'' e)
      | None \<Rightarrow> Inr \<lparr>oc_client_id = clientID, oc_client_secret = clientSecret, oc_redirect_url = redirectURL,
          oc_scopes = [''openid'', ''email'', ''profile''], oc_issuer = issuer\<rparr>)"

definition NewGoogleProvider :: "oidc_lib \<Rightarrow> string \<Rightarrow> string \<Rightarrow> string \<Rightarrow> oauth_config result" where
  "NewGoogleProvider ol = newOIDCProvider ol googleIssuer"

definition Google_Exchange :: "oidc_lib \<Rightarrow> oauth_config \<Rightarrow> string \<Rightarrow> string \<Rightarrow> string \<Rightarrow> identity result" where
  "Google_Exchange ol g code pkceVerifier nonce =
     (case ol_exchange ol g code pkceVerifier of
        Inl e \<Rightarrow> Inl (wrapError ''auth: oidc code exchange'' e)
      | Inr None \<Rightarrow> Inl (newError ''auth: oidc response has no id_token'')
      | Inr (Some raw) \<Rightarrow>
          (case ol_verify ol g raw of
             Inl e \<Rightarrow> Inl (wrapError ''auth: verify id_token'' e)
           | Inr (n, claims) \<Rightarrow>
               if n \<noteq> nonce then Inl (newError ''auth: id_token nonce mismatch'')
               else (case claims of
                       Inl e \<Rightarrow> Inl (wrapError ''auth: id_token claims'' e)
                     | Inr c \<Rightarrow> Inr c)))"

text \<open>
  An identity is the claims of an ID token that was issued for this code, verified, and bound by its nonce
  to this sign-in: a token of another sign-in is never accepted.
\<close>

lemma Google_Exchange_Inr:
  "Google_Exchange ol g code v nonce = Inr c \<longleftrightarrow>
     (\<exists>raw. ol_exchange ol g code v = Inr (Some raw) \<and> ol_verify ol g raw = Inr (nonce, Inr c))"
  by (auto simp: Google_Exchange_def split: sum.splits option.splits prod.splits if_splits)

lemma Google_Exchange_nonce:
  assumes "\<And>raw. ol_exchange ol g code v = Inr (Some raw) \<Longrightarrow> \<exists>c. ol_verify ol g raw = Inr (other, c)" and "other \<noteq> nonce"
  shows "\<exists>e. Google_Exchange ol g code v nonce = Inl e"
proof (cases "Google_Exchange ol g code v nonce")
  case (Inr c)
  then obtain raw where "ol_exchange ol g code v = Inr (Some raw)" "ol_verify ol g raw = Inr (nonce, Inr c)"
    using Google_Exchange_Inr by blast
  with assms show ?thesis by fastforce
qed blast

end
