(* ===== verification/AuthConsent.thy ===== *)
theory AuthConsent
  imports AuthServer
begin

text \<open>
  The consent page (\<open>auth/consent.go\<close>): its template as \<open>html/template\<close> renders it, the CSRF cookie and the
  headers. Every value is text between tags or inside a quoted attribute, where \<open>html/template\<close> escapes with
  one and the same table.
\<close>

subsection \<open>html/template\<close>

definition html_table :: "(nat \<times> string) list" where
  "html_table =
     [(0, byte_text [239, 191, 189]), (34, ''&#34;''), (38, ''&amp;''), (39, ''&#39;''), (43, ''&#43;''), (60, ''&lt;''), (62, ''&gt;'')]"

definition html_char :: "char \<Rightarrow> string" where
  "html_char c = (case map_of html_table (of_char c) of Some r \<Rightarrow> r | None \<Rightarrow> [c])"

definition html_escape :: "string \<Rightarrow> string" where
  "html_escape s = concat (map html_char s)"

text \<open>A template without pipelines: fixed markup, and values.\<close>

datatype part = Markup string | Shown string

fun render_part :: "part \<Rightarrow> string" where
  "render_part (Markup s) = s"
| "render_part (Shown s) = html_escape s"

definition Execute :: "part list \<Rightarrow> string" where
  "Execute ps = concat (map render_part ps)"

subsection \<open>The page\<close>

record consent_view =
  cv_user :: string
  cv_client_name :: string
  cv_host :: string
  cv_consent_id :: string
  cv_csrf :: string
  cv_loopback :: bool

definition nl :: string where
  "nl = [CHR 0x0A]"

definition apostrophe :: string where
  "apostrophe = [CHR 0x27]"

definition consent_head :: string where
  \<open>consent_head =
     ''<!doctype html>'' @ nl @
     ''<html><head><meta charset="utf-8"><meta name="viewport" content="width=device-width, initial-scale=1">'' @ nl @
     ''<title>Allow access to finbot?</title>'' @ nl @
     ''<style>body{font:16px system-ui,sans-serif;max-width:32rem;margin:3rem auto;padding:0 1rem}'' @ nl @
     ''code{background:#eee;padding:.1rem .3rem}.warn{color:#a40}button{font-size:1rem;padding:.5rem 1rem;margin-right:.5rem}</style>'' @ nl @
     ''</head><body>'' @ nl @
     ''<h1>Allow access to finbot?</h1>'' @ nl\<close>

definition loopback_warning :: string where
  \<open>loopback_warning =
     ''<p class="warn">This address is on your own computer, so any program running there could be the requester.'' @ nl @
     ''Only allow it if you just started a sign-in from a local app such as Claude Code.</p>''\<close>

definition consentPage :: "consent_view \<Rightarrow> part list" where
  \<open>consentPage v =
     [Markup (consent_head @ ''<p>Signed in as <strong>''), Shown (cv_user v), Markup (''</strong>.</p>'' @ nl),
      Markup ''<p>The app <strong>'', Shown (cv_client_name v),
      Markup (''</strong> wants to use finbot'' @ apostrophe @ ''s tools on your behalf.'' @ nl @ ''After you allow it, finbot sends access to <code>''),
      Shown (cv_host v), Markup (''</code>.</p>'' @ nl),
      Markup ((if cv_loopback v then loopback_warning else []) @ nl),
      Markup (''<p>If you didn'' @ apostrophe @ ''t start this sign-in, or you don'' @ apostrophe @ ''t recognise <code>''), Shown (cv_host v),
      Markup (''</code>, choose Deny.</p>'' @ nl @ ''<form method="post" action="/oauth/consent">'' @ nl),
      Markup ''<input type="hidden" name="consent_id" value="'', Shown (cv_consent_id v), Markup (''">'' @ nl),
      Markup ''<input type="hidden" name="csrf" value="'', Shown (cv_csrf v), Markup (''">'' @ nl),
      Markup (''<button name="decision" value="approve">Allow</button>'' @ nl @ ''<button name="decision" value="deny">Deny</button>'' @ nl @
        ''</form></body></html>'')]\<close>

subsection \<open>renderConsent\<close>

record cookie =
  ck_name :: string
  ck_value :: string
  ck_path :: string
  ck_max_age :: int
  ck_http_only :: bool
  ck_strict :: bool
  ck_secure :: bool

record consent_response =
  cr_cookie :: cookie
  cr_headers :: "(string \<times> string) list"
  cr_body :: string

definition consentCookie :: string where
  "consentCookie = ''finbot_consent''"

definition content_security_policy :: "url \<Rightarrow> string" where
  "content_security_policy ru =
     ''default-src '' @ apostrophe @ ''none'' @ apostrophe @ ''; style-src '' @ apostrophe @ ''unsafe-inline'' @ apostrophe @
     ''; form-action '' @ apostrophe @ ''self'' @ apostrophe @ '' '' @ u_scheme ru @ ''://'' @ u_host ru @
     ''; frame-ancestors '' @ apostrophe @ ''none'' @ apostrophe"

definition view_of :: "server_env \<Rightarrow> url \<Rightarrow> string \<Rightarrow> string \<Rightarrow> string \<Rightarrow> string \<Rightarrow> consent_view" where
  "view_of env ru client_name consentID csrf user =
     \<lparr>cv_user = user, cv_client_name = (if client_name = [] then ''(unnamed app)'' else client_name), cv_host = u_host ru,
      cv_consent_id = consentID, cv_csrf = csrf, cv_loopback = isLoopback env (u_hostname ru)\<rparr>"

definition renderConsent :: "server_env \<Rightarrow> url \<Rightarrow> string \<Rightarrow> string \<Rightarrow> string \<Rightarrow> string \<Rightarrow> consent_response" where
  "renderConsent env ru client_name consentID csrf user =
     \<lparr>cr_cookie = \<lparr>ck_name = consentCookie, ck_value = csrf, ck_path = ''/oauth/consent'', ck_max_age = pendingLoginTTL div ns_second,
        ck_http_only = True, ck_strict = True, ck_secure = HasPrefix (ev_issuer env) ''https://''\<rparr>,
      cr_headers = [(''Content-Type'', ''text/html; charset=utf-8''), (''Cache-Control'', ''no-store''), (''X-Frame-Options'', ''DENY''),
        (''Content-Security-Policy'', content_security_policy ru)],
      cr_body = Execute (consentPage (view_of env ru client_name consentID csrf user))\<rparr>"

subsection \<open>The values stay text\<close>

text \<open>The bytes that start or end a tag or an attribute's value.\<close>

definition structural :: "char \<Rightarrow> bool" where
  "structural c = (let n = of_char c :: nat in n = 60 \<or> n = 62 \<or> n = 34 \<or> n = 39)"

lemma html_char_inert: "filter structural (html_char c) = []"
proof (cases "map_of html_table (of_char c)")
  case None
  have keys: "fst ` set html_table = {0, 34, 38, 39, 43, 60, 62}" by code_simp
  have "(of_char c :: nat) \<notin> fst ` set html_table" using None by (simp only: map_of_eq_None_iff not_False_eq_True)
  then have "\<not> structural c" unfolding keys by (auto simp: structural_def Let_def)
  with None show ?thesis by (simp add: html_char_def)
next
  case (Some r)
  have "list_all (\<lambda>(_, r). filter structural r = []) html_table" by code_simp
  with map_of_SomeD [OF Some] Some show ?thesis by (auto simp: html_char_def list_all_iff)
qed

lemma html_escape_inert: "filter structural (html_escape s) = []"
  by (induction s) (simp_all add: html_escape_def html_char_inert)

definition erased :: "part list \<Rightarrow> part list" where
  "erased ps = map (\<lambda>p. case p of Markup s \<Rightarrow> Markup s | Shown _ \<Rightarrow> Shown []) ps"

lemma Execute_inert: "filter structural (Execute ps) = filter structural (Execute (erased ps))"
proof (induction ps)
  case (Cons p ps)
  then show ?case
    by (cases p) (simp_all add: Execute_def erased_def html_escape_inert)
qed (simp add: erased_def)

text \<open>Reading the references back gives the value, but for NUL, which the escaper replaces.\<close>

definition entities :: "(string \<times> char) list" where
  "entities = map (\<lambda>(n, r). (r, char_of n)) (tl html_table)"

function html_text :: "string \<Rightarrow> string" where
  "html_text [] = []"
| "html_text (c # cs) =
     (case find (\<lambda>(e, _). HasPrefix (c # cs) e) entities of
        None \<Rightarrow> c # html_text cs
      | Some (e, d) \<Rightarrow> d # html_text (drop (length e - 1) cs))"
  by pat_completeness auto
termination
  by (relation "measure length") auto

declare html_text.simps [simp del]

lemma html_text_char: "c \<noteq> CHR 0x00 \<Longrightarrow> html_text (html_char c @ s) = c # html_text s"
proof (cases "map_of html_table (of_char c)")
  case None
  have "fst ` set html_table = {0, 34, 38, 39, 43, 60, 62}" by code_simp
  moreover have "(of_char c :: nat) \<notin> fst ` set html_table" using None by (simp only: map_of_eq_None_iff not_False_eq_True)
  ultimately have "(of_char c :: nat) \<noteq> 38" by auto
  then have "c \<noteq> CHR 0x26" by auto
  have "\<not> HasPrefix (c # s) e" if "(e, d) \<in> set entities" for e d
  proof -
    have "list_all (\<lambda>(e, _). e \<noteq> [] \<and> hd e = CHR 0x26) entities" by code_simp
    with that \<open>c \<noteq> CHR 0x26\<close> show ?thesis by (cases e) (auto simp: list_all_iff HasPrefix_def)
  qed
  then have "find (\<lambda>(e, _). HasPrefix (c # s) e) entities = None"
    unfolding find_None_iff by auto
  with None show ?thesis by (simp add: html_char_def html_text.simps)
next
  case (Some r)
  assume c: "c \<noteq> CHR 0x00"
  have "(of_char c :: nat) \<noteq> 0"
  proof
    assume "(of_char c :: nat) = 0"
    then have "char_of (of_char c :: nat) = (char_of (0 :: nat) :: char)" by simp
    moreover have "(char_of (0 :: nat) :: char) = CHR 0x00" by code_simp
    ultimately show False using c by simp
  qed
  with map_of_SomeD [OF Some] have "(of_char c, r) \<in> set (tl html_table)" by (auto simp: html_table_def)
  moreover have "list_all (\<lambda>(n, r). html_text (r @ s) = char_of n # html_text s) (tl html_table)"
    by (simp add: html_table_def html_text.simps entities_def HasPrefix_def)
  ultimately show ?thesis using Some by (auto simp: html_char_def list_all_iff)
qed

lemma html_text_escape: "CHR 0x00 \<notin> set s \<Longrightarrow> html_text (html_escape s) = s"
  by (induction s) (auto simp: html_escape_def html_text_char html_text.simps(1))

definition shown_values :: "part list \<Rightarrow> string set" where
  "shown_values ps = {s. Shown s \<in> set ps}"

text \<open>
  C6: No text of the app, of the Google account or of the redirect URI can change the consent page. The page shows the
  user, the app, the redirect host, the consent id and its CSRF token and nothing else that varies; its quotes and angle
  brackets are those of the template in the same places, whatever the values are; and a browser reads each value back as it
  was (but for NUL). The CSRF cookie is kept from scripts and other sites, and the page from frames.
\<close>

theorem consent_page_inert:
  assumes "CHR 0x00 \<notin> set user" and "resp = renderConsent env ru client_name consentID csrf user"
  shows "filter structural (cr_body resp) =
      filter structural (Execute (consentPage \<lparr>cv_user = [], cv_client_name = [], cv_host = [], cv_consent_id = [], cv_csrf = [],
        cv_loopback = isLoopback env (u_hostname ru)\<rparr>)) \<and>
    shown_values (consentPage (view_of env ru client_name consentID csrf user)) =
      {user, if client_name = [] then ''(unnamed app)'' else client_name, u_host ru, consentID, csrf} \<and>
    html_text (html_escape user) = user \<and>
    ck_http_only (cr_cookie resp) \<and> ck_strict (cr_cookie resp) \<and> ck_value (cr_cookie resp) = csrf \<and>
    (''X-Frame-Options'', ''DENY'') \<in> set (cr_headers resp)"
proof -
  have "erased (consentPage (view_of env ru client_name consentID csrf user)) =
    consentPage \<lparr>cv_user = [], cv_client_name = [], cv_host = [], cv_consent_id = [], cv_csrf = [], cv_loopback = isLoopback env (u_hostname ru)\<rparr>"
    by (simp add: erased_def consentPage_def view_of_def)
  with Execute_inert [of "consentPage (view_of env ru client_name consentID csrf user)"]
  have "filter structural (cr_body resp) =
    filter structural (Execute (consentPage \<lparr>cv_user = [], cv_client_name = [], cv_host = [], cv_consent_id = [], cv_csrf = [],
        cv_loopback = isLoopback env (u_hostname ru)\<rparr>))"
    by (simp add: assms(2) renderConsent_def)
  moreover have "shown_values (consentPage (view_of env ru client_name consentID csrf user)) =
      {user, if client_name = [] then ''(unnamed app)'' else client_name, u_host ru, consentID, csrf}"
    by (auto simp: shown_values_def consentPage_def view_of_def)
  ultimately show ?thesis
    using html_text_escape [OF assms(1)] by (simp add: assms(2) renderConsent_def)
qed

theorem consent_page_inert_witness:
  "\<forall>env ru. \<exists>resp. resp = renderConsent env ru ''<b>App</b>'' ''id'' ''tok'' ''Ann <ann@example>'' \<and>
     filter structural (cr_body resp) =
       filter structural (Execute (consentPage \<lparr>cv_user = [], cv_client_name = [], cv_host = [], cv_consent_id = [], cv_csrf = [],
         cv_loopback = isLoopback env (u_hostname ru)\<rparr>))"
proof -
  have "CHR 0x00 \<notin> set ''Ann <ann@example>''" by simp
  from consent_page_inert [OF this refl, of _ _ "''<b>App</b>''" "''id''" "''tok''"] show ?thesis by blast
qed

end
