(* ===== verification/McpRoutes.thy ===== *)
theory McpRoutes
  imports McpServer
begin

text \<open>
  What the public port serves: \<open>startMCP\<close>'s mux with CORS and the swappable handler (\<open>cmd/mcp.go\<close>), the mux of
  \<open>buildMCP\<close>, \<open>routes\<close> of \<open>auth/server.go\<close>, and the request log, over \<open>net/http\<close>'s \<open>ServeMux\<close>. A request is its method and its decoded
  path.
\<close>

subsection \<open>ServeMux\<close>

text \<open>\<open>path.Clean\<close> of a rooted path: its segments without empty ones and \<open>.\<close>, with \<open>..\<close> resolved; newest first.\<close>

fun clean_segments :: "string list \<Rightarrow> string list \<Rightarrow> string list" where
  "clean_segments acc [] = acc"
| "clean_segments acc (s # ss) =
     clean_segments (if s = [] \<or> s = ''.'' then acc else if s = ''..'' then drop 1 acc else s # acc) ss"

definition cleanPath :: "string \<Rightarrow> string" where
  "cleanPath p =
     (let q = (if HasPrefix p ''/'' then p else CHR ''/'' # p);
          np = CHR ''/'' # Join ''/'' (rev (clean_segments [] (Split (CHR ''/'') q)))
      in if last q = CHR ''/'' \<and> np \<noteq> ''/'' then np @ ''/'' else np)"

text \<open>A pattern: its method, if it names one, and its path, a subtree when it ends in a slash.\<close>

type_synonym 'h route = "string option \<times> string \<times> 'h"

definition method_matches :: "string option \<Rightarrow> string \<Rightarrow> bool" where
  "method_matches want m \<longleftrightarrow> (case want of None \<Rightarrow> True | Some w \<Rightarrow> w = m \<or> w = ''GET'' \<and> m = ''HEAD'')"

definition subtree :: "string \<Rightarrow> bool" where
  "subtree pat \<longleftrightarrow> pat \<noteq> [] \<and> last pat = CHR ''/''"

definition path_matches :: "string \<Rightarrow> string \<Rightarrow> bool" where
  "path_matches pat p \<longleftrightarrow> (if subtree pat then HasPrefix p pat else p = pat)"

text \<open>The more specific of two patterns that match: the longer path, then the one with a method.\<close>

definition beats :: "'h route \<Rightarrow> 'h route \<Rightarrow> bool" where
  "beats r r' \<longleftrightarrow>
     length (fst (snd r')) < length (fst (snd r)) \<or> length (fst (snd r')) = length (fst (snd r)) \<and> fst r \<noteq> None"

fun best_route :: "'h route list \<Rightarrow> 'h route option" where
  "best_route [] = None"
| "best_route (r # rs) = (case best_route rs of None \<Rightarrow> Some r | Some r' \<Rightarrow> Some (if beats r r' then r else r'))"

text \<open>A path that is not clean is redirected, except for \<open>CONNECT\<close>, which takes it as it is.\<close>

datatype 'h mux_answer = Handled 'h | NotFound | MethodNotAllowed | Moved string

definition ServeMux :: "'h route list \<Rightarrow> string \<Rightarrow> string \<Rightarrow> 'h mux_answer" where
  "ServeMux routes m p =
     (let q = (if m = ''CONNECT'' then p else cleanPath p);
          hits = filter (\<lambda>(w, pat, _). method_matches w m \<and> path_matches pat q) routes;
          adds_slash = (\<not> list_ex (\<lambda>(_, pat, _). pat = q) hits \<and> list_ex (\<lambda>(w, pat, _). method_matches w m \<and> pat = q @ ''/'') routes)
      in if adds_slash then Moved (q @ ''/'')
         else if q \<noteq> p then Moved q
         else (case best_route hits of
                 Some (_, _, h) \<Rightarrow> Handled h
               | None \<Rightarrow> if list_ex (\<lambda>(_, pat, _). path_matches pat q) routes then MethodNotAllowed else NotFound))"

subsection \<open>The routes\<close>

datatype target =
    Endpoint | ResourceMetadata | ASMetadata | Register | Authorize | Callback | Consent | Token | Revoke

definition resource_metadata_path :: string where
  "resource_metadata_path = ''/.well-known/oauth-protected-resource''"

text \<open>\<open>routes\<close> of the OAuth server, with its \<open>mcpPath\<close> as \<open>buildMCP\<close> sets it.\<close>

definition as_routes :: "target route list" where
  "as_routes =
     [(None, resource_metadata_path, ResourceMetadata), (None, resource_metadata_path @ mcp_path, ResourceMetadata),
      (Some ''GET'', ''/.well-known/oauth-authorization-server'', ASMetadata), (Some ''POST'', ''/oauth/register'', Register),
      (Some ''GET'', ''/oauth/authorize'', Authorize), (Some ''GET'', ''/oauth/google/callback'', Callback),
      (Some ''POST'', ''/oauth/consent'', Consent), (Some ''POST'', ''/oauth/token'', Token), (Some ''POST'', ''/oauth/revoke'', Revoke)]"

text \<open>The mux of \<open>buildMCP\<close>: the endpoint (\<open>None\<close>: the OAuth server) and the patterns of \<open>startMCP\<close>.\<close>

definition inner_routes :: "target option route list" where
  "inner_routes = [(None, mcp_path, Some Endpoint), (None, ''/oauth/'', None), (None, ''/.well-known/'', None)]"

definition port_patterns :: "unit route list" where
  "port_patterns = map (\<lambda>p. (None, p, ())) [mcp_path, ''/oauth/'', ''/.well-known/'']"

datatype port_answer = To target | Preflight | Starting | NoRoute | WrongMethod | Redirected string

definition of_mux :: "('h \<Rightarrow> port_answer) \<Rightarrow> 'h mux_answer \<Rightarrow> port_answer" where
  "of_mux f a = (case a of Handled h \<Rightarrow> f h | NotFound \<Rightarrow> NoRoute | MethodNotAllowed \<Rightarrow> WrongMethod | Moved q \<Rightarrow> Redirected q)"

definition buildMCP_handler :: "string \<Rightarrow> string \<Rightarrow> port_answer" where
  "buildMCP_handler m p =
     of_mux (\<lambda>h. case h of Some t \<Rightarrow> To t | None \<Rightarrow> of_mux To (ServeMux as_routes m p)) (ServeMux inner_routes m p)"

text \<open>The port: \<open>CORS\<close> answers a preflight itself; until the routes are built the rest is 503.\<close>

definition mcp_port :: "bool \<Rightarrow> string \<Rightarrow> string \<Rightarrow> port_answer" where
  "mcp_port ready m p =
     of_mux (\<lambda>_. if m = ''OPTIONS'' then Preflight else if ready then buildMCP_handler m p else Starting) (ServeMux port_patterns m p)"

subsection \<open>Only these\<close>

lemma best_route_in: "best_route rs = Some r \<Longrightarrow> r \<in> set rs"
  by (induction rs arbitrary: r) (auto split: option.splits if_splits)

lemma best_route_None: "best_route rs = None \<longleftrightarrow> rs = []"
  by (cases rs) (auto split: option.splits)

lemma ServeMux_Handled:
  assumes "ServeMux routes m p = Handled h"
  shows "\<exists>w pat. (w, pat, h) \<in> set routes \<and> method_matches w m \<and> path_matches pat p"
proof -
  let ?hits = "\<lambda>q. filter (\<lambda>(w, pat, _). method_matches w m \<and> path_matches pat q) routes"
  from assms obtain w pat q where b: "q = p" "best_route (?hits q) = Some (w, pat, h)"
    by (auto simp: ServeMux_def Let_def split: if_splits option.splits)
  from best_route_in [OF b(2)] b(1) show ?thesis by auto
qed

definition reached :: "string \<Rightarrow> string \<Rightarrow> target \<Rightarrow> bool" where
  "reached m p t \<longleftrightarrow> t = Endpoint \<and> p = mcp_path \<or> (\<exists>w. (w, p, t) \<in> set as_routes \<and> method_matches w m)"

lemma as_routes_exact: "(w, pat, t) \<in> set as_routes \<Longrightarrow> \<not> subtree pat"
proof -
  have "list_all (\<lambda>(_, pat, _). \<not> subtree pat) as_routes" by code_simp
  then show "(w, pat, t) \<in> set as_routes \<Longrightarrow> \<not> subtree pat" by (auto simp: list_all_iff)
qed

lemma mcp_port_only:
  assumes "mcp_port ready m p = To t"
  shows "ready \<and> m \<noteq> ''OPTIONS'' \<and> reached m p t"
proof -
  from assms have r: "ready" "m \<noteq> ''OPTIONS''" and b: "buildMCP_handler m p = To t"
    by (auto simp: mcp_port_def of_mux_def split: mux_answer.splits if_splits)
  from b consider "ServeMux inner_routes m p = Handled (Some t)"
    | "ServeMux as_routes m p = Handled t"
    by (auto simp: buildMCP_handler_def of_mux_def split: mux_answer.splits option.splits)
  then have "reached m p t"
  proof cases
    case 1
    from ServeMux_Handled [OF this] show ?thesis
      by (auto simp: inner_routes_def reached_def path_matches_def subtree_def mcp_path_def)
  next
    case 2
    from ServeMux_Handled [OF this] as_routes_exact show ?thesis
      by (fastforce simp: reached_def path_matches_def)
  qed
  with r show ?thesis by blast
qed

text \<open>The served paths are clean, and their patterns name each of them once.\<close>

definition served_paths :: "string list" where
  "served_paths = mcp_path # map (\<lambda>(_, p, _). p) as_routes"

lemma served_clean: "p \<in> set served_paths \<Longrightarrow> cleanPath p = p"
proof -
  have "list_all (\<lambda>p. cleanPath p = p) served_paths" by code_simp
  then show "p \<in> set served_paths \<Longrightarrow> cleanPath p = p" by (auto simp: list_all_iff)
qed

lemma served_distinct: "distinct served_paths"
  by code_simp

lemma ServeMux_one:
  assumes "cleanPath p = p" and "filter (\<lambda>(w, pat, _). method_matches w m \<and> path_matches pat p) routes = [(w, pat, h)]"
    and "pat = p \<or> \<not> list_ex (\<lambda>(w, pat, _). method_matches w m \<and> pat = p @ ''/'') routes"
  shows "ServeMux routes m p = Handled h"
  using assms by (auto simp: ServeMux_def Let_def)

lemma as_routes_handle:
  assumes "(w, p, t) \<in> set as_routes" and "method_matches w m"
  shows "ServeMux as_routes m p = Handled t"
proof (rule ServeMux_one)
  from assms(1) have "p \<in> set served_paths" by (force simp: served_paths_def)
  then show "cleanPath p = p" by (rule served_clean)
  have only: "filter (\<lambda>(w, pat, _). method_matches w m \<and> pat = p) rs = [(w, p, t)]"
    if "(w, p, t) \<in> set rs" "distinct (map (\<lambda>(_, p, _). p) rs)" for rs
    using that
  proof (induction rs)
    case (Cons r rs)
    obtain w' p' t' where r: "r = (w', p', t')" by (cases r)
    show ?case
    proof (cases "r = (w, p, t)")
      case True
      with Cons.prems(2) have "filter (\<lambda>(w, pat, _). method_matches w m \<and> pat = p) rs = []"
        by (force simp: filter_empty_conv)
      with True assms(2) show ?thesis by simp
    next
      case False
      with Cons.prems(1) have in_rest: "(w, p, t) \<in> set rs" by auto
      then have "p \<in> set (map (\<lambda>(_, p, _). p) rs)" by force
      moreover from Cons.prems(2) r have "p' \<notin> set (map (\<lambda>(_, p, _). p) rs)"
        by (simp only: list.map distinct.simps prod.case not_False_eq_True)
      ultimately have "p' \<noteq> p" by blast
      with Cons in_rest r show ?thesis by simp
    qed
  qed simp
  have "filter (\<lambda>(w, pat, _). method_matches w m \<and> path_matches pat p) as_routes =
      filter (\<lambda>(w, pat, _). method_matches w m \<and> pat = p) as_routes"
    using as_routes_exact by (intro filter_cong) (auto simp: path_matches_def)
  also have "\<dots> = [(w, p, t)]" using only [OF assms(1)] served_distinct by (simp add: served_paths_def)
  finally show "filter (\<lambda>(w, pat, _). method_matches w m \<and> path_matches pat p) as_routes = [(w, p, t)]" .
qed simp

text \<open>The two muxes in front send such a path on, whatever the method.\<close>

definition front_patterns :: "string list" where
  "front_patterns = [mcp_path, ''/oauth/'', ''/.well-known/'']"

lemma ServeMux_any:
  assumes c: "cleanPath p = p" and one: "filter (\<lambda>pat. path_matches pat p) pats = [pat]" and slash: "p @ ''/'' \<notin> set pats"
  shows "ServeMux (map (\<lambda>pat. (None, pat, f pat)) pats) m p = Handled (f pat)"
proof (rule ServeMux_one [OF c])
  have "filter (\<lambda>(w, pat, _). method_matches w m \<and> path_matches pat p) (map (\<lambda>pat. (None, pat, f pat)) qs) =
      map (\<lambda>pat. (None, pat, f pat)) (filter (\<lambda>pat. path_matches pat p) qs)" for qs
    by (induction qs) (simp_all add: method_matches_def)
  with one show "filter (\<lambda>(w, pat, _). method_matches w m \<and> path_matches pat p) (map (\<lambda>pat. (None, pat, f pat)) pats) = [(None, pat, f pat)]"
    by simp
  have "\<not> list_ex (\<lambda>(w, pat, _). method_matches w m \<and> pat = p @ ''/'') (map (\<lambda>pat. (None, pat, f pat)) pats)"
    using slash by (auto simp: list_ex_iff)
  then show "pat = p \<or> \<not> list_ex (\<lambda>(w, pat, _). method_matches w m \<and> pat = p @ ''/'') (map (\<lambda>pat. (None, pat, f pat)) pats)" ..
qed

definition front_of :: "string \<Rightarrow> string" where
  "front_of p = hd (filter (\<lambda>pat. path_matches pat p) front_patterns)"

lemma front_one:
  assumes "p \<in> set served_paths"
  shows "filter (\<lambda>pat. path_matches pat p) front_patterns = [front_of p]"
    and "front_of p = mcp_path \<longleftrightarrow> p = mcp_path" and "p @ ''/'' \<notin> set front_patterns"
proof -
  have "list_all (\<lambda>p. filter (\<lambda>pat. path_matches pat p) front_patterns = [front_of p] \<and>
      (front_of p = mcp_path \<longleftrightarrow> p = mcp_path) \<and> \<not> list_ex (\<lambda>pat. pat = p @ ''/'') front_patterns) served_paths"
    by code_simp
  with assms show "filter (\<lambda>pat. path_matches pat p) front_patterns = [front_of p]"
    and "front_of p = mcp_path \<longleftrightarrow> p = mcp_path" and "p @ ''/'' \<notin> set front_patterns"
    unfolding list_all_iff list_ex_iff by metis+
qed

lemma front_muxes:
  assumes "p \<in> set served_paths"
  shows "ServeMux port_patterns m p = Handled ()"
    and "ServeMux inner_routes m p = Handled (if p = mcp_path then Some Endpoint else None)"
proof -
  note one = ServeMux_any [OF served_clean [OF assms] front_one(1) [OF assms] front_one(3) [OF assms]]
  have "port_patterns = map (\<lambda>pat. (None, pat, ())) front_patterns"
    by (simp add: port_patterns_def front_patterns_def)
  then show "ServeMux port_patterns m p = Handled ()" using one [of "\<lambda>_. ()"] by (simp only:)
  have "inner_routes = map (\<lambda>pat. (None, pat, if pat = mcp_path then Some Endpoint else None)) front_patterns"
    by (simp add: inner_routes_def front_patterns_def mcp_path_def)
  then show "ServeMux inner_routes m p = Handled (if p = mcp_path then Some Endpoint else None)"
    using one [of "\<lambda>pat. if pat = mcp_path then Some Endpoint else None" m] by (simp only: front_one(2) [OF assms])
qed

lemma mcp_port_all:
  assumes "m \<noteq> ''OPTIONS''" and "reached m p t"
  shows "mcp_port True m p = To t"
proof -
  from assms(2) consider "t = Endpoint" "p = mcp_path" | w where "(w, p, t) \<in> set as_routes" "method_matches w m"
    by (auto simp: reached_def)
  then show ?thesis
  proof cases
    case 1
    with front_muxes [of p m] assms(1) show ?thesis by (simp add: mcp_port_def of_mux_def buildMCP_handler_def served_paths_def)
  next
    case 2
    then have p: "p \<in> set (map (\<lambda>(_, p, _). p) as_routes)" by force
    from served_distinct have "mcp_path \<notin> set (map (\<lambda>(_, p, _). p) as_routes)" by (simp only: served_paths_def distinct.simps not_False_eq_True)
    with p have "p \<noteq> mcp_path" by blast
    with front_muxes [of p m] assms(1) as_routes_handle [OF 2] p show ?thesis
      by (simp add: mcp_port_def of_mux_def buildMCP_handler_def served_paths_def)
  qed
qed

text \<open>
  A request reaches a handler exactly when its method and path name one of the served routes, the routes are built and it is
  no preflight; nothing else of the program is behind the public port, and every path that is reached is logged by its name,
  all others as \<open>other\<close>.
\<close>

theorem mcp_port_exact:
  "(mcp_port ready m p = To t \<longleftrightarrow> ready \<and> m \<noteq> ''OPTIONS'' \<and> reached m p t) \<and> set loggedPaths = set served_paths"
proof
  show "mcp_port ready m p = To t \<longleftrightarrow> ready \<and> m \<noteq> ''OPTIONS'' \<and> reached m p t"
  proof (rule iffI, erule mcp_port_only)
    assume r: "ready \<and> m \<noteq> ''OPTIONS'' \<and> reached m p t"
    then have "ready = True" by argo
    moreover have "mcp_port True m p = To t" by (rule mcp_port_all) (rule r [THEN conjunct2, THEN conjunct1], rule r [THEN conjunct2, THEN conjunct2])
    ultimately show "mcp_port ready m p = To t" by (rule ssubst)
  qed
  show "set loggedPaths = set served_paths" by code_simp
qed

subsection \<open>The log\<close>

text \<open>
  \<open>LogRequests\<close>: the handler's calls of its \<open>ResponseWriter\<close>, the status \<open>statusRecorder\<close> has afterwards, and the one
  \<open>net/http\<close> sends (the first final one, or 200 with the first byte, flush or return).
\<close>

datatype writer_op = WriteHeader nat | WriteBody string | FlushOp

fun statusRecorder :: "nat \<Rightarrow> writer_op list \<Rightarrow> nat" where
  "statusRecorder st [] = st"
| "statusRecorder st (WriteHeader code # ops) = statusRecorder code ops"
| "statusRecorder st (_ # ops) = statusRecorder st ops"

fun sent_status :: "writer_op list \<Rightarrow> nat" where
  "sent_status (WriteHeader code # ops) = (if 100 \<le> code \<and> code < 200 \<and> code \<noteq> 101 then sent_status ops else code)"
| "sent_status _ = 200"

definition LogRequests :: "string \<Rightarrow> string \<Rightarrow> writer_op list \<Rightarrow> string \<times> string \<times> nat" where
  "LogRequests m p ops = (m, logPath p, statusRecorder 200 ops)"

text \<open>
  The logged status is the one sent, for a handler that sets it at most once and before its body, and keeps to final
  codes; and what is logged of the path is one of the served ones or \<open>other\<close>.
\<close>

lemma statusRecorder_quiet: "\<forall>code. WriteHeader code \<notin> set ops \<Longrightarrow> statusRecorder st ops = st"
  by (induction st ops rule: statusRecorder.induct) auto

lemma LogRequests_line:
  assumes "\<forall>code. WriteHeader code \<notin> set ops" and "200 \<le> code"
  shows "LogRequests m p ops = (m, logPath p, sent_status ops)"
    and "LogRequests m p (WriteHeader code # ops) = (m, logPath p, sent_status (WriteHeader code # ops))"
    and "logPath p = ''other'' \<or> logPath p \<in> set served_paths"
proof -
  have "sent_status ops = 200" using assms(1) by (cases ops; cases "hd ops") auto
  then show "LogRequests m p ops = (m, logPath p, sent_status ops)"
    using statusRecorder_quiet [OF assms(1)] by (simp add: LogRequests_def)
  show "LogRequests m p (WriteHeader code # ops) = (m, logPath p, sent_status (WriteHeader code # ops))"
    using statusRecorder_quiet [OF assms(1)] assms(2) by (simp add: LogRequests_def)
  have "set loggedPaths = set served_paths" by code_simp
  then show "logPath p = ''other'' \<or> logPath p \<in> set served_paths" unfolding logPath_def by (metis (full_types))
qed

end
