(* ===== verification/McpEndpoint.thy ===== *)
theory McpEndpoint
  imports McpRoutes McpFacts AuthSignIn
begin

text \<open>
  The MCP endpoint as \<open>NewHandler\<close> and \<open>newServer\<close> (\<open>mcp/server.go\<close>) build it behind the public port: the SDK's
  bearer check on \<open>VerifyToken\<close>, the scope middleware, and the tools with \<open>respond\<close> around them. The SDK is an
  argument: its bearer middleware, and its method handler over the tools that were added to it.
\<close>

subsection \<open>The tools\<close>

text \<open>\<open>Options\<close>; \<open>newServer\<close> fills in what is nil.\<close>

record mcp_options =
  mo_version :: string
  mo_plan :: string
  mo_stale_after :: duration
  mo_redact :: "(string \<Rightarrow> string) option"
  mo_now :: "time option"

definition opt_redact :: "mcp_options \<Rightarrow> string \<Rightarrow> string" where
  "opt_redact opts = (case mo_redact opts of Some f \<Rightarrow> f | None \<Rightarrow> (\<lambda>s. s))"

text \<open>What a call meets: the clock and the zone, the cursor codec and the faults of its queries.\<close>

record call_env =
  tc_clock :: time
  tc_zone :: "time \<Rightarrow> duration"
  tc_codec :: cursor_codec
  tc_query_faults :: query_faults
  tc_total_faults :: "nat \<Rightarrow> error option"
  tc_fresh_faults :: freshness_faults

definition opt_now :: "mcp_options \<Rightarrow> call_env \<Rightarrow> time" where
  "opt_now opts env = (case mo_now opts of Some t \<Rightarrow> t | None \<Rightarrow> tc_clock env)"

record freshness_data =
  fd_stale_after_seconds :: int
  fd_import_stale_after_days :: int

text \<open>A call's arguments after the SDK has decoded them for the tool's type, and a tool's data.\<close>

datatype tool_args = NoArgs | QueryArgs query_args | CompareArgs period period

datatype tool_data = FreshnessData freshness_data | QueryData query_data | CompareData compare_data

type_synonym tool_result = "(tool_data \<times> mcp_freshness) result"

definition data_freshness :: "mcp_options \<Rightarrow> freshness_data" where
  "data_freshness opts =
     \<lparr>fd_stale_after_seconds = quot (mo_stale_after opts) ns_second, fd_import_stale_after_days = importStaleAfterDays\<rparr>"

text \<open>The body registered for a tool, on arguments of its type.\<close>

definition tool_body :: "mcp_options \<Rightarrow> call_env \<Rightarrow> db \<Rightarrow> string \<Rightarrow> tool_args \<Rightarrow> tool_data result option" where
  "tool_body opts env d name a =
     (if name = ''data_freshness'' then
        (case a of NoArgs \<Rightarrow> Some (Inr (FreshnessData (data_freshness opts))) | _ \<Rightarrow> None)
      else if name = ''query_transactions'' then
        (case a of QueryArgs q \<Rightarrow> Some (map_sum (\<lambda>e. e) QueryData (queryTransactions (tc_codec env) (tc_query_faults env) d (mo_plan opts) q))
         | _ \<Rightarrow> None)
      else if name = ''compare_spending'' then
        (case a of CompareArgs p b \<Rightarrow> Some (map_sum (\<lambda>e. e) CompareData (compareSpending (tc_total_faults env) d (mo_plan opts) p b))
         | _ \<Rightarrow> None)
      else None)"

definition fresh_now :: "mcp_options \<Rightarrow> call_env \<Rightarrow> db \<Rightarrow> mcp_freshness result" where
  "fresh_now opts env d =
     readFreshness (tc_zone env) (mo_stale_after opts) (tc_fresh_faults env) d (mo_plan opts) (opt_now opts env)"

text \<open>\<open>define\<close>: the handler added to the server, its body with \<open>respond\<close> around it.\<close>

type_synonym tool_handler = "tool_args \<Rightarrow> (tool_result \<times> tool_log list) option"

definition tool_handler :: "mcp_options \<Rightarrow> call_env \<Rightarrow> db \<Rightarrow> string \<Rightarrow> tool_handler" where
  "tool_handler opts env d name a = map_option (respond (opt_redact opts) (fresh_now opts env d) name) (tool_body opts env d name a)"

text \<open>The tools added to the server by \<open>newServer\<close>'s loop; a name added again replaces the first.\<close>

definition added_tools :: "tool_def list \<Rightarrow> mcp_options \<Rightarrow> call_env \<Rightarrow> db \<Rightarrow> (string \<times> tool_handler) list" where
  "added_tools defs opts env d = fold (\<lambda>t. AList.update (td_name t) (tool_handler opts env d (td_name t))) defs []"

subsection \<open>The endpoint\<close>

text \<open>
  The SDK: its bearer check (the verifier, the scopes it asks for and the request's headers, to a status or the token's
  info), the token info a request's extra carries (none, or the info of its HTTP request), and its handler of methods
  over the added tools and a request's parameters.
\<close>

datatype reply_content = ToolReply tool_result | OtherReply string

record ('h, 'x) mcp_sdk =
  sdk_require :: "(string \<Rightarrow> token_info result) \<Rightarrow> string list \<Rightarrow> 'h \<Rightarrow> nat + token_info"
  sdk_extra :: "token_info \<Rightarrow> token_info option"
  sdk_next :: "(string \<times> tool_handler) list \<Rightarrow> string \<Rightarrow> mcp_request \<Rightarrow> 'x \<times> tool_log list \<Rightarrow> reply_content mcp_reply \<times> 'x \<times> tool_log list"

text \<open>One MCP request in one HTTP request.\<close>

record 'h endpoint_request =
  er_method :: string
  er_path :: string
  er_headers :: 'h
  er_message :: mcp_request
  er_params :: string

datatype endpoint_answer = NotServed port_answer | Unauthorized nat | Answered "reply_content mcp_reply"

definition newServer ::
    "tool_def list \<Rightarrow> ('h, 'x) mcp_sdk \<Rightarrow> mcp_options \<Rightarrow> call_env \<Rightarrow> db \<Rightarrow> string \<Rightarrow> token_info option \<Rightarrow> mcp_request \<Rightarrow>
     'x \<times> tool_log list \<Rightarrow> reply_content mcp_reply \<times> 'x \<times> tool_log list" where
  "newServer defs sdk opts env d params info msg s =
     limitToToken (tool_scopes defs) (sdk_next sdk (added_tools defs opts env d) params) info msg s"

definition newHandler ::
    "tool_def list \<Rightarrow> ('h, 'x) mcp_sdk \<Rightarrow> (string \<Rightarrow> token_info result) \<Rightarrow> mcp_options \<Rightarrow> call_env \<Rightarrow> db \<Rightarrow> 'h endpoint_request \<Rightarrow>
     'x \<times> tool_log list \<Rightarrow> endpoint_answer \<times> 'x \<times> tool_log list" where
  "newHandler defs sdk verify opts env d rq s =
     (case sdk_require sdk verify [ScopeMCP] (er_headers rq) of
        Inl status \<Rightarrow> (Unauthorized status, s)
      | Inr info \<Rightarrow>
          (case newServer defs sdk opts env d (er_params rq) (sdk_extra sdk info) (er_message rq) s of (r, s') \<Rightarrow> (Answered r, s')))"

text \<open>The port with the endpoint behind it, \<open>as\<close> as the verifier.\<close>

definition mcp_request_served ::
    "bool \<Rightarrow> ('h, 'x) mcp_sdk \<Rightarrow> server_env \<Rightarrow> error option \<Rightarrow> auth_db conn \<Rightarrow> mcp_options \<Rightarrow> call_env \<Rightarrow> db \<Rightarrow> 'h endpoint_request \<Rightarrow>
     'x \<times> tool_log list \<Rightarrow> endpoint_answer \<times> 'x \<times> tool_log list" where
  "mcp_request_served ready sdk senv flt adb opts env d rq s =
     (case mcp_port ready (er_method rq) (er_path rq) of
        To Endpoint \<Rightarrow> newHandler registry sdk (\<lambda>token. VerifyToken senv flt token adb) opts env d rq s
      | a \<Rightarrow> (NotServed a, s))"

subsection \<open>What the SDK promises\<close>

text \<open>
  \<open>RequireBearerToken\<close> lets a request pass only with an info its verifier gave for a token, and with every scope it was
  asked for; a request's extra is its own info; and a tool's result comes from a call of that tool's handler on some
  arguments.
\<close>

definition sdk_documented :: "('h, 'x) mcp_sdk \<Rightarrow> bool" where
  "sdk_documented sdk \<longleftrightarrow>
     (\<forall>verify scopes h info. sdk_require sdk verify scopes h = Inr info \<longrightarrow>
        (\<exists>token. verify token = Inr info) \<and> set scopes \<subseteq> set (ti_scopes info)) \<and>
     (\<forall>info i. sdk_extra sdk info = Some i \<longrightarrow> i = info) \<and>
     (\<forall>tools params msg s x. fst (sdk_next sdk tools params msg s) = Reply (ToolReply x) \<longrightarrow>
        (\<exists>t h a logs. msg = CallTool t \<and> map_of tools t = Some h \<and> h a = Some (x, logs)))"

lemma map_of_added_tools:
  "map_of (added_tools defs opts env d) t = (if t \<in> td_name ` set defs then Some (tool_handler opts env d t) else None)"
proof -
  have "map_of (fold (\<lambda>t. AList.update (td_name t) (f (td_name t))) ts acc) t =
      (if t \<in> td_name ` set ts then Some (f t) else map_of acc t)" for ts acc f
    by (induction ts arbitrary: acc) (auto simp: update_conv')
  from this [of "tool_handler opts env d" defs "[]"] show ?thesis by (simp add: added_tools_def)
qed

lemma registry_names: "td_name ` set registry = {''data_freshness'', ''query_transactions'', ''compare_spending''}"
proof -
  have "map td_name registry = [''data_freshness'', ''query_transactions'', ''compare_spending'']" by code_simp
  from arg_cong [OF this, of set] show ?thesis by (simp only: list.set list.set_map)
qed

lemmas added_tools_registry = map_of_added_tools [where defs = registry, unfolded registry_names]

lemma VerifyToken_live:
  assumes "VerifyToken env flt token adb = Inr info" and "conn_idle adb"
  shows "\<exists>sess. IntrospectToken (ev_provider env) token adb = Inr (AccessToken, ti_scopes info, Some sess) \<and>
    issued_gen sess = Some (generation_sum (se_subject sess) (committed adb))"
  using assms
  by (auto simp: VerifyToken_def CheckSession_def CurrentGeneration_def query_unfold split: sum.splits option.splits if_splits)

lemma limitToToken_reply:
  assumes "fst (limitToToken scopes next_step info msg s) = Reply r"
  shows "fst (next_step msg s) = Reply r"
  using assms by (cases msg) (auto split: if_splits prod.splits mcp_reply.splits)

lemma tool_handler_reply:
  assumes "tool_handler opts env d t a = Some (x, logs)"
  shows "case x of
      Inl e \<Rightarrow> e = errTool \<or> errors_Is e ErrClient \<and> tool_body opts env d t a = Some (Inl e)
    | Inr (out, f) \<Rightarrow> tool_body opts env d t a = Some (Inr out) \<and> fresh_now opts env d = Inr f"
proof -
  from assms obtain z where z: "tool_body opts env d t a = Some z"
    and x: "(x, logs) = respond (opt_redact opts) (fresh_now opts env d) t z"
    by (auto simp: tool_handler_def)
  show ?thesis
  proof (cases z)
    case (Inl e)
    with x z show ?thesis by (auto simp: respond_def split: if_splits)
  next
    case (Inr out)
    with x z show ?thesis by (cases "fresh_now opts env d") (auto simp: respond_def)
  qed
qed

text \<open>
  C33: What leaves the MCP endpoint. A tool's result is sent only for a request to the endpoint's path with routes that
  are built, whose token introspects as an access token with the MCP scope and a session of the current generation (so no
  token revoked before); it is the result of one of finbot's tools on the mirror, with the freshness the mirror has at
  that moment, or else the fixed failure text or a refusal of the caller's input.
\<close>

theorem tool_answers_guarded:
  assumes "sdk_documented sdk" and "conn_idle adb"
    and "fst (mcp_request_served ready sdk senv flt adb opts env d rq s) = Answered (Reply (ToolReply x))"
  shows "ready \<and> er_path rq = mcp_path \<and> er_method rq \<noteq> ''OPTIONS'' \<and>
    (\<exists>token scopes sess. IntrospectToken (ev_provider senv) token adb = Inr (AccessToken, scopes, Some sess) \<and>
       ScopeMCP \<in> set scopes \<and> issued_gen sess = Some (generation_sum (se_subject sess) (committed adb))) \<and>
    (\<exists>t a. er_message rq = CallTool t \<and> t \<in> {''data_freshness'', ''query_transactions'', ''compare_spending''} \<and>
       (case x of
          Inl e \<Rightarrow> e = errTool \<or> errors_Is e ErrClient \<and> tool_body opts env d t a = Some (Inl e)
        | Inr (out, f) \<Rightarrow> tool_body opts env d t a = Some (Inr out) \<and> fresh_now opts env d = Inr f))"
proof -
  let ?verify = "\<lambda>token. VerifyToken senv flt token adb"
  have port: "mcp_port ready (er_method rq) (er_path rq) = To Endpoint"
    using assms(3) by (auto simp: mcp_request_served_def split: port_answer.splits target.splits)
  then obtain info where req: "sdk_require sdk ?verify [ScopeMCP] (er_headers rq) = Inr info"
    and server: "fst (newServer registry sdk opts env d (er_params rq) (sdk_extra sdk info) (er_message rq) s) = Reply (ToolReply x)"
    using assms(3) by (auto simp: mcp_request_served_def newHandler_def split: sum.splits prod.splits)
  from mcp_port_only [OF port] have path: "ready" "er_method rq \<noteq> ''OPTIONS''" "er_path rq = mcp_path"
    by (auto simp: reached_def as_routes_def)
  from assms(1) req obtain token where "?verify token = Inr info" and scope: "ScopeMCP \<in> set (ti_scopes info)"
    unfolding sdk_documented_def by fastforce
  from VerifyToken_live [OF this(1) assms(2)] scope
  have token: "\<exists>token scopes sess. IntrospectToken (ev_provider senv) token adb = Inr (AccessToken, scopes, Some sess) \<and>
      ScopeMCP \<in> set scopes \<and> issued_gen sess = Some (generation_sum (se_subject sess) (committed adb))"
    by blast
  from limitToToken_reply [OF server [unfolded newServer_def]] assms(1) obtain t h a logs
    where msg: "er_message rq = CallTool t" and h: "map_of (added_tools registry opts env d) t = Some h" "h a = Some (x, logs)"
    unfolding sdk_documented_def by blast
  have t: "t \<in> {''data_freshness'', ''query_transactions'', ''compare_spending''}" and "h = tool_handler opts env d t"
    using h(1) unfolding added_tools_registry by (cases "t \<in> {''data_freshness'', ''query_transactions'', ''compare_spending''}";
        simp only: if_True if_False option.inject option.distinct)+
  with h(2) tool_handler_reply [of opts env d t a x logs] msg path token show ?thesis by blast
qed

subsection \<open>Example\<close>

text \<open>An SDK whose requests carry their token, calling tools without arguments.\<close>

definition ex_sdk_server :: "(string, unit) mcp_sdk" where
  "ex_sdk_server =
     \<lparr>sdk_require = (\<lambda>verify scopes token.
        case verify token of Inl _ \<Rightarrow> Inl 401 | Inr i \<Rightarrow> if set scopes \<subseteq> set (ti_scopes i) then Inr i else Inl 403),
      sdk_extra = Some,
      sdk_next = (\<lambda>tools params msg s.
        case msg of
          CallTool t \<Rightarrow>
            (case map_of tools t of
               None \<Rightarrow> (RpcError ''unknown tool'', s)
             | Some h \<Rightarrow> (case h NoArgs of None \<Rightarrow> (RpcError ''invalid params'', s)
                          | Some (x, logs) \<Rightarrow> (Reply (ToolReply x), (fst s, snd s @ logs))))
        | _ \<Rightarrow> (Reply (OtherReply []), s))\<rparr>"

lemma ex_sdk_documented: "sdk_documented ex_sdk_server"
  unfolding sdk_documented_def
  by (auto simp: ex_sdk_server_def split: sum.splits if_splits mcp_request.splits option.splits)

definition ex_options :: mcp_options where
  "ex_options = \<lparr>mo_version = ''v1'', mo_plan = ''p'', mo_stale_after = 1800000000000, mo_redact = None, mo_now = Some 0\<rparr>"

definition ex_call :: call_env where
  "ex_call = \<lparr>tc_clock = 0, tc_zone = (\<lambda>_. 0), tc_codec = ex_codec, tc_query_faults = no_query_faults, tc_total_faults = (\<lambda>_. None),
     tc_fresh_faults = no_freshness_faults\<rparr>"

definition ex_request :: "string endpoint_request" where
  "ex_request = \<lparr>er_method = ''POST'', er_path = ''/mcp'', er_headers = ''t'', er_message = CallTool ''data_freshness'', er_params = []\<rparr>"

lemma ex_verified: "\<exists>info. VerifyToken ex_server None token (fresh_conn ex_auth) = Inr info \<and> ScopeMCP \<in> set (ti_scopes info)"
  by (simp add: VerifyToken_def ex_server_def ex_provider_def CheckSession_def CurrentGeneration_def query_unfold issued_gen_def
      ex_session_def NewSession_def generation_sum_def ex_auth_tokens ScopeMCP_def)

theorem tool_answers_guarded_witness:
  "\<exists>out f. fst (mcp_request_served True ex_sdk_server ex_server None (fresh_conn ex_auth) ex_options ex_call empty_db ex_request ((), [])) =
       Answered (Reply (ToolReply (Inr (out, f)))) \<and>
     fr_stale f \<and> fresh_now ex_options ex_call empty_db = Inr f"
proof -
  have port: "mcp_port True ''POST'' ''/mcp'' = To Endpoint" by code_simp
  obtain f where f: "fresh_now ex_options ex_call empty_db = Inr f" "fr_stale f"
    by (auto simp: fresh_now_def readFreshness_def ex_options_def ex_call_def no_freshness_faults_def GetSyncState_def Freshness_def
        plan_accounts_def empty_db_def)
  have scopes: "map_of (tool_scopes registry) ''data_freshness'' = Some ScopeMCP" by code_simp
  have tool: "map_of (added_tools registry ex_options ex_call empty_db) ''data_freshness'' =
      Some (tool_handler ex_options ex_call empty_db ''data_freshness'')"
    unfolding added_tools_registry by (simp only: insert_iff simp_thms if_True)
  obtain info where info: "VerifyToken ex_server None ''t'' (fresh_conn ex_auth) = Inr info" "ScopeMCP \<in> set (ti_scopes info)"
    using ex_verified by blast
  obtain out where out: "tool_handler ex_options ex_call empty_db ''data_freshness'' NoArgs = Some (Inr (out, f), [])"
    using f by (auto simp: tool_handler_def tool_body_def respond_def)
  have served: "fst (mcp_request_served True ex_sdk_server ex_server None (fresh_conn ex_auth) ex_options ex_call empty_db ex_request ((), [])) =
      Answered (Reply (ToolReply (Inr (out, f))))"
    using info scopes tool out
    by (simp add: mcp_request_served_def ex_request_def port newHandler_def ex_sdk_server_def newServer_def permitted_def)
  have "conn_idle (fresh_conn ex_auth)" by simp
  from tool_answers_guarded [OF ex_sdk_documented this served] served f(2) show ?thesis by auto
qed

end
