(* ===== verification/Spec2Isabelle.thy ===== *)
theory Spec2Isabelle
  imports SyncSpec QueryFacts StatusRuns Governor YnabTransport YnabClient AuthSignIn McpFacts McpServer
    BackupFacts StoreOpen Cli Serve AuthGoogle AuthConsent McpEndpoint
begin

text \<open>
  A model of finbot, the daemon that mirrors YNAB plans into one SQLite file, reports its state to Slack,
  stores encrypted backups off-site and answers a language model's questions over MCP behind its own
  OAuth server.

  \<^bold>\<open>The parts and how they interact.\<close> The scheduler (\<open>cmd/scheduler.go\<close>) runs the jobs one at a time. The
  sync job asks YNAB for a delta through the rate-limited client (\<open>ynab/\<close>), maps and stitches the answer
  and writes it with its cursor in one transaction (\<open>sync/\<close>, \<open>store/\<close>); its outcome goes to \<open>/healthz\<close>, a
  ping and the Slack message (\<open>cmd/\<close>, \<open>status/\<close>). The backup job snapshots the database, encrypts it and
  stores it in Turso (\<open>backup/\<close>). The MCP endpoint (\<open>mcp/\<close>) reads the mirror only; who may call it is decided
  by the OAuth server (\<open>auth/\<close>), whose tables are in the same database.

  \<^bold>\<open>Theories and the code they model.\<close>
  \<^item> \<open>Prelude\<close>: errors with their \<open>errors.Is\<close> sentinels, SQLite tables as association lists by primary key
    (the locale \<open>keyed_table\<close>), loops that stop at the first error, decimal text. \<open>GoText\<close>, \<open>GoRunes\<close>, \<open>GoTime\<close>,
    \<open>GoRegexp\<close>, \<open>Base64\<close>: what the program uses of \<open>strings\<close>, UTF-8, \<open>regexp\<close>, \<open>strconv\<close>, \<open>time\<close> and
    \<open>encoding/base64\<close>. A text is its bytes.
  \<^item> \<open>SqlTx\<close>, \<open>StoreRows\<close>, \<open>StoreMirror\<close>, \<open>StoreLines\<close>, \<open>StoreQueries\<close>, \<open>StoreStatus\<close>, \<open>Migrate\<close>,
    \<open>StoreOpen\<close>: \<open>store/\<close>. \<open>writeTx\<close> is the one write transaction (the locale \<open>atomic_runner\<close>); a record per
    Go struct, an upsert per table, queries as functions on the tables in their \<open>ORDER BY\<close>. \<open>MirrorFacts\<close>,
    \<open>LineFacts\<close>, \<open>QueryFacts\<close> hold their lemmas.
  \<^item> \<open>SyncMapping\<close>, \<open>SyncTick\<close>: \<open>sync/\<close>; \<open>SyncFacts\<close> and \<open>SyncSpec\<close> prove the tick.
  \<^item> \<open>Governor\<close>, \<open>YnabClient\<close>, \<open>YnabTransport\<close>: \<open>ynab/\<close>.
  \<^item> \<open>StatusText\<close>, \<open>StatusUpdater\<close>, \<open>StatusRuns\<close>: \<open>status/\<close>, over the store's interface (the locale \<open>status_store\<close>).
  \<^item> \<open>AuthJson\<close>, \<open>AuthStorage\<close>, \<open>AuthClients\<close>, \<open>AuthTokens\<close>: fosite's storage over the OAuth tables, a request
    stored as the value of its JSON. \<open>AuthSim\<close>,
    \<open>AuthSpec\<close>: the specification of every operation as a partial function on the database, and the proof
    that each implements it atomically. \<open>AuthFacts\<close>, \<open>AuthProps\<close>, \<open>AuthLive\<close>: what follows over every run
    (the locales \<open>single_use\<close> and \<open>revocation_counter\<close>). \<open>AuthServer\<close>, \<open>AuthGoogle\<close>: the handlers;
    \<open>AuthConsent\<close>: the page that asks for consent; \<open>AuthSignIn\<close>: every interleaving of the handlers as a step relation.
  \<^item> \<open>Turso\<close>, \<open>TursoStore\<close>: \<open>backup/turso.go\<close> over a model of the server (a table, streams with their
    transaction and baton, every fault of a call); \<open>TursoFacts\<close>, \<open>TursoView\<close>: the table read as whole
    backups, and that each operation acts on those; \<open>TursoLive\<close>: it succeeds when the network does.
    \<open>BackupRun\<close>, \<open>BackupFacts\<close>: \<open>backup/backup.go\<close>.
  \<^item> \<open>McpMoney\<close>, \<open>McpPeriod\<close>, \<open>McpQuery\<close>, \<open>McpPaging\<close>, \<open>McpSpending\<close>, \<open>McpFreshness\<close>, \<open>McpServer\<close>,
    \<open>McpFacts\<close>: \<open>mcp/\<close>; a caller's walk over the pages is proved on the locale \<open>paged_source\<close>.
    \<open>McpRoutes\<close>: the muxes of \<open>cmd/mcp.go\<close>, \<open>auth/server.go\<close> and the request log; \<open>McpEndpoint\<close>: a request's way through
    them, the bearer check and the tools.
  \<^item> \<open>Config\<close>, \<open>Scheduler\<close>, \<open>Commands\<close>, \<open>Cli\<close>, \<open>Serve\<close>: \<open>config/\<close> and \<open>cmd/\<close>. \<open>Cli\<close> is the command line, \<open>Serve\<close>
    the daemon: servers, MCP start-up, scheduler and shutdown as one step relation.

  \<^bold>\<open>How code becomes definitions.\<close> A Go struct is a \<open>record\<close>, an error result a sum, a nil pointer \<open>None\<close>;
  an \<open>int64\<close> is \<open>64 word\<close>, an instant the nanoseconds since Go's zero time with \<open>Sub\<close> saturating as in Go.
  A \<open>float64\<close> is a rational, and what rounds an operation's exact result is an argument (\<open>rnd\<close>), of which the lemmas use
  what IEEE 754 says. JSON is its value, with the texts as \<open>encoding/json\<close> keeps them (U+FFFD for what is no UTF-8).
  What a function reads or writes besides its arguments (database, bucket, file system, Turso's server,
  parked logins) is passed and returned. What the environment does (a failing statement or commit, a
  dropped connection, Slack's or YNAB's answer, the clock, random texts) is an argument, and a theorem
  holds for all of it unless it says otherwise. Goroutines that share state are steps of a relation, cut
  at their critical sections.

  \<^bold>\<open>What the lemmas show.\<close> Safety: a tick, a migration, a backup and an OAuth operation happen wholly or not
  at all; codes, refresh tokens and consents are used once; revocation lasts; a backup run removes
  nothing before it has stored something sound; Slack gets at most one message in six hours; no secret
  is in a text that is shown; no text of an app changes the consent page; only a live session with the scope
  gets a tool's result; nothing runs after \<open>serve\<close> has returned. Correctness: amounts, pages, category totals and freshness are those of the
  mirrored rows. Progress: a tick without faults succeeds whatever YNAB sends, pages end, a backup that
  was stored restores to the snapshot.

  \<^bold>\<open>Loops.\<close> Recursion is structural or has a measure, except where the code itself may not return:
  \<open>findPrivateChannel\<close> (as long as Slack sends cursors), \<open>eachChunk\<close> (which ends for every positive chunk
  size, as \<open>put_done\<close> uses), \<open>discover\<close> (Google's keys, until the context ends) and a caller's walk \<open>follow\<close>
  (which ends, by the property of the pages) are partial functions whose value \<open>None\<close> is not returning. There is no fuel.

  \<^bold>\<open>Not modelled.\<close> The programs under \<open>spikes/\<close>, which finbot does not import. Third-party code, taken as
  arguments: fosite's provider, the oauth2 and oidc libraries, the MCP SDK's server, age, the YNAB client
  library, SQLite beyond transactions and keyed rows. Of the standard library: \<open>url.Parse\<close>,
  \<open>net.ParseIP\<close>, \<open>time.ParseDuration\<close>, the HTTP exchange and SHA-256, which are arguments too;
  \<open>ToLower\<close> and \<open>EqualFold\<close> of letters beyond ASCII; the writing and parsing of a JSON text. An answer of Turso over its size limit
  is a failed call, and the temporary directory of a restore, which it removes, is not among the files. The page and the
  totals of one query are read from one state of the mirror. The runs of the OAuth storage are made of its operations, without the
  transactions that fosite opens around several of them. Of the process: how a log line is formatted, socket options and timeouts of the
  HTTP servers, and the text of the tools' descriptions. A signal and a socket's failure are steps of the
  daemon. What \<open>VACUUM INTO\<close> writes is an argument.
\<close>

section \<open>From YNAB's budget to the answer a caller gets\<close>

text \<open>
  The tick's \<open>PlanAPI\<close> is the rate-limited client: every fetch asks the governor first and runs the
  library (the arguments \<open>lib_export\<close> and \<open>lib_delta\<close>) only when it may.
\<close>

definition client_api ::
    "(rat \<Rightarrow> rat) \<Rightarrow> time \<Rightarrow> ('d plan_detail option \<times> int64) lib_call \<Rightarrow> (int64 \<Rightarrow> ('d plan_detail option \<times> int64) lib_call) \<Rightarrow>
     client \<Rightarrow> 'd plan_api" where
  "client_api rnd t lib_export lib_delta cl =
     \<lparr>api_export = fst (Export rnd t lib_export cl), api_delta = (\<lambda>since. fst (Delta rnd t lib_delta since cl))\<rparr>"

lemma client_call_no_budget:
  assumes "fst (Allow rnd t write (cl_gov cl)) \<noteq> None"
  shows "\<exists>e. fst (client_call rnd t op write lib cl) = Inl e \<and> skippable e"
proof -
  obtain e g where a: "Allow rnd t write (cl_gov cl) = (Some e, g)"
    using assms by (cases "Allow rnd t write (cl_gov cl)") auto
  then have "err_is e = [ErrBudgetExhausted]" using Allow_refused by blast
  with a show ?thesis
    by (auto simp: client_call_def preflight_def wrap_def errors_Is_def skippable_def)
qed

lemma tick_no_budget:
  assumes "fst (Allow rnd t False (cl_gov cl)) \<noteq> None"
    and "SyncPlan dstr env (client_api rnd t lib_export lib_delta cl) plan c = (Inr res, c')"
  shows "tr_skipped res"
proof -
  obtain cur where "GetSyncState (cursor_fault (te_reads env)) (committed c) plan = Inr cur"
    using assms(2) by (cases "GetSyncState (cursor_fault (te_reads env)) (committed c) plan") (simp_all add: SyncPlan_def)
  moreover have "\<exists>e. (case cur of None \<Rightarrow> api_export (client_api rnd t lib_export lib_delta cl)
      | Some s \<Rightarrow> api_delta (client_api rnd t lib_export lib_delta cl) (ss_server_knowledge s)) = Inl e \<and> skippable e"
    using client_call_no_budget [OF assms(1)] by (cases cur) (simp_all add: client_api_def Export_def Delta_def)
  ultimately show ?thesis using assms(2) by (auto simp: SyncPlan_def Let_def skipped_tick_def)
qed

lemma readFreshness_synced:
  assumes "readFreshness zone staleAfter flt d plan now = Inr f" "GetSyncState None d plan = Inr (Some s)"
  shows "fr_last_synced_at f = formatRFC3339 (ss_synced_at s) \<and> (fr_stale f \<longleftrightarrow> staleAfter < time_Sub now (ss_synced_at s))"
proof -
  from assms(1) obtain st where "GetSyncState (ff_state flt) d plan = Inr st"
    by (auto simp: readFreshness_def split: sum.splits)
  with GetSyncState_Inr [OF this] assms show ?thesis
    by (auto simp: readFreshness_def Let_def split: sum.splits prod.splits)
qed

text \<open>
  C40: What a caller is told of the mirror's age is what the sync really did. A tick over the
  rate-limited client that applies its answer makes every later answer report that very sync as the
  last one, stale exactly when it is older than allowed; a tick that fails, or that has no request
  budget left, never makes old data look fresh: the answers are those of the mirror before it.
\<close>

theorem tick_governs_freshness:
  assumes "conn_idle c" and "storable (te_now env)"
    and "SyncPlan dstr env (client_api rnd t lib_export lib_delta cl) plan c = (r, c')"
  shows "case r of
      Inl e \<Rightarrow> readFreshness zone staleAfter flt (committed c') plan now = readFreshness zone staleAfter flt (committed c) plan now
    | Inr res \<Rightarrow>
        (fst (Allow rnd t False (cl_gov cl)) \<noteq> None \<longrightarrow> tr_skipped res) \<and>
        (if tr_skipped res
         then readFreshness zone staleAfter flt (committed c') plan now = readFreshness zone staleAfter flt (committed c) plan now
         else \<forall>f. readFreshness zone staleAfter flt (committed c') plan now = Inr f \<longrightarrow>
           fr_last_synced_at f = formatRFC3339 (te_now env) \<and>
           (fr_stale f \<longleftrightarrow> staleAfter < time_Sub now (te_now env)))"
proof -
  have budget: "tr_skipped res" if "r = Inr res" "fst (Allow rnd t False (cl_gov cl)) \<noteq> None" for res
    using tick_no_budget [OF that(2)] assms(3) that(1) by blast
  from assms(1,3) show ?thesis
  proof (cases rule: SyncPlan_exit)
    case unchanged
    then show ?thesis using budget by (auto split: sum.splits)
  next
    case (applied cur k b orphans events)
    let ?s = "\<lparr>ss_plan_id = plan, ss_server_knowledge = k, ss_synced_at = te_now env\<rparr>"
    have "GetSyncState None (committed c') plan = Inr (Some ?s)"
      using GetSyncState_put [of ?s] assms(2) by (simp add: applied(4) tick_state_def)
    from readFreshness_synced [OF _ this] budget applied(2) show ?thesis
      by (cases "fst (Allow rnd t False (cl_gov cl))") (auto simp: tick_done_def)
  qed
qed

definition ex_spent_client :: client where
  "ex_spent_client = \<lparr>cl_gov = \<lparr>gv_capacity = 200, gv_reserve = 20, gv_per_sec = 1 / 18, gv_tokens = 0, gv_last = 0\<rparr>,
     cl_red = \<lparr>rd_plan_id = ''p'', rd_token = ''t''\<rparr>\<rparr>"

lemma tick_governs_freshness_witness:
  "\<exists>res c'. SyncPlan (\<lambda>s. s) ex_env (client_api (\<lambda>x. x) 0 (\<lambda>w g. (Inr (Some ex_export, 7), g)) (\<lambda>_ w g. (Inr (None, 8), g)) ex_spent_client)
      ''p'' (fresh_conn empty_db) = (Inr res, c') \<and> tr_skipped res \<and>
    readFreshness (\<lambda>_. 0) 1800000000000 no_freshness_faults (committed c') ''p'' 0 =
      readFreshness (\<lambda>_. 0) 1800000000000 no_freshness_faults empty_db ''p'' 0"
proof -
  let ?export = "\<lambda>(w :: time \<Rightarrow> governor \<Rightarrow> error option \<times> governor) (g :: governor). (Inr (Some ex_export, 7 :: int64), g)"
  let ?delta = "\<lambda>(_ :: int64) (w :: time \<Rightarrow> governor \<Rightarrow> error option \<times> governor) (g :: governor). (Inr (None, 8 :: int64), g)"
  let ?api = "client_api (\<lambda>x. x) 0 ?export ?delta ex_spent_client"
  have no: "fst (Allow (\<lambda>x. x) 0 False (cl_gov ex_spent_client)) \<noteq> None" by code_simp
  obtain r c' where r: "SyncPlan (\<lambda>s. s) ex_env ?api ''p'' (fresh_conn empty_db) = (r, c')" by fastforce
  obtain e where "api_export ?api = Inl e" "skippable e"
    using client_call_no_budget [OF no] unfolding client_api_def Export_def by fastforce
  then obtain res where res: "r = Inr res"
    using r by (auto simp: SyncPlan_def GetSyncState_def empty_db_def ex_env_def no_read_faults_def)
  have "storable (te_now ex_env)" by (simp add: ex_env_def storable_0)
  from tick_governs_freshness [OF _ this r, of "\<lambda>_. 0" 1800000000000 no_freshness_faults 0] no res r
  show ?thesis by auto
qed

end
